(* ===== verification/Prelude.thy ===== *)
theory Prelude
  imports Main "HOL-Library.Sublist"
begin

text \<open>
  Shared vocabulary of the development: the parts of the Go language and of its standard
  library that the muthur sources use, as executable HOL functions, and the generic facts
  about them.

  \<^item> A Go \<open>string\<close> or \<open>[]byte\<close> is a sequence of bytes; HOL's \<open>string\<close> (a list of
    8-bit \<open>char\<close>s) is the same thing, so \<open>len(s)\<close> is \<open>length s\<close> and a non-ASCII literal
    is written as its UTF-8 bytes.
  \<^item> \<open>int\<close>, \<open>int64\<close> and \<open>time.Duration\<close> are \<open>int\<close>; where arithmetic can leave the 64-bit
    range the wrap-around is written out with \<open>wrap64\<close>.
  \<^item> \<open>time.Time\<close> is the number of nanoseconds since the Unix epoch; the zero
    \<open>time.Time{}\<close> (1 January of year 1) is the constant \<open>zero_time\<close>.
  \<^item> A \<open>(value, error)\<close> pair is a sum, \<open>Inl\<close> the error.
\<close>

named_theorems go_defs \<open>unfolding rules of the modelled standard-library functions\<close>

type_synonym bytes = string
type_synonym gotime = int
type_synonym duration = int

section \<open>Integers, durations and instants\<close>

definition wrap64 :: "int \<Rightarrow> int" where
  "wrap64 x = (x + 2 ^ 63) mod 2 ^ 64 - 2 ^ 63"

abbreviation max_int64 :: int where "max_int64 \<equiv> 2 ^ 63 - 1"
abbreviation min_int64 :: int where "min_int64 \<equiv> - (2 ^ 63)"

definition in_int64 :: "int \<Rightarrow> bool" where
  "in_int64 x \<longleftrightarrow> min_int64 \<le> x \<and> x \<le> max_int64"

abbreviation second :: duration where "second \<equiv> 1000000000"
abbreviation minute :: duration where "minute \<equiv> 60 * second"
abbreviation hour :: duration where "hour \<equiv> 60 * minute"

definition zero_time :: gotime where
  "zero_time = - 62135596800 * second"

text \<open>\<open>time.Unix(sec, 0)\<close> stores \<open>sec + 62135596800\<close> in an \<open>int64\<close>, so an extreme
  argument wraps.\<close>

definition time_unix :: "int \<Rightarrow> gotime" where
  "time_unix sec = (wrap64 (sec + 62135596800) - 62135596800) * second"

text \<open>\<open>t.Unix()\<close> is the floor of the instant in seconds.\<close>

definition unix_of :: "gotime \<Rightarrow> int" where
  "unix_of t = t div second"

text \<open>\<open>t.Sub(u)\<close> saturates at the ends of the \<open>Duration\<close> range.\<close>

definition time_sub :: "gotime \<Rightarrow> gotime \<Rightarrow> duration" where
  "time_sub t u = max min_int64 (min max_int64 (t - u))"

lemma wrap64_in_int64: "in_int64 (wrap64 x)"
  using pos_mod_bound [of "2 ^ 64" "x + 2 ^ 63"] pos_mod_sign [of "2 ^ 64" "x + 2 ^ 63"]
  by (auto simp: wrap64_def in_int64_def)

lemma wrap64_id [simp]: "in_int64 x \<Longrightarrow> wrap64 x = x"
  by (simp add: wrap64_def in_int64_def)

lemma wrap64_cong: "\<exists>k. wrap64 x = x + k * 2 ^ 64"
proof
  have "(x + 2 ^ 63) mod 2 ^ 64 = x + 2 ^ 63 - (x + 2 ^ 63) div 2 ^ 64 * 2 ^ 64"
    by (metis minus_div_mult_eq_mod)
  then show "wrap64 x = x + (- ((x + 2 ^ 63) div 2 ^ 64)) * 2 ^ 64"
    by (simp add: wrap64_def)
qed

section \<open>Strings\<close>

definition HasPrefix :: "string \<Rightarrow> string \<Rightarrow> bool" where
  "HasPrefix s p \<longleftrightarrow> take (length p) s = p"

definition HasSuffix :: "string \<Rightarrow> string \<Rightarrow> bool" where
  "HasSuffix s x \<longleftrightarrow> drop (length s - length x) s = x"

definition TrimPrefix :: "string \<Rightarrow> string \<Rightarrow> string" where
  "TrimPrefix s p = (if HasPrefix s p then drop (length p) s else s)"

definition TrimSuffix :: "string \<Rightarrow> string \<Rightarrow> string" where
  "TrimSuffix s x = (if HasSuffix s x then take (length s - length x) s else s)"

definition CutPrefix :: "string \<Rightarrow> string \<Rightarrow> string option" where
  "CutPrefix s p = (if HasPrefix s p then Some (drop (length p) s) else None)"

definition TrimLeft :: "string \<Rightarrow> string \<Rightarrow> string" where
  "TrimLeft s cutset = dropWhile (\<lambda>c. c \<in> set cutset) s"

definition TrimRight :: "string \<Rightarrow> string \<Rightarrow> string" where
  "TrimRight s cutset = rev (dropWhile (\<lambda>c. c \<in> set cutset) (rev s))"

definition Trim :: "string \<Rightarrow> string \<Rightarrow> string" where
  "Trim s cutset = TrimRight (TrimLeft s cutset) cutset"

text \<open>\<open>strings.Split\<close> and \<open>strings.Cut\<close> are used with one-byte separators only.\<close>

fun Split :: "string \<Rightarrow> char \<Rightarrow> string list" where
  "Split [] c = [[]]"
| "Split (x # xs) c =
     (if x = c then [] # Split xs c
      else (case Split xs c of [] \<Rightarrow> [[x]] | w # ws \<Rightarrow> (x # w) # ws))"

definition Cut :: "string \<Rightarrow> char \<Rightarrow> (string \<times> string) option" where
  "Cut s c =
     (if c \<in> set s
      then Some (takeWhile (\<lambda>x. x \<noteq> c) s, tl (dropWhile (\<lambda>x. x \<noteq> c) s)) else None)"

fun Join :: "string list \<Rightarrow> string \<Rightarrow> string" where
  "Join [] sep = []"
| "Join [x] sep = x"
| "Join (x # y # ys) sep = x @ sep @ Join (y # ys) sep"

fun Contains :: "string \<Rightarrow> string \<Rightarrow> bool" where
  "Contains [] sub \<longleftrightarrow> sub = []"
| "Contains (x # xs) sub \<longleftrightarrow> HasPrefix (x # xs) sub \<or> Contains xs sub"

text \<open>
  \<open>strings.TrimSpace\<close> removes leading and trailing \<open>unicode.IsSpace\<close> runes: the ASCII
  white space, U+0085, U+00A0, U+1680, U+2000 to U+200A, U+2028, U+2029, U+202F, U+205F and
  U+3000. \<open>space_seqs\<close> lists their UTF-8 encodings; stripping these byte sequences at either
  end is what decoding rune by rune does.
\<close>

definition space_seqs :: "string list" where
  "space_seqs =
     [[CHR 0x09], [CHR 0x0A], [CHR 0x0B], [CHR 0x0C], [CHR 0x0D], [CHR 0x20],
      [CHR 0xC2, CHR 0x85], [CHR 0xC2, CHR 0xA0],
      [CHR 0xE1, CHR 0x9A, CHR 0x80],
      [CHR 0xE2, CHR 0x80, CHR 0x80], [CHR 0xE2, CHR 0x80, CHR 0x81],
      [CHR 0xE2, CHR 0x80, CHR 0x82], [CHR 0xE2, CHR 0x80, CHR 0x83],
      [CHR 0xE2, CHR 0x80, CHR 0x84], [CHR 0xE2, CHR 0x80, CHR 0x85],
      [CHR 0xE2, CHR 0x80, CHR 0x86], [CHR 0xE2, CHR 0x80, CHR 0x87],
      [CHR 0xE2, CHR 0x80, CHR 0x88], [CHR 0xE2, CHR 0x80, CHR 0x89],
      [CHR 0xE2, CHR 0x80, CHR 0x8A], [CHR 0xE2, CHR 0x80, CHR 0xA8],
      [CHR 0xE2, CHR 0x80, CHR 0xA9], [CHR 0xE2, CHR 0x80, CHR 0xAF],
      [CHR 0xE2, CHR 0x81, CHR 0x9F], [CHR 0xE3, CHR 0x80, CHR 0x80]]"

fun strip_front :: "string list \<Rightarrow> nat \<Rightarrow> string \<Rightarrow> string" where
  "strip_front seqs 0 s = s"
| "strip_front seqs (Suc n) s =
     (case find (\<lambda>q. HasPrefix s q) seqs of
        None \<Rightarrow> s
      | Some q \<Rightarrow> strip_front seqs n (drop (length q) s))"

text \<open>Each round removes at least one byte, so \<open>length s\<close> rounds are enough.\<close>

definition TrimSpace :: "string \<Rightarrow> string" where
  "TrimSpace s =
     (let l = strip_front space_seqs (length s) s
      in rev (strip_front (map rev space_seqs) (length l) (rev l)))"

text \<open>
  \<open>strings.ToLower\<close>. The sources compare its result with ASCII text only. The ASCII letters
  are folded, and so are the two non-ASCII runes whose lower-case form is ASCII (U+212A KELVIN
  SIGN and U+0130); every other rune maps to a non-ASCII one and is left as it stands.
\<close>

definition lower_char :: "char \<Rightarrow> char" where
  "lower_char c =
     (if 65 \<le> (of_char c :: nat) \<and> (of_char c :: nat) \<le> 90 then char_of ((of_char c :: nat) + 32)
      else c)"

fun ToLower :: "string \<Rightarrow> string" where
  "ToLower [] = []"
| "ToLower (c # cs) =
     (if take 3 (c # cs) = [CHR 0xE2, CHR 0x84, CHR 0xAA] then CHR ''k'' # ToLower (drop 2 cs)
      else if take 2 (c # cs) = [CHR 0xC4, CHR 0xB0] then CHR ''i'' # ToLower (drop 1 cs)
      else lower_char c # ToLower cs)"

section \<open>Numbers as text\<close>

definition digit_char :: "nat \<Rightarrow> char" where
  "digit_char d = char_of (48 + d)"

definition is_digit :: "char \<Rightarrow> bool" where
  "is_digit c \<longleftrightarrow> 48 \<le> (of_char c :: nat) \<and> (of_char c :: nat) \<le> 57"

definition digit_val :: "char \<Rightarrow> nat" where
  "digit_val c = of_char c - 48"

fun show_nat :: "nat \<Rightarrow> string" where
  "show_nat n = (if n < 10 then [digit_char n] else show_nat (n div 10) @ [digit_char (n mod 10)])"

declare show_nat.simps [simp del]

text \<open>The \<open>%d\<close> verb.\<close>

definition show_int :: "int \<Rightarrow> string" where
  "show_int i = (if i < 0 then CHR ''-'' # show_nat (nat (- i)) else show_nat (nat i))"

definition digits_val :: "string \<Rightarrow> nat" where
  "digits_val s = foldl (\<lambda>a c. 10 * a + digit_val c) 0 s"

definition parse_digits :: "string \<Rightarrow> nat option" where
  "parse_digits s = (if s \<noteq> [] \<and> list_all is_digit s then Some (digits_val s) else None)"

text \<open>\<open>strconv.ParseInt(s, 10, 64)\<close>: an optional sign, decimal digits, and the value in range;
  \<open>None\<close> is the error.\<close>

definition ParseInt :: "string \<Rightarrow> int option" where
  "ParseInt s =
     (let (neg, body) = (case s of
          [] \<Rightarrow> (False, [])
        | c # cs \<Rightarrow> if c = CHR ''-'' then (True, cs)
                   else if c = CHR ''+'' then (False, cs) else (False, s))
      in case parse_digits body of
           None \<Rightarrow> None
         | Some n \<Rightarrow> (let v = (if neg then - int n else int n)
                     in if in_int64 v then Some v else None))"

definition hex_digit :: "nat \<Rightarrow> char" where
  "hex_digit d = (if d < 10 then char_of (48 + d) else char_of (87 + d))"

definition is_lower_hex :: "char \<Rightarrow> bool" where
  "is_lower_hex c \<longleftrightarrow> is_digit c \<or> 97 \<le> (of_char c :: nat) \<and> (of_char c :: nat) \<le> 102"

definition is_hex :: "char \<Rightarrow> bool" where
  "is_hex c \<longleftrightarrow> is_lower_hex c \<or> 65 \<le> (of_char c :: nat) \<and> (of_char c :: nat) \<le> 70"

text \<open>\<open>big.Int.Text(16)\<close> of a non-negative number.\<close>

fun show_hex :: "nat \<Rightarrow> string" where
  "show_hex n = (if n < 16 then [hex_digit n] else show_hex (n div 16) @ [hex_digit (n mod 16)])"

declare show_hex.simps [simp del]

text \<open>\<open>hex.EncodeToString\<close> and the \<open>%x\<close> verb on a byte array.\<close>

definition hex_encode :: "bytes \<Rightarrow> string" where
  "hex_encode bs =
     concat (map (\<lambda>b. [hex_digit (of_char b div 16), hex_digit (of_char b mod 16)]) bs)"

text \<open>Whether \<open>hex.DecodeString\<close> returns without an error.\<close>

definition hex_decodable :: "string \<Rightarrow> bool" where
  "hex_decodable s \<longleftrightarrow> even (length s) \<and> list_all is_hex s"

lemmas [go_defs] = HasPrefix_def HasSuffix_def TrimPrefix_def TrimSuffix_def CutPrefix_def
  TrimLeft_def TrimRight_def Trim_def Cut_def digit_char_def is_digit_def digit_val_def
  hex_digit_def is_lower_hex_def is_hex_def hex_decodable_def

section \<open>Facts about the text functions\<close>

lemma of_char_digit_char [simp]: "d < 10 \<Longrightarrow> (of_char (digit_char d) :: nat) = 48 + d"
  by (simp add: digit_char_def)

lemma is_digit_digit_char [simp]: "d < 10 \<Longrightarrow> is_digit (digit_char d)"
  by (simp add: is_digit_def)

lemma digit_val_digit_char [simp]: "d < 10 \<Longrightarrow> digit_val (digit_char d) = d"
  by (simp add: digit_val_def)

lemma show_nat_digits: "list_all is_digit (show_nat n)"
proof (induction n rule: show_nat.induct)
  case (1 n)
  then show ?case by (subst show_nat.simps) auto
qed

lemma show_nat_nonempty [simp]: "show_nat n \<noteq> []"
  by (subst show_nat.simps) simp

lemma digits_val_snoc: "digits_val (s @ [c]) = 10 * digits_val s + digit_val c"
  by (simp add: digits_val_def)

lemma digits_val_show_nat [simp]: "digits_val (show_nat n) = n"
proof (induction n rule: show_nat.induct)
  case (1 n)
  then show ?case
    by (subst show_nat.simps) (auto simp: digits_val_snoc digits_val_def)
qed

lemma parse_digits_show_nat [simp]: "parse_digits (show_nat n) = Some n"
  by (simp add: parse_digits_def show_nat_digits)

lemma show_nat_head: "\<exists>c cs. show_nat n = c # cs \<and> is_digit c"
  using show_nat_digits [of n] show_nat_nonempty [of n] by (cases "show_nat n") auto

lemma not_digit_sign [simp]: "\<not> is_digit CHR ''-''" "\<not> is_digit CHR ''+''"
  by (simp_all add: is_digit_def)

text \<open>Printing with \<open>%d\<close> and parsing with \<open>ParseInt\<close> are inverse on the 64-bit range.\<close>

lemma ParseInt_show_int: "in_int64 i \<Longrightarrow> ParseInt (show_int i) = Some i"
proof (cases "i < 0")
  case True
  assume "in_int64 i"
  with True show ?thesis by (simp add: ParseInt_def show_int_def)
next
  case False
  assume i: "in_int64 i"
  obtain c cs where h: "show_nat (nat i) = c # cs" "is_digit c"
    using show_nat_head by blast
  then have "c \<noteq> CHR ''-''" "c \<noteq> CHR ''+''" by auto
  moreover have "parse_digits (c # cs) = Some (nat i)"
    using h(1) by (metis parse_digits_show_nat)
  ultimately show ?thesis using False h i by (simp add: ParseInt_def show_int_def)
qed

lemma ParseInt_in_int64: "ParseInt s = Some i \<Longrightarrow> in_int64 i"
  by (auto simp: ParseInt_def Let_def split: prod.splits option.splits if_splits)

lemma of_char_hex_digit:
  "d < 16 \<Longrightarrow> (of_char (hex_digit d) :: nat) = (if d < 10 then 48 + d else 87 + d)"
  by (simp add: hex_digit_def)

lemma hex_digit_lower_hex: "d < 16 \<Longrightarrow> is_lower_hex (hex_digit d)"
  by (auto simp: is_lower_hex_def is_digit_def of_char_hex_digit)

lemma of_char_lt: "(of_char c :: nat) < 256"
  by simp

lemma of_char_div16: "(of_char (c :: char) :: nat) div 16 < 16"
  by (rule less_mult_imp_div_less) simp

lemma hex_encode_lower_hex: "list_all is_lower_hex (hex_encode bs)"
  by (induction bs) (auto simp: hex_encode_def hex_digit_lower_hex of_char_div16)

lemma length_hex_encode [simp]: "length (hex_encode bs) = 2 * length bs"
  by (induction bs) (auto simp: hex_encode_def)

lemma hex_digit_inj: "hex_digit a = hex_digit b \<Longrightarrow> a < 16 \<Longrightarrow> b < 16 \<Longrightarrow> a = b"
  by (drule arg_cong [where f = "of_char :: char \<Rightarrow> nat"])
    (auto simp: of_char_hex_digit split: if_splits)

lemma hex_encode_inj: "hex_encode xs = hex_encode ys \<Longrightarrow> xs = ys"
proof (induction xs arbitrary: ys)
  case Nil
  then show ?case by (cases ys) (auto simp: hex_encode_def)
next
  case (Cons x xs)
  then obtain y ys' where ys: "ys = y # ys'"
    by (cases ys) (auto simp: hex_encode_def)
  with Cons.prems have d: "hex_digit (of_char x div 16) = hex_digit (of_char y div 16)"
    "hex_digit (of_char x mod 16) = hex_digit (of_char y mod 16)"
    and rest: "hex_encode xs = hex_encode ys'"
    by (auto simp: hex_encode_def)
  have "(of_char x :: nat) div 16 = of_char y div 16" "(of_char x :: nat) mod 16 = of_char y mod 16"
    by (rule hex_digit_inj [OF d(1)]) (rule of_char_div16, rule of_char_div16,
        rule hex_digit_inj [OF d(2)], simp_all)
  then have "(of_char x :: nat) = of_char y"
    by (metis div_mult_mod_eq)
  then have "x = y" by (simp add: of_char_eq_iff)
  with Cons.IH [OF rest] ys show ?case by simp
qed

lemma Split_not_Nil [simp]: "Split s c \<noteq> []"
  by (induction s c rule: Split.induct) (auto split: list.splits)

lemma Split_no_sep: "c \<notin> set s \<Longrightarrow> Split s c = [s]"
  by (induction s c rule: Split.induct) auto

lemma Split_append_sep: "c \<notin> set s \<Longrightarrow> Split (s @ c # t) c = s # Split t c"
  by (induction s) (auto split: list.splits)

lemma Split_elems: "w \<in> set (Split s c) \<Longrightarrow> c \<notin> set w"
  by (induction s c arbitrary: w rule: Split.induct) (auto split: if_splits list.splits)

text \<open>Two byte strings split at the same separator are equal part by part when the left
  parts do not contain it: the reason the key formats of the sources are unambiguous.\<close>

lemma sep_cancel_left:
  assumes "a @ c # b = a' @ c # b'" and "c \<notin> set a" and "c \<notin> set a'"
  shows "a = a' \<and> b = b'"
proof -
  have "takeWhile (\<lambda>x. x \<noteq> c) (a @ c # b) = a" "takeWhile (\<lambda>x. x \<noteq> c) (a' @ c # b') = a'"
    using assms(2,3) by (auto simp: takeWhile_append)
  with assms(1) show ?thesis by simp
qed

lemma sep_cancel_right:
  assumes "a @ c # b = a' @ c # b'" and "c \<notin> set b" and "c \<notin> set b'"
  shows "a = a' \<and> b = b'"
proof -
  have "rev b @ c # rev a = rev b' @ c # rev a'"
    using arg_cong [OF assms(1), of rev] by simp
  from sep_cancel_left [OF this] assms(2,3) show ?thesis by simp
qed

lemma Split_append_two: "c \<notin> set a \<Longrightarrow> c \<notin> set b \<Longrightarrow> Split (a @ c # b) c = [a, b]"
  by (simp add: Split_append_sep Split_no_sep)

lemma dropWhile_id: "xs \<noteq> [] \<Longrightarrow> \<not> P (hd xs) \<Longrightarrow> dropWhile P xs = xs"
  by (cases xs) auto

text \<open>Trimming a one-byte cutset leaves a text that neither starts nor ends with it alone.\<close>

lemma Trim_slash_id:
  "a \<noteq> [] \<Longrightarrow> b \<noteq> [] \<Longrightarrow> c \<notin> set a \<Longrightarrow> c \<notin> set b \<Longrightarrow> Trim (c # a @ c # b) [c] = a @ c # b"
  by (cases a; cases b rule: rev_cases)
    (auto simp: Trim_def TrimLeft_def TrimRight_def dropWhile_append)

lemma not_lower_hex [simp]: "\<not> is_lower_hex CHR '':''" "\<not> is_lower_hex CHR ''r''"
  "\<not> is_lower_hex CHR ''/''" "\<not> is_hex CHR '':''"
  by (simp_all add: is_lower_hex_def is_hex_def is_digit_def)

lemma HasPrefix_iff: "HasPrefix s p \<longleftrightarrow> (\<exists>z. s = p @ z)"
proof
  assume "HasPrefix s p"
  then have "s = p @ drop (length p) s" by (metis HasPrefix_def append_take_drop_id)
  then show "\<exists>z. s = p @ z" ..
qed (auto simp: HasPrefix_def)

section \<open>Step relations\<close>

text \<open>A step relation and a property its steps keep: every run keeps it.\<close>

locale step_system =
  fixes step :: "'a \<Rightarrow> 'a \<Rightarrow> bool"
    and good :: "'a \<Rightarrow> bool"
  assumes step_good: "step s s' \<Longrightarrow> good s \<Longrightarrow> good s'"
begin

lemma run_good: "step\<^sup>*\<^sup>* s s' \<Longrightarrow> good s \<Longrightarrow> good s'"
  by (induction rule: rtranclp_induct) (auto intro: step_good)

end

end
