(* ===== verification/Messages.thy ===== *)
theory Messages
  imports Complex_Main Prelude
begin

text \<open>
  The data every component exchanges: the protobuf messages of \<open>proto/alert.proto\<close> (as the
  generated structs of \<open>proto/alert.pb.go\<close>), the analysis verdict of
  \<open>internal/evaluator/types.go\<close>, the shared alert identifier of \<open>internal/alertkey\<close> and the
  Prometheus counters of \<open>internal/metrics\<close>.

  Counters are write-only: the operations that increment one return the list of increments
  they make. Hashing is \<open>crypto/sha256\<close>, a parameter \<open>sha256\<close> of every definition that
  uses it.
\<close>

section \<open>Messages\<close>

text \<open>A \<open>float64\<close>. \<open>Finite r\<close> is the number \<open>r\<close>; the sign of a zero is not kept.\<close>

datatype float64 = NaN | PosInf | NegInf | Finite rat

record DataPoint =
  Timestamp :: int
  Value :: float64

record MetricSeries =
  MetricName :: string
  MS_Description :: string
  Unit :: string
  Points :: "DataPoint list"

record PodMeta =
  PM_PodName :: string
  MemoryLimit :: string
  MemoryRequest :: string
  CpuLimit :: string
  CpuRequest :: string
  NodeName :: string
  RestartCount :: int
  Phase :: string

record Label =
  L_Name :: string
  L_Value :: string

record KubernetesEvent =
  E_Type :: string
  Reason :: string
  E_Message :: string
  FirstTimestamp :: int
  LastTimestamp :: int
  E_Count :: int
  InvolvedObjectName :: string

record AlertTarget =
  TargetType :: string
  T_PodName :: string
  Deployment :: string
  Daemonset :: string
  Node :: string
  Pvc :: string
  T_Namespace :: string
  ResolvedPods :: "string list"

text \<open>
  The code handles alerts as pointers and compares them as pointers (\<open>a != rep\<close>). The field
  \<open>ptr\<close> stands for the address of the message: pointer comparison is comparison of \<open>ptr\<close>.
\<close>

record AlertPayload =
  ptr :: nat
  ClusterId :: string
  AlertName :: string
  Severity :: string
  Namespace :: string
  PodName :: string
  FiredAt :: int
  Summary :: string
  Description :: string
  Target :: "AlertTarget option"
  RedactedLogs :: "string list"
  Metrics :: "MetricSeries list"
  PodMetas :: "PodMeta list"
  Labels :: "Label list"
  TotalLogLines :: int
  RedactedLogLines :: int
  TotalReplacements :: int
  Status :: string
  GrafanaBaseUrl :: string
  Events :: "KubernetesEvent list"

text \<open>The zero message \<open>AlertPayload{}\<close>, from which examples are built, and the alert the
  examples use.\<close>

definition zero_payload :: AlertPayload where
  "zero_payload = \<lparr>ptr = 0, ClusterId = [], AlertName = [], Severity = [], Namespace = [],
     PodName = [], FiredAt = 0, Summary = [], Description = [], Target = None, RedactedLogs = [],
     Metrics = [], PodMetas = [], Labels = [], TotalLogLines = 0, RedactedLogLines = 0,
     TotalReplacements = 0, Status = [], GrafanaBaseUrl = [], Events = []\<rparr>"

definition demo_alert :: AlertPayload where
  "demo_alert = zero_payload\<lparr>ClusterId := ''c1'', AlertName := ''PodDown'',
     Severity := ''warning'', Namespace := ''web'', PodName := ''p1'', FiredAt := 7,
     Status := ''firing''\<rparr>"

text \<open>A 32-byte stand-in for the digest function, for closed examples.\<close>

definition pad32 :: "bytes \<Rightarrow> bytes" where
  "pad32 b = take 32 (b @ replicate 32 CHR 0x00)"

record Analysis =
  A_Severity :: string
  RootCause :: string
  Evidence :: string
  Action :: string
  Confidence :: string
  Grounding :: string
  Silence :: bool
  SilenceReason :: string

record Example =
  Ex_AlertName :: string
  Verdict :: string
  Ex_Analysis :: "Analysis option"

section \<open>Counters\<close>

datatype metric =
    AlertsReceived string string
  | AlertsDeduped string
  | CacheLookups string
  | LLMThrottled string string
  | Silences string
  | Notifications string string
  | Incidents string
  | Feedback string
  | IncidentsRecorded
  | LLMCalls string string string string
  | LLMTokens string string string string int
  | LLMValidationFailures string string string
  | LLMRetries string string string
  | LLMDegraded string string string

definition IncidentSizeBucket :: "int \<Rightarrow> string" where
  "IncidentSizeBucket n = (if n \<le> 1 then ''1'' else if n \<le> 5 then ''2-5'' else ''6+'')"

section \<open>Alert identity\<close>

text \<open>The two key formats, \<open>%s|%s|%s|%s\<close> and \<open>%s|%s|%s|%s|%d\<close>.\<close>

definition raw_key :: "AlertPayload \<Rightarrow> string" where
  "raw_key p = ClusterId p @ ''|'' @ AlertName p @ ''|'' @ Namespace p @ ''|'' @ PodName p"

definition raw_episode_key :: "AlertPayload \<Rightarrow> string" where
  "raw_episode_key p = raw_key p @ ''|'' @ show_int (FiredAt p)"

definition alertkey_ID :: "(bytes \<Rightarrow> bytes) \<Rightarrow> AlertPayload \<Rightarrow> string" where
  "alertkey_ID sha256 p = take 16 (hex_encode (sha256 (raw_episode_key p)))"

text \<open>The fields the four-part key is built from, and the payloads for which the separator
  is unambiguous.\<close>

definition identity_fields :: "AlertPayload \<Rightarrow> string \<times> string \<times> string \<times> string" where
  "identity_fields p = (ClusterId p, AlertName p, Namespace p, PodName p)"

definition pipe_free :: "AlertPayload \<Rightarrow> bool" where
  "pipe_free p \<longleftrightarrow> CHR ''|'' \<notin> set (ClusterId p) \<and> CHR ''|'' \<notin> set (AlertName p) \<and>
     CHR ''|'' \<notin> set (Namespace p) \<and> CHR ''|'' \<notin> set (PodName p)"

lemma raw_key_inj:
  assumes "raw_key p = raw_key q" and "pipe_free p" and "pipe_free q"
  shows "identity_fields p = identity_fields q"
proof -
  have "ClusterId p @ CHR ''|'' # AlertName p @ CHR ''|'' # Namespace p @ CHR ''|'' # PodName p =
        ClusterId q @ CHR ''|'' # AlertName q @ CHR ''|'' # Namespace q @ CHR ''|'' # PodName q"
    using assms(1) by (simp add: raw_key_def)
  then show ?thesis
    using assms(2,3) unfolding pipe_free_def identity_fields_def
    by (auto dest!: sep_cancel_left)
qed

lemma show_int_chars: "c \<in> set (show_int i) \<Longrightarrow> is_digit c \<or> c = CHR ''-''"
  using show_nat_digits [of "nat i"] show_nat_digits [of "nat (- i)"]
  by (auto simp: show_int_def list_all_iff split: if_splits)

lemma show_int_no_pipe: "CHR ''|'' \<notin> set (show_int i)"
  by (auto dest!: show_int_chars simp: is_digit_def)

lemma show_nat_inj: "show_nat m = show_nat n \<Longrightarrow> m = n"
  by (metis digits_val_show_nat)

lemma show_int_inj:
  assumes "show_int i = show_int j" shows "i = j"
proof -
  have neg: "CHR ''-'' # cs \<noteq> show_nat n" "show_nat n \<noteq> CHR ''-'' # cs" for n cs
    using show_nat_head [of n] by auto
  have "(i < 0) = (j < 0)"
    using assms by (auto simp: show_int_def neg split: if_splits)
  then show ?thesis
    using assms by (auto simp: show_int_def dest!: show_nat_inj split: if_splits)
qed

lemma raw_episode_key_inj:
  assumes "raw_episode_key p = raw_episode_key q" and "pipe_free p" and "pipe_free q"
  shows "identity_fields p = identity_fields q \<and> FiredAt p = FiredAt q"
proof -
  have "raw_key p @ CHR ''|'' # show_int (FiredAt p) = raw_key q @ CHR ''|'' # show_int (FiredAt q)"
    using assms(1) by (simp add: raw_episode_key_def)
  from sep_cancel_right [OF this show_int_no_pipe show_int_no_pipe]
  have "raw_key p = raw_key q" "show_int (FiredAt p) = show_int (FiredAt q)" by auto
  with assms(2,3) show ?thesis by (auto dest: raw_key_inj show_int_inj)
qed

end
