(* ===== verification/Identity.thy ===== *)
theory Identity
  imports Messages
begin

text \<open>
  \<open>internal/auth/identity.go\<close>: the caller's identity from a verified client certificate.
  The certificate is the part of \<open>x509.Certificate\<close> the sources read; parsing DER is
  \<open>crypto/x509\<close> and stays outside.
\<close>

record URL =
  Scheme :: string
  Host :: string
  Path :: string

datatype PublicKeyKind = ECDSA_P256 | ECDSA_Other | RSA_Key | Ed25519_Key | Unsupported_Key

record Certificate =
  URIs :: "URL list"
  CommonName :: string
  SerialNumber :: nat
  NotBefore :: gotime
  NotAfter :: gotime
  IsCA :: bool
  KeyKind :: PublicKeyKind
  PublicKey :: bytes
  Raw :: bytes

record Identity =
  TenantID :: string
  ClusterID :: string
  Id_NotAfter :: gotime
  Id_Serial :: string

datatype auth_error = ErrNoIdentity | ErrMalformedSAN

definition Identity_String :: "Identity \<Rightarrow> string" where
  "Identity_String i = (if TenantID i = [] then ClusterID i else TenantID i @ ''/'' @ ClusterID i)"

definition spiffeScheme :: string where "spiffeScheme = ''spiffe''"
definition spiffeHost :: string where "spiffeHost = ''muthur''"

definition parseSpiffePath :: "URL \<Rightarrow> auth_error + string \<times> string" where
  "parseSpiffePath u =
     (if Host u \<noteq> spiffeHost then Inl ErrMalformedSAN
      else case Split (Trim (Path u) ''/'') CHR ''/'' of
             [tenant, cluster] \<Rightarrow>
               if tenant = [] \<or> cluster = [] then Inl ErrMalformedSAN else Inr (tenant, cluster)
           | _ \<Rightarrow> Inl ErrMalformedSAN)"

text \<open>The loop over \<open>cert.URIs\<close> skips other schemes and stops at the first SPIFFE URI: it is
  the first element with that scheme that decides.\<close>

definition ExtractFromCert :: "Certificate option \<Rightarrow> auth_error + Identity" where
  "ExtractFromCert cert =
     (case cert of
        None \<Rightarrow> Inl ErrNoIdentity
      | Some c \<Rightarrow>
          let base = \<lparr>TenantID = [], ClusterID = [], Id_NotAfter = NotAfter c,
                      Id_Serial = ToLower (show_hex (SerialNumber c))\<rparr>;
              finish = (\<lambda>i. let i' = (if ClusterID i = []
                                     then i\<lparr>ClusterID := TrimSpace (CommonName c)\<rparr> else i)
                            in if ClusterID i' = [] then Inl ErrNoIdentity else Inr i')
          in case find (\<lambda>u. Scheme u = spiffeScheme) (URIs c) of
               None \<Rightarrow> finish base
             | Some u \<Rightarrow>
                 (case parseSpiffePath u of
                    Inl e \<Rightarrow> Inl e
                  | Inr (t, k) \<Rightarrow> finish (base\<lparr>TenantID := t, ClusterID := k\<rparr>)))"

section \<open>Facts\<close>

lemma parseSpiffePath_sound:
  assumes "parseSpiffePath u = Inr (t, k)"
  shows "t \<noteq> [] \<and> k \<noteq> [] \<and> CHR ''/'' \<notin> set t \<and> CHR ''/'' \<notin> set k"
proof -
  from assms have "Split (Trim (Path u) ''/'') CHR ''/'' = [t, k]" and "t \<noteq> [] \<and> k \<noteq> []"
    by (auto simp: parseSpiffePath_def split: if_splits list.splits)
  then show ?thesis
    using Split_elems [of t "Trim (Path u) ''/''" "CHR ''/''"]
      Split_elems [of k "Trim (Path u) ''/''" "CHR ''/''"] by simp
qed

lemma parseSpiffePath_complete:
  assumes "t \<noteq> []" "k \<noteq> []" "CHR ''/'' \<notin> set t" "CHR ''/'' \<notin> set k"
  shows "parseSpiffePath \<lparr>Scheme = sch, Host = spiffeHost, Path = ''/'' @ t @ ''/'' @ k\<rparr> = Inr (t, k)"
  using assms Trim_slash_id [of t k "CHR ''/''"]
  by (simp add: parseSpiffePath_def Split_append_two)

lemma ExtractFromCert_cluster_nonempty:
  "ExtractFromCert c = Inr i \<Longrightarrow> ClusterID i \<noteq> []"
  by (auto simp: ExtractFromCert_def Let_def split: option.splits sum.splits prod.splits if_splits)

text \<open>A tenant is present only when it came from a SPIFFE URI, and then both parts are
  non-empty and contain no slash.\<close>

definition well_formed_id :: "Identity \<Rightarrow> bool" where
  "well_formed_id i \<longleftrightarrow> ClusterID i \<noteq> [] \<and>
     (TenantID i \<noteq> [] \<longrightarrow> CHR ''/'' \<notin> set (TenantID i) \<and> CHR ''/'' \<notin> set (ClusterID i))"

lemma ExtractFromCert_well_formed:
  assumes "ExtractFromCert c = Inr i"
  shows "well_formed_id i"
proof -
  have "TenantID i \<noteq> [] \<Longrightarrow> \<exists>u. parseSpiffePath u = Inr (TenantID i, ClusterID i)"
    using assms
    by (auto simp: ExtractFromCert_def Let_def dest: parseSpiffePath_sound
        split: option.splits sum.splits prod.splits if_splits)
  then show ?thesis
    using ExtractFromCert_cluster_nonempty [OF assms] parseSpiffePath_sound
    by (auto simp: well_formed_id_def)
qed

lemma Identity_String_inj:
  assumes "Identity_String i = Identity_String j" and "well_formed_id i" "well_formed_id j"
    and "TenantID i \<noteq> []" "TenantID j \<noteq> []"
  shows "TenantID i = TenantID j \<and> ClusterID i = ClusterID j"
proof -
  have "TenantID i @ CHR ''/'' # ClusterID i = TenantID j @ CHR ''/'' # ClusterID j"
    using assms(1,4,5) by (simp add: Identity_String_def)
  then show ?thesis
    using assms by (intro sep_cancel_left) (auto simp: well_formed_id_def)
qed

end
