(* ===== verification/Float64.thy ===== *)
theory Float64
  imports Complex_Main "HOL-Library.Log_Nat"
begin

text \<open>
  IEEE 754 double-precision rounding on rationals: round to nearest, ties to even, with a
  53-bit significand. Every arithmetic operation of Go's \<open>float64\<close> is the exact operation
  followed by \<open>round64\<close>. The exponent range is not bounded here: the sources compute with
  token counts, seconds and call rates, which stay between \<open>2 ^ -64\<close> and \<open>2 ^ 128\<close>, far
  from the subnormal and the overflow range.
\<close>

section \<open>Definitions\<close>

text \<open>The binary exponent of a positive rational: \<open>2 powi e \<le> x < 2 powi (e + 1)\<close>. The bit
  lengths of numerator and denominator give it up to one.\<close>

definition expo :: "rat \<Rightarrow> int" where
  "expo x = (let (a, b) = quotient_of x;
                 k = bitlen a - bitlen b
             in if x < 2 powi k then k - 1 else k)"

definition round_even :: "rat \<Rightarrow> int" where
  "round_even r = (let f = \<lfloor>r\<rfloor>; d = r - of_int f
                   in if d < 1 / 2 then f else if 1 / 2 < d then f + 1
                      else if even f then f else f + 1)"

definition round_pos :: "rat \<Rightarrow> rat" where
  "round_pos x = (let k = expo x - 52 in of_int (round_even (x / 2 powi k)) * 2 powi k)"

definition round64 :: "rat \<Rightarrow> rat" where
  "round64 x = (if x = 0 then 0 else if x < 0 then - round_pos (- x) else round_pos x)"

section \<open>The exponent\<close>

lemma bitlen_powi: "0 < a \<Longrightarrow> 2 powi (bitlen a - 1) \<le> (of_int a :: rat) \<and> (of_int a :: rat) < 2 powi bitlen a"
proof -
  assume a: "0 < a"
  then have "1 \<le> bitlen a" by (auto simp: bitlen_alt_def)
  moreover have "(2::rat) ^ nat (bitlen a - 1) \<le> of_int a" "of_int a < (2::rat) ^ nat (bitlen a)"
    using bitlen_bounds [OF a] of_int_le_iff [of "2 ^ nat (bitlen a - 1)" a, where ?'a = rat]
      of_int_less_iff [of a "2 ^ nat (bitlen a)", where ?'a = rat] by simp_all
  ultimately show ?thesis by (simp add: power_int_def)
qed

lemma expo_bounds:
  assumes "0 < x" shows "2 powi expo x \<le> x \<and> x < 2 powi (expo x + 1)"
proof -
  obtain a b where q: "quotient_of x = (a, b)" by fastforce
  then have b: "0 < b" and x: "x = of_int a / of_int b"
    using quotient_of_denom_pos quotient_of_div by blast+
  with assms have a: "0 < a" by (simp add: zero_less_divide_iff)
  let ?A = "bitlen a" and ?B = "bitlen b"
  note A = bitlen_powi [OF a] and B = bitlen_powi [OF b]
  have "(2::rat) powi (?A - 1 - ?B) = 2 powi (?A - 1) / 2 powi ?B"
    by (simp add: power_int_diff)
  also have "\<dots> \<le> x"
    unfolding x using A B a b by (intro frac_le) auto
  finally have lo: "2 powi (?A - 1 - ?B) \<le> x" .
  have "x < 2 powi ?A / 2 powi (?B - 1)"
    unfolding x using A B a by (intro frac_less) auto
  also have "\<dots> = 2 powi (?A - ?B + 1)"
    by (simp add: power_int_diff power_int_add)
  finally have hi: "x < 2 powi (?A - ?B + 1)" .
  show ?thesis
    using lo hi by (auto simp: expo_def q Let_def algebra_simps)
qed

lemma powi_le_iff: "(2::rat) powi i \<le> 2 powi j \<longleftrightarrow> i \<le> j"
  by (metis linorder_not_le one_less_numeral_iff order_less_le power_int_strict_increasing
      power_int_increasing semiring_norm(76) one_le_numeral)

lemma powi_less_iff: "(2::rat) powi i < 2 powi j \<longleftrightarrow> i < j"
  by (simp add: linorder_not_le [symmetric] powi_le_iff)

lemma expo_less: "0 < x \<Longrightarrow> x < 2 powi k \<Longrightarrow> expo x < k"
  by (meson expo_bounds le_less_trans powi_less_iff)

lemma expo_ge: "0 < x \<Longrightarrow> 2 powi k \<le> x \<Longrightarrow> k \<le> expo x"
proof -
  assume "0 < x" "2 powi k \<le> x"
  then have "(2::rat) powi k < 2 powi (expo x + 1)" using expo_bounds [of x] by linarith
  then show ?thesis by (simp add: powi_less_iff)
qed

lemma expo_mono: "0 < x \<Longrightarrow> x \<le> y \<Longrightarrow> expo x \<le> expo y"
  using expo_bounds [of x] expo_ge [of y "expo x"] by linarith

section \<open>Rounding\<close>

lemma round_even_of_int [simp]: "round_even (of_int i) = i"
  by (simp add: round_even_def)

lemma round_even_floor: "\<lfloor>r\<rfloor> \<le> round_even r \<and> round_even r \<le> \<lfloor>r\<rfloor> + 1"
  by (simp add: round_even_def Let_def)

lemma round_even_mono: "r \<le> s \<Longrightarrow> round_even r \<le> round_even s"
proof (cases "\<lfloor>r\<rfloor> = \<lfloor>s\<rfloor>")
  case True
  assume "r \<le> s"
  with True show ?thesis by (simp add: round_even_def Let_def)
next
  case False
  assume "r \<le> s"
  with False have "\<lfloor>r\<rfloor> + 1 \<le> \<lfloor>s\<rfloor>" using floor_mono [of r s] by linarith
  with round_even_floor [of r] round_even_floor [of s] show ?thesis by linarith
qed

lemma round_even_error: "\<bar>of_int (round_even r) - r\<bar> \<le> 1 / 2"
proof -
  have "of_int \<lfloor>r\<rfloor> \<le> r" "r < of_int \<lfloor>r\<rfloor> + 1" by linarith+
  then show ?thesis by (simp add: round_even_def Let_def abs_le_iff)
qed

lemma round_even_between: "of_int i \<le> r \<Longrightarrow> r \<le> of_int j \<Longrightarrow> i \<le> round_even r \<and> round_even r \<le> j"
  using round_even_mono [of "of_int i" r] round_even_mono [of r "of_int j"] by simp

lemma round_pos_scaled:
  assumes "0 < x" shows "2 powi expo x \<le> round_pos x \<and> round_pos x \<le> 2 powi (expo x + 1)"
proof -
  let ?k = "expo x - 52" let ?p = "(2::rat) powi ?k"
  have e: "2 powi expo x = of_int (2 ^ 52) * ?p" "2 powi (expo x + 1) = of_int (2 ^ 53) * ?p"
    using power_int_add [of "2::rat" ?k 52] power_int_add [of "2::rat" ?k 53] by (simp_all add: algebra_simps)
  then have "of_int (2 ^ 52) \<le> x / ?p" "x / ?p \<le> of_int (2 ^ 53)"
    using expo_bounds [OF assms] by (simp_all add: field_simps)
  then have "2 ^ 52 \<le> round_even (x / ?p) \<and> round_even (x / ?p) \<le> 2 ^ 53"
    by (rule round_even_between)
  then have "(of_int (2 ^ 52) :: rat) \<le> of_int (round_even (x / ?p)) \<and>
      of_int (round_even (x / ?p)) \<le> (of_int (2 ^ 53) :: rat)"
    by (simp only: of_int_le_iff)
  then show ?thesis
    unfolding e round_pos_def Let_def by (intro conjI mult_right_mono) auto
qed

lemma round_pos_mono: "0 < x \<Longrightarrow> x \<le> y \<Longrightarrow> round_pos x \<le> round_pos y"
proof (cases "expo x = expo y")
  case True
  assume "0 < x" "x \<le> y"
  then show ?thesis
    unfolding round_pos_def Let_def True
    by (intro mult_right_mono of_int_le_iff [THEN iffD2] round_even_mono divide_right_mono) auto
next
  case False
  assume "0 < x" "x \<le> y"
  with False have "expo x + 1 \<le> expo y" using expo_mono [of x y] by simp
  then have "(2::rat) powi (expo x + 1) \<le> 2 powi expo y" by (simp add: powi_le_iff)
  with round_pos_scaled [of x] round_pos_scaled [of y] \<open>0 < x\<close> \<open>x \<le> y\<close> show ?thesis by linarith
qed

lemma round_pos_positive: "0 < x \<Longrightarrow> 0 < round_pos x"
  using round_pos_scaled [of x] zero_less_power_int [of "2::rat" "expo x"] by linarith

lemma round64_0 [simp]: "round64 0 = 0"
  by (simp add: round64_def)

theorem round64_mono: "x \<le> y \<Longrightarrow> round64 x \<le> round64 y"
  using round_pos_mono [of x y] round_pos_mono [of "- y" "- x"] round_pos_positive [of y]
    round_pos_positive [of "- x"]
  by (auto simp: round64_def)

lemma round64_nonneg: "0 \<le> x \<Longrightarrow> 0 \<le> round64 x"
  using round64_mono [of 0 x] by simp

text \<open>Numbers with at most 53 significant bits are not changed.\<close>

lemma round_pos_exact:
  assumes "0 < m" "m < 2 ^ 53" "x = of_int m * 2 powi k" shows "round_pos x = x"
proof -
  have pos: "0 < x" using assms by simp
  have "(of_int m :: rat) < of_int (2 ^ 53)" using assms(2) by (simp only: of_int_less_iff)
  then have "x < 2 powi (53 + k)" by (simp add: assms(3) power_int_add)
  then have "expo x < 53 + k" by (rule expo_less [OF pos])
  define d where "d = nat (k - (expo x - 52))"
  with \<open>expo x < 53 + k\<close> have d: "k = expo x - 52 + int d" by simp
  define e where "e = expo x - 52"
  have x: "x = of_int (m * 2 ^ d) * 2 powi e"
    using assms(3) by (simp add: d e_def [symmetric] power_int_add)
  then have "x / 2 powi e = of_int (m * 2 ^ d)" by simp
  then show ?thesis
    using x unfolding round_pos_def Let_def e_def [symmetric] by (simp only: round_even_of_int)
qed

lemma round64_exact: "\<bar>m\<bar> < 2 ^ 53 \<Longrightarrow> round64 (of_int m * 2 powi k) = of_int m * 2 powi k"
  using round_pos_exact [of m _ k] round_pos_exact [of "- m" _ k] zero_less_power_int [of "2::rat" k]
  by (cases m "0::int" rule: linorder_cases)
    (auto simp: round64_def mult_less_0_iff dest: order.asym)

lemma round64_of_int [simp]: "\<bar>m\<bar> < 2 ^ 53 \<Longrightarrow> round64 (of_int m) = of_int m"
  using round64_exact [of m 0] by simp

lemma round64_1 [simp]: "round64 1 = 1"
  using round64_of_int [of 1] by simp

lemma round64_idem_pos: "0 < x \<Longrightarrow> round64 (round64 x) = round64 x"
proof -
  assume x: "0 < x"
  let ?m = "round_even (x / 2 powi (expo x - 52))"
  have r: "round64 x = of_int ?m * 2 powi (expo x - 52)"
    using x by (simp add: round64_def round_pos_def Let_def)
  have s: "2 powi expo x \<le> round64 x" "round64 x \<le> 2 powi (expo x + 1)"
    using round_pos_scaled [OF x] x by (simp_all add: round64_def)
  show ?thesis
  proof (cases "round64 x = 2 powi (expo x + 1)")
    case True
    then show ?thesis using round64_exact [of 1 "expo x + 1"] by simp
  next
    case False
    then have "round64 x < 2 powi (expo x - 52 + 53)"
      using s(2) by (simp add: algebra_simps)
    then have "of_int ?m * 2 powi (expo x - 52) < (2::rat) powi (expo x - 52) * 2 powi 53"
      unfolding r using power_int_add [of "2::rat" "expo x - 52" 53] by simp
    then have "(of_int ?m :: rat) < of_int (2 ^ 53)" by (simp add: mult.commute)
    then have "?m < 2 ^ 53" by (simp only: of_int_less_iff)
    moreover have "0 < ?m"
      using s(1) r x by (metis less_le_trans of_int_0_less_iff zero_less_mult_pos2 zero_less_numeral zero_less_power_int)
    ultimately show ?thesis unfolding r by (intro round64_exact) simp
  qed
qed

lemma round64_idem [simp]: "round64 (round64 x) = round64 x"
proof -
  have neg: "round64 (- y) = - round64 y" for y
    by (simp add: round64_def)
  show ?thesis
    using round64_idem_pos [of x] round64_idem_pos [of "- x"] neg
    by (cases x "0::rat" rule: linorder_cases) (auto simp: neg)
qed

text \<open>The relative error of one operation is at most half a unit in the last place.\<close>

theorem round64_error: "0 \<le> x \<Longrightarrow> \<bar>round64 x - x\<bar> \<le> x / 2 ^ 53"
proof (cases "x = 0")
  case False
  assume "0 \<le> x"
  with False have x: "0 < x" by simp
  let ?p = "(2::rat) powi (expo x - 52)"
  have "\<bar>of_int (round_even (x / ?p)) - x / ?p\<bar> * ?p \<le> 1 / 2 * ?p"
    by (intro mult_right_mono round_even_error) auto
  moreover have "\<bar>of_int (round_even (x / ?p)) - x / ?p\<bar> * ?p = \<bar>round64 x - x\<bar>"
  proof -
    have "\<bar>of_int (round_even (x / ?p)) - x / ?p\<bar> * ?p =
        \<bar>(of_int (round_even (x / ?p)) - x / ?p) * ?p\<bar>" by (simp add: abs_mult)
    also have "\<dots> = \<bar>round64 x - x\<bar>"
      using x by (simp add: round64_def round_pos_def Let_def left_diff_distrib)
    finally show ?thesis .
  qed
  moreover have "?p * 2 ^ 52 \<le> x"
    using expo_bounds [OF x] power_int_add [of "2::rat" "expo x - 52" 52] by simp
  ultimately show ?thesis by (simp add: field_simps)
qed simp

end
