(* ===== verification/Durations.thy ===== *)
theory Durations
  imports Prelude Float64
begin

text \<open>
  \<open>time.ParseDuration\<close> as the configuration uses it, on \<open>uint64\<close> and \<open>float64\<close> arithmetic:
  an optional sign, then numbers with an optional fraction, each followed by a unit.
\<close>

definition leadingInt_step :: "nat option \<Rightarrow> char \<Rightarrow> nat option" where
  "leadingInt_step acc c =
     (case acc of
        None \<Rightarrow> None
      | Some x \<Rightarrow>
          if x > 2 ^ 63 div 10 then None
          else let y = 10 * x + digit_val c in if y > 2 ^ 63 then None else Some y)"

text \<open>\<open>leadingInt\<close>: the value of the leading digits (\<open>None\<close> on overflow) and the rest.\<close>

definition leadingInt :: "string \<Rightarrow> nat option \<times> string" where
  "leadingInt s = (foldl leadingInt_step (Some 0) (takeWhile is_digit s), dropWhile is_digit s)"

text \<open>\<open>leadingFraction\<close> ignores the digits after an overflow. The scale is a power of ten up to
  \<open>1e19\<close>, exact in \<open>float64\<close>.\<close>

definition fraction_step :: "nat \<times> rat \<times> bool \<Rightarrow> char \<Rightarrow> nat \<times> rat \<times> bool" where
  "fraction_step st c =
     (case st of (x, scale, overflow) \<Rightarrow>
        if overflow then st
        else if x > (2 ^ 63 - 1) div 10 then (x, scale, True)
        else let y = 10 * x + digit_val c
             in if y > 2 ^ 63 then (x, scale, True) else (y, round64 (scale * 10), False))"

definition leadingFraction :: "string \<Rightarrow> nat \<times> rat \<times> string" where
  "leadingFraction s =
     (case foldl fraction_step (0, 1, False) (takeWhile is_digit s) of
        (x, scale, _) \<Rightarrow> (x, scale, dropWhile is_digit s))"

definition duration_units :: "(string \<times> nat) list" where
  "duration_units =
     [(''ns'', 1), (''us'', 1000), ([CHR 0xC2, CHR 0xB5, CHR ''s''], 1000),
      ([CHR 0xCE, CHR 0xBC, CHR ''s''], 1000), (''ms'', 1000000), (''s'', 1000000000),
      (''m'', 60000000000), (''h'', 3600000000000)]"

definition num_char :: "char \<Rightarrow> bool" where
  "num_char c \<longleftrightarrow> c = CHR ''.'' \<or> is_digit c"

text \<open>One round of the loop: a number and its unit; the total so far and the rest, or failure.\<close>

definition duration_item :: "nat \<Rightarrow> string \<Rightarrow> (nat \<times> string) option" where
  "duration_item d s =
     (if s = [] \<or> \<not> num_char (hd s) then None
      else case leadingInt s of
        (None, _) \<Rightarrow> None
      | (Some v, s1) \<Rightarrow>
          let pre = (length s1 \<noteq> length s);
              (f, scale, s2) = (if s1 \<noteq> [] \<and> hd s1 = CHR ''.'' then leadingFraction (tl s1) else (0, 1, s1));
              post = (s1 \<noteq> [] \<and> hd s1 = CHR ''.'' \<and> length s2 \<noteq> length (tl s1));
              u = takeWhile (\<lambda>c. \<not> num_char c) s2;
              s3 = dropWhile (\<lambda>c. \<not> num_char c) s2
          in if \<not> pre \<and> \<not> post then None
             else if u = [] then None
             else case map_of duration_units u of
               None \<Rightarrow> None
             | Some unit \<Rightarrow>
                 if v > 2 ^ 63 div unit then None
                 else let v1 = v * unit;
                          v2 = (if f > 0 then v1 + nat \<lfloor>round64 (round64 (of_nat f) * round64 (of_nat unit / scale))\<rfloor>
                                else v1)
                      in if f > 0 \<and> v2 > 2 ^ 63 then None
                         else if d + v2 > 2 ^ 63 then None
                         else Some (d + v2, s3))"

text \<open>Each round consumes at least one character, so \<open>length s\<close> rounds are enough.\<close>

fun duration_loop :: "nat \<Rightarrow> nat \<Rightarrow> string \<Rightarrow> nat option" where
  "duration_loop n d [] = Some d"
| "duration_loop 0 d (c # s) = None"
| "duration_loop (Suc n) d (c # s) =
     (case duration_item d (c # s) of None \<Rightarrow> None | Some (d', s') \<Rightarrow> duration_loop n d' s')"

definition ParseDuration :: "string \<Rightarrow> duration option" where
  "ParseDuration s =
     (let neg = (s \<noteq> [] \<and> hd s = CHR ''-'');
          s1 = (if s \<noteq> [] \<and> (hd s = CHR ''-'' \<or> hd s = CHR ''+'') then tl s else s)
      in if s1 = ''0'' then Some 0
         else if s1 = [] then None
         else case duration_loop (length s1) 0 s1 of
                None \<Rightarrow> None
              | Some d \<Rightarrow> if neg then Some (- int d)
                          else if d > 2 ^ 63 - 1 then None
                          else Some (int d))"

section \<open>Facts\<close>

lemma duration_item_shorter:
  assumes "duration_item d s = Some (d', s')" shows "length s' < length s"
proof -
  have le: "length (dropWhile P xs) \<le> length xs" for P and xs :: string
    by (induction xs) auto
  have lt: "takeWhile P xs \<noteq> [] \<Longrightarrow> length (dropWhile P xs) < length xs" for P and xs :: string
    using le [of P "tl xs"] by (cases xs) (auto split: if_splits)
  obtain v s1 where li: "leadingInt s = (Some v, s1)"
    using assms by (auto simp: duration_item_def split: option.splits prod.splits if_splits)
  have l1: "length s1 \<le> length s" using li le by (auto simp: leadingInt_def)
  define s2 where "s2 = (if s1 \<noteq> [] \<and> hd s1 = CHR ''.'' then snd (snd (leadingFraction (tl s1))) else s1)"
  have l2: "length s2 \<le> length s1"
    using le [of is_digit "tl s1"] by (auto simp: s2_def leadingFraction_def split: prod.splits)
  have "s' = dropWhile (\<lambda>c. \<not> num_char c) s2 \<and> takeWhile (\<lambda>c. \<not> num_char c) s2 \<noteq> []"
    using assms li
    by (auto simp: duration_item_def s2_def Let_def split: option.splits prod.splits if_splits)
  then have "length s' < length s2" using lt by blast
  with l1 l2 show ?thesis by linarith
qed

text \<open>The rounds never run out.\<close>

lemma duration_loop_enough:
  "length s \<le> n \<Longrightarrow> length s \<le> m \<Longrightarrow> duration_loop n d s = duration_loop m d s"
proof (induction n d s arbitrary: m rule: duration_loop.induct)
  case (3 n d c s)
  then obtain m' where m: "m = Suc m'" by (cases m) auto
  show ?case
  proof (cases "duration_item d (c # s)")
    case (Some r)
    then obtain d' s' where "duration_item d (c # s) = Some (d', s')" by (cases r) auto
    with 3 m duration_item_shorter [OF this] show ?thesis by auto
  qed (simp add: m)
qed auto

lemma ParseDuration_bounds:
  assumes "ParseDuration s = Some d" shows "in_int64 d"
proof -
  have item: "duration_item a t = Some (a', t') \<Longrightarrow> a' \<le> 2 ^ 63" for a t a' t'
    by (auto simp: duration_item_def Let_def split: option.splits prod.splits if_splits)
  have "duration_loop n a t = Some a' \<Longrightarrow> a \<le> 2 ^ 63 \<Longrightarrow> a' \<le> 2 ^ 63" for n a t a'
    by (induction n a t rule: duration_loop.induct) (auto dest: item split: option.splits)
  then have "duration_loop n 0 t = Some a' \<Longrightarrow> a' \<le> 2 ^ 63" for n t a' by blast
  then show ?thesis
    using assms by (auto simp: ParseDuration_def in_int64_def Let_def split: if_splits option.splits)
qed

end
