(* ===== verification/Tenants.thy ===== *)
theory Tenants
  imports Identity Durations
begin

text \<open>
  \<open>internal/auth/bootstrap.go\<close> (the tenant list), \<open>internal/auth/tenants_reloader.go\<close> (its hot
  reload). The file system and the YAML decoder are outside: each reload takes what \<open>os.Stat\<close>
  and \<open>os.ReadFile\<close> return at that moment, and \<open>yaml\<close> is the decoder.
\<close>

section \<open>The tenant list\<close>

record Tenant =
  Ten_ClusterID :: string
  Ten_TenantID :: string
  BootstrapTokenHash :: string
  BootstrapExpiresAt :: gotime
  Revoked :: bool
  CertDuration :: duration
  CertDurationStr :: string

record Tenants =
  byCluster :: "(string \<times> Tenant) list"

datatype tenants_error =
    Err_missing_clusterId
  | Err_duplicate_clusterId string
  | Err_certDuration string string

fun NewTenants_loop ::
  "Tenant list \<Rightarrow> (string \<times> Tenant) list \<Rightarrow> tenants_error + (string \<times> Tenant) list" where
  "NewTenants_loop [] idx = Inr idx"
| "NewTenants_loop (t # ts) idx =
     (if Ten_ClusterID t = [] then Inl Err_missing_clusterId
      else if map_of idx (Ten_ClusterID t) \<noteq> None then Inl (Err_duplicate_clusterId (Ten_ClusterID t))
      else if CertDurationStr t \<noteq> [] \<and> CertDuration t = 0
      then case ParseDuration (CertDurationStr t) of
             None \<Rightarrow> Inl (Err_certDuration (Ten_ClusterID t) (CertDurationStr t))
           | Some d \<Rightarrow> NewTenants_loop ts (idx @ [(Ten_ClusterID t, t\<lparr>CertDuration := d\<rparr>)])
      else NewTenants_loop ts (idx @ [(Ten_ClusterID t, t)]))"

definition NewTenants :: "Tenant list \<Rightarrow> tenants_error + Tenants" where
  "NewTenants list = map_sum id (\<lambda>idx. \<lparr>byCluster = idx\<rparr>) (NewTenants_loop list [])"

text \<open>A nil \<open>*Tenants\<close> knows nobody.\<close>

definition Lookup :: "Tenants option \<Rightarrow> string \<Rightarrow> Tenant option" where
  "Lookup t clusterID = (case t of None \<Rightarrow> None | Some ts \<Rightarrow> map_of (byCluster ts) clusterID)"

definition Tenants_Len :: "Tenants \<Rightarrow> nat" where
  "Tenants_Len t = length (byCluster t)"

subsection \<open>What a list that was accepted looks like\<close>

text \<open>The entry as it is stored: the duration text is parsed when no duration is given.\<close>

definition stored_tenant :: "Tenant \<Rightarrow> Tenant option" where
  "stored_tenant t =
     (if CertDurationStr t \<noteq> [] \<and> CertDuration t = 0
      then map_option (\<lambda>d. t\<lparr>CertDuration := d\<rparr>) (ParseDuration (CertDurationStr t)) else Some t)"

lemma NewTenants_loop_eq:
  "NewTenants_loop ts idx = Inr idx' \<longleftrightarrow>
     list_all (\<lambda>t. Ten_ClusterID t \<noteq> [] \<and> stored_tenant t \<noteq> None) ts \<and>
     distinct (map Ten_ClusterID ts) \<and> set (map Ten_ClusterID ts) \<inter> set (map fst idx) = {} \<and>
     idx' = idx @ map (\<lambda>t. (Ten_ClusterID t, the (stored_tenant t))) ts"
proof (induction ts arbitrary: idx)
  case (Cons t ts)
  show ?case
    by (auto simp: Cons.IH stored_tenant_def map_of_eq_None_iff split: option.splits)
qed auto

lemma stored_tenant_same [simp]:
  "stored_tenant t = Some t' \<Longrightarrow> Ten_ClusterID t' = Ten_ClusterID t \<and> Revoked t' = Revoked t \<and>
     BootstrapTokenHash t' = BootstrapTokenHash t \<and> BootstrapExpiresAt t' = BootstrapExpiresAt t \<and>
     Ten_TenantID t' = Ten_TenantID t"
  by (auto simp: stored_tenant_def split: if_splits)

text \<open>A tenant list is accepted exactly when every entry names a cluster, no cluster is named
  twice and every duration parses; then looking up a cluster gives that cluster's entry, with its
  duration parsed, and every other cluster is unknown.\<close>

theorem NewTenants_exact:
  "(\<exists>ts. NewTenants list = Inr ts \<and>
      (\<forall>c. Lookup (Some ts) c =
        (case find (\<lambda>t. Ten_ClusterID t = c) list of None \<Rightarrow> None | Some t \<Rightarrow> stored_tenant t))) \<longleftrightarrow>
   list_all (\<lambda>t. Ten_ClusterID t \<noteq> [] \<and> stored_tenant t \<noteq> None) list \<and>
   distinct (map Ten_ClusterID list)" (is "?L \<longleftrightarrow> ?R")
proof
  assume ?L
  then obtain ts where "NewTenants list = Inr ts" by blast
  then have "NewTenants_loop list [] = Inr (byCluster ts)"
    by (auto simp: NewTenants_def map_sum_def split: sum.splits)
  then show ?R by (simp add: NewTenants_loop_eq)
next
  assume R: ?R
  define idx where "idx = map (\<lambda>t. (Ten_ClusterID t, the (stored_tenant t))) list"
  have "NewTenants_loop list [] = Inr idx" using R by (simp add: NewTenants_loop_eq idx_def)
  then have "NewTenants list = Inr \<lparr>byCluster = idx\<rparr>" by (simp add: NewTenants_def)
  moreover have "map_of idx c =
      (case find (\<lambda>t. Ten_ClusterID t = c) list of None \<Rightarrow> None | Some t \<Rightarrow> stored_tenant t)" for c
    using R unfolding idx_def by (induction list) auto
  ultimately show ?L by (auto simp: Lookup_def)
qed

definition demo_day :: duration where "demo_day = 24 * hour"

definition demo_tenant :: Tenant where
  "demo_tenant = \<lparr>Ten_ClusterID = ''c1'', Ten_TenantID = ''acme'', BootstrapTokenHash = [],
     BootstrapExpiresAt = zero_time, Revoked = False, CertDuration = demo_day, CertDurationStr = []\<rparr>"

lemma NewTenants_demo: "NewTenants [demo_tenant] = Inr \<lparr>byCluster = [(''c1'', demo_tenant)]\<rparr>"
  by (simp add: NewTenants_def demo_tenant_def)

section \<open>Hot reload of the list\<close>

record tenantsState =
  ts_tenants :: Tenants
  ts_mtime :: gotime

record TenantsReloader =
  pollEvery :: duration
  tr_cached :: "tenantsState option"
  tr_stopped :: bool

text \<open>What the file system answers during one reload: the modification time, then the content.\<close>

record file_view =
  fv_stat :: "string + gotime"
  fv_read :: "string + bytes"

datatype reload_error = Reload_stat string | Reload_read string | Reload_parse string
  | Reload_tenants tenants_error

definition reload ::
  "(bytes \<Rightarrow> string + Tenant list) \<Rightarrow> file_view \<Rightarrow> TenantsReloader \<Rightarrow>
   (reload_error + bool) \<times> TenantsReloader" where
  "reload yaml fv r =
     (case fv_stat fv of
        Inl e \<Rightarrow> (Inl (Reload_stat e), r)
      | Inr mtime \<Rightarrow>
          if (case tr_cached r of None \<Rightarrow> False | Some c \<Rightarrow> \<not> mtime > ts_mtime c) then (Inr False, r)
          else case fv_read fv of
            Inl e \<Rightarrow> (Inl (Reload_read e), r)
          | Inr data \<Rightarrow>
              (case yaml data of
                 Inl e \<Rightarrow> (Inl (Reload_parse e), r)
               | Inr list \<Rightarrow>
                   (case NewTenants list of
                      Inl e \<Rightarrow> (Inl (Reload_tenants e), r)
                    | Inr t \<Rightarrow> (Inr True, r\<lparr>tr_cached := Some \<lparr>ts_tenants = t, ts_mtime = mtime\<rparr>\<rparr>))))"

definition NewTenantsReloader ::
  "(bytes \<Rightarrow> string + Tenant list) \<Rightarrow> file_view \<Rightarrow> duration \<Rightarrow> reload_error + TenantsReloader" where
  "NewTenantsReloader yaml fv poll =
     (let r = \<lparr>pollEvery = (if poll \<le> 0 then 5 * second else poll), tr_cached = None, tr_stopped = False\<rparr>
      in case reload yaml fv r of (Inl e, _) \<Rightarrow> Inl e | (Inr _, r') \<Rightarrow> Inr r')"

definition Tenants_Current :: "TenantsReloader \<Rightarrow> Tenants option" where
  "Tenants_Current r = map_option ts_tenants (tr_cached r)"

text \<open>One tick of the polling loop; the outcome is only logged. A stopped loop does nothing.\<close>

definition poll_tick :: "(bytes \<Rightarrow> string + Tenant list) \<Rightarrow> file_view \<Rightarrow> TenantsReloader \<Rightarrow> TenantsReloader" where
  "poll_tick yaml fv r = (if tr_stopped r then r else snd (reload yaml fv r))"

text \<open>Closing a closed channel panics.\<close>

definition Reloader_Stop :: "TenantsReloader \<Rightarrow> TenantsReloader option" where
  "Reloader_Stop r = (if tr_stopped r then None else Some (r\<lparr>tr_stopped := True\<rparr>))"

lemma poll_tick_cases:
  "Tenants_Current (poll_tick yaml v r) = Tenants_Current r \<or>
   (\<exists>data list ts. fv_read v = Inr data \<and> yaml data = Inr list \<and> NewTenants list = Inr ts \<and>
      Tenants_Current (poll_tick yaml v r) = Some ts)"
  by (auto simp: poll_tick_def reload_def Tenants_Current_def split: sum.splits)

text \<open>C38: The authorisation list is never wiped: once the reloader exists there is always a
  current snapshot, whatever the file system and the decoder return at later polls (missing file,
  torn read, bad YAML, invalid list), and it was built from a content of the file that decoded and passed validation.\<close>

theorem snapshot_survives_bad_reloads:
  assumes "NewTenantsReloader yaml fv poll = Inr r"
  shows "\<exists>ts. Tenants_Current (fold (poll_tick yaml) fvs r) = Some ts \<and>
    (\<exists>data list. (fv_read fv = Inr data \<or> (\<exists>v\<in>set fvs. fv_read v = Inr data)) \<and>
       yaml data = Inr list \<and> NewTenants list = Inr ts)"
proof -
  from assms obtain data list ts m where first: "fv_read fv = Inr data" "yaml data = Inr list"
    "NewTenants list = Inr ts" "tr_cached r = Some \<lparr>ts_tenants = ts, ts_mtime = m\<rparr>"
    by (auto simp: NewTenantsReloader_def reload_def Let_def split: sum.splits if_splits)
  show ?thesis
  proof (induction fvs rule: rev_induct)
    case Nil
    then show ?case using first by (auto simp: Tenants_Current_def)
  next
    case (snoc v fvs)
    have step: "fold (poll_tick yaml) (fvs @ [v]) r = poll_tick yaml v (fold (poll_tick yaml) fvs r)" by simp
    from poll_tick_cases [of yaml v "fold (poll_tick yaml) fvs r"] show ?case
      unfolding step
    proof
      assume "Tenants_Current (poll_tick yaml v (fold (poll_tick yaml) fvs r)) =
        Tenants_Current (fold (poll_tick yaml) fvs r)"
      with snoc show "\<exists>ts. Tenants_Current (poll_tick yaml v (fold (poll_tick yaml) fvs r)) = Some ts \<and>
        (\<exists>data list. (fv_read fv = Inr data \<or> (\<exists>v\<in>set (fvs @ [v]). fv_read v = Inr data)) \<and>
           yaml data = Inr list \<and> NewTenants list = Inr ts)"
        by auto
    qed force
  qed
qed

text \<open>The file of the examples, with the decoder that reads it.\<close>

definition demo_yaml :: "bytes \<Rightarrow> string + Tenant list" where
  "demo_yaml b = (if b = ''ok'' then Inr [demo_tenant]
     else if b = ''revoked'' then Inr [demo_tenant\<lparr>Revoked := True\<rparr>] else Inl ''bad yaml'')"

definition demo_reloader :: TenantsReloader where
  "demo_reloader = \<lparr>pollEvery = 5 * second,
     tr_cached = Some \<lparr>ts_tenants = \<lparr>byCluster = [(''c1'', demo_tenant)]\<rparr>, ts_mtime = 1\<rparr>, tr_stopped = False\<rparr>"

lemma demo_reloader_New:
  "NewTenantsReloader demo_yaml \<lparr>fv_stat = Inr 1, fv_read = Inr ''ok''\<rparr> 0 = Inr demo_reloader"
  by (simp add: NewTenantsReloader_def reload_def demo_yaml_def NewTenants_demo demo_reloader_def)

theorem snapshot_survives_bad_reloads_witness:
  "\<exists>ts. Tenants_Current (fold (poll_tick demo_yaml)
     [\<lparr>fv_stat = Inl ''gone'', fv_read = Inl ''gone''\<rparr>, \<lparr>fv_stat = Inr 2, fv_read = Inr ''torn''\<rparr>]
     demo_reloader) = Some ts"
  using snapshot_survives_bad_reloads [OF demo_reloader_New, of
      "[\<lparr>fv_stat = Inl ''gone'', fv_read = Inl ''gone''\<rparr>, \<lparr>fv_stat = Inr 2, fv_read = Inr ''torn''\<rparr>]"]
  by blast

text \<open>A revocation takes effect at the next poll: when the file's modification time has
  advanced and it decodes to a valid list, the snapshot after the poll marks as revoked exactly
  the clusters that list marks.\<close>

theorem revocation_takes_effect:
  assumes "\<not> tr_stopped r" and "fv_stat fv = Inr m" and "fv_read fv = Inr data"
    and "yaml data = Inr list" and "NewTenants list = Inr ts"
    and "\<forall>c. tr_cached r = Some c \<longrightarrow> ts_mtime c < m"
  shows "Tenants_Current (poll_tick yaml fv r) = Some ts \<and>
    (\<forall>t\<in>set list. \<exists>t'. Lookup (Tenants_Current (poll_tick yaml fv r)) (Ten_ClusterID t) = Some t' \<and>
       Revoked t' = Revoked t)"
proof -
  have cur: "Tenants_Current (poll_tick yaml fv r) = Some ts"
    using assms by (auto simp: poll_tick_def reload_def Tenants_Current_def split: option.splits)
  from assms(5) have "NewTenants_loop list [] = Inr (byCluster ts)"
    by (auto simp: NewTenants_def map_sum_def split: sum.splits)
  then have idx: "byCluster ts = map (\<lambda>t. (Ten_ClusterID t, the (stored_tenant t))) list"
    "list_all (\<lambda>t. stored_tenant t \<noteq> None) list" "distinct (map Ten_ClusterID list)"
    by (auto simp: NewTenants_loop_eq list_all_iff)
  have "map_of (byCluster ts) (Ten_ClusterID t) = Some (the (stored_tenant t))" if "t \<in> set list" for t
    using that idx by (intro map_of_is_SomeI) (auto simp: comp_def)
  moreover have "Revoked (the (stored_tenant t)) = Revoked t" if "t \<in> set list" for t
    using that idx(2) by (auto simp: list_all_iff)
  ultimately show ?thesis by (auto simp: cur Lookup_def)
qed

theorem revocation_takes_effect_witness:
  "\<exists>t'. Lookup (Tenants_Current (poll_tick demo_yaml \<lparr>fv_stat = Inr 2, fv_read = Inr ''revoked''\<rparr>
     demo_reloader)) ''c1'' = Some t' \<and> Revoked t'"
  using revocation_takes_effect [of demo_reloader "\<lparr>fv_stat = Inr 2, fv_read = Inr ''revoked''\<rparr>" 2
      "''revoked''" demo_yaml "[demo_tenant\<lparr>Revoked := True\<rparr>]"
      "\<lparr>byCluster = [(''c1'', demo_tenant\<lparr>Revoked := True\<rparr>)]\<rparr>"]
  by (auto simp: demo_reloader_def demo_yaml_def NewTenants_def demo_tenant_def Lookup_def)

end
