(* ===== verification/Trust.thy ===== *)
theory Trust
  imports Identity
begin

text \<open>
  \<open>internal/auth/tls.go\<close> and \<open>internal/auth/trust.go\<close>: the server certificate that reloads
  itself during handshakes, and the pools of CA certificates.

  Files and PEM decoding are outside: \<open>read_file\<close> is \<open>os.ReadFile\<close>, \<open>pem_certs\<close> the
  certificates \<open>AppendCertsFromPEM\<close> finds in a file, and each handshake takes the answers of its
  own \<open>os.Stat\<close> and \<open>tls.LoadX509KeyPair\<close> calls.
\<close>

section \<open>The self-reloading server certificate\<close>

record reloaderState =
  rs_cert :: bytes
  rs_mtime :: gotime

record certReloader =
  certFile :: string
  keyFile :: string
  cr_cached :: "reloaderState option"

text \<open>The answers one handshake gets: the first \<open>Stat\<close>, the one inside \<open>load\<close>, the key pair.\<close>

record handshake_view =
  hv_stat :: "string + gotime"
  hv_stat2 :: "string + gotime"
  hv_pair :: "string + bytes"

definition cert_load :: "handshake_view \<Rightarrow> certReloader \<Rightarrow> (string + bytes) \<times> certReloader" where
  "cert_load v r =
     (case hv_stat2 v of
        Inl e \<Rightarrow> (Inl e, r)
      | Inr mtime \<Rightarrow>
          (case hv_pair v of
             Inl e \<Rightarrow> (case cr_cached r of Some c \<Rightarrow> (Inr (rs_cert c), r) | None \<Rightarrow> (Inl e, r))
           | Inr cert \<Rightarrow> (Inr cert, r\<lparr>cr_cached := Some \<lparr>rs_cert = cert, rs_mtime = mtime\<rparr>\<rparr>)))"

definition newCertReloader :: "handshake_view \<Rightarrow> string \<Rightarrow> string \<Rightarrow> string + certReloader" where
  "newCertReloader v cf kf =
     (case cert_load v \<lparr>certFile = cf, keyFile = kf, cr_cached = None\<rparr> of
        (Inl e, _) \<Rightarrow> Inl e
      | (Inr _, r) \<Rightarrow> Inr r)"

definition getCertificate :: "handshake_view \<Rightarrow> certReloader \<Rightarrow> (string + bytes) \<times> certReloader" where
  "getCertificate v r =
     (case hv_stat v of
        Inl e \<Rightarrow> (case cr_cached r of Some c \<Rightarrow> (Inr (rs_cert c), r) | None \<Rightarrow> (Inl e, r))
      | Inr mtime \<Rightarrow>
          (case cr_cached r of
             Some c \<Rightarrow> if \<not> mtime > rs_mtime c then (Inr (rs_cert c), r) else cert_load v r
           | None \<Rightarrow> cert_load v r))"

section \<open>Trust pools\<close>

type_synonym cert_pool = "Certificate list"

definition appendCertsFromFile ::
  "(string \<Rightarrow> string + bytes) \<Rightarrow> (bytes \<Rightarrow> Certificate list) \<Rightarrow> cert_pool \<Rightarrow> string \<Rightarrow> string + cert_pool" where
  "appendCertsFromFile read_file pem_certs pool path =
     (case read_file path of
        Inl e \<Rightarrow> Inl e
      | Inr pem \<Rightarrow> if pem_certs pem = [] then Inl (''no PEM certificates found in '' @ path)
                   else Inr (pool @ pem_certs pem))"

definition loadCertPool ::
  "(string \<Rightarrow> string + bytes) \<Rightarrow> (bytes \<Rightarrow> Certificate list) \<Rightarrow> string \<Rightarrow> string + cert_pool" where
  "loadCertPool read_file pem_certs path = appendCertsFromFile read_file pem_certs [] path"

record ServerTLSConfig =
  CertFile :: string
  KeyFile :: string
  TrustRootFile :: string
  IntermediateCAFile :: string

datatype ClientAuthType = VerifyClientCertIfGiven | OtherClientAuth

record tls_Config =
  MinVersion :: nat
  ClientAuth :: ClientAuthType
  ClientCAs :: cert_pool
  tls_reloader :: certReloader

definition LoadServerTLS ::
  "(string \<Rightarrow> string + bytes) \<Rightarrow> (bytes \<Rightarrow> Certificate list) \<Rightarrow> handshake_view \<Rightarrow> ServerTLSConfig \<Rightarrow>
   string + tls_Config" where
  "LoadServerTLS read_file pem_certs v cfg =
     (if CertFile cfg = [] \<or> KeyFile cfg = [] \<or> TrustRootFile cfg = []
      then Inl ''auth: ServerTLSConfig requires CertFile, KeyFile, TrustRootFile''
      else case newCertReloader v (CertFile cfg) (KeyFile cfg) of
        Inl e \<Rightarrow> Inl (''load server cert: '' @ e)
      | Inr reloader \<Rightarrow>
          (case loadCertPool read_file pem_certs (TrustRootFile cfg) of
             Inl e \<Rightarrow> Inl (''load trust root: '' @ e)
           | Inr pool \<Rightarrow>
               (case (if IntermediateCAFile cfg \<noteq> []
                      then appendCertsFromFile read_file pem_certs pool (IntermediateCAFile cfg)
                      else Inr pool) of
                  Inl e \<Rightarrow> Inl (''load intermediate CA into trust pool: '' @ e)
                | Inr pool' \<Rightarrow>
                    Inr \<lparr>MinVersion = 0x0303, ClientAuth = VerifyClientCertIfGiven, ClientCAs = pool',
                         tls_reloader = reloader\<rparr>)))"

record TrustPools =
  Roots :: cert_pool
  Intermediates :: cert_pool

definition LoadTrustPools ::
  "(string \<Rightarrow> string + bytes) \<Rightarrow> (bytes \<Rightarrow> Certificate list) \<Rightarrow> string \<Rightarrow> string \<Rightarrow> string + TrustPools" where
  "LoadTrustPools read_file pem_certs trustRootFile intermediateCAFile =
     (case loadCertPool read_file pem_certs trustRootFile of
        Inl e \<Rightarrow> Inl (''load trust root: '' @ e)
      | Inr roots \<Rightarrow>
          (case (if intermediateCAFile \<noteq> [] then appendCertsFromFile read_file pem_certs [] intermediateCAFile
                 else Inr []) of
             Inl e \<Rightarrow> Inl (''load intermediate CA: '' @ e)
           | Inr imed \<Rightarrow> Inr \<lparr>Roots = roots, Intermediates = imed\<rparr>))"

text \<open>\<open>x509.Certificate.Verify\<close> with the options of \<open>VerifyClientLeaf\<close>: the parameter
  \<open>x509_verify roots intermediates now leaf\<close> answers whether a chain for client
  authentication exists.\<close>

definition VerifyClientLeaf ::
  "(cert_pool \<Rightarrow> cert_pool \<Rightarrow> gotime \<Rightarrow> Certificate \<Rightarrow> bool) \<Rightarrow> TrustPools \<Rightarrow> Certificate \<Rightarrow> gotime \<Rightarrow> bool" where
  "VerifyClientLeaf x509_verify t leaf now = x509_verify (Roots t) (Intermediates t) now leaf"

section \<open>Properties\<close>

definition serve_all :: "handshake_view list \<Rightarrow> certReloader \<Rightarrow> certReloader" where
  "serve_all vs r = fold (\<lambda>v r. snd (getCertificate v r)) vs r"

lemma getCertificate_keeps:
  "cr_cached r \<noteq> None \<Longrightarrow> cr_cached (snd (getCertificate v r)) \<noteq> None"
  by (auto simp: getCertificate_def cert_load_def split: sum.splits option.splits)

lemma serve_all_keeps: "cr_cached r \<noteq> None \<Longrightarrow> cr_cached (serve_all vs r) \<noteq> None"
  unfolding serve_all_def
proof (induction vs arbitrary: r)
  case (Cons v vs)
  from Cons.IH [OF getCertificate_keeps [OF Cons.prems]] show ?case by simp
qed simp

lemma newCertReloader_cached: "newCertReloader v cf kf = Inr r \<Longrightarrow> cr_cached r \<noteq> None"
  by (auto simp: newCertReloader_def cert_load_def split: sum.splits)

text \<open>The listener keeps serving through a broken certificate rotation: after start-up, any
  sequence of handshakes leaves a certificate to serve, and a handshake fails only when the file
  disappears between its two \<open>Stat\<close> calls; otherwise it gets the new key pair if the file is
  newer and loads, and the cached one if not.\<close>

theorem handshake_served:
  assumes "newCertReloader v0 cf kf = Inr r0" and "r = serve_all vs r0"
  shows "\<exists>c. cr_cached r = Some c \<and>
    fst (getCertificate v r) =
      (case (hv_stat v, hv_stat2 v, hv_pair v) of
         (Inr m, Inl e, _) \<Rightarrow> if rs_mtime c < m then Inl e else Inr (rs_cert c)
       | (Inr m, Inr m2, Inr new) \<Rightarrow> if rs_mtime c < m then Inr new else Inr (rs_cert c)
       | _ \<Rightarrow> Inr (rs_cert c))"
proof -
  from assms have "cr_cached r \<noteq> None" by (simp add: serve_all_keeps newCertReloader_cached)
  then obtain c where "cr_cached r = Some c" by blast
  then show ?thesis
    by (auto simp: getCertificate_def cert_load_def split: sum.splits)
qed

definition demo_handshake :: handshake_view where
  "demo_handshake = \<lparr>hv_stat = Inr 1, hv_stat2 = Inr 1, hv_pair = Inr ''cert1''\<rparr>"

theorem handshake_served_witness:
  "\<exists>r0. newCertReloader demo_handshake ''tls.crt'' ''tls.key'' = Inr r0 \<and>
     fst (getCertificate (demo_handshake\<lparr>hv_stat := Inr 2, hv_stat2 := Inr 2, hv_pair := Inl ''torn''\<rparr>) r0) =
       Inr ''cert1''"
proof -
  define r0 where "r0 = \<lparr>certFile = ''tls.crt'', keyFile = ''tls.key'',
    cr_cached = Some \<lparr>rs_cert = ''cert1'', rs_mtime = 1\<rparr>\<rparr>"
  have n: "newCertReloader demo_handshake ''tls.crt'' ''tls.key'' = Inr r0"
    by (simp add: newCertReloader_def cert_load_def demo_handshake_def r0_def)
  from handshake_served [OF n, of r0 "[]" "demo_handshake\<lparr>hv_stat := Inr 2, hv_stat2 := Inr 2, hv_pair := Inl ''torn''\<rparr>"]
  show ?thesis using n by (simp add: serve_all_def demo_handshake_def r0_def)
qed

text \<open>A server TLS configuration is built only with a trust anchor: it always verifies the
  client certificates that are presented, needs at least TLS 1.2, and its client CA pool is
  exactly the certificates of the root file followed by those of the intermediate file, and not
  empty.\<close>

theorem server_tls_has_anchor:
  assumes "LoadServerTLS read_file pem_certs v cfg = Inr t"
  shows "MinVersion t = 0x0303 \<and> ClientAuth t = VerifyClientCertIfGiven \<and> ClientCAs t \<noteq> [] \<and>
    (\<exists>root. read_file (TrustRootFile cfg) = Inr root \<and>
       (IntermediateCAFile cfg = [] \<and> ClientCAs t = pem_certs root \<or>
        IntermediateCAFile cfg \<noteq> [] \<and> (\<exists>imed. read_file (IntermediateCAFile cfg) = Inr imed \<and> pem_certs imed \<noteq> [] \<and>
           ClientCAs t = pem_certs root @ pem_certs imed)))"
  using assms
  by (auto simp: LoadServerTLS_def loadCertPool_def appendCertsFromFile_def
      split: if_splits sum.splits)

definition demo_cert :: Certificate where
  "demo_cert = \<lparr>URIs = [], CommonName = ''ca'', SerialNumber = 1, NotBefore = 0, NotAfter = hour,
     IsCA = True, KeyKind = ECDSA_P256, PublicKey = [], Raw = ''der''\<rparr>"

theorem server_tls_has_anchor_witness:
  "\<exists>t. LoadServerTLS (\<lambda>p. Inr ''pem'') (\<lambda>b. [demo_cert]) demo_handshake
      \<lparr>CertFile = ''tls.crt'', KeyFile = ''tls.key'', TrustRootFile = ''ca.crt'', IntermediateCAFile = []\<rparr> = Inr t \<and>
     ClientCAs t = [demo_cert]"
proof -
  obtain t where t: "LoadServerTLS (\<lambda>p. Inr ''pem'') (\<lambda>b. [demo_cert]) demo_handshake
      \<lparr>CertFile = ''tls.crt'', KeyFile = ''tls.key'', TrustRootFile = ''ca.crt'', IntermediateCAFile = []\<rparr> = Inr t"
    by (simp add: LoadServerTLS_def loadCertPool_def appendCertsFromFile_def newCertReloader_def cert_load_def
        demo_handshake_def)
  from server_tls_has_anchor [OF t] t show ?thesis by auto
qed

end
