(* ===== verification/Store.thy ===== *)
theory Store
  imports Messages "HOL-Library.AList"
begin

text \<open>
  \<open>internal/store\<close>: the TTL key/value store behind dedup, the replay guard, bootstrap, the
  analysis cache, feedback and history.

  The Go interface \<open>Store\<close> is a record of operations over a state type \<open>'s\<close>; every client
  takes such a record, as it takes an interface value in Go. The contract written in the
  interface's comments is the locale \<open>kv_store\<close>; \<open>Memory\<close> is shown to satisfy it. What
  clients need is proved once in the locale: a successful set-if-absent excludes every later
  one on its key for the whole TTL, whatever other operations and janitor sweeps happen in
  between.

  Each call of \<open>time.Now()\<close> is an argument: \<open>Set\<close>, \<open>Get\<close> and \<open>ListByPrefix\<close> read the clock
  once, \<open>SetNX\<close> reads it twice (the liveness test, then the expiry of the new item).
\<close>

section \<open>The interface\<close>

record 's store_ops =
  Store_Get :: "gotime \<Rightarrow> 's \<Rightarrow> string \<Rightarrow> string + bytes option"
  Store_Set :: "gotime \<Rightarrow> 's \<Rightarrow> string \<Rightarrow> bytes \<Rightarrow> duration \<Rightarrow> string option \<times> 's"
  Store_SetNX :: "gotime \<Rightarrow> gotime \<Rightarrow> 's \<Rightarrow> string \<Rightarrow> bytes \<Rightarrow> duration \<Rightarrow> (string + bool) \<times> 's"
  Store_Delete :: "'s \<Rightarrow> string \<Rightarrow> string option \<times> 's"
  Store_ListByPrefix :: "gotime \<Rightarrow> 's \<Rightarrow> string \<Rightarrow> string + bytes list"

section \<open>The in-memory store\<close>

record memItem =
  val :: bytes
  expiresAt :: gotime

text \<open>\<open>items\<close> is a Go map, kept as an association list with distinct keys whose order stands
  for the unspecified iteration order; \<open>stopped\<close> says that the \<open>stop\<close> channel is closed.\<close>

record Memory =
  items :: "(string \<times> memItem) list"
  stopped :: bool

definition expired :: "memItem \<Rightarrow> gotime \<Rightarrow> bool" where
  "expired i now \<longleftrightarrow> expiresAt i \<noteq> zero_time \<and> now > expiresAt i"

definition expiry :: "gotime \<Rightarrow> duration \<Rightarrow> gotime" where
  "expiry now ttl = (if ttl \<le> 0 then zero_time else now + ttl)"

definition NewMemory :: Memory where
  "NewMemory = \<lparr>items = [], stopped = False\<rparr>"

definition Memory_Get :: "gotime \<Rightarrow> Memory \<Rightarrow> string \<Rightarrow> string + bytes option" where
  "Memory_Get now m key =
     (case map_of (items m) key of
        None \<Rightarrow> Inr None
      | Some it \<Rightarrow> if expired it now then Inr None else Inr (Some (val it)))"

definition Memory_Set ::
  "gotime \<Rightarrow> Memory \<Rightarrow> string \<Rightarrow> bytes \<Rightarrow> duration \<Rightarrow> string option \<times> Memory" where
  "Memory_Set now m key v ttl =
     (None, m\<lparr>items := AList.update key \<lparr>val = v, expiresAt = expiry now ttl\<rparr> (items m)\<rparr>)"

definition Memory_SetNX ::
  "gotime \<Rightarrow> gotime \<Rightarrow> Memory \<Rightarrow> string \<Rightarrow> bytes \<Rightarrow> duration \<Rightarrow> (string + bool) \<times> Memory" where
  "Memory_SetNX now now' m key v ttl =
     (if (case map_of (items m) key of None \<Rightarrow> False | Some it \<Rightarrow> \<not> expired it now)
      then (Inr False, m)
      else (Inr True,
        m\<lparr>items := AList.update key \<lparr>val = v, expiresAt = expiry now' ttl\<rparr> (items m)\<rparr>))"

definition Memory_Delete :: "Memory \<Rightarrow> string \<Rightarrow> string option \<times> Memory" where
  "Memory_Delete m key = (None, m\<lparr>items := AList.delete key (items m)\<rparr>)"

definition Memory_ListByPrefix :: "gotime \<Rightarrow> Memory \<Rightarrow> string \<Rightarrow> string + bytes list" where
  "Memory_ListByPrefix now m pre =
     Inr (map (\<lambda>(k, it). val it)
       (filter (\<lambda>(k, it). \<not> (expired it now \<or> \<not> HasPrefix k pre)) (items m)))"

definition Memory_Kind :: "Memory \<Rightarrow> string" where
  "Memory_Kind m = ''memory''"

text \<open>Closing a closed channel panics: \<open>None\<close>.\<close>

definition Memory_Close :: "Memory \<Rightarrow> Memory option" where
  "Memory_Close m = (if stopped m then None else Some (m\<lparr>stopped := True\<rparr>))"

text \<open>One round of the janitor's loop, at a tick of its ticker; \<open>None\<close> is the return.\<close>

definition Memory_janitor :: "gotime \<Rightarrow> Memory \<Rightarrow> Memory option" where
  "Memory_janitor now m =
     (if stopped m then None
      else Some (m\<lparr>items := filter (\<lambda>(k, it). \<not> expired it now) (items m)\<rparr>))"

text \<open>What the janitor goroutine does to the store at \<open>now\<close>, whether it is still running.\<close>

definition Memory_background :: "gotime \<Rightarrow> Memory \<Rightarrow> Memory" where
  "Memory_background now m = (case Memory_janitor now m of None \<Rightarrow> m | Some m' \<Rightarrow> m')"

definition memory_ops :: "Memory store_ops" where
  "memory_ops =
     \<lparr>Store_Get = Memory_Get, Store_Set = Memory_Set, Store_SetNX = Memory_SetNX,
      Store_Delete = Memory_Delete, Store_ListByPrefix = Memory_ListByPrefix\<rparr>"

definition memory_inv :: "Memory \<Rightarrow> bool" where
  "memory_inv m \<longleftrightarrow> distinct (map fst (items m))"

definition memory_live :: "gotime \<Rightarrow> Memory \<Rightarrow> string \<Rightarrow> bytes option" where
  "memory_live now m key =
     (case map_of (items m) key of
        None \<Rightarrow> None
      | Some it \<Rightarrow> if expired it now then None else Some (val it))"

section \<open>Sequences of operations\<close>

datatype store_event =
    Ev_Set gotime string bytes duration
  | Ev_SetNX gotime gotime string bytes duration
  | Ev_Delete string
  | Ev_Background gotime

fun store_step :: "'s store_ops \<Rightarrow> (gotime \<Rightarrow> 's \<Rightarrow> 's) \<Rightarrow> store_event \<Rightarrow> 's \<Rightarrow> 's" where
  "store_step ops bg (Ev_Set now k v ttl) s = snd (Store_Set ops now s k v ttl)"
| "store_step ops bg (Ev_SetNX now now' k v ttl) s = snd (Store_SetNX ops now now' s k v ttl)"
| "store_step ops bg (Ev_Delete k) s = snd (Store_Delete ops s k)"
| "store_step ops bg (Ev_Background now) s = bg now s"

definition store_run ::
  "'s store_ops \<Rightarrow> (gotime \<Rightarrow> 's \<Rightarrow> 's) \<Rightarrow> store_event list \<Rightarrow> 's \<Rightarrow> 's" where
  "store_run ops bg evs s = fold (store_step ops bg) evs s"

text \<open>The events another client may perform until \<open>t\<close> on a key it does not own: it never
  overwrites or deletes the key, its clock readings are after the epoch and, where it tries to set
  the key itself or cleans up, no later than \<open>t\<close>.\<close>

fun spares :: "gotime \<Rightarrow> string \<Rightarrow> store_event \<Rightarrow> bool" where
  "spares t key (Ev_Set now k v ttl) \<longleftrightarrow> k \<noteq> key \<and> 0 \<le> now"
| "spares t key (Ev_SetNX now now' k v ttl) \<longleftrightarrow> 0 \<le> now' \<and> (k \<noteq> key \<or> now \<le> t)"
| "spares t key (Ev_Delete k) \<longleftrightarrow> k \<noteq> key"
| "spares t key (Ev_Background now) \<longleftrightarrow> now \<le> t"

text \<open>Whether an item written at \<open>now\<close> with \<open>ttl\<close> is still there at \<open>t\<close>.\<close>

definition held :: "gotime \<Rightarrow> duration \<Rightarrow> gotime \<Rightarrow> bool" where
  "held now ttl t \<longleftrightarrow> ttl \<le> 0 \<or> t \<le> now + ttl"

text \<open>A prefix without the characters that are special in a Redis pattern.\<close>

definition plain_prefix :: "string \<Rightarrow> bool" where
  "plain_prefix p \<longleftrightarrow> list_all (\<lambda>c. c \<notin> set ''*?[]^'' \<and> c \<noteq> CHR 0x5C) p"

section \<open>The contract\<close>

locale kv_store =
  fixes ops :: "'s store_ops"
    and inv :: "'s \<Rightarrow> bool"
    and live :: "gotime \<Rightarrow> 's \<Rightarrow> string \<Rightarrow> bytes option"
    and background :: "gotime \<Rightarrow> 's \<Rightarrow> 's"
  assumes get_live: "inv s \<Longrightarrow> Store_Get ops now s k = Inr (live now s k)"
    and set_ok: "inv s \<Longrightarrow> fst (Store_Set ops now s k v ttl) = None"
    and set_inv: "inv s \<Longrightarrow> inv (snd (Store_Set ops now s k v ttl))"
    and set_live: "inv s \<Longrightarrow> 0 \<le> now \<Longrightarrow>
      live t (snd (Store_Set ops now s k v ttl)) k' =
        (if k' = k then (if held now ttl t then Some v else None) else live t s k')"
    and setnx_result: "inv s \<Longrightarrow> fst (Store_SetNX ops now now' s k v ttl) = Inr (live now s k = None)"
    and setnx_present: "inv s \<Longrightarrow> live now s k \<noteq> None \<Longrightarrow>
      snd (Store_SetNX ops now now' s k v ttl) = s"
    and setnx_absent: "inv s \<Longrightarrow> live now s k = None \<Longrightarrow>
      snd (Store_SetNX ops now now' s k v ttl) = snd (Store_Set ops now' s k v ttl)"
    and delete_ok: "inv s \<Longrightarrow> fst (Store_Delete ops s k) = None"
    and delete_inv: "inv s \<Longrightarrow> inv (snd (Store_Delete ops s k))"
    and delete_live: "inv s \<Longrightarrow>
      live t (snd (Store_Delete ops s k)) k' = (if k' = k then None else live t s k')"
    and list_live: "inv s \<Longrightarrow> plain_prefix p \<Longrightarrow> \<exists>vs. Store_ListByPrefix ops now s p = Inr vs \<and>
      set vs = {v. \<exists>k. HasPrefix k p \<and> live now s k = Some v}"
    and live_earlier: "inv s \<Longrightarrow> live t s k = Some v \<Longrightarrow> t' \<le> t \<Longrightarrow> live t' s k = Some v"
    and background_inv: "inv s \<Longrightarrow> inv (background now s)"
    and background_live: "inv s \<Longrightarrow> now \<le> t \<Longrightarrow> live t (background now s) k = live t s k"
begin

lemma setnx_inv: "inv s \<Longrightarrow> inv (snd (Store_SetNX ops now now' s k v ttl))"
  by (cases "live now s k = None") (simp_all add: setnx_present setnx_absent set_inv)

lemma step_inv: "inv s \<Longrightarrow> inv (store_step ops background ev s)"
  by (cases ev) (simp_all add: set_inv setnx_inv delete_inv background_inv)

lemma run_inv: "inv s \<Longrightarrow> inv (store_run ops background evs s)"
  unfolding store_run_def by (induction evs arbitrary: s) (simp_all add: step_inv)

lemma setnx_frame:
  assumes "inv s" and "0 \<le> now'" and "k \<noteq> k' \<or> now \<le> t" and "live t s k' = Some w"
  shows "live t (snd (Store_SetNX ops now now' s k v ttl)) k' = Some w"
proof (cases "live now s k = None")
  case True
  with live_earlier [OF assms(1,4)] assms(3) have "k' \<noteq> k" by auto
  with True assms show ?thesis by (simp add: setnx_absent set_live)
next
  case False
  with assms show ?thesis by (simp add: setnx_present)
qed

lemma step_frame:
  assumes "inv s" and "spares t k ev" and "live t s k = Some w"
  shows "live t (store_step ops background ev s) k = Some w"
  using assms by (cases ev) (auto simp: set_live setnx_frame delete_live background_live)

lemma run_frame:
  "inv s \<Longrightarrow> list_all (spares t k) evs \<Longrightarrow> live t s k = Some w \<Longrightarrow>
     live t (store_run ops background evs s) k = Some w"
  unfolding store_run_def
  by (induction evs arbitrary: s) (simp_all add: step_inv step_frame)

lemma setnx_live_after:
  assumes "inv s" and "0 \<le> now'" and "live now s k = None"
  shows "live t (snd (Store_SetNX ops now now' s k v ttl)) k =
    (if held now' ttl t then Some v else None)"
  using assms by (simp add: setnx_absent set_live)

text \<open>First writer wins: while the item is held, every set-if-absent on its key is refused.\<close>

lemma setnx_exclusive:
  assumes inv: "inv s" and now': "0 \<le> now'"
    and first: "Store_SetNX ops now now' s k v ttl = (Inr True, s1)"
    and evs: "list_all (spares t k) evs" and held: "held now' ttl t"
  shows "Store_SetNX ops t t' (store_run ops background evs s1) k v' ttl' =
    (Inr False, store_run ops background evs s1)"
proof -
  have res: "fst (Store_SetNX ops now now' s k v ttl) = Inr True"
    and s1: "s1 = snd (Store_SetNX ops now now' s k v ttl)"
    using first by simp_all
  from res inv have "live now s k = None" by (simp add: setnx_result)
  with inv now' held have "live t s1 k = Some v" by (simp add: s1 setnx_live_after)
  moreover from inv have i1: "inv s1" by (simp add: s1 setnx_inv)
  ultimately have "live t (store_run ops background evs s1) k = Some v"
    using evs by (blast intro: run_frame)
  moreover from i1 have "inv (store_run ops background evs s1)" by (rule run_inv)
  ultimately show ?thesis
    by (intro prod_eqI) (simp_all add: setnx_result setnx_present)
qed

lemma setnx_expired_succeeds:
  assumes "inv s" and "live t s k = None"
  shows "fst (Store_SetNX ops t t' s k v ttl) = Inr True"
  using assms by (simp add: setnx_result)

end

section \<open>Memory satisfies the contract\<close>

lemma map_of_filter_distinct:
  "distinct (map fst xs) \<Longrightarrow>
     map_of (filter (\<lambda>(k, v). P v) xs) k =
       (case map_of xs k of None \<Rightarrow> None | Some v \<Rightarrow> if P v then Some v else None)"
proof (induction xs)
  case (Cons x xs)
  obtain a b where x: "x = (a, b)" by (cases x)
  show ?case
  proof (cases "k = a")
    case True
    with Cons.prems x have "map_of xs k = None"
      by (metis distinct.simps(2) fst_conv list.simps(9) map_of_eq_None_iff set_map)
    with True Cons x show ?thesis by simp
  qed (use Cons x in auto)
qed simp

lemma Memory_Get_live: "Memory_Get now m k = Inr (memory_live now m k)"
  by (simp add: Memory_Get_def memory_live_def split: option.splits)

lemma memory_live_update:
  "memory_live t (m\<lparr>items := AList.update k \<lparr>val = v, expiresAt = e\<rparr> (items m)\<rparr>) k' =
     (if k' = k then (if e \<noteq> zero_time \<and> t > e then None else Some v) else memory_live t m k')"
  by (simp add: memory_live_def update_conv' expired_def)

lemma memory_inv_update:
  "memory_inv m \<Longrightarrow> memory_inv (m\<lparr>items := AList.update k it (items m)\<rparr>)"
  by (simp add: memory_inv_def distinct_update)

lemma expiry_held:
  "0 \<le> now \<Longrightarrow> (expiry now ttl \<noteq> zero_time \<and> t > expiry now ttl) = (\<not> held now ttl t)"
  by (auto simp: expiry_def held_def zero_time_def)

lemma memory_live_sweep:
  assumes "memory_inv m" and "now \<le> t"
  shows "memory_live t (m\<lparr>items := filter (\<lambda>(k, it). \<not> expired it now) (items m)\<rparr>) k =
    memory_live t m k"
  using assms
  by (auto simp: memory_live_def memory_inv_def map_of_filter_distinct expired_def
      split: option.splits)

lemma memory_list_exact:
  assumes "memory_inv m"
  shows "set (map (\<lambda>(k, it). val it)
      (filter (\<lambda>(k, it). \<not> (expired it now \<or> \<not> HasPrefix k p)) (items m))) =
    {v. \<exists>k. HasPrefix k p \<and> memory_live now m k = Some v}" (is "?L = ?R")
proof -
  have mem: "(k, it) \<in> set (items m) \<longleftrightarrow> map_of (items m) k = Some it" for k it
    using assms by (simp add: memory_inv_def)
  have "?L = {val it |k it. map_of (items m) k = Some it \<and> \<not> expired it now \<and> HasPrefix k p}"
    by (force simp flip: mem)
  also have "\<dots> = ?R"
    by (fastforce simp: memory_live_def split: option.splits if_splits)
  finally show ?thesis .
qed

interpretation mem: kv_store memory_ops memory_inv memory_live Memory_background
proof (unfold_locales, goal_cases)
  case (1 s now k) show ?case by (simp add: memory_ops_def Memory_Get_live)
next
  case (2 s now k v ttl) show ?case by (simp add: memory_ops_def Memory_Set_def)
next
  case (3 s now k v ttl) then show ?case
    by (simp add: memory_ops_def Memory_Set_def memory_inv_update)
next
  case (4 s now t k v ttl k') then show ?case
    by (simp add: memory_ops_def Memory_Set_def memory_live_update expiry_held)
next
  case (5 s now now' k v ttl) show ?case
    by (simp add: memory_ops_def Memory_SetNX_def memory_live_def split: option.splits)
next
  case (6 s now k now' v ttl) then show ?case
    by (auto simp: memory_ops_def Memory_SetNX_def memory_live_def split: option.splits if_splits)
next
  case (7 s now k now' v ttl) then show ?case
    by (auto simp: memory_ops_def Memory_SetNX_def Memory_Set_def memory_live_def
        split: option.splits if_splits)
next
  case (8 s k) show ?case by (simp add: memory_ops_def Memory_Delete_def)
next
  case (9 s k) then show ?case
    by (simp add: memory_ops_def Memory_Delete_def memory_inv_def distinct_delete)
next
  case (10 s t k k') show ?case
    by (simp add: memory_ops_def Memory_Delete_def memory_live_def delete_conv')
next
  case (11 s p now) then show ?case
    using memory_list_exact [OF 11(1), of now p] by (simp add: memory_ops_def Memory_ListByPrefix_def)
next
  case (12 s t k v t') then show ?case
    by (auto simp: memory_live_def expired_def split: option.splits if_splits)
next
  case (13 s now) then show ?case
    by (auto simp: Memory_background_def Memory_janitor_def memory_inv_def distinct_map
        intro: inj_on_subset)
next
  case (14 s now t k) then show ?case
    by (auto simp: Memory_background_def Memory_janitor_def memory_live_sweep)
qed

end
