(* ===== verification/Encoding.thy ===== *)
theory Encoding
  imports Prelude
begin

text \<open>
  The encodings of Go's standard library that the sources send over the wire: UTF-8
  (\<open>unicode/utf8\<close>), JSON as \<open>encoding/json\<close> writes it, RFC 3339 times in UTC and
  \<open>strings.EqualFold\<close> for ASCII literals.
\<close>

section \<open>UTF-8\<close>

definition byte_in :: "nat \<Rightarrow> nat \<Rightarrow> char \<Rightarrow> bool" where
  "byte_in lo hi c \<longleftrightarrow> lo \<le> (of_char c :: nat) \<and> (of_char c :: nat) \<le> hi"

definition cont_byte :: "char \<Rightarrow> bool" where
  "cont_byte = byte_in 0x80 0xBF"

text \<open>The length of the valid encoding at the front of a string; 0 when there is none.\<close>

fun rune_len :: "string \<Rightarrow> nat" where
  "rune_len (a # b # c # d # rest) =
     (if byte_in 0 0x7F a then 1
      else if byte_in 0xC2 0xDF a \<and> cont_byte b then 2
      else if cont_byte c \<and>
        (byte_in 0xE0 0xE0 a \<and> byte_in 0xA0 0xBF b \<or> byte_in 0xE1 0xEC a \<and> cont_byte b \<or>
         byte_in 0xED 0xED a \<and> byte_in 0x80 0x9F b \<or> byte_in 0xEE 0xEF a \<and> cont_byte b) then 3
      else if cont_byte c \<and> cont_byte d \<and>
        (byte_in 0xF0 0xF0 a \<and> byte_in 0x90 0xBF b \<or> byte_in 0xF1 0xF3 a \<and> cont_byte b \<or>
         byte_in 0xF4 0xF4 a \<and> byte_in 0x80 0x8F b) then 4
      else 0)"
| "rune_len [a, b, c] =
     (if byte_in 0 0x7F a then 1
      else if byte_in 0xC2 0xDF a \<and> cont_byte b then 2
      else if cont_byte c \<and>
        (byte_in 0xE0 0xE0 a \<and> byte_in 0xA0 0xBF b \<or> byte_in 0xE1 0xEC a \<and> cont_byte b \<or>
         byte_in 0xED 0xED a \<and> byte_in 0x80 0x9F b \<or> byte_in 0xEE 0xEF a \<and> cont_byte b) then 3
      else 0)"
| "rune_len [a, b] =
     (if byte_in 0 0x7F a then 1 else if byte_in 0xC2 0xDF a \<and> cont_byte b then 2 else 0)"
| "rune_len [a] = (if byte_in 0 0x7F a then 1 else 0)"
| "rune_len [] = 0"

text \<open>A string as the runes a \<open>range\<close> loop visits: each is its bytes, an invalid byte a single
  one. The flag says whether it was valid.\<close>

function runes :: "string \<Rightarrow> (bool \<times> string) list" where
  "runes [] = []"
| "runes (c # s) =
     (case rune_len (c # s) of
        0 \<Rightarrow> (False, [c]) # runes s
      | Suc n \<Rightarrow> (True, take (Suc n) (c # s)) # runes (drop n s))"
  by pat_completeness auto
termination by (relation "measure length") auto

definition valid_utf8 :: "string \<Rightarrow> bool" where
  "valid_utf8 s \<longleftrightarrow> list_all fst (runes s)"

section \<open>JSON\<close>

text \<open>A value to be encoded. A number is its literal; an object lists its fields in the order
  they are written (struct order, or sorted keys for a map).\<close>

datatype json = JNull | JBool bool | JNum string | JStr string | JArr "json list"
  | JObj "(string \<times> json) list"

definition hex4 :: "nat \<Rightarrow> string" where
  "hex4 n = [hex_digit (n div 4096 mod 16), hex_digit (n div 256 mod 16), hex_digit (n div 16 mod 16),
     hex_digit (n mod 16)]"

definition json_escape_ascii :: "char \<Rightarrow> string" where
  "json_escape_ascii c =
     (if c = CHR 0x22 \<or> c = CHR 0x5C then [CHR 0x5C, c]
      else if c = CHR 0x08 then [CHR 0x5C, CHR ''b'']
      else if c = CHR 0x0C then [CHR 0x5C, CHR ''f'']
      else if c = CHR 0x0A then [CHR 0x5C, CHR ''n'']
      else if c = CHR 0x0D then [CHR 0x5C, CHR ''r'']
      else if c = CHR 0x09 then [CHR 0x5C, CHR ''t'']
      else if byte_in 0 0x1F c \<or> c = CHR ''<'' \<or> c = CHR ''>'' \<or> c = CHR ''&''
      then CHR 0x5C # CHR ''u'' # hex4 (of_char c)
      else [c])"

text \<open>Invalid bytes become \<open>U+FFFD\<close>; the line separators \<open>U+2028\<close> and \<open>U+2029\<close> are escaped.\<close>

definition json_escape_rune :: "bool \<times> string \<Rightarrow> string" where
  "json_escape_rune r =
     (case r of
        (False, _) \<Rightarrow> CHR 0x5C # ''ufffd''
      | (True, [c]) \<Rightarrow> json_escape_ascii c
      | (True, bs) \<Rightarrow>
          if bs = [CHR 0xE2, CHR 0x80, CHR 0xA8] then CHR 0x5C # ''u2028''
          else if bs = [CHR 0xE2, CHR 0x80, CHR 0xA9] then CHR 0x5C # ''u2029''
          else bs)"

definition json_string :: "string \<Rightarrow> string" where
  "json_string s = CHR 0x22 # concat (map json_escape_rune (runes s)) @ [CHR 0x22]"

fun Marshal :: "json \<Rightarrow> bytes" where
  "Marshal JNull = ''null''"
| "Marshal (JBool b) = (if b then ''true'' else ''false'')"
| "Marshal (JNum lit) = lit"
| "Marshal (JStr s) = json_string s"
| "Marshal (JArr vs) = ''['' @ Join (map Marshal vs) '','' @ '']''"
| "Marshal (JObj fs) =
     ''{'' @ Join (map (\<lambda>(k, v). json_string k @ '':'' @ Marshal v) fs) '','' @ ''}''"

text \<open>A struct field tagged \<open>omitempty\<close> is written only when it is not empty.\<close>

definition omitempty_str :: "string \<Rightarrow> string \<Rightarrow> (string \<times> json) list" where
  "omitempty_str k s = (if s = [] then [] else [(k, JStr s)])"

section \<open>Times and case folding\<close>

text \<open>The proleptic Gregorian date of a day number relative to 1 January 1970.\<close>

definition civil_from_days :: "int \<Rightarrow> int \<times> int \<times> int" where
  "civil_from_days days =
     (let z = days + 719468;
          era = z div 146097;
          doe = z mod 146097;
          yoe = (doe - doe div 1460 + doe div 36524 - doe div 146096) div 365;
          doy = doe - (365 * yoe + yoe div 4 - yoe div 100);
          mp = (5 * doy + 2) div 153;
          d = doy - (153 * mp + 2) div 5 + 1;
          m = (if mp < 10 then mp + 3 else mp - 9)
      in (yoe + era * 400 + (if m \<le> 2 then 1 else 0), m, d))"

definition pad_int :: "nat \<Rightarrow> int \<Rightarrow> string" where
  "pad_int w i = (let s = show_nat (nat \<bar>i\<bar>)
                  in (if i < 0 then ''-'' else []) @ replicate (w - length s) CHR ''0'' @ s)"

text \<open>\<open>t.UTC().Format(time.RFC3339)\<close>.\<close>

definition rfc3339 :: "gotime \<Rightarrow> string" where
  "rfc3339 t =
     (let s = unix_of t; (y, m, d) = civil_from_days (s div 86400); r = s mod 86400
      in pad_int 4 y @ ''-'' @ pad_int 2 m @ ''-'' @ pad_int 2 d @ ''T'' @
         pad_int 2 (r div 3600) @ '':'' @ pad_int 2 (r div 60 mod 60) @ '':'' @ pad_int 2 (r mod 60) @ ''Z'')"

text \<open>\<open>strings.EqualFold\<close> against an ASCII literal without the letters \<open>k\<close> and \<open>s\<close>, the two
  that have a non-ASCII case variant.\<close>

definition EqualFold :: "string \<Rightarrow> string \<Rightarrow> bool" where
  "EqualFold s lit \<longleftrightarrow> map lower_char s = map lower_char lit"

section \<open>HTTP requests\<close>

text \<open>An outgoing request and the answer of \<open>http.Client.Do\<close> as the sources see them; the
  transport is a parameter \<open>http_do\<close> of the definitions that send one, and \<open>url_ok\<close> says
  whether \<open>http.NewRequest\<close> accepts the URL.\<close>

record http_request =
  Method :: string
  Req_URL :: string
  Headers :: "(string \<times> string) list"
  Body :: bytes

record http_response =
  StatusCode :: int
  Resp_Body :: bytes

section \<open>Facts\<close>

lemma rune_len_le: "rune_len s \<le> length s"
  by (induction s rule: rune_len.induct) auto

lemma concat_runes [simp]: "concat (map snd (runes s)) = s"
proof (induction s rule: runes.induct)
  case (2 c s)
  then show ?case by (cases "rune_len (c # s)") auto
qed simp

end
