(* ===== verification/Signing.thy ===== *)
theory Signing
  imports Identity Encoding
begin

text \<open>
  \<open>internal/auth/sign.go\<close>: leaf certificates from CSRs. Identity comes from the caller; the CSR
  contributes its public key.

  PEM, ASN.1 and signatures are \<open>encoding/pem\<close> and \<open>crypto/x509\<close>: a record \<open>x509_ops\<close> of
  functions. What the development relies on is the hypothesis \<open>x509_faithful\<close>: a certificate that
  was created parses back to its template. \<open>url.Parse\<close> is modelled for the URIs built here.
\<close>

section \<open>Percent-decoding and the SPIFFE URI\<close>

definition hex_val :: "char \<Rightarrow> nat" where
  "hex_val c = (let n = of_char c in if n \<ge> 97 then n - 87 else if n \<ge> 65 then n - 55 else n - 48)"

fun pct_unescape :: "string \<Rightarrow> string option" where
  "pct_unescape [] = Some []"
| "pct_unescape (c # s) =
     (if c = CHR ''%'' then
        (case s of
           a # b # rest \<Rightarrow>
             if is_hex a \<and> is_hex b
             then map_option ((#) (char_of (16 * hex_val a + hex_val b))) (pct_unescape rest)
             else None
         | _ \<Rightarrow> None)
      else map_option ((#) c) (pct_unescape s))"

definition is_ctl :: "char \<Rightarrow> bool" where
  "is_ctl c \<longleftrightarrow> (of_char c :: nat) < 0x20 \<or> c = CHR 0x7F"

text \<open>\<open>url.Parse(''spiffe://muthur'' + rest)\<close> for a \<open>rest\<close> that starts with a slash: the fragment
  and the query are cut off, the path is percent-decoded; \<open>None\<close> is the error.\<close>

definition parse_spiffe_rest :: "string \<Rightarrow> URL option" where
  "parse_spiffe_rest rest =
     (let u = takeWhile (\<lambda>c. c \<noteq> CHR ''#'') rest;
          frag = drop 1 (dropWhile (\<lambda>c. c \<noteq> CHR ''#'') rest);
          path = takeWhile (\<lambda>c. c \<noteq> CHR ''?'') u
      in if list_ex is_ctl u then None
         else if pct_unescape frag = None then None
         else map_option (\<lambda>p. \<lparr>Scheme = spiffeScheme, Host = spiffeHost, Path = p\<rparr>) (pct_unescape path))"

section \<open>Keys, certificates and requests\<close>

datatype PrivateKey = PK_ECDSA bytes | PK_RSA bytes | PK_Ed25519 bytes | PK_Other bytes

record CSR =
  csr_CommonName :: string
  csr_URIs :: "URL list"
  csr_KeyKind :: PublicKeyKind
  csr_PublicKey :: bytes

record x509_ops =
  pem_decode :: "bytes \<Rightarrow> (string \<times> bytes) option"
  pem_encode :: "string \<Rightarrow> bytes \<Rightarrow> bytes"
  ParseCertificateRequest :: "bytes \<Rightarrow> string + CSR"
  CheckSignature :: "CSR \<Rightarrow> bool"
  CreateCertificate :: "Certificate \<Rightarrow> Certificate \<Rightarrow> PrivateKey \<Rightarrow> string + bytes"
  ParseCertificate :: "bytes \<Rightarrow> string + Certificate"
  ParsePKCS8PrivateKey :: "bytes \<Rightarrow> string + PrivateKey"
  ParseECPrivateKey :: "bytes \<Rightarrow> string + PrivateKey"
  ParsePKCS1PrivateKey :: "bytes \<Rightarrow> string + PrivateKey"

record Signer =
  caCert :: Certificate
  caKey :: PrivateKey
  MaxLeafDuration :: duration

datatype sign_error =
    Sign_csr string
  | Sign_signature
  | Sign_serial string
  | Sign_create string

definition no_pem :: string where "no_pem = ''no PEM block found''"

definition parseCertPEM :: "x509_ops \<Rightarrow> bytes \<Rightarrow> string + Certificate" where
  "parseCertPEM x data =
     (case pem_decode x data of None \<Rightarrow> Inl no_pem | Some (ty, der) \<Rightarrow> ParseCertificate x der)"

definition parseCSRPEM :: "x509_ops \<Rightarrow> bytes \<Rightarrow> string + CSR" where
  "parseCSRPEM x data =
     (case pem_decode x data of None \<Rightarrow> Inl no_pem | Some (ty, der) \<Rightarrow> ParseCertificateRequest x der)"

definition asSigner :: "PrivateKey \<Rightarrow> string + PrivateKey" where
  "asSigner k = (case k of PK_Other _ \<Rightarrow> Inl ''key type is not a crypto.Signer'' | _ \<Rightarrow> Inr k)"

definition parseKeyPEM :: "x509_ops \<Rightarrow> bytes \<Rightarrow> string + PrivateKey" where
  "parseKeyPEM x data =
     (case pem_decode x data of
        None \<Rightarrow> Inl no_pem
      | Some (ty, der) \<Rightarrow>
          if ty = ''PRIVATE KEY'' then
            (case ParsePKCS8PrivateKey x der of Inl e \<Rightarrow> Inl e | Inr k \<Rightarrow> asSigner k)
          else if ty = ''EC PRIVATE KEY'' then ParseECPrivateKey x der
          else if ty = ''RSA PRIVATE KEY'' then ParsePKCS1PrivateKey x der
          else Inl (''unsupported key PEM type '' @ ty))"

definition NewSignerFromFiles ::
  "x509_ops \<Rightarrow> (string \<Rightarrow> string + bytes) \<Rightarrow> string \<Rightarrow> string \<Rightarrow> string + Signer" where
  "NewSignerFromFiles x read_file cf kf =
     (case read_file cf of
        Inl e \<Rightarrow> Inl (''read intermediate cert: '' @ e)
      | Inr certPEM \<Rightarrow>
     (case read_file kf of
        Inl e \<Rightarrow> Inl (''read intermediate key: '' @ e)
      | Inr keyPEM \<Rightarrow>
     (case parseCertPEM x certPEM of
        Inl e \<Rightarrow> Inl (''parse intermediate cert: '' @ e)
      | Inr cert \<Rightarrow>
     (case parseKeyPEM x keyPEM of
        Inl e \<Rightarrow> Inl (''parse intermediate key: '' @ e)
      | Inr key \<Rightarrow>
          if \<not> IsCA cert then Inl ''auth: intermediate certificate must have IsCA=true''
          else Inr \<lparr>caCert = cert, caKey = key, MaxLeafDuration = 30 * 24 * hour\<rparr>))))"

section \<open>Signing\<close>

definition clamp_duration :: "Signer \<Rightarrow> duration \<Rightarrow> duration" where
  "clamp_duration s d = (if d \<le> 0 \<or> d > MaxLeafDuration s then MaxLeafDuration s else d)"

text \<open>The SAN list: a failed \<open>url.Parse\<close> leaves a nil pointer in it.\<close>

definition leaf_uris :: "Identity \<Rightarrow> URL option list" where
  "leaf_uris i =
     (if TenantID i \<noteq> [] then [parse_spiffe_rest (''/'' @ TenantID i @ ''/'' @ ClusterID i)] else [])"

definition leaf_template ::
  "nat \<Rightarrow> gotime \<Rightarrow> gotime \<Rightarrow> CSR \<Rightarrow> Identity \<Rightarrow> duration \<Rightarrow> URL list \<Rightarrow> Certificate" where
  "leaf_template serial now now' csr i dur uris =
     \<lparr>URIs = uris, CommonName = ClusterID i, SerialNumber = serial, NotBefore = now - minute,
      NotAfter = now' + dur, IsCA = False, KeyKind = csr_KeyKind csr, PublicKey = csr_PublicKey csr,
      Raw = []\<rparr>"

text \<open>\<open>serial\<close> is the result of \<open>randomSerial\<close>, \<open>now\<close> and \<open>now'\<close> the two clock readings.
  \<open>x509.CreateCertificate\<close> dereferences every URI, so a nil one panics: \<open>None\<close>.\<close>

definition Sign ::
  "x509_ops \<Rightarrow> string + nat \<Rightarrow> gotime \<Rightarrow> gotime \<Rightarrow> Signer \<Rightarrow> bytes \<Rightarrow> Identity \<Rightarrow> duration \<Rightarrow>
   (sign_error + bytes) option" where
  "Sign x serial now now' s csrPEM i duration =
     (case parseCSRPEM x csrPEM of
        Inl e \<Rightarrow> Some (Inl (Sign_csr e))
      | Inr csr \<Rightarrow>
          if \<not> CheckSignature x csr then Some (Inl Sign_signature)
          else
            let d = clamp_duration s duration
            in case serial of
                 Inl e \<Rightarrow> Some (Inl (Sign_serial e))
               | Inr n \<Rightarrow>
                   if None \<in> set (leaf_uris i) then None
                   else case CreateCertificate x
                          (leaf_template n now now' csr i d (map the (leaf_uris i))) (caCert s) (caKey s) of
                     Inl e \<Rightarrow> Some (Inl (Sign_create e))
                   | Inr der \<Rightarrow> Some (Inr (pem_encode x ''CERTIFICATE'' der)))"

definition CACertPEM :: "x509_ops \<Rightarrow> Signer \<Rightarrow> bytes" where
  "CACertPEM x s = pem_encode x ''CERTIFICATE'' (Raw (caCert s))"

section \<open>Facts\<close>

text \<open>A time in a certificate: X.509 encodes whole seconds, the fraction is cut off.\<close>

definition x509_time :: "gotime \<Rightarrow> gotime" where
  "x509_time t = t - t mod second"

lemma x509_time_zero [simp]: "x509_time 0 = 0"
  by (simp add: x509_time_def)

lemma x509_time_bounds: "x509_time t \<le> t \<and> t - second < x509_time t"
  using pos_mod_bound [of second t] pos_mod_sign [of second t] by (simp add: x509_time_def)

text \<open>What \<open>encoding/pem\<close> and \<open>crypto/x509\<close> promise: decoding inverts the encoding of certificates, and a created
  certificate parses back to the fields of its template, the validity in whole seconds.\<close>

definition x509_faithful :: "x509_ops \<Rightarrow> bool" where
  "x509_faithful x \<longleftrightarrow>
     (\<forall>der. pem_decode x (pem_encode x ''CERTIFICATE'' der) = Some (''CERTIFICATE'', der)) \<and>
     (\<forall>tpl ca k der. CreateCertificate x tpl ca k = Inr der \<longrightarrow>
        (\<exists>c. ParseCertificate x der = Inr c \<and>
           Certificate.truncate c\<lparr>Raw := Raw tpl\<rparr> = tpl\<lparr>NotBefore := x509_time (NotBefore tpl), NotAfter := x509_time (NotAfter tpl)\<rparr>))"

text \<open>A name the URI carries unchanged.\<close>

definition uri_safe :: "string \<Rightarrow> bool" where
  "uri_safe s \<longleftrightarrow> s \<noteq> [] \<and>
     list_all (\<lambda>c. \<not> is_ctl c \<and> c \<notin> {CHR ''/'', CHR ''?'', CHR ''#'', CHR ''%''}) s"

lemma pct_unescape_plain: "CHR ''%'' \<notin> set s \<Longrightarrow> pct_unescape s = Some s"
  by (induction s) auto

lemma takeWhile_all: "c \<notin> set s \<Longrightarrow> takeWhile (\<lambda>d. d \<noteq> c) s = s \<and> dropWhile (\<lambda>d. d \<noteq> c) s = []"
  by (induction s) auto

lemma uri_safe_chars:
  assumes "uri_safe s"
  shows "s \<noteq> []" "CHR ''/'' \<notin> set s" "CHR ''?'' \<notin> set s" "CHR ''#'' \<notin> set s" "CHR ''%'' \<notin> set s"
    "\<not> list_ex is_ctl s"
  using assms by (auto simp: uri_safe_def list_all_iff list_ex_iff)

lemma printable [simp]: "\<not> is_ctl CHR ''/''" "\<not> is_ctl CHR ''?''"
  by (simp_all add: is_ctl_def)

lemma parse_spiffe_safe:
  assumes "uri_safe t" "uri_safe k"
  shows "parse_spiffe_rest (''/'' @ t @ ''/'' @ k) =
    Some \<lparr>Scheme = spiffeScheme, Host = spiffeHost, Path = ''/'' @ t @ ''/'' @ k\<rparr>"
proof -
  let ?r = "''/'' @ t @ ''/'' @ k"
  have no: "CHR ''#'' \<notin> set ?r" "CHR ''?'' \<notin> set ?r" "CHR ''%'' \<notin> set ?r" and ctl: "\<not> list_ex is_ctl ?r"
    using uri_safe_chars [OF assms(1)] uri_safe_chars [OF assms(2)] by simp_all
  show ?thesis
    unfolding parse_spiffe_rest_def Let_def takeWhile_all [OF no(1), THEN conjunct1]
      takeWhile_all [OF no(1), THEN conjunct2] takeWhile_all [OF no(2), THEN conjunct1]
    using ctl pct_unescape_plain [OF no(3)] by simp
qed

lemma Extract_template:
  assumes "uri_safe (TenantID i)" "uri_safe (ClusterID i)" "URIs c = map the (leaf_uris i)"
  shows "\<exists>j. ExtractFromCert (Some c) = Inr j \<and> TenantID j = TenantID i \<and> ClusterID j = ClusterID i \<and>
    Id_NotAfter j = NotAfter c"
proof -
  have ne: "TenantID i \<noteq> []" "ClusterID i \<noteq> []" "CHR ''/'' \<notin> set (TenantID i)" "CHR ''/'' \<notin> set (ClusterID i)"
    using assms(1,2) by (auto simp: uri_safe_def list_all_iff)
  have "URIs c = [\<lparr>Scheme = spiffeScheme, Host = spiffeHost, Path = ''/'' @ TenantID i @ ''/'' @ ClusterID i\<rparr>]"
    using parse_spiffe_safe [OF assms(1,2)] assms(3) ne(1) by (simp add: leaf_uris_def)
  then show ?thesis
    using parseSpiffePath_complete [OF ne] ne by (simp add: ExtractFromCert_def)
qed

lemma Sign_identity_cong:
  assumes "TenantID i = TenantID j" "ClusterID i = ClusterID j"
  shows "Sign x serial now now' s p i d = Sign x serial now now' s p j d"
proof -
  have u: "leaf_uris i = leaf_uris j" using assms by (simp add: leaf_uris_def)
  have l: "leaf_template n now now' csr i d us = leaf_template n now now' csr j d us" for n csr d us
    using assms(2) by (simp add: leaf_template_def)
  show ?thesis unfolding Sign_def u l by (rule refl)
qed

lemma Sign_ok_template:
  assumes "x509_faithful x" "Sign x serial now now' s csrPEM i d = Some (Inr pem)"
  obtains csr n c where "parseCSRPEM x csrPEM = Inr csr" "CheckSignature x csr"
    "parseCertPEM x pem = Inr c" "None \<notin> set (leaf_uris i)" "serial = Inr n"
    "URIs c = map the (leaf_uris i)" "CommonName c = ClusterID i" "NotAfter c = x509_time (now' + clamp_duration s d)"
    "NotBefore c = x509_time (now - minute)" "\<not> IsCA c" "PublicKey c = csr_PublicKey csr"
proof -
  from assms(2) obtain csr n der where s: "parseCSRPEM x csrPEM = Inr csr" "CheckSignature x csr"
    "serial = Inr n" "None \<notin> set (leaf_uris i)"
    "CreateCertificate x (leaf_template n now now' csr i (clamp_duration s d) (map the (leaf_uris i)))
       (caCert s) (caKey s) = Inr der" "pem = pem_encode x ''CERTIFICATE'' der"
    by (auto simp: Sign_def Let_def split: sum.splits if_splits)
  let ?t = "leaf_template n now now' csr i (clamp_duration s d) (map the (leaf_uris i))"
  from assms(1) s(5) obtain c where c: "ParseCertificate x der = Inr c" 
    "Certificate.truncate c\<lparr>Raw := Raw ?t\<rparr> = ?t\<lparr>NotBefore := x509_time (NotBefore ?t), NotAfter := x509_time (NotAfter ?t)\<rparr>"
    unfolding x509_faithful_def by blast
  have p: "parseCertPEM x pem = Inr c"
    using assms(1) c(1) s(6) by (simp add: parseCertPEM_def x509_faithful_def)
  show ?thesis
    using c(2) by (intro that [OF s(1,2) p s(4) s(3)])
      (cases c; simp add: leaf_template_def Certificate.truncate_def)+
qed

lemma Sign_identity:
  assumes "x509_faithful x" and "Sign x serial now now' s csrPEM i d = Some (Inr pem)"
    and "uri_safe (TenantID i)" and "uri_safe (ClusterID i)"
  shows "\<exists>csr c j. parseCSRPEM x csrPEM = Inr csr \<and> CheckSignature x csr \<and>
    parseCertPEM x pem = Inr c \<and> ExtractFromCert (Some c) = Inr j \<and>
    TenantID j = TenantID i \<and> ClusterID j = ClusterID i \<and> PublicKey c = csr_PublicKey csr \<and>
    NotAfter c = x509_time (now' + clamp_duration s d) \<and> NotAfter c \<le> now' + MaxLeafDuration s \<and> \<not> IsCA c"
proof -
  from Sign_ok_template [OF assms(1,2)] obtain csr n c where
    s: "parseCSRPEM x csrPEM = Inr csr" "CheckSignature x csr" "parseCertPEM x pem = Inr c"
    "URIs c = map the (leaf_uris i)" "NotAfter c = x509_time (now' + clamp_duration s d)" "\<not> IsCA c"
    "PublicKey c = csr_PublicKey csr"
    by metis
  have "clamp_duration s d \<le> MaxLeafDuration s" by (simp add: clamp_duration_def)
  then have "NotAfter c \<le> now' + MaxLeafDuration s" using s(5) x509_time_bounds [of "now' + clamp_duration s d"] by linarith
  with Extract_template [OF assms(3,4) s(4)] s show ?thesis by auto
qed

section \<open>A CA for the examples\<close>

text \<open>Length-prefixed armour, and an authority that issues one certificate.\<close>

definition demo_pem :: "string \<Rightarrow> bytes \<Rightarrow> bytes" where
  "demo_pem ty der = replicate (length ty) CHR ''1'' @ ''0'' @ ty @ der"

definition demo_unpem :: "bytes \<Rightarrow> (string \<times> bytes) option" where
  "demo_unpem b = (let n = length (takeWhile (\<lambda>c. c = CHR ''1'') b); r = drop (n + 1) b
                   in Some (take n r, drop n r))"

definition demo_csr :: CSR where
  "demo_csr = \<lparr>csr_CommonName = ''someone else'', csr_URIs = [], csr_KeyKind = ECDSA_P256, csr_PublicKey = ''pk''\<rparr>"

definition demo_x509 :: "Certificate \<Rightarrow> x509_ops" where
  "demo_x509 tpl =
     \<lparr>pem_decode = demo_unpem, pem_encode = demo_pem, ParseCertificateRequest = (\<lambda>b. Inr demo_csr),
      CheckSignature = (\<lambda>c. True),
      CreateCertificate = (\<lambda>t ca k. if t = tpl then Inr ''der'' else Inl ''refused''),
      ParseCertificate = (\<lambda>b. Inr (tpl\<lparr>NotBefore := x509_time (NotBefore tpl), NotAfter := x509_time (NotAfter tpl)\<rparr>)), ParsePKCS8PrivateKey = (\<lambda>b. Inr (PK_Ed25519 b)),
      ParseECPrivateKey = (\<lambda>b. Inr (PK_ECDSA b)), ParsePKCS1PrivateKey = (\<lambda>b. Inr (PK_RSA b))\<rparr>"

lemma demo_pem_inverse: "demo_unpem (demo_pem ty der) = Some (ty, der)"
proof -
  have "takeWhile (\<lambda>c. c = CHR ''1'') (replicate n CHR ''1'' @ CHR ''0'' # s) = replicate n CHR ''1''" for n s
    by (induction n) auto
  then show ?thesis by (simp add: demo_unpem_def demo_pem_def Let_def)
qed

lemma demo_x509_faithful: "x509_faithful (demo_x509 tpl)"
  by (auto simp: x509_faithful_def demo_x509_def demo_pem_inverse Certificate.truncate_def split: if_splits)

definition demo_signer :: Signer where
  "demo_signer = \<lparr>caCert = \<lparr>URIs = [], CommonName = ''ca'', SerialNumber = 1, NotBefore = 0, NotAfter = hour,
     IsCA = True, KeyKind = ECDSA_P256, PublicKey = [], Raw = ''ca''\<rparr>, caKey = PK_ECDSA [],
     MaxLeafDuration = 30 * 24 * hour\<rparr>"

definition demo_acme :: Identity where
  "demo_acme = \<lparr>TenantID = ''acme'', ClusterID = ''c1'', Id_NotAfter = 0, Id_Serial = []\<rparr>"

lemma demo_acme_safe: "uri_safe (TenantID demo_acme) \<and> uri_safe (ClusterID demo_acme)"
  by (simp add: uri_safe_def demo_acme_def is_ctl_def)

lemma demo_acme_uris: "None \<notin> set (leaf_uris demo_acme)"
  using demo_acme_safe parse_spiffe_safe [of "TenantID demo_acme" "ClusterID demo_acme"]
  by (simp add: leaf_uris_def)

definition demo_leaf :: "gotime \<Rightarrow> duration \<Rightarrow> Certificate" where
  "demo_leaf now d = leaf_template 5 now now demo_csr demo_acme (clamp_duration demo_signer d)
     (map the (leaf_uris demo_acme))"

lemma demo_Sign:
  "Sign (demo_x509 (demo_leaf now d)) (Inr 5) now now demo_signer (demo_pem ''CERTIFICATE REQUEST'' csr)
     demo_acme d = Some (Inr (demo_pem ''CERTIFICATE'' ''der''))"
  using demo_acme_uris
  by (simp add: Sign_def parseCSRPEM_def demo_x509_def demo_pem_inverse demo_leaf_def)

section \<open>Properties\<close>

text \<open>C34: A signed leaf says who the caller said, and nothing else: parsing the issued certificate
  and extracting its identity gives back exactly the tenant and cluster the signer was given,
  whatever the CSR claims, provided that both names are non-empty and free of slashes, question marks, hashes, percent signs and
  control characters (otherwise not, see \<open>query_in_cluster_changes_identity\<close>); the key is the CSR's, which the CSR's signature has
  proved to be held by the requester; and the certificate expires, in whole seconds, after the clamped duration, at most
  \<open>MaxLeafDuration\<close> after it was made, whatever duration was asked for.\<close>

theorem leaf_carries_caller_identity:
  assumes "x509_faithful x" and "Sign x serial now now' s csrPEM i d = Some (Inr pem)"
    and "uri_safe (TenantID i)" and "uri_safe (ClusterID i)"
  shows "\<exists>csr c j. parseCSRPEM x csrPEM = Inr csr \<and> CheckSignature x csr \<and>
    parseCertPEM x pem = Inr c \<and> ExtractFromCert (Some c) = Inr j \<and>
    TenantID j = TenantID i \<and> ClusterID j = ClusterID i \<and> PublicKey c = csr_PublicKey csr \<and>
    NotAfter c = x509_time (now' + clamp_duration s d) \<and> NotAfter c \<le> now' + MaxLeafDuration s \<and> \<not> IsCA c"
  using assms by (rule Sign_identity)

theorem leaf_carries_caller_identity_witness:
  "\<exists>c j. parseCertPEM (demo_x509 (demo_leaf 0 0)) (demo_pem ''CERTIFICATE'' ''der'') = Inr c \<and>
     ExtractFromCert (Some c) = Inr j \<and> TenantID j = ''acme'' \<and> ClusterID j = ''c1''"
  using leaf_carries_caller_identity [OF demo_x509_faithful demo_Sign [of 0 0 "[]"]] demo_acme_safe
  by (auto simp: demo_acme_def demo_signer_def)

text \<open>The URI is built by concatenation without escaping, so a configured cluster name with a
  question mark is issued somebody else's identity: signing for \<open>c?rest\<close> puts cluster \<open>c\<close>
  into the certificate.\<close>

theorem query_in_cluster_changes_identity:
  assumes "uri_safe t" and "uri_safe k" and "list_all (\<lambda>c. \<not> is_ctl c \<and> c \<noteq> CHR ''#'') rest"
    and "TenantID i = t" and "ClusterID i = k @ ''?'' @ rest" and "URIs c = map the (leaf_uris i)"
  shows "\<exists>j. ExtractFromCert (Some c) = Inr j \<and> TenantID j = t \<and> ClusterID j = k"
proof -
  let ?u = "''/'' @ t @ ''/'' @ k"
  have no: "CHR ''#'' \<notin> set (?u @ ''?'' @ rest)" "CHR ''?'' \<notin> set ?u" "CHR ''%'' \<notin> set ?u"
    "\<not> list_ex is_ctl (?u @ ''?'' @ rest)"
    using uri_safe_chars [OF assms(1)] uri_safe_chars [OF assms(2)] assms(3)
    by (auto simp: list_all_iff list_ex_iff)
  have tw: "takeWhile (\<lambda>c. c \<noteq> CHR ''?'') (?u @ ''?'' @ rest) = ?u"
    using no(2) by (subst takeWhile_append2) auto
  have "parse_spiffe_rest (?u @ ''?'' @ rest) = Some \<lparr>Scheme = spiffeScheme, Host = spiffeHost, Path = ?u\<rparr>"
    unfolding parse_spiffe_rest_def Let_def takeWhile_all [OF no(1), THEN conjunct1]
      takeWhile_all [OF no(1), THEN conjunct2] tw
    using no(4) pct_unescape_plain [OF no(3)] by simp
  moreover have "TenantID i \<noteq> []" using assms(1,4) by (simp add: uri_safe_def)
  ultimately have "URIs c = map the (leaf_uris (i\<lparr>ClusterID := k\<rparr>))"
    using assms(1,2,4-6) parse_spiffe_safe [OF assms(1,2)] by (simp add: leaf_uris_def)
  from Extract_template [OF _ _ this] assms(1,2,4) show ?thesis by auto
qed

theorem query_in_cluster_changes_identity_witness:
  "\<exists>j. ExtractFromCert (Some ((caCert demo_signer)\<lparr>URIs := map the (leaf_uris (demo_acme\<lparr>ClusterID := ''c1?x''\<rparr>))\<rparr>)) =
     Inr j \<and> TenantID j = ''acme'' \<and> ClusterID j = ''c1''"
  by (rule query_in_cluster_changes_identity [where rest = "''x''" and i = "demo_acme\<lparr>ClusterID := ''c1?x''\<rparr>"])
    (simp_all add: demo_acme_def uri_safe_def is_ctl_def)

end
