(* ===== verification/Bootstrap.thy ===== *)
theory Bootstrap
  imports Store Signing Tenants
begin

text \<open>
  \<open>internal/auth/bootstrap.go\<close> (first certificate against a one-time token) and
  \<open>internal/auth/renew.go\<close> (renewal by the holder of a certificate). Every reading of a clock
  is a field of \<open>issue_clock\<close>: the handler's, \<open>time.Until\<close>'s, the store's two and the signer's
  two. The mutex around \<open>SetNX\<close> makes no difference: the store's operation is atomic.
\<close>

record BootstrapHandler =
  bh_signer :: Signer
  bh_prefix :: string

record BootstrapInput =
  In_ClusterID :: string
  BootstrapToken :: string
  In_CSRPEM :: string

record BootstrapResult =
  CertificatePEM :: string
  CAPEM :: string

datatype bootstrap_error = ErrBootstrapBadRequest | ErrBootstrapUnauthorized | ErrBootstrapForbidden
  | ErrBootstrapInternal

record issue_clock =
  c_now :: gotime
  c_until :: gotime
  c_store :: gotime
  c_store' :: gotime
  c_sign :: gotime
  c_sign' :: gotime

definition wantHash :: "Tenant \<Rightarrow> string" where
  "wantHash t = TrimPrefix (ToLower (BootstrapTokenHash t)) ''sha256:''"

definition usedKey :: "BootstrapHandler \<Rightarrow> string \<Rightarrow> string" where
  "usedKey h clusterID = bh_prefix h @ ''bootstrap:used:'' @ clusterID"

definition bootstrap_ttl :: "gotime \<Rightarrow> Tenant \<Rightarrow> duration" where
  "bootstrap_ttl now t =
     (let ttl = 24 * hour; d = time_sub (BootstrapExpiresAt t) now
      in if BootstrapExpiresAt t \<noteq> zero_time \<and> d > ttl then d else ttl)"

definition tenant_identity :: "Tenant \<Rightarrow> Identity" where
  "tenant_identity t = \<lparr>TenantID = Ten_TenantID t, ClusterID = Ten_ClusterID t, Id_NotAfter = zero_time,
     Id_Serial = []\<rparr>"

text \<open>The outer option is \<open>None\<close> when signing panics.\<close>

definition Bootstrap_Issue ::
  "x509_ops \<Rightarrow> (bytes \<Rightarrow> bytes) \<Rightarrow> 's store_ops \<Rightarrow> BootstrapHandler \<Rightarrow> Tenants option \<Rightarrow> string + nat \<Rightarrow>
   issue_clock \<Rightarrow> BootstrapInput \<Rightarrow> 's \<Rightarrow> (bootstrap_error + BootstrapResult) option \<times> 's" where
  "Bootstrap_Issue x sha256 ops h tenants serial k inp st =
     (if In_ClusterID inp = [] \<or> BootstrapToken inp = [] \<or> In_CSRPEM inp = []
      then (Some (Inl ErrBootstrapBadRequest), st)
      else if tenants = None then (Some (Inl ErrBootstrapInternal), st)
      else case Lookup tenants (In_ClusterID inp) of
        None \<Rightarrow> (Some (Inl ErrBootstrapUnauthorized), st)
      | Some tenant \<Rightarrow>
          if Revoked tenant then (Some (Inl ErrBootstrapUnauthorized), st)
          else if BootstrapExpiresAt tenant \<noteq> zero_time \<and> c_now k > BootstrapExpiresAt tenant
          then (Some (Inl ErrBootstrapUnauthorized), st)
          else if wantHash tenant \<noteq> hex_encode (sha256 (BootstrapToken inp))
          then (Some (Inl ErrBootstrapUnauthorized), st)
          else case Store_SetNX ops (c_store k) (c_store' k) st (usedKey h (In_ClusterID inp)) [CHR 0x01]
                      (bootstrap_ttl (c_until k) tenant) of
            (Inl e, st1) \<Rightarrow> (Some (Inl ErrBootstrapInternal), st1)
          | (Inr False, st1) \<Rightarrow> (Some (Inl ErrBootstrapUnauthorized), st1)
          | (Inr True, st1) \<Rightarrow>
              (case Sign x serial (c_sign k) (c_sign' k) (bh_signer h) (In_CSRPEM inp)
                      (tenant_identity tenant) (CertDuration tenant) of
                 None \<Rightarrow> (None, st1)
               | Some (Inl e) \<Rightarrow>
                   (Some (Inl ErrBootstrapBadRequest), snd (Store_Delete ops st1 (usedKey h (In_ClusterID inp))))
               | Some (Inr certPEM) \<Rightarrow>
                   (Some (Inr \<lparr>CertificatePEM = certPEM, CAPEM = CACertPEM x (bh_signer h)\<rparr>), st1)))"

section \<open>Renewal\<close>

datatype renew_error = Renew_NoIdentity | ErrRenewBadRequest | ErrRenewForbidden

definition Renew_Issue ::
  "x509_ops \<Rightarrow> Signer \<Rightarrow> Tenants option \<Rightarrow> string + nat \<Rightarrow> gotime \<Rightarrow> gotime \<Rightarrow> Identity option \<Rightarrow> string \<Rightarrow>
   (renew_error + BootstrapResult) option" where
  "Renew_Issue x s tenants serial now now' ident csrPEM =
     (case ident of
        None \<Rightarrow> Some (Inl Renew_NoIdentity)
      | Some i \<Rightarrow>
          if tenants = None then Some (Inl ErrRenewForbidden)
          else
            let tn = Lookup tenants (ClusterID i)
            in if (case tn of None \<Rightarrow> False | Some t \<Rightarrow> Revoked t) then Some (Inl ErrRenewForbidden)
               else if csrPEM = [] then Some (Inl ErrRenewBadRequest)
               else
                 let d = (case tn of
                            None \<Rightarrow> MaxLeafDuration s
                          | Some t \<Rightarrow> if CertDuration t > 0 then CertDuration t else MaxLeafDuration s)
                 in case Sign x serial now now' s csrPEM i d of
                      None \<Rightarrow> None
                    | Some (Inl e) \<Rightarrow> Some (Inl ErrRenewBadRequest)
                    | Some (Inr certPEM) \<Rightarrow>
                        Some (Inr \<lparr>CertificatePEM = certPEM, CAPEM = CACertPEM x s\<rparr>))"

section \<open>Facts\<close>

text \<open>The checks before the token is claimed.\<close>

definition admissible ::
  "(bytes \<Rightarrow> bytes) \<Rightarrow> Tenants option \<Rightarrow> gotime \<Rightarrow> BootstrapInput \<Rightarrow> Tenant \<Rightarrow> bool" where
  "admissible sha256 tenants now inp t \<longleftrightarrow>
     In_ClusterID inp \<noteq> [] \<and> BootstrapToken inp \<noteq> [] \<and> In_CSRPEM inp \<noteq> [] \<and>
     Lookup tenants (In_ClusterID inp) = Some t \<and> \<not> Revoked t \<and>
     (BootstrapExpiresAt t = zero_time \<or> now \<le> BootstrapExpiresAt t) \<and>
     wantHash t = hex_encode (sha256 (BootstrapToken inp))"

lemma Issue_success:
  assumes "Bootstrap_Issue x sha256 ops h tenants serial k inp st = (Some (Inr r), st')"
  obtains t where "admissible sha256 tenants (c_now k) inp t"
    "Store_SetNX ops (c_store k) (c_store' k) st (usedKey h (In_ClusterID inp)) [CHR 0x01]
       (bootstrap_ttl (c_until k) t) = (Inr True, st')"
    "Sign x serial (c_sign k) (c_sign' k) (bh_signer h) (In_CSRPEM inp) (tenant_identity t)
       (CertDuration t) = Some (Inr (CertificatePEM r))"
    "CAPEM r = CACertPEM x (bh_signer h)"
  using assms
  by (auto simp: Bootstrap_Issue_def admissible_def
      split: if_splits option.splits sum.splits bool.splits prod.splits)

lemma Issue_after_checks:
  assumes "admissible sha256 tenants (c_now k) inp t"
  shows "Bootstrap_Issue x sha256 ops h tenants serial k inp st =
    (case Store_SetNX ops (c_store k) (c_store' k) st (usedKey h (In_ClusterID inp)) [CHR 0x01]
            (bootstrap_ttl (c_until k) t) of
       (Inl e, st1) \<Rightarrow> (Some (Inl ErrBootstrapInternal), st1)
     | (Inr False, st1) \<Rightarrow> (Some (Inl ErrBootstrapUnauthorized), st1)
     | (Inr True, st1) \<Rightarrow>
         (case Sign x serial (c_sign k) (c_sign' k) (bh_signer h) (In_CSRPEM inp) (tenant_identity t)
                 (CertDuration t) of
            None \<Rightarrow> (None, st1)
          | Some (Inl e) \<Rightarrow>
              (Some (Inl ErrBootstrapBadRequest), snd (Store_Delete ops st1 (usedKey h (In_ClusterID inp))))
          | Some (Inr certPEM) \<Rightarrow>
              (Some (Inr \<lparr>CertificatePEM = certPEM, CAPEM = CACertPEM x (bh_signer h)\<rparr>), st1)))"
proof -
  have c: "\<not> (In_ClusterID inp = [] \<or> BootstrapToken inp = [] \<or> In_CSRPEM inp = [])"
    "Lookup tenants (In_ClusterID inp) = Some t" "\<not> Revoked t"
    "\<not> (BootstrapExpiresAt t \<noteq> zero_time \<and> c_now k > BootstrapExpiresAt t)"
    "\<not> wantHash t \<noteq> hex_encode (sha256 (BootstrapToken inp))"
    using assms unfolding admissible_def not_less [symmetric] by blast+
  have n: "\<not> tenants = None" using c(2) by (cases tenants) (simp_all add: Lookup_def)
  show ?thesis
    unfolding Bootstrap_Issue_def if_not_P [OF c(1)] if_not_P [OF n] c(2) option.case if_not_P [OF c(3)]
      if_not_P [OF c(4)] if_not_P [OF c(5)] by (rule refl)
qed

lemma Issue_refused:
  assumes "\<And>t. \<not> admissible sha256 tenants (c_now k) inp t"
  shows "\<exists>e. Bootstrap_Issue x sha256 ops h tenants serial k inp st = (Some (Inl e), st)"
proof (cases "Lookup tenants (In_ClusterID inp)")
  case (Some t)
  with assms [of t] show ?thesis by (auto simp: Bootstrap_Issue_def admissible_def not_le)
qed (auto simp: Bootstrap_Issue_def)

context kv_store
begin

lemma bootstrap_claimed_refused:
  assumes inv: "inv st" and now: "0 \<le> c_store' k1"
    and first: "Bootstrap_Issue x1 sha256 ops h tenants1 serial1 k1 inp1 st = (Some (Inr r), st1)"
    and same: "In_ClusterID inp2 = In_ClusterID inp1"
    and t1: "Lookup tenants1 (In_ClusterID inp1) = Some t1"
    and held: "held (c_store' k1) (bootstrap_ttl (c_until k1) t1) (c_store k2)"
    and evs: "list_all (spares (c_store k2) (usedKey h (In_ClusterID inp1))) evs"
    and s: "s = store_run ops background evs st1"
  shows "\<exists>e. Bootstrap_Issue x2 sha256 ops h tenants2 serial2 k2 inp2 s = (Some (Inl e), s)"
proof (cases "\<exists>t2. admissible sha256 tenants2 (c_now k2) inp2 t2")
  case True
  then obtain t2 where t2: "admissible sha256 tenants2 (c_now k2) inp2 t2" by blast
  from Issue_success [OF first] t1 have set: "Store_SetNX ops (c_store k1) (c_store' k1) st
      (usedKey h (In_ClusterID inp1)) [CHR 0x01] (bootstrap_ttl (c_until k1) t1) = (Inr True, st1)"
    by (metis admissible_def option.inject)
  from setnx_exclusive [OF inv now set evs held]
  show ?thesis by (simp add: Issue_after_checks [OF t2] same s)
next
  case False
  then show ?thesis by (intro Issue_refused) auto
qed

lemma bootstrap_rolled_back:
  assumes inv: "inv st" and now: "0 \<le> c_store' k" and adm: "admissible sha256 tenants (c_now k) inp t"
    and free: "live (c_store k) st (usedKey h (In_ClusterID inp)) = None"
    and sign: "Sign x serial (c_sign k) (c_sign' k) (bh_signer h) (In_CSRPEM inp) (tenant_identity t)
      (CertDuration t) = Some (Inl e)"
    and run: "Bootstrap_Issue x sha256 ops h tenants serial k inp st = (res, st')"
  shows "res = Some (Inl ErrBootstrapBadRequest) \<and> inv st' \<and>
    (\<forall>u. live u st' (usedKey h (In_ClusterID inp)) = None) \<and>
    (\<forall>u key. key \<noteq> usedKey h (In_ClusterID inp) \<longrightarrow> live u st' key = live u st key)"
proof -
  let ?key = "usedKey h (In_ClusterID inp)" and ?ttl = "bootstrap_ttl (c_until k) t"
  obtain st1 where st1: "st1 = snd (Store_SetNX ops (c_store k) (c_store' k) st ?key [CHR 0x01] ?ttl)" by blast
  have set: "Store_SetNX ops (c_store k) (c_store' k) st ?key [CHR 0x01] ?ttl = (Inr True, st1)"
    using setnx_result [OF inv] free st1 by (intro prod_eqI) simp_all
  have st': "st' = snd (Store_Delete ops st1 ?key)" and res: "res = Some (Inl ErrBootstrapBadRequest)"
    using run unfolding Issue_after_checks [OF adm] set by (simp_all add: sign)
  have i1: "inv st1" using setnx_inv [OF inv] st1 by simp
  have "live u st1 key = live u st key" if "key \<noteq> ?key" for u key
    using that set_live [OF inv now] by (simp add: st1 setnx_absent [OF inv free])
  then show ?thesis
    using res delete_inv [OF i1] by (simp add: st' delete_live [OF i1])
qed

end

section \<open>Properties of the bootstrap path over the in-memory store\<close>

lemma bootstrap_ttl_ge:
  assumes "BootstrapExpiresAt t \<noteq> zero_time" "in_int64 (BootstrapExpiresAt t - now)"
  shows "BootstrapExpiresAt t - now \<le> bootstrap_ttl now t"
proof -
  have "time_sub (BootstrapExpiresAt t) now = BootstrapExpiresAt t - now"
    using assms(2) by (simp add: time_sub_def in_int64_def)
  with assms(1) show ?thesis by (simp add: bootstrap_ttl_def Let_def)
qed

text \<open>C35: A bootstrap token with an expiry date works once. After a certificate was issued for a
  cluster, no later request for that cluster gets one, with whatever token, CSR, tenant list or
  signer, as long as the expiry date is unchanged and other store operations leave the marker
  alone: until the expiry the marker stands, after it the date check refuses. The condition on
  the clocks is on the delay between the handler's reading and the store's.\<close>

theorem bootstrap_token_single_use:
  assumes "memory_inv st" and "0 \<le> c_store' k1"
    and first: "Bootstrap_Issue x1 sha256 memory_ops h tenants1 serial1 k1 inp1 st = (Some (Inr r), st1)"
    and "In_ClusterID inp2 = In_ClusterID inp1"
    and t1: "Lookup tenants1 (In_ClusterID inp1) = Some t1" and "BootstrapExpiresAt t1 \<noteq> zero_time"
    and "in_int64 (BootstrapExpiresAt t1 - c_until k1)"
    and t2: "Lookup tenants2 (In_ClusterID inp1) = Some t2" and "BootstrapExpiresAt t2 = BootstrapExpiresAt t1"
    and "c_store k2 - c_now k2 \<le> c_store' k1 - c_until k1"
    and "list_all (spares (c_store k2) (usedKey h (In_ClusterID inp1))) evs"
    and "s = store_run memory_ops Memory_background evs st1"
  shows "\<exists>e. Bootstrap_Issue x2 sha256 memory_ops h tenants2 serial2 k2 inp2 s = (Some (Inl e), s)"
proof (cases "c_now k2 \<le> BootstrapExpiresAt t1")
  case True
  have "c_store k2 \<le> c_store' k1 + bootstrap_ttl (c_until k1) t1"
    using True assms(10) bootstrap_ttl_ge [OF assms(6,7)] by linarith
  then have "held (c_store' k1) (bootstrap_ttl (c_until k1) t1) (c_store k2)" by (simp add: held_def)
  from mem.bootstrap_claimed_refused [OF assms(1,2) first assms(4) t1 this assms(11,12)] show ?thesis .
next
  case False
  have "\<not> admissible sha256 tenants2 (c_now k2) inp2 t" for t
    using False assms(4,6,9) t2 unfolding admissible_def by fastforce
  then show ?thesis by (rule Issue_refused)
qed

text \<open>A tenant whose token is \<open>t\<close> under the stand-in digest, and a run of the handler for it.\<close>

definition demo_boot_tenant :: "gotime \<Rightarrow> Tenant" where
  "demo_boot_tenant expires = demo_tenant\<lparr>BootstrapTokenHash := ''sha256:'' @ hex_encode (pad32 ''t''),
     BootstrapExpiresAt := expires\<rparr>"

definition demo_boot_tenants :: "gotime \<Rightarrow> Tenants option" where
  "demo_boot_tenants expires = Some \<lparr>byCluster = [(''c1'', demo_boot_tenant expires)]\<rparr>"

definition demo_clock :: "gotime \<Rightarrow> issue_clock" where
  "demo_clock t = \<lparr>c_now = t, c_until = t, c_store = t, c_store' = t, c_sign = 0, c_sign' = 0\<rparr>"

definition demo_input :: BootstrapInput where
  "demo_input = \<lparr>In_ClusterID = ''c1'', BootstrapToken = ''t'', In_CSRPEM = demo_pem ''CERTIFICATE REQUEST'' []\<rparr>"

definition demo_handler :: BootstrapHandler where
  "demo_handler = \<lparr>bh_signer = demo_signer, bh_prefix = ''m:''\<rparr>"

lemma ToLower_hex: "list_all is_lower_hex s \<Longrightarrow> ToLower s = s"
proof (induction s)
  case (Cons c s)
  then have "lower_char c = c" "c \<noteq> CHR 0xE2" "c \<noteq> CHR 0xC4"
    by (auto simp: is_lower_hex_def is_digit_def lower_char_def)
  with Cons show ?case by simp
qed simp

lemma ToLower_sha: "ToLower (''sha256:'' @ s) = ''sha256:'' @ ToLower s"
  by (simp add: lower_char_def)

lemma demo_hash: "wantHash (demo_boot_tenant e) = hex_encode (pad32 ''t'')"
proof -
  have "BootstrapTokenHash (demo_boot_tenant e) = ''sha256:'' @ hex_encode (pad32 ''t'')"
    by (simp add: demo_boot_tenant_def)
  then show ?thesis
    unfolding wantHash_def by (simp only: ToLower_sha ToLower_hex [OF hex_encode_lower_hex]) (simp add: go_defs)
qed

lemma demo_admissible:
  "e = zero_time \<or> t \<le> e \<Longrightarrow>
     admissible pad32 (demo_boot_tenants e) (c_now (demo_clock t)) demo_input (demo_boot_tenant e)"
  unfolding admissible_def demo_hash
  by (auto simp: demo_input_def demo_boot_tenants_def Lookup_def demo_boot_tenant_def demo_tenant_def
      demo_clock_def demo_pem_def)

lemma demo_boot_sign:
  "Sign (demo_x509 (demo_leaf 0 demo_day)) (Inr 5) (c_sign (demo_clock t)) (c_sign' (demo_clock t))
     (bh_signer demo_handler) (In_CSRPEM demo_input) (tenant_identity (demo_boot_tenant e))
     (CertDuration (demo_boot_tenant e)) = Some (Inr (demo_pem ''CERTIFICATE'' ''der''))"
  using demo_Sign [of 0 demo_day "[]"] Sign_identity_cong [of "tenant_identity (demo_boot_tenant e)" demo_acme]
  by (simp add: demo_clock_def demo_handler_def demo_input_def demo_boot_tenant_def demo_tenant_def
      tenant_identity_def demo_acme_def)

lemma demo_issue:
  assumes "memory_inv st" "memory_live t st (usedKey demo_handler ''c1'') = None" "e = zero_time \<or> t \<le> e"
  shows "\<exists>r. Bootstrap_Issue (demo_x509 (demo_leaf 0 demo_day)) pad32 memory_ops demo_handler
    (demo_boot_tenants e) (Inr 5) (demo_clock t) demo_input st =
    (Some (Inr r), snd (Store_SetNX memory_ops t t st (usedKey demo_handler ''c1'') [CHR 0x01]
       (bootstrap_ttl t (demo_boot_tenant e))))"
proof -
  obtain st1 where st1: "st1 = snd (Store_SetNX memory_ops t t st (usedKey demo_handler ''c1'') [CHR 0x01]
      (bootstrap_ttl t (demo_boot_tenant e)))" by blast
  then have set: "Store_SetNX memory_ops t t st (usedKey demo_handler ''c1'') [CHR 0x01]
      (bootstrap_ttl t (demo_boot_tenant e)) = (Inr True, st1)"
    using mem.setnx_result [OF assms(1)] assms(2) by (intro prod_eqI) simp_all
  have c: "c_store (demo_clock t) = t" "c_store' (demo_clock t) = t" "c_until (demo_clock t) = t"
    "In_ClusterID demo_input = ''c1''"
    by (simp_all add: demo_clock_def demo_input_def)
  show ?thesis
    unfolding Issue_after_checks [OF demo_admissible [OF assms(3)]] c set by (simp add: demo_boot_sign)
qed

lemma demo_empty: "memory_inv NewMemory" "memory_live t NewMemory k = None"
  by (simp_all add: memory_inv_def NewMemory_def memory_live_def)

theorem bootstrap_token_single_use_witness:
  "\<exists>r st1. Bootstrap_Issue (demo_x509 (demo_leaf 0 demo_day)) pad32 memory_ops demo_handler
       (demo_boot_tenants hour) (Inr 5) (demo_clock second) demo_input NewMemory = (Some (Inr r), st1) \<and>
     (\<exists>e. Bootstrap_Issue (demo_x509 (demo_leaf 0 demo_day)) pad32 memory_ops demo_handler
       (demo_boot_tenants hour) (Inr 5) (demo_clock minute) demo_input st1 = (Some (Inl e), st1))"
proof -
  have "hour = zero_time \<or> second \<le> hour" by simp
  from demo_issue [OF demo_empty this] obtain r st1 where
    a: "Bootstrap_Issue (demo_x509 (demo_leaf 0 demo_day)) pad32 memory_ops demo_handler
       (demo_boot_tenants hour) (Inr 5) (demo_clock second) demo_input NewMemory = (Some (Inr r), st1)"
    by blast
  have l: "Lookup (demo_boot_tenants hour) (In_ClusterID demo_input) = Some (demo_boot_tenant hour)"
    by (simp add: demo_boot_tenants_def demo_input_def Lookup_def)
  have e: "BootstrapExpiresAt (demo_boot_tenant e) = e" for e by (simp add: demo_boot_tenant_def)
  have run: "st1 = store_run memory_ops Memory_background [] st1" by (simp add: store_run_def)
  have "\<exists>e. Bootstrap_Issue (demo_x509 (demo_leaf 0 demo_day)) pad32 memory_ops demo_handler
       (demo_boot_tenants hour) (Inr 5) (demo_clock minute) demo_input st1 = (Some (Inl e), st1)"
    by (rule bootstrap_token_single_use [OF demo_empty(1) _ a refl l _ _ l refl _ _ run])
      (simp_all add: e demo_clock_def zero_time_def in_int64_def)
  with a show ?thesis by blast
qed

text \<open>Without an expiry date the token is not one-time: the marker lives 24 hours, and after
  that the same token is accepted again.\<close>

theorem bootstrap_token_reusable_after_a_day:
  "\<exists>r st1 r' st2.
     Bootstrap_Issue (demo_x509 (demo_leaf 0 demo_day)) pad32 memory_ops demo_handler
       (demo_boot_tenants zero_time) (Inr 5) (demo_clock second) demo_input NewMemory = (Some (Inr r), st1) \<and>
     Bootstrap_Issue (demo_x509 (demo_leaf 0 demo_day)) pad32 memory_ops demo_handler
       (demo_boot_tenants zero_time) (Inr 5) (demo_clock (second + 24 * hour + 1)) demo_input st1 =
       (Some (Inr r'), st2)"
proof -
  let ?k = "usedKey demo_handler ''c1''" and ?t2 = "second + 24 * hour + 1"
  obtain st1 where st1: "st1 = snd (Store_SetNX memory_ops second second NewMemory ?k [CHR 0x01]
      (bootstrap_ttl second (demo_boot_tenant zero_time)))" by blast
  have inv: "memory_inv st1" unfolding st1 by (rule mem.setnx_inv [OF demo_empty(1)])
  have "bootstrap_ttl second (demo_boot_tenant zero_time) = 24 * hour"
    by (simp add: bootstrap_ttl_def demo_boot_tenant_def)
  then have gone: "memory_live ?t2 st1 ?k = None"
    unfolding st1 using mem.setnx_live_after [OF demo_empty(1) _ demo_empty(2)] by (simp add: held_def)
  from demo_issue [OF demo_empty, of zero_time second] demo_issue [OF inv gone, of zero_time] st1
  show ?thesis by blast
qed

text \<open>C36: A failed signing does not burn the token: the marker is removed again, everything else
  in the store is as before, so the next request can succeed.\<close>

theorem bootstrap_failure_rolls_back:
  assumes "memory_inv st" and "0 \<le> c_store' k" and "admissible sha256 tenants (c_now k) inp t"
    and "memory_live (c_store k) st (usedKey h (In_ClusterID inp)) = None"
    and "Sign x serial (c_sign k) (c_sign' k) (bh_signer h) (In_CSRPEM inp) (tenant_identity t)
      (CertDuration t) = Some (Inl e)"
    and "Bootstrap_Issue x sha256 memory_ops h tenants serial k inp st = (res, st')"
  shows "res = Some (Inl ErrBootstrapBadRequest) \<and> memory_inv st' \<and>
    (\<forall>u. memory_live u st' (usedKey h (In_ClusterID inp)) = None) \<and>
    (\<forall>u key. key \<noteq> usedKey h (In_ClusterID inp) \<longrightarrow> memory_live u st' key = memory_live u st key)"
  using assms by (rule mem.bootstrap_rolled_back)

theorem bootstrap_failure_rolls_back_witness:
  "\<exists>st'. Bootstrap_Issue (demo_x509 (demo_leaf 0 0)) pad32 memory_ops demo_handler (demo_boot_tenants zero_time)
      (Inl ''no entropy'') (demo_clock second) demo_input NewMemory = (Some (Inl ErrBootstrapBadRequest), st') \<and>
    (\<forall>u. memory_live u st' (usedKey demo_handler ''c1'') = None)"
proof -
  obtain res st' where i: "Bootstrap_Issue (demo_x509 (demo_leaf 0 0)) pad32 memory_ops demo_handler
      (demo_boot_tenants zero_time) (Inl ''no entropy'') (demo_clock second) demo_input NewMemory = (res, st')"
    by fastforce
  have "Sign (demo_x509 (demo_leaf 0 0)) (Inl ''no entropy'') (c_sign (demo_clock second))
      (c_sign' (demo_clock second)) (bh_signer demo_handler) (In_CSRPEM demo_input)
      (tenant_identity (demo_boot_tenant zero_time)) (CertDuration (demo_boot_tenant zero_time)) =
      Some (Inl (Sign_serial ''no entropy''))"
    by (simp add: Sign_def parseCSRPEM_def demo_x509_def demo_input_def demo_pem_inverse)
  from bootstrap_failure_rolls_back [OF demo_empty(1) _ demo_admissible demo_empty(2) this i] i
  show ?thesis by (auto simp: demo_clock_def demo_input_def)
qed

text \<open>C37: Renewal never changes who you are: a renewed certificate carries the caller's own tenant
  and cluster (when both names are non-empty and free of slashes, question marks, hashes, percent signs and control characters), a caller without identity, with no tenant list, or whose tenant is revoked gets
  none, and its lifetime is bounded by the signer's maximum.\<close>

theorem renewal_keeps_identity:
  assumes "x509_faithful x" and "Renew_Issue x s tenants serial now now' ident csrPEM = Some (Inr r)"
  shows "\<exists>i. ident = Some i \<and> tenants \<noteq> None \<and>
    (\<forall>t. Lookup tenants (ClusterID i) = Some t \<longrightarrow> \<not> Revoked t) \<and>
    (uri_safe (TenantID i) \<longrightarrow> uri_safe (ClusterID i) \<longrightarrow>
      (\<exists>c j. parseCertPEM x (CertificatePEM r) = Inr c \<and> ExtractFromCert (Some c) = Inr j \<and>
         TenantID j = TenantID i \<and> ClusterID j = ClusterID i \<and> NotAfter c \<le> now' + MaxLeafDuration s))"
proof -
  from assms(2) obtain i d where i: "ident = Some i" "tenants \<noteq> None"
    "\<forall>t. Lookup tenants (ClusterID i) = Some t \<longrightarrow> \<not> Revoked t"
    "Sign x serial now now' s csrPEM i d = Some (Inr (CertificatePEM r))"
    by (auto simp: Renew_Issue_def Let_def split: option.splits if_splits sum.splits)
  show ?thesis
  proof (intro exI [of _ i] conjI impI i(1,2,3))
    assume "uri_safe (TenantID i)" "uri_safe (ClusterID i)"
    from Sign_identity [OF assms(1) i(4) this]
    show "\<exists>c j. parseCertPEM x (CertificatePEM r) = Inr c \<and> ExtractFromCert (Some c) = Inr j \<and>
         TenantID j = TenantID i \<and> ClusterID j = ClusterID i \<and> NotAfter c \<le> now' + MaxLeafDuration s"
      by blast
  qed
qed

lemma demo_day_pos: "0 < demo_day"
  by (simp add: demo_day_def)

theorem renewal_keeps_identity_witness:
  "\<exists>r c j. Renew_Issue (demo_x509 (demo_leaf 0 demo_day)) demo_signer (demo_boot_tenants zero_time) (Inr 5) 0 0
      (Some demo_acme) (demo_pem ''CERTIFICATE REQUEST'' []) = Some (Inr r) \<and>
    parseCertPEM (demo_x509 (demo_leaf 0 demo_day)) (CertificatePEM r) = Inr c \<and>
    ExtractFromCert (Some c) = Inr j \<and> ClusterID j = ''c1''"
proof -
  let ?x = "demo_x509 (demo_leaf 0 demo_day)"
  have l: "Lookup (demo_boot_tenants zero_time) (ClusterID demo_acme) = Some (demo_boot_tenant zero_time)"
    "\<not> Revoked (demo_boot_tenant zero_time)" "CertDuration (demo_boot_tenant zero_time) = demo_day"
    "demo_boot_tenants zero_time \<noteq> None" "demo_pem ''CERTIFICATE REQUEST'' [] \<noteq> []"
    by (simp_all add: demo_boot_tenants_def Lookup_def demo_acme_def demo_boot_tenant_def demo_tenant_def demo_pem_def)
  obtain r where r: "Renew_Issue ?x demo_signer (demo_boot_tenants zero_time) (Inr 5) 0 0 (Some demo_acme)
      (demo_pem ''CERTIFICATE REQUEST'' []) = Some (Inr r)"
    using demo_Sign [of 0 demo_day "[]"] l by (simp add: Renew_Issue_def demo_day_pos)
  from renewal_keeps_identity [OF demo_x509_faithful r] demo_acme_safe r show ?thesis
    by (auto simp: demo_signer_def demo_acme_def)
qed

end
