(* ===== verification/Quoting.thy ===== *)
theory Quoting
  imports Encoding
begin

text \<open>
  Textual encodings of the signature headers: \<open>strconv.Unquote\<close>, the quoting of plain ASCII
  text by \<open>%q\<close>, and \<open>base64.StdEncoding\<close>.
\<close>

section \<open>Quoted strings\<close>

text \<open>\<open>strconv.Quote\<close> (and \<open>%q\<close>) of text without quotes, backslashes, control or non-ASCII
  characters, which is all the signature headers quote; \<open>QuoteText\<close> is the general case.\<close>

definition Quote :: "string \<Rightarrow> string" where
  "Quote s = [CHR 0x22] @ s @ [CHR 0x22]"

definition utf8_encode :: "nat \<Rightarrow> string" where
  "utf8_encode r =
     (if r < 0x80 then [char_of r]
      else if r < 0x800 then [char_of (0xC0 + r div 64), char_of (0x80 + r mod 64)]
      else if r < 0x10000
      then [char_of (0xE0 + r div 4096), char_of (0x80 + r div 64 mod 64), char_of (0x80 + r mod 64)]
      else [char_of (0xF0 + r div 262144), char_of (0x80 + r div 4096 mod 64),
            char_of (0x80 + r div 64 mod 64), char_of (0x80 + r mod 64)])"

text \<open>The general \<open>strconv.Quote\<close>; \<open>isPrint\<close> is the Unicode table \<open>strconv.IsPrint\<close> on the
  encoding of a non-ASCII rune.\<close>

definition rune_value :: "string \<Rightarrow> nat" where
  "rune_value bs =
     (case map of_char bs of
        [a] \<Rightarrow> a
      | [a, b] \<Rightarrow> (a - 0xC0) * 64 + (b - 0x80)
      | [a, b, c] \<Rightarrow> (a - 0xE0) * 4096 + (b - 0x80) * 64 + (c - 0x80)
      | [a, b, c, d] \<Rightarrow> (a - 0xF0) * 262144 + (b - 0x80) * 4096 + (c - 0x80) * 64 + (d - 0x80)
      | _ \<Rightarrow> 0)"

definition hex_byte :: "nat \<Rightarrow> string" where
  "hex_byte n = [hex_digit (n div 16 mod 16), hex_digit (n mod 16)]"

definition quote_rune :: "(string \<Rightarrow> bool) \<Rightarrow> bool \<times> string \<Rightarrow> string" where
  "quote_rune isPrint r =
     (case r of
        (False, bs) \<Rightarrow> CHR 0x5C # CHR ''x'' # hex_byte (rune_value bs)
      | (True, bs) \<Rightarrow>
          (let v = rune_value bs
           in if v = 0x22 \<or> v = 0x5C then CHR 0x5C # bs
              else if v < 0x80 \<and> 0x20 \<le> v \<and> v \<noteq> 0x7F \<or> 0x80 \<le> v \<and> isPrint bs then bs
              else if v = 7 then [CHR 0x5C, CHR ''a''] else if v = 8 then [CHR 0x5C, CHR ''b'']
              else if v = 12 then [CHR 0x5C, CHR ''f''] else if v = 10 then [CHR 0x5C, CHR ''n'']
              else if v = 13 then [CHR 0x5C, CHR ''r''] else if v = 9 then [CHR 0x5C, CHR ''t'']
              else if v = 11 then [CHR 0x5C, CHR ''v'']
              else if v < 0x20 \<or> v = 0x7F then CHR 0x5C # CHR ''x'' # hex_byte v
              else if v < 0x10000 then CHR 0x5C # CHR ''u'' # hex4 v
              else CHR 0x5C # CHR ''U'' # hex4 (v div 65536) @ hex4 (v mod 65536)))"

definition QuoteText :: "(string \<Rightarrow> bool) \<Rightarrow> string \<Rightarrow> string" where
  "QuoteText isPrint s = [CHR 0x22] @ concat (map (quote_rune isPrint) (runes s)) @ [CHR 0x22]"

definition nibble :: "char \<Rightarrow> nat" where
  "nibble c = (let n = of_char c in if n \<ge> 97 then n - 87 else if n \<ge> 65 then n - 55 else n - 48)"

definition hex_number :: "string \<Rightarrow> nat option" where
  "hex_number s = (if list_all is_hex s then Some (foldl (\<lambda>v c. 16 * v + nibble c) 0 s) else None)"

definition is_octal :: "char \<Rightarrow> bool" where
  "is_octal c \<longleftrightarrow> byte_in 48 55 c"

definition simple_escapes :: "(char \<times> char) list" where
  "simple_escapes = [(CHR ''a'', CHR 0x07), (CHR ''b'', CHR 0x08), (CHR ''f'', CHR 0x0C), (CHR ''n'', CHR 0x0A),
     (CHR ''r'', CHR 0x0D), (CHR ''t'', CHR 0x09), (CHR ''v'', CHR 0x0B), (CHR 0x5C, CHR 0x5C)]"

text \<open>\<open>strconv.UnquoteChar\<close>: the bytes of the next character and the rest.\<close>

definition UnquoteChar :: "string \<Rightarrow> char \<Rightarrow> (string \<times> string) option" where
  "UnquoteChar s quote =
     (case s of
        [] \<Rightarrow> None
      | c # s1 \<Rightarrow>
          if c = quote then None
          else if \<not> byte_in 0 0x7F c then
            (let n = rune_len s
             in if n = 0 then Some ([CHR 0xEF, CHR 0xBF, CHR 0xBD], s1) else Some (take n s, drop n s))
          else if c \<noteq> CHR 0x5C then Some ([c], s1)
          else case s1 of
            [] \<Rightarrow> None
          | e # s2 \<Rightarrow>
              (case map_of simple_escapes e of
                 Some b \<Rightarrow> Some ([b], s2)
               | None \<Rightarrow>
                   if e = CHR ''x'' then
                     (if length s2 < 2 then None
                      else map_option (\<lambda>v. ([char_of v], drop 2 s2)) (hex_number (take 2 s2)))
                   else if e = CHR ''u'' \<or> e = CHR ''U'' then
                     (let n = (if e = CHR ''u'' then 4 else 8)
                      in if length s2 < n then None
                         else case hex_number (take n s2) of
                                None \<Rightarrow> None
                              | Some v \<Rightarrow> if v > 0x10FFFF \<or> 0xD800 \<le> v \<and> v \<le> 0xDFFF then None
                                          else Some (utf8_encode v, drop n s2))
                   else if is_octal e then
                     (case s2 of
                        a # b # s3 \<Rightarrow>
                          if is_octal a \<and> is_octal b
                          then let v = 64 * digit_val e + 8 * digit_val a + digit_val b
                               in if v > 255 then None else Some ([char_of v], s3)
                          else None
                      | _ \<Rightarrow> None)
                   else if e = CHR 0x27 \<or> e = CHR 0x22 then (if e = quote then Some ([e], s2) else None)
                   else None))"

text \<open>The loop of \<open>Unquote\<close>; every round consumes at least one byte.\<close>

fun unquote_loop :: "nat \<Rightarrow> char \<Rightarrow> string \<Rightarrow> (string \<times> string) option" where
  "unquote_loop 0 quote s = Some ([], s)"
| "unquote_loop (Suc n) quote s =
     (case s of
        [] \<Rightarrow> Some ([], [])
      | c # _ \<Rightarrow>
          if c = quote then Some ([], s)
          else if c = CHR 0x0A then None
          else case UnquoteChar s quote of
                 None \<Rightarrow> None
               | Some (b, rest) \<Rightarrow>
                   if quote = CHR 0x27 then Some (b, rest)
                   else map_option (apfst ((@) b)) (unquote_loop n quote rest))"

definition Unquote :: "string \<Rightarrow> string option" where
  "Unquote s =
     (case s of
        q # body \<Rightarrow>
          if q \<notin> set body then None
          else if q = CHR 0x60 then
            (if dropWhile (\<lambda>c. c \<noteq> q) body = [q]
             then Some (filter (\<lambda>c. c \<noteq> CHR 0x0D) (takeWhile (\<lambda>c. c \<noteq> q) body)) else None)
          else if q = CHR 0x22 \<or> q = CHR 0x27 then
            (case unquote_loop (length body) q body of
               None \<Rightarrow> None
             | Some (out, rest) \<Rightarrow> if rest = [q] then Some out else None)
          else None
      | [] \<Rightarrow> None)"

text \<open>Text that quoting leaves alone.\<close>

definition plain_text :: "string \<Rightarrow> bool" where
  "plain_text s \<longleftrightarrow> list_all (\<lambda>c. byte_in 0x20 0x7E c \<and> c \<noteq> CHR 0x22 \<and> c \<noteq> CHR 0x5C) s"

lemma unquote_loop_plain:
  "plain_text s \<Longrightarrow> length s < n \<Longrightarrow> unquote_loop n (CHR 0x22) (s @ [CHR 0x22]) = Some (s, [CHR 0x22])"
proof (induction s arbitrary: n)
  case Nil
  then show ?case by (cases n) simp_all
next
  case (Cons c s)
  then obtain m where n: "n = Suc m" by (cases n) auto
  have c: "byte_in 0 0x7F c" "c \<noteq> CHR 0x22" "c \<noteq> CHR 0x5C" "c \<noteq> CHR 0x0A" "plain_text s"
    using Cons.prems by (auto simp: plain_text_def byte_in_def)
  then have "UnquoteChar (c # s @ [CHR 0x22]) (CHR 0x22) = Some ([c], s @ [CHR 0x22])"
    by (simp add: UnquoteChar_def)
  with Cons c n show ?case by simp
qed

lemma Unquote_Quote: "plain_text s \<Longrightarrow> Unquote (Quote s) = Some s"
  using unquote_loop_plain [of s "length (s @ [CHR 0x22])"]
  by (simp add: Unquote_def Quote_def del: unquote_loop.simps)

section \<open>Base64\<close>

definition b64_alphabet :: string where
  "b64_alphabet = ''ABCDEFGHIJKLMNOPQRSTUVWXYZabcdefghijklmnopqrstuvwxyz0123456789+/''"

definition b64_char :: "nat \<Rightarrow> char" where
  "b64_char n = b64_alphabet ! n"

definition b64_val :: "char \<Rightarrow> nat option" where
  "b64_val c =
     (let n = of_char c
      in if 65 \<le> n \<and> n \<le> 90 then Some (n - 65)
         else if 97 \<le> n \<and> n \<le> 122 then Some (n - 71)
         else if 48 \<le> n \<and> n \<le> 57 then Some (n + 4)
         else if c = CHR ''+'' then Some 62 else if c = CHR ''/'' then Some 63 else None)"

fun b64_encode :: "bytes \<Rightarrow> string" where
  "b64_encode (a # b # c # rest) =
     (let v = 65536 * of_char a + 256 * of_char b + of_char c
      in [b64_char (v div 262144), b64_char (v div 4096 mod 64), b64_char (v div 64 mod 64),
          b64_char (v mod 64)] @ b64_encode rest)"
| "b64_encode [a, b] =
     (let v = 65536 * of_char a + 256 * of_char b
      in [b64_char (v div 262144), b64_char (v div 4096 mod 64), b64_char (v div 64 mod 64), CHR ''=''])"
| "b64_encode [a] =
     (let v = 65536 * of_char a
      in [b64_char (v div 262144), b64_char (v div 4096 mod 64), CHR ''='', CHR ''=''])"
| "b64_encode [] = []"

text \<open>\<open>DecodeString\<close> skips line breaks, wants complete quads and padding only at the end, and
  does not check the unused bits of a padded quad.\<close>

fun b64_quads :: "string \<Rightarrow> bytes option" where
  "b64_quads [] = Some []"
| "b64_quads (p # q # r # s # rest) =
     (case (b64_val p, b64_val q) of
        (Some a, Some b) \<Rightarrow>
          if r = CHR ''='' then
            (if s = CHR ''='' \<and> rest = [] then Some [char_of ((64 * a + b) div 16)] else None)
          else (case b64_val r of
                  None \<Rightarrow> None
                | Some c \<Rightarrow>
                    let w = 4096 * a + 64 * b + c
                    in if s = CHR ''='' then
                         (if rest = [] then Some [char_of (w div 1024), char_of (w div 4 mod 256)] else None)
                       else case b64_val s of
                              None \<Rightarrow> None
                            | Some d \<Rightarrow>
                                map_option ((@) [char_of (w div 1024), char_of (w div 4 mod 256),
                                  char_of (64 * (w mod 4) + d)]) (b64_quads rest))
      | _ \<Rightarrow> None)"
| "b64_quads _ = None"

definition b64_decode :: "string \<Rightarrow> bytes option" where
  "b64_decode s = b64_quads (filter (\<lambda>c. c \<noteq> CHR 0x0A \<and> c \<noteq> CHR 0x0D) s)"

lemma b64_val_char:
  assumes "n < 64"
  shows "b64_val (b64_char n) = Some n \<and> b64_char n \<noteq> CHR ''='' \<and> b64_char n \<noteq> CHR 0x0A \<and>
    b64_char n \<noteq> CHR 0x0D \<and> b64_char n \<noteq> CHR '':''"
proof -
  have "list_all (\<lambda>n. b64_val (b64_char n) = Some n \<and> b64_char n \<noteq> CHR ''='' \<and> b64_char n \<noteq> CHR 0x0A \<and>
    b64_char n \<noteq> CHR 0x0D \<and> b64_char n \<noteq> CHR '':'') [0..<64]"
    by (simp add: b64_char_def b64_alphabet_def b64_val_def upt_rec numeral_nat)
  then show ?thesis using assms by (simp add: list_all_iff)
qed

lemma char_of_of_char [simp]: "char_of (of_char c :: nat) = (c :: char)"
  by (rule char_of_char)

lemma div_part: "x < k \<Longrightarrow> (k * a + x) div k = (a :: nat)"
  by simp

lemma mod_part: "x < k \<Longrightarrow> (k * a + x) mod k = (x :: nat)"
  by simp

text \<open>The four sextets of three bytes, put together again.\<close>

lemma sextets:
  fixes v :: nat
  shows "64 * (v div 262144) + v div 4096 mod 64 = v div 4096"
    "4096 * (v div 262144) + 64 * (v div 4096 mod 64) + v div 64 mod 64 = v div 64"
proof -
  have d: "v div 262144 = v div 4096 div 64" "v div 4096 = v div 64 div 64"
    by (simp_all add: div_mult2_eq [symmetric])
  show a: "64 * (v div 262144) + v div 4096 mod 64 = v div 4096"
    unfolding d(1) by simp
  have "4096 * (v div 262144) + 64 * (v div 4096 mod 64) = 64 * (64 * (v div 262144) + v div 4096 mod 64)"
    by simp
  also have "\<dots> = 64 * (v div 64 div 64)" by (simp only: a) (simp only: d(2))
  finally show "4096 * (v div 262144) + 64 * (v div 4096 mod 64) + v div 64 mod 64 = v div 64"
    by simp
qed

lemma byte_split:
  fixes a b c :: nat
  assumes "a < 256" "b < 256" "c < 256" and v: "v = 65536 * a + 256 * b + c"
  shows "v div 262144 < 64" "(4096 * (v div 262144) + 64 * (v div 4096 mod 64) + v div 64 mod 64) div 1024 = a"
    "(4096 * (v div 262144) + 64 * (v div 4096 mod 64) + v div 64 mod 64) div 4 mod 256 = b"
    "64 * ((4096 * (v div 262144) + 64 * (v div 4096 mod 64) + v div 64 mod 64) mod 4) + v mod 64 = c"
    "(64 * (v div 262144) + v div 4096 mod 64) div 16 = a"
proof -
  have r: "c div 64 < 4" using assms(3) by (simp add: div_less_iff_less_mult)
  have e: "v = 64 * (1024 * a + 4 * b + c div 64) + c mod 64" unfolding v by simp
  have q: "v div 64 = 1024 * a + 4 * b + c div 64" unfolding e by (rule div_part) simp
  have m: "v mod 64 = c mod 64" unfolding e by (rule mod_part) simp
  have "v < 16777216" using assms by simp
  then show "v div 262144 < 64" by (simp add: div_less_iff_less_mult)
  show "(4096 * (v div 262144) + 64 * (v div 4096 mod 64) + v div 64 mod 64) div 1024 = a"
    unfolding sextets unfolding q using div_part [of "4 * b + c div 64" 1024 a] r assms(2) by (simp add: add.assoc)
  have "(1024 * a + 4 * b + c div 64) div 4 = 256 * a + b"
    using div_part [of "c div 64" 4 "256 * a + b"] r by simp
  then show "(4096 * (v div 262144) + 64 * (v div 4096 mod 64) + v div 64 mod 64) div 4 mod 256 = b"
    unfolding sextets unfolding q using mod_part [of b 256 a] assms(2) by simp
  have "(1024 * a + 4 * b + c div 64) mod 4 = c div 64"
    using mod_part [of "c div 64" 4 "256 * a + b"] r by simp
  then show "64 * ((4096 * (v div 262144) + 64 * (v div 4096 mod 64) + v div 64 mod 64) mod 4) + v mod 64 = c"
    unfolding sextets unfolding q m by simp
  have "v div 4096 = v div 64 div 64" by (simp add: div_mult2_eq [symmetric])
  then have "v div 4096 div 16 = v div 64 div 1024" by (simp add: div_mult2_eq [symmetric])
  also have "\<dots> = a" unfolding q using div_part [of "4 * b + c div 64" 1024 a] r assms(2) by (simp add: add.assoc)
  finally show "(64 * (v div 262144) + v div 4096 mod 64) div 16 = a" unfolding sextets .
qed

lemma b64_quad:
  "p < 64 \<Longrightarrow> q < 64 \<Longrightarrow> r < 64 \<Longrightarrow> s < 64 \<Longrightarrow>
     b64_quads (b64_char p # b64_char q # b64_char r # b64_char s # rest) =
       map_option ((@) [char_of ((4096 * p + 64 * q + r) div 1024), char_of ((4096 * p + 64 * q + r) div 4 mod 256),
         char_of (64 * ((4096 * p + 64 * q + r) mod 4) + s)]) (b64_quads rest)"
  "p < 64 \<Longrightarrow> q < 64 \<Longrightarrow> r < 64 \<Longrightarrow>
     b64_quads [b64_char p, b64_char q, b64_char r, CHR ''=''] =
       Some [char_of ((4096 * p + 64 * q + r) div 1024), char_of ((4096 * p + 64 * q + r) div 4 mod 256)]"
  "p < 64 \<Longrightarrow> q < 64 \<Longrightarrow>
     b64_quads [b64_char p, b64_char q, CHR ''='', CHR ''=''] = Some [char_of ((64 * p + q) div 16)]"
  by (simp_all add: b64_val_char Let_def)

lemma b64_quads_encode: "b64_quads (b64_encode bs) = Some bs"
proof (induction bs rule: b64_encode.induct)
  case (1 a b c rest)
  define v where "v = 65536 * of_char a + 256 * of_char b + (of_char c :: nat)"
  note s = byte_split [OF of_char_lt [of a] of_char_lt [of b] of_char_lt [of c] v_def]
  have enc: "b64_encode (a # b # c # rest) = b64_char (v div 262144) # b64_char (v div 4096 mod 64) #
      b64_char (v div 64 mod 64) # b64_char (v mod 64) # b64_encode rest"
    by (simp add: Let_def v_def)
  have "b64_quads (b64_encode rest) = Some rest" using 1 by simp
  then show ?case
    unfolding enc using s(1) by (simp add: b64_quad(1) s(2,3,4) del: b64_quads.simps)
next
  case (2 a b)
  define v where "v = 65536 * of_char a + 256 * of_char b + (0 :: nat)"
  note s = byte_split [OF of_char_lt [of a] of_char_lt [of b] _ v_def]
  have enc: "b64_encode [a, b] = [b64_char (v div 262144), b64_char (v div 4096 mod 64),
      b64_char (v div 64 mod 64), CHR ''='']"
    by (simp add: Let_def v_def)
  show ?case
    unfolding enc using s(1) by (simp add: b64_quad(2) s(2,3) del: b64_quads.simps)
next
  case (3 a)
  define v where "v = 65536 * of_char a + 256 * 0 + (0 :: nat)"
  note s = byte_split [OF of_char_lt [of a] _ _ v_def]
  have enc: "b64_encode [a] = [b64_char (v div 262144), b64_char (v div 4096 mod 64), CHR ''='', CHR ''='']"
    by (simp add: Let_def v_def)
  show ?case
    unfolding enc using s(1) by (simp add: b64_quad(3) s(5) del: b64_quads.simps)
qed simp

text \<open>What base64 text is made of.\<close>

definition b64_ok :: "char \<Rightarrow> bool" where
  "b64_ok c \<longleftrightarrow> c \<noteq> CHR 0x0A \<and> c \<noteq> CHR 0x0D \<and> c \<noteq> CHR '':''"

lemma b64_ok_char: "n < 64 \<Longrightarrow> b64_ok (b64_char n)" "b64_ok CHR ''=''"
  by (simp_all add: b64_ok_def b64_val_char)

lemma b64_encode_all:
  assumes "\<And>n. n < 64 \<Longrightarrow> P (b64_char n)" "P CHR ''=''"
  shows "list_all P (b64_encode bs)"
proof (induction bs rule: b64_encode.induct)
  case (1 a b c rest)
  then show ?case
    using byte_split(1) [OF of_char_lt [of a] of_char_lt [of b] of_char_lt [of c] refl]
    by (simp add: Let_def assms)
next
  case (2 a b)
  then show ?case
    using byte_split(1) [OF of_char_lt [of a] of_char_lt [of b] _ refl, of 0] by (simp add: Let_def assms)
next
  case (3 a)
  then show ?case
    using byte_split(1) [OF of_char_lt [of a] _ _ refl, of 0 0] by (simp add: Let_def assms)
qed simp

lemma b64_encode_chars: "list_all b64_ok (b64_encode bs)"
  by (rule b64_encode_all) (simp_all add: b64_ok_char)

lemma b64_decode_encode: "b64_decode (b64_encode bs) = Some bs"
proof -
  have "filter (\<lambda>c. c \<noteq> CHR 0x0A \<and> c \<noteq> CHR 0x0D) (b64_encode bs) = b64_encode bs"
    using b64_encode_chars [of bs] by (intro filter_True) (auto simp: list_all_iff b64_ok_def)
  then show ?thesis by (simp add: b64_decode_def b64_quads_encode)
qed

end
