(* ===== verification/HttpSig.thy ===== *)
theory HttpSig
  imports Identity Quoting
begin

text \<open>
  \<open>internal/auth/httpsig.go\<close>: HTTP message signatures over a fixed component list. SHA-256 and
  ECDSA are parameters: \<open>ecdsa_sign key digest\<close> gives the 64 bytes of \<open>r\<close> and \<open>s\<close> and
  \<open>ecdsa_verify pub digest sig\<close> checks them.

  A header map is a partial function on lower-case names, so that lookups are case-insensitive as
  \<open>http.Header.Get\<close> is; only the first value of a field is ever read.
\<close>

section \<open>Headers\<close>

type_synonym http_header = "string \<rightharpoonup> string"

definition header_key :: "string \<Rightarrow> string" where
  "header_key n = map lower_char n"

definition header_Get :: "http_header \<Rightarrow> string \<Rightarrow> string" where
  "header_Get h n = (case h (header_key n) of None \<Rightarrow> [] | Some v \<Rightarrow> v)"

definition header_Set :: "http_header \<Rightarrow> string \<Rightarrow> string \<Rightarrow> http_header" where
  "header_Set h n v = h(header_key n \<mapsto> v)"

definition HeaderTimestamp :: string where "HeaderTimestamp = ''X-Muthur-Timestamp''"
definition HeaderNonce :: string where "HeaderNonce = ''X-Muthur-Nonce''"
definition HeaderCert :: string where "HeaderCert = ''X-Muthur-Cert''"
definition HeaderHPKEKid :: string where "HeaderHPKEKid = ''X-Muthur-Hpke-Kid''"
definition HeaderContentDigest :: string where "HeaderContentDigest = ''Content-Digest''"
definition HeaderSignatureInput :: string where "HeaderSignatureInput = ''Signature-Input''"
definition HeaderSignature :: string where "HeaderSignature = ''Signature''"
definition SignatureLabel :: string where "SignatureLabel = ''sig1''"
definition SignatureAlg :: string where "SignatureAlg = ''ecdsa-p256-sha256''"

definition signedComponents :: "string list" where
  "signedComponents = [''@method'', ''@path'', ''content-digest'', ''x-muthur-timestamp'', ''x-muthur-nonce'',
     ''x-muthur-cert'', ''x-muthur-hpke-kid'']"

datatype sig_error = ErrSignatureMissing | ErrSignatureMalformed | ErrSignatureInvalid
  | ErrSignatureKeyType | ErrDigestMismatch | Sig_sign string

text \<open>Methods are ASCII tokens.\<close>

definition upper_char :: "char \<Rightarrow> char" where
  "upper_char c =
     (if 97 \<le> (of_char c :: nat) \<and> (of_char c :: nat) \<le> 122 then char_of ((of_char c :: nat) - 32) else c)"

definition ToUpper :: "string \<Rightarrow> string" where
  "ToUpper s = map upper_char s"

section \<open>Digests, parameters and the signature base\<close>

definition ContentDigest :: "(bytes \<Rightarrow> bytes) \<Rightarrow> bytes \<Rightarrow> string" where
  "ContentDigest sha256 body = ''sha-256=:'' @ b64_encode (sha256 body) @ '':''"

definition VerifyContentDigest :: "(bytes \<Rightarrow> bytes) \<Rightarrow> http_header \<Rightarrow> bytes \<Rightarrow> sig_error option" where
  "VerifyContentDigest sha256 h body =
     (let want = ContentDigest sha256 body; got = TrimSpace (header_Get h HeaderContentDigest)
      in if got = [] \<or> got \<noteq> want then Some ErrDigestMismatch else None)"

definition CertKeyID :: "(bytes \<Rightarrow> bytes) \<Rightarrow> bytes \<Rightarrow> string" where
  "CertKeyID sha256 leafDER = hex_encode (sha256 leafDER)"

definition component_list :: string where
  "component_list = ''('' @ Join (map Quote signedComponents) '' '' @ '')''"

definition signatureParams :: "int \<Rightarrow> string \<Rightarrow> string" where
  "signatureParams created keyID =
     component_list @ '';created='' @ show_int created @ '';alg='' @ Quote SignatureAlg @
     '';keyid='' @ Quote keyID"

definition component_value :: "string \<Rightarrow> string \<Rightarrow> http_header \<Rightarrow> string \<Rightarrow> string" where
  "component_value meth path h c =
     (if c = ''@method'' then ToUpper meth else if c = ''@path'' then path
      else TrimSpace (header_Get h c))"

definition base_line :: "(string \<Rightarrow> string) \<Rightarrow> string \<Rightarrow> string" where
  "base_line v c = Quote c @ '': '' @ v c @ [CHR 0x0A]"

definition SignatureBase :: "string \<Rightarrow> string \<Rightarrow> http_header \<Rightarrow> string \<Rightarrow> string" where
  "SignatureBase meth path h params =
     concat (map (base_line (component_value meth path h)) signedComponents) @
     Quote ''@signature-params'' @ '': '' @ params"

section \<open>Signing\<close>

definition SignRequest ::
  "(bytes \<Rightarrow> bytes) \<Rightarrow> (bytes \<Rightarrow> bytes \<Rightarrow> string + bytes) \<Rightarrow> http_header \<Rightarrow> string \<Rightarrow> string \<Rightarrow>
   (PublicKeyKind \<times> bytes) option \<Rightarrow> bytes \<Rightarrow> int \<Rightarrow> sig_error + http_header" where
  "SignRequest sha256 ecdsa_sign h meth path key leafDER created =
     (case key of
        Some (ECDSA_P256, k) \<Rightarrow>
          (let params = signatureParams created (CertKeyID sha256 leafDER);
               digest = sha256 (SignatureBase meth path h params)
           in case ecdsa_sign k digest of
                Inl e \<Rightarrow> Inl (Sig_sign e)
              | Inr sig \<Rightarrow>
                  Inr (header_Set (header_Set h HeaderSignatureInput (SignatureLabel @ ''='' @ params))
                    HeaderSignature (SignatureLabel @ ''=:'' @ b64_encode sig @ '':'')))
      | _ \<Rightarrow> Inl ErrSignatureKeyType)"

section \<open>Verification\<close>

record SignatureInfo =
  Created :: int
  KeyID :: string

fun params_loop :: "string list \<Rightarrow> string list \<Rightarrow> SignatureInfo \<Rightarrow> (string list \<times> SignatureInfo) option" where
  "params_loop [] seen info = Some (seen, info)"
| "params_loop (kv # kvs) seen info =
     (if kv = [] then params_loop kvs seen info
      else case Cut kv CHR ''='' of
        None \<Rightarrow> None
      | Some (k, v) \<Rightarrow>
          if k \<in> set seen then None
          else if k = ''created'' then
            (case ParseInt v of
               None \<Rightarrow> None
             | Some n \<Rightarrow> params_loop kvs (k # seen) (info\<lparr>Created := n\<rparr>))
          else if k = ''alg'' then
            (if v \<noteq> Quote SignatureAlg then None else params_loop kvs (k # seen) info)
          else if k = ''keyid'' then
            (case Unquote v of
               None \<Rightarrow> None
             | Some i \<Rightarrow> params_loop kvs (k # seen) (info\<lparr>KeyID := i\<rparr>))
          else None)"

text \<open>\<open>params[:closing+1]\<close> is everything up to and including the first closing parenthesis.\<close>

definition parseSignatureParams :: "string \<Rightarrow> sig_error + SignatureInfo" where
  "parseSignatureParams params =
     (if \<not> HasPrefix params ''('' \<or> CHR '')'' \<notin> set params then Inl ErrSignatureMalformed
      else
        let n = length (takeWhile (\<lambda>c. c \<noteq> CHR '')'') params) + 1
        in if take n params \<noteq> component_list then Inl ErrSignatureMalformed
           else case params_loop (Split (drop n params) CHR '';'') [] \<lparr>Created = 0, KeyID = []\<rparr> of
                  None \<Rightarrow> Inl ErrSignatureMalformed
                | Some (seen, info) \<Rightarrow>
                    if ''created'' \<notin> set seen \<or> ''alg'' \<notin> set seen \<or> ''keyid'' \<notin> set seen
                    then Inl ErrSignatureMalformed else Inr info)"

definition VerifyRequest ::
  "(bytes \<Rightarrow> bytes) \<Rightarrow> (bytes \<Rightarrow> bytes \<Rightarrow> bytes \<Rightarrow> bool) \<Rightarrow> string \<Rightarrow> string \<Rightarrow> http_header \<Rightarrow>
   (PublicKeyKind \<times> bytes) option \<Rightarrow> sig_error + SignatureInfo" where
  "VerifyRequest sha256 ecdsa_verify meth path h pub =
     (case pub of
        Some (ECDSA_P256, pk) \<Rightarrow>
          (let inputRaw = TrimSpace (header_Get h HeaderSignatureInput);
               sigRaw = TrimSpace (header_Get h HeaderSignature)
           in if inputRaw = [] \<or> sigRaw = [] then Inl ErrSignatureMissing
              else case CutPrefix inputRaw (SignatureLabel @ ''='') of
                None \<Rightarrow> Inl ErrSignatureMalformed
              | Some params \<Rightarrow>
                  (case parseSignatureParams params of
                     Inl e \<Rightarrow> Inl e
                   | Inr info \<Rightarrow>
                       (case CutPrefix sigRaw (SignatureLabel @ ''=:'') of
                          None \<Rightarrow> Inl ErrSignatureMalformed
                        | Some sigB64 \<Rightarrow>
                            if \<not> HasSuffix sigB64 '':'' then Inl ErrSignatureMalformed
                            else case b64_decode (TrimSuffix sigB64 '':'') of
                              None \<Rightarrow> Inl ErrSignatureMalformed
                            | Some sig \<Rightarrow>
                                if length sig \<noteq> 64 then Inl ErrSignatureMalformed
                                else if \<not> ecdsa_verify pk (sha256 (SignatureBase meth path h params)) sig
                                then Inl ErrSignatureInvalid
                                else Inr info)))
      | _ \<Rightarrow> Inl ErrSignatureKeyType)"

section \<open>Facts about the signature base\<close>

definition no_nl :: "string \<Rightarrow> bool" where
  "no_nl s \<longleftrightarrow> CHR 0x0A \<notin> set s"

lemma base_lines_inj:
  assumes "concat (map (base_line v) cs) @ t = concat (map (base_line w) cs) @ u"
    and "\<forall>c\<in>set cs. no_nl c \<and> no_nl (v c) \<and> no_nl (w c)"
  shows "(\<forall>c\<in>set cs. v c = w c) \<and> t = u"
  using assms
proof (induction cs)
  case (Cons c cs)
  have "(Quote c @ '': '' @ v c) @ CHR 0x0A # concat (map (base_line v) cs) @ t =
      (Quote c @ '': '' @ w c) @ CHR 0x0A # concat (map (base_line w) cs) @ u"
    using Cons.prems(1) by (simp add: base_line_def [of v c] base_line_def [of w c])
  moreover have "CHR 0x0A \<notin> set (Quote c @ '': '' @ v c)" "CHR 0x0A \<notin> set (Quote c @ '': '' @ w c)"
    using Cons.prems(2) by (auto simp: Quote_def no_nl_def)
  ultimately have "Quote c @ '': '' @ v c = Quote c @ '': '' @ w c \<and>
      concat (map (base_line v) cs) @ t = concat (map (base_line w) cs) @ u"
    by (rule sep_cancel_left)
  with Cons.IH Cons.prems(2) show ?case by auto
qed simp

lemma SignatureBase_inj:
  assumes "SignatureBase m p h q = SignatureBase m' p' h' q'"
    and "\<forall>c\<in>set signedComponents. no_nl (component_value m p h c) \<and> no_nl (component_value m' p' h' c)"
  shows "(\<forall>c\<in>set signedComponents. component_value m p h c = component_value m' p' h' c) \<and> q = q'"
proof -
  have "\<forall>c\<in>set signedComponents. no_nl c" by (simp add: signedComponents_def no_nl_def)
  with assms show ?thesis
    using base_lines_inj [of "component_value m p h" signedComponents "Quote ''@signature-params'' @ '': '' @ q"
        "component_value m' p' h'" "Quote ''@signature-params'' @ '': '' @ q'"]
    by (auto simp: SignatureBase_def)
qed

section \<open>Facts about the wire format\<close>

definition solid :: "char \<Rightarrow> bool" where
  "solid c \<longleftrightarrow> byte_in 0x21 0x7E c"

lemma strip_front_id:
  assumes "\<forall>q\<in>set seqs. q \<noteq> [] \<and> \<not> solid (hd q)" "s \<noteq> []" "solid (hd s)"
  shows "strip_front seqs n s = s"
proof -
  have "\<not> HasPrefix s q" if "q \<in> set seqs" for q
  proof
    assume "HasPrefix s q"
    then have "hd (take (length q) s) = hd q" by (simp add: HasPrefix_def)
    with that assms show False by (simp add: hd_take)
  qed
  then have "find (\<lambda>q. HasPrefix s q) seqs = None" by (simp add: find_None_iff)
  then show ?thesis by (cases n) simp_all
qed

lemma TrimSpace_id:
  assumes "s \<noteq> []" "solid (hd s)" "solid (last s)"
  shows "TrimSpace s = s"
proof -
  have f: "\<forall>q\<in>set space_seqs. q \<noteq> [] \<and> \<not> solid (hd q)"
    by (simp add: space_seqs_def solid_def byte_in_def)
  have b: "\<forall>q\<in>set (map rev space_seqs). q \<noteq> [] \<and> \<not> solid (hd q)"
    by (simp add: space_seqs_def solid_def byte_in_def)
  show ?thesis
    using strip_front_id [OF f assms(1,2), of "length s"] strip_front_id [OF b, of "rev s" "length s"] assms
    by (simp add: TrimSpace_def hd_rev)
qed

lemma Cut_at: "c \<notin> set k \<Longrightarrow> Cut (k @ c # v) c = Some (k, v)"
proof -
  assume c: "c \<notin> set k"
  have "takeWhile (\<lambda>x. x \<noteq> c) (k @ c # v) = k" "dropWhile (\<lambda>x. x \<noteq> c) (k @ c # v) = c # v"
    using c by (induction k) auto
  then show ?thesis by (simp add: Cut_def)
qed

lemma component_list_shape:
  "\<exists>s. component_list = ''('' @ s @ '')'' \<and> CHR '')'' \<notin> set s \<and> CHR ''('' \<notin> set s"
  by (intro exI [of _ "Join (map Quote signedComponents) '' ''"])
    (simp add: component_list_def signedComponents_def Quote_def)

lemma plain_hex: "list_all is_lower_hex s \<Longrightarrow> plain_text s"
  by (auto simp: plain_text_def list_all_iff is_lower_hex_def is_digit_def byte_in_def dest!: bspec)

lemma params_split:
  "Split ('';created='' @ show_int n @ '';alg='' @ Quote SignatureAlg @ '';keyid='' @ Quote (CertKeyID sha256 d)) CHR '';'' =
     [[], ''created='' @ show_int n, ''alg='' @ Quote SignatureAlg, ''keyid='' @ Quote (CertKeyID sha256 d)]"
proof -
  have a: "CHR '';'' \<notin> set (''created='' @ show_int n)" using show_int_chars [of "CHR '';''" n] by (auto simp: is_digit_def)
  have b: "CHR '';'' \<notin> set (''alg='' @ Quote SignatureAlg)" by (simp add: Quote_def SignatureAlg_def)
  have c: "CHR '';'' \<notin> set (''keyid='' @ Quote (CertKeyID sha256 d))"
    using hex_encode_lower_hex [of "sha256 d"]
    by (auto simp: Quote_def CertKeyID_def list_all_iff is_lower_hex_def is_digit_def dest!: bspec)
  have "Split ('';created='' @ show_int n @ '';alg='' @ Quote SignatureAlg @ '';keyid='' @ Quote (CertKeyID sha256 d)) CHR '';'' =
      [] # Split ((''created='' @ show_int n) @ CHR '';'' # (''alg='' @ Quote SignatureAlg) @ CHR '';'' #
        ''keyid='' @ Quote (CertKeyID sha256 d)) CHR '';''"
    using Split_append_sep [of "CHR '';''" "[]"] by simp
  then show ?thesis
    by (simp only: Split_append_sep [OF a] Split_append_sep [OF b] Split_no_sep [OF c])
qed

lemma parse_signatureParams:
  assumes "in_int64 n"
  shows "parseSignatureParams (signatureParams n (CertKeyID sha256 d)) =
    Inr \<lparr>Created = n, KeyID = CertKeyID sha256 d\<rparr>"
proof -
  let ?rest = "'';created='' @ show_int n @ '';alg='' @ Quote SignatureAlg @ '';keyid='' @ Quote (CertKeyID sha256 d)"
  obtain s where s: "component_list = ''('' @ s @ '')''" "CHR '')'' \<notin> set s"
    using component_list_shape by blast
  have p: "signatureParams n (CertKeyID sha256 d) = (''('' @ s) @ CHR '')'' # ?rest"
    by (simp add: signatureParams_def s(1))
  have tw: "takeWhile (\<lambda>c. c \<noteq> CHR '')'') ((''('' @ s) @ CHR '')'' # ?rest) = ''('' @ s"
    using s(2) by (subst takeWhile_append2) auto
  have u: "Unquote (Quote (CertKeyID sha256 d)) = Some (CertKeyID sha256 d)"
    by (intro Unquote_Quote plain_hex) (simp add: CertKeyID_def hex_encode_lower_hex)
  have cuts: "Cut (''created='' @ show_int n) CHR ''='' = Some (''created'', show_int n)"
    "Cut (''alg='' @ Quote SignatureAlg) CHR ''='' = Some (''alg'', Quote SignatureAlg)"
    "Cut (''keyid='' @ Quote (CertKeyID sha256 d)) CHR ''='' = Some (''keyid'', Quote (CertKeyID sha256 d))"
    using Cut_at [of "CHR ''=''" "''created''"] Cut_at [of "CHR ''=''" "''alg''"] Cut_at [of "CHR ''=''" "''keyid''"]
    by simp_all
  have "params_loop (Split ?rest CHR '';'') [] \<lparr>Created = 0, KeyID = []\<rparr> =
      Some ([''keyid'', ''alg'', ''created''], \<lparr>Created = n, KeyID = CertKeyID sha256 d\<rparr>)"
    unfolding params_split params_loop.simps cuts by (simp add: ParseInt_show_int assms u)
  then show ?thesis
    unfolding parseSignatureParams_def p tw Let_def by (simp add: s HasPrefix_def)
qed

section \<open>Properties\<close>

lemma covered_headers:
  "c \<in> set signedComponents \<Longrightarrow>
     component_value m p (header_Set (header_Set h HeaderSignatureInput a) HeaderSignature b) c = component_value m p h c"
  by (auto simp: signedComponents_def component_value_def header_Get_def header_Set_def header_key_def
      HeaderSignatureInput_def HeaderSignature_def lower_char_def char_of_def bit_0)

lemma SignatureBase_signed:
  "SignatureBase m p (header_Set (header_Set h HeaderSignatureInput a) HeaderSignature b) q = SignatureBase m p h q"
proof -
  have "map (base_line (component_value m p (header_Set (header_Set h HeaderSignatureInput a) HeaderSignature b)))
      signedComponents = map (base_line (component_value m p h)) signedComponents"
    by (rule map_cong [OF refl]) (simp add: base_line_def covered_headers)
  then show ?thesis unfolding SignatureBase_def by (rule arg_cong)
qed

lemma header_Get_signed:
  "header_Get (header_Set (header_Set h HeaderSignatureInput a) HeaderSignature b) HeaderSignatureInput = a"
  "header_Get (header_Set h' HeaderSignature b) HeaderSignature = b"
  by (simp_all add: header_Get_def header_Set_def header_key_def HeaderSignatureInput_def HeaderSignature_def)

lemma CutPrefix_append [simp]: "CutPrefix (p @ s) p = Some s"
  by (simp add: go_defs)

lemma sign_then_verify:
  assumes "\<forall>d sig. ecdsa_sign key d = Inr sig \<longrightarrow> length sig = 64 \<and> ecdsa_verify pub d sig"
    and "SignRequest sha256 ecdsa_sign h meth path (Some (ECDSA_P256, key)) leafDER created = Inr h'"
    and "in_int64 created"
  shows "VerifyRequest sha256 ecdsa_verify meth path h' (Some (ECDSA_P256, pub)) =
    Inr \<lparr>Created = created, KeyID = CertKeyID sha256 leafDER\<rparr>"
proof -
  define params where "params = signatureParams created (CertKeyID sha256 leafDER)"
  from assms(2) obtain sig where sg: "ecdsa_sign key (sha256 (SignatureBase meth path h params)) = Inr sig"
    and h': "h' = header_Set (header_Set h HeaderSignatureInput (SignatureLabel @ ''='' @ params))
      HeaderSignature (SignatureLabel @ ''=:'' @ b64_encode sig @ '':'')"
    by (auto simp: SignRequest_def params_def Let_def split: sum.splits)
  from assms(1) sg have v: "length sig = 64" "ecdsa_verify pub (sha256 (SignatureBase meth path h params)) sig"
    by blast+
  have last: "last params = CHR 0x22" by (simp add: params_def signatureParams_def Quote_def)
  have t1: "TrimSpace (SignatureLabel @ ''='' @ params) = SignatureLabel @ ''='' @ params"
    by (rule TrimSpace_id) (simp_all add: SignatureLabel_def solid_def byte_in_def last)
  have t2: "TrimSpace (SignatureLabel @ ''=:'' @ b64_encode sig @ '':'') = SignatureLabel @ ''=:'' @ b64_encode sig @ '':''"
    by (rule TrimSpace_id) (simp_all add: SignatureLabel_def solid_def byte_in_def)
  have c: "CutPrefix (SignatureLabel @ ''='' @ params) (SignatureLabel @ ''='') = Some params"
    "CutPrefix (SignatureLabel @ ''=:'' @ b64_encode sig @ '':'') (SignatureLabel @ ''=:'') = Some (b64_encode sig @ '':'')"
    using CutPrefix_append [of "SignatureLabel @ ''=''" params]
      CutPrefix_append [of "SignatureLabel @ ''=:''" "b64_encode sig @ '':''"] by simp_all
  have suf: "HasSuffix (b64_encode sig @ '':'') '':''" "TrimSuffix (b64_encode sig @ '':'') '':'' = b64_encode sig"
    by (simp_all add: go_defs)
  have ne: "SignatureLabel @ x \<noteq> []" for x by (simp add: SignatureLabel_def)
  show ?thesis
    unfolding VerifyRequest_def h' option.case prod.case PublicKeyKind.case header_Get_signed t1 t2 Let_def
      SignatureBase_signed c
    using parse_signatureParams [OF assms(3), of sha256 leafDER] v ne suf
    by (simp add: params_def [symmetric] b64_decode_encode)
qed

text \<open>C33: A request that was signed verifies: after \<open>SignRequest\<close> with the key of a certificate,
  \<open>VerifyRequest\<close> with that certificate's public key accepts the request and returns the creation
  time and the key identifier that were signed.\<close>

theorem signed_request_verifies:
  assumes "\<forall>d sig. ecdsa_sign key d = Inr sig \<longrightarrow> length sig = 64 \<and> ecdsa_verify pub d sig"
    and "SignRequest sha256 ecdsa_sign h meth path (Some (ECDSA_P256, key)) leafDER created = Inr h'"
    and "in_int64 created"
  shows "VerifyRequest sha256 ecdsa_verify meth path h' (Some (ECDSA_P256, pub)) =
    Inr \<lparr>Created = created, KeyID = CertKeyID sha256 leafDER\<rparr>"
  using assms by (rule sign_then_verify)

text \<open>A toy signature scheme for the examples: the signature is the padded digest.\<close>

definition demo_ecdsa_sign :: "bytes \<Rightarrow> bytes \<Rightarrow> string + bytes" where
  "demo_ecdsa_sign key d = Inr (take 64 (d @ replicate 64 CHR 0x00))"

definition demo_ecdsa_verify :: "bytes \<Rightarrow> bytes \<Rightarrow> bytes \<Rightarrow> bool" where
  "demo_ecdsa_verify pub d sig \<longleftrightarrow> sig = take 64 (d @ replicate 64 CHR 0x00)"

theorem signed_request_verifies_witness:
  "\<exists>h'. SignRequest pad32 demo_ecdsa_sign Map.empty ''post'' ''/v1/ingest'' (Some (ECDSA_P256, [])) ''der'' 7 = Inr h' \<and>
     VerifyRequest pad32 demo_ecdsa_verify ''post'' ''/v1/ingest'' h' (Some (ECDSA_P256, [])) =
       Inr \<lparr>Created = 7, KeyID = CertKeyID pad32 ''der''\<rparr>"
proof -
  obtain h' where h': "SignRequest pad32 demo_ecdsa_sign Map.empty ''post'' ''/v1/ingest''
      (Some (ECDSA_P256, [])) ''der'' 7 = Inr h'"
    by (simp add: SignRequest_def demo_ecdsa_sign_def Let_def)
  have "\<forall>d sig. demo_ecdsa_sign [] d = Inr sig \<longrightarrow> length sig = 64 \<and> demo_ecdsa_verify [] d sig"
    by (auto simp: demo_ecdsa_sign_def demo_ecdsa_verify_def)
  from signed_request_verifies [where ecdsa_sign = demo_ecdsa_sign and ecdsa_verify = demo_ecdsa_verify and key = "[]" and pub = "[]", OF this h'] h' show ?thesis by (auto simp: in_int64_def)
qed

text \<open>C32: A verified signature covers the request. Suppose only digests of signature bases that the
  key's holder signed verify under its key, and SHA-256 does not collide on them. Then a request
  that \<open>VerifyRequest\<close> accepts agrees with one the holder signed in method, path, content digest,
  timestamp, nonce, certificate and HPKE key id, and in the signature parameters; no component can
  be left out (no newline occurs in a header value or a path).\<close>

theorem verified_request_is_covered:
  assumes ok: "VerifyRequest sha256 ecdsa_verify meth path h (Some (ECDSA_P256, pub)) = Inr info"
    and unforged: "\<forall>d sig. ecdsa_verify pub d sig \<longrightarrow>
      (\<exists>(m, p, g, q) \<in> signed. d = sha256 (SignatureBase m p g q))"
    and no_collision: "\<forall>q. \<forall>(m', p', g', q') \<in> signed.
      sha256 (SignatureBase meth path h q) = sha256 (SignatureBase m' p' g' q') \<longrightarrow>
      SignatureBase meth path h q = SignatureBase m' p' g' q'"
    and nl: "\<forall>c\<in>set signedComponents. no_nl (component_value meth path h c)"
      "\<forall>(m, p, g, q) \<in> signed. \<forall>c\<in>set signedComponents. no_nl (component_value m p g c)"
  shows "\<exists>(m, p, g, q) \<in> signed.
    ToUpper meth = ToUpper m \<and> path = p \<and>
    (\<forall>c\<in>{''content-digest'', ''x-muthur-timestamp'', ''x-muthur-nonce'', ''x-muthur-cert'', ''x-muthur-hpke-kid''}.
       TrimSpace (header_Get h c) = TrimSpace (header_Get g c)) \<and>
    parseSignatureParams q = Inr info"
proof -
  from ok obtain params sig where p: "parseSignatureParams params = Inr info"
    "ecdsa_verify pub (sha256 (SignatureBase meth path h params)) sig"
    by (auto simp: VerifyRequest_def Let_def split: if_splits option.splits sum.splits)
  from unforged p(2) obtain m p0 g q where s: "(m, p0, g, q) \<in> signed"
    "sha256 (SignatureBase meth path h params) = sha256 (SignatureBase m p0 g q)"
    by blast
  with no_collision have b: "SignatureBase meth path h params = SignatureBase m p0 g q" by blast
  have "\<forall>c\<in>set signedComponents. no_nl (component_value meth path h c) \<and> no_nl (component_value m p0 g c)"
    using nl s(1) by blast
  from SignatureBase_inj [OF b this] have e: "\<forall>c\<in>set signedComponents. component_value meth path h c = component_value m p0 g c"
    "params = q" by blast+
  have "ToUpper meth = ToUpper m" "path = p0"
    "\<forall>c\<in>{''content-digest'', ''x-muthur-timestamp'', ''x-muthur-nonce'', ''x-muthur-cert'', ''x-muthur-hpke-kid''}.
       TrimSpace (header_Get h c) = TrimSpace (header_Get g c)"
    using e(1) by (simp_all add: signedComponents_def component_value_def)
  with s(1) p(1) e(2) show ?thesis by blast
qed

text \<open>A key whose holder signed one request and nothing else; the digest is the text itself.\<close>

definition demo_params :: string where
  "demo_params = signatureParams 7 (CertKeyID id ''der'')"

definition demo_base :: string where
  "demo_base = SignatureBase ''post'' ''/v1/ingest'' Map.empty demo_params"

definition demo_sign_one :: "bytes \<Rightarrow> bytes \<Rightarrow> string + bytes" where
  "demo_sign_one key d = (if d = demo_base then Inr (replicate 64 CHR ''s'') else Inl ''refused'')"

definition demo_verify_one :: "bytes \<Rightarrow> bytes \<Rightarrow> bytes \<Rightarrow> bool" where
  "demo_verify_one pub d sig \<longleftrightarrow> d = demo_base"

lemma demo_signed:
  "\<exists>h a b. h = header_Set (header_Set Map.empty HeaderSignatureInput a) HeaderSignature b \<and>
     VerifyRequest id demo_verify_one ''post'' ''/v1/ingest'' h (Some (ECDSA_P256, [])) =
       Inr \<lparr>Created = 7, KeyID = CertKeyID id ''der''\<rparr>"
proof -
  have "demo_sign_one [] (id demo_base) = Inr (replicate 64 CHR ''s'')" by (simp add: demo_sign_one_def)
  then obtain h a b where h: "SignRequest id demo_sign_one Map.empty ''post'' ''/v1/ingest'' (Some (ECDSA_P256, []))
      ''der'' 7 = Inr h" "h = header_Set (header_Set Map.empty HeaderSignatureInput a) HeaderSignature b"
    by (simp add: SignRequest_def Let_def demo_params_def [symmetric] demo_base_def [symmetric])
  have "\<forall>d sig. demo_sign_one [] d = Inr sig \<longrightarrow> length sig = 64 \<and> demo_verify_one [] d sig"
    by (auto simp: demo_sign_one_def demo_verify_one_def)
  from sign_then_verify [where ecdsa_sign = demo_sign_one and ecdsa_verify = demo_verify_one and key = "[]" and pub = "[]", OF this h(1)] h(2) show ?thesis by (auto simp: in_int64_def)
qed

lemma demo_no_nl: "\<forall>c\<in>set signedComponents. no_nl (component_value ''post'' ''/v1/ingest'' Map.empty c)"
  by (simp add: signedComponents_def component_value_def header_Get_def TrimSpace_def no_nl_def ToUpper_def
      upper_char_def char_of_def bit_0)

theorem verified_request_is_covered_witness:
  "\<exists>h info. VerifyRequest id demo_verify_one ''post'' ''/v1/ingest'' h (Some (ECDSA_P256, [])) = Inr info \<and>
     (\<exists>(m, p, g, q) \<in> {(''post'', ''/v1/ingest'', Map.empty, demo_params)}.
        ToUpper ''post'' = ToUpper m \<and> ''/v1/ingest'' = p)"
proof -
  obtain h a b info where h: "h = header_Set (header_Set Map.empty HeaderSignatureInput a) HeaderSignature b"
    "VerifyRequest id demo_verify_one ''post'' ''/v1/ingest'' h (Some (ECDSA_P256, [])) = Inr info"
    using demo_signed by blast
  have "\<forall>c\<in>set signedComponents. no_nl (component_value ''post'' ''/v1/ingest'' h c)"
    using demo_no_nl by (simp add: h(1) covered_headers)
  from verified_request_is_covered [OF h(2) _ _ this, of "{(''post'', ''/v1/ingest'', Map.empty, demo_params)}"]
  have "\<exists>(m, p, g, q) \<in> {(''post'', ''/v1/ingest'', Map.empty, demo_params)}.
      ToUpper ''post'' = ToUpper m \<and> ''/v1/ingest'' = p"
    using demo_no_nl by (simp add: demo_verify_one_def demo_base_def)
  with h(2) show ?thesis by blast
qed

end
