(* ===== verification/Replay.thy ===== *)
theory Replay
  imports Store Identity
begin

text \<open>
  \<open>internal/auth/replay.go\<close>: the freshness window and the single-use nonce. The guard reads
  its clock once (\<open>t\<close>) and the store reads its own clock in \<open>SetNX\<close> (\<open>now\<close>, \<open>now'\<close>); the
  three readings are separate arguments because the guarantee depends on the gap between them.
\<close>

record ReplayGuard =
  rg_window :: duration
  nonceTTL :: duration
  rg_prefix :: string

definition NewReplayGuard :: "duration \<Rightarrow> string \<Rightarrow> ReplayGuard" where
  "NewReplayGuard window pre =
     (let w = (if window \<le> 0 then 5 * minute else window)
      in \<lparr>rg_window = w, nonceTTL = wrap64 (2 * w), rg_prefix = pre\<rparr>)"

datatype replay_error =
    ReplayNoIdentity
  | ErrReplayMissingTimestamp
  | ErrReplayBadTimestamp
  | ErrReplayClockSkew duration
  | ErrReplayMissingNonce
  | ErrReplayBadNonce
  | NonceStoreError string
  | ErrReplayNonceReused

definition minNonceHexLen :: nat where "minNonceHexLen = 32"

definition nonceKey :: "ReplayGuard \<Rightarrow> Identity \<Rightarrow> string \<Rightarrow> string" where
  "nonceKey g i nonce = rg_prefix g @ ''nonce:'' @ Identity_String i @ '':'' @ nonce"

definition Verify ::
  "'s store_ops \<Rightarrow> ReplayGuard \<Rightarrow> gotime \<Rightarrow> gotime \<Rightarrow> gotime \<Rightarrow> 's \<Rightarrow> Identity option
    \<Rightarrow> string \<Rightarrow> string \<Rightarrow> replay_error option \<times> 's" where
  "Verify ops g t now now' st ident tsStr nonce =
     (case ident of
        None \<Rightarrow> (Some ReplayNoIdentity, st)
      | Some i \<Rightarrow>
          if tsStr = [] then (Some ErrReplayMissingTimestamp, st)
          else case ParseInt tsStr of
            None \<Rightarrow> (Some ErrReplayBadTimestamp, st)
          | Some tsUnix \<Rightarrow>
              let delta = time_sub t (time_unix tsUnix)
              in if delta > rg_window g \<or> delta < - rg_window g
                 then (Some (ErrReplayClockSkew delta), st)
                 else if nonce = [] then (Some ErrReplayMissingNonce, st)
                 else if length nonce < minNonceHexLen then (Some ErrReplayBadNonce, st)
                 else if \<not> hex_decodable nonce then (Some ErrReplayBadNonce, st)
                 else case Store_SetNX ops now now' st (nonceKey g i nonce) [CHR 0x01] (nonceTTL g) of
                        (Inl err, st') \<Rightarrow> (Some (NonceStoreError err), st')
                      | (Inr wasset, st') \<Rightarrow>
                          if \<not> wasset then (Some ErrReplayNonceReused, st') else (None, st'))"

section \<open>Freshness\<close>

text \<open>What acceptance says about the request: everything but the nonce being unused.\<close>

definition fresh_request :: "ReplayGuard \<Rightarrow> gotime \<Rightarrow> string \<Rightarrow> string \<Rightarrow> bool" where
  "fresh_request g t tsStr nonce \<longleftrightarrow>
     (\<exists>u. ParseInt tsStr = Some u \<and> t - rg_window g \<le> time_unix u \<and>
        time_unix u \<le> t + rg_window g) \<and>
     minNonceHexLen \<le> length nonce \<and> hex_decodable nonce"

lemma time_sub_window:
  "0 < w \<Longrightarrow> w < max_int64 \<Longrightarrow>
     (time_sub t u > w \<or> time_sub t u < - w) = (u < t - w \<or> t + w < u)"
  by (auto simp: time_sub_def)

lemma Verify_accepts_iff:
  assumes "0 < rg_window g" "rg_window g < max_int64"
  shows "Verify ops g t now now' st ident tsStr nonce = (None, st') \<longleftrightarrow>
    (\<exists>i. ident = Some i \<and> fresh_request g t tsStr nonce \<and>
       Store_SetNX ops now now' st (nonceKey g i nonce) [CHR 0x01] (nonceTTL g) = (Inr True, st'))"
proof -
  have e: "ParseInt [] = None"
    by (simp add: ParseInt_def parse_digits_def)
  show ?thesis
    using e time_sub_window [OF assms]
    by (auto simp: Verify_def fresh_request_def Let_def minNonceHexLen_def not_less
        split: option.splits prod.splits sum.splits if_splits)
qed

lemma nonceKey_inj:
  assumes "nonceKey g i n = nonceKey g j m" and "hex_decodable n" "hex_decodable m"
  shows "Identity_String i = Identity_String j \<and> n = m"
proof -
  have hex: "CHR '':'' \<notin> set n" "CHR '':'' \<notin> set m"
    using assms(2,3) by (auto simp: hex_decodable_def list_all_iff)
  have "Identity_String i @ CHR '':'' # n = Identity_String j @ CHR '':'' # m"
    using assms(1) by (simp add: nonceKey_def)
  from sep_cancel_right [OF this hex] show ?thesis .
qed

context kv_store
begin

text \<open>The replayed request is refused: either it has become stale or its nonce is still
  remembered.\<close>

lemma replay_refused:
  assumes inv: "inv st" and g: "0 < rg_window g" "rg_window g < max_int64"
    and ttl: "nonceTTL g = 2 * rg_window g"
    and first: "Verify ops g t1 now1 now1' st (Some i) tsStr nonce = (None, st1)"
    and clocks: "0 \<le> now1'" and gap: "now2 - t2 \<le> now1' - t1"
    and same: "Identity_String j = Identity_String i"
    and evs: "list_all (spares now2 (nonceKey g i nonce)) evs"
    and s: "s = store_run ops background evs st1"
  shows "\<exists>e. Verify ops g t2 now2 now2' s (Some j) tsStr nonce = (Some e, s)"
proof (cases "fresh_request g t2 tsStr nonce")
  case True
  from first g have f1: "fresh_request g t1 tsStr nonce"
    and set: "Store_SetNX ops now1 now1' st (nonceKey g i nonce) [CHR 0x01] (nonceTTL g) = (Inr True, st1)"
    by (auto simp: Verify_accepts_iff)
  from True f1 obtain u where "t2 - rg_window g \<le> time_unix u" "time_unix u \<le> t1 + rg_window g"
    by (auto simp: fresh_request_def)
  with gap ttl g have "held now1' (nonceTTL g) now2" by (simp add: held_def)
  from setnx_exclusive [OF inv clocks set evs this]
  have "Store_SetNX ops now2 now2' s (nonceKey g j nonce) [CHR 0x01] (nonceTTL g) = (Inr False, s)"
    using same s by (simp add: nonceKey_def)
  then show ?thesis
    by (auto simp: Verify_def Let_def split: option.splits)
next
  case False
  then have "Verify ops g t2 now2 now2' s (Some j) tsStr nonce \<noteq> (None, s')" for s'
    using g by (simp add: Verify_accepts_iff)
  moreover have "snd (Verify ops g t2 now2 now2' s (Some j) tsStr nonce) = s"
    using False time_sub_window [OF g]
    by (auto simp: Verify_def fresh_request_def Let_def minNonceHexLen_def not_less
        split: option.splits)
  ultimately show ?thesis
    by (metis not_None_eq prod.collapse)
qed

lemma verify_isolates_identities:
  assumes inv: "inv st" and now': "0 \<le> now'" and g: "0 < rg_window g" "rg_window g < max_int64"
    and first: "Verify ops g t now now' st (Some i) tsStr nonce = (None, st1)"
    and other: "Identity_String j \<noteq> Identity_String i"
  shows "fst (Verify ops g t2 now2 now2' st1 (Some j) tsStr2 nonce) =
    fst (Verify ops g t2 now2 now2' st (Some j) tsStr2 nonce)"
proof -
  from first g have hex: "hex_decodable nonce"
    and set: "Store_SetNX ops now now' st (nonceKey g i nonce) [CHR 0x01] (nonceTTL g) = (Inr True, st1)"
    by (auto simp: Verify_accepts_iff fresh_request_def)
  have "live now st (nonceKey g i nonce) = None"
    using set setnx_result [OF inv, of now now' "nonceKey g i nonce" "[CHR 0x01]" "nonceTTL g"]
    by simp
  then have st1: "st1 = snd (Store_Set ops now' st (nonceKey g i nonce) [CHR 0x01] (nonceTTL g))"
    using set setnx_absent [OF inv, of now "nonceKey g i nonce" now'] by (metis snd_conv)
  have "nonceKey g j nonce \<noteq> nonceKey g i nonce"
    using nonceKey_inj [OF _ hex hex] other by blast
  then have "live now2 st1 (nonceKey g j nonce) = live now2 st (nonceKey g j nonce)"
    using inv now' by (simp add: st1 set_live)
  moreover have "inv st1" using inv by (simp add: st1 set_inv)
  ultimately have "fst (Store_SetNX ops now2 now2' st1 (nonceKey g j nonce) v ttl) =
      fst (Store_SetNX ops now2 now2' st (nonceKey g j nonce) v ttl)" for v ttl
    using inv by (simp add: setnx_result)
  then show ?thesis
    by (auto simp: Verify_def Let_def split: option.splits prod.splits sum.splits) (metis fst_conv sum.inject sum.distinct)+
qed

end

section \<open>Properties of the guard over the in-memory store\<close>

lemma NewReplayGuard_window:
  "window < 2 ^ 62 \<Longrightarrow> 0 < rg_window (NewReplayGuard window pre) \<and>
     rg_window (NewReplayGuard window pre) < max_int64 \<and>
     nonceTTL (NewReplayGuard window pre) = 2 * rg_window (NewReplayGuard window pre)"
  by (auto simp: NewReplayGuard_def Let_def in_int64_def)

text \<open>No replay is accepted. Once a request with some timestamp and nonce has been accepted
  for a caller, the same timestamp and nonce presented again under the same identity is refused
  at every later time and after any other store activity that leaves the nonce entry alone, and
  the refusal does not change the store. The one condition is on timing inside \<open>Verify\<close>: the
  replay's delay between its freshness check and its store access must not exceed that of the
  first request.\<close>

theorem replay_never_accepted:
  assumes "memory_inv st" and "window < 2 ^ 62" and g: "g = NewReplayGuard window pre"
    and "Verify memory_ops g t1 now1 now1' st (Some i) tsStr nonce = (None, st1)"
    and "0 \<le> now1'" and "now2 - t2 \<le> now1' - t1"
    and "Identity_String j = Identity_String i"
    and "list_all (spares now2 (nonceKey g i nonce)) evs"
    and "s = store_run memory_ops Memory_background evs st1"
  shows "\<exists>e. Verify memory_ops g t2 now2 now2' s (Some j) tsStr nonce = (Some e, s)"
  using mem.replay_refused [OF assms(1) _ _ _ assms(4-9)] NewReplayGuard_window [OF assms(2)] g
  by blast

text \<open>A caller, a nonce and a timestamp for the examples.\<close>

definition demo_id :: Identity where
  "demo_id = \<lparr>TenantID = ''acme'', ClusterID = ''c1'', Id_NotAfter = 0, Id_Serial = ''1''\<rparr>"

definition demo_guard :: ReplayGuard where
  "demo_guard = NewReplayGuard (5 * minute) ''m:''"

lemma demo_guard_simps: "rg_window demo_guard = 300 * second" "nonceTTL demo_guard = 600 * second"
  by (simp_all add: demo_guard_def NewReplayGuard_def in_int64_def)

definition demo_nonce :: string where
  "demo_nonce = replicate 32 CHR ''a''"

lemma demo_hex: "minNonceHexLen \<le> length demo_nonce \<and> hex_decodable demo_nonce"
  by (simp add: demo_nonce_def hex_decodable_def is_hex_def is_lower_hex_def minNonceHexLen_def
      list_all_iff)

lemma ParseInt_700: "ParseInt ''700'' = Some 700"
  by (simp add: ParseInt_def parse_digits_def digits_val_def is_digit_def digit_val_def
      in_int64_def)

lemma time_unix_700: "time_unix 700 = 700 * second"
  by (simp add: time_unix_def in_int64_def)

lemma demo_verify_fresh:
  assumes "map_of (items st) (nonceKey demo_guard demo_id demo_nonce) = None"
    and "400 * second \<le> t" "t \<le> 1000 * second"
  shows "\<exists>st'. Verify memory_ops demo_guard t now now' st (Some demo_id)
    ''700'' demo_nonce = (None, st')"
  using assms demo_hex
  by (simp add: Verify_accepts_iff fresh_request_def ParseInt_700 time_unix_700 memory_ops_def
      Memory_SetNX_def demo_guard_simps)

theorem replay_never_accepted_witness:
  "\<exists>st1. Verify memory_ops demo_guard (400 * second) (400 * second)
      (400 * second) NewMemory (Some demo_id) ''700'' demo_nonce = (None, st1) \<and>
    (\<exists>e. Verify memory_ops demo_guard (900 * second) (900 * second)
      (900 * second) (store_run memory_ops Memory_background [Ev_Background (500 * second)] st1)
      (Some demo_id) ''700'' demo_nonce =
      (Some e, store_run memory_ops Memory_background [Ev_Background (500 * second)] st1))"
proof -
  obtain st1 where st1: "Verify memory_ops demo_guard (400 * second)
      (400 * second) (400 * second) NewMemory (Some demo_id) ''700'' demo_nonce = (None, st1)"
    using demo_verify_fresh [of NewMemory "400 * second" "400 * second" "400 * second"]
    by (auto simp: NewMemory_def)
  have "memory_inv NewMemory" by (simp add: memory_inv_def NewMemory_def)
  from replay_never_accepted [OF this _ demo_guard_def st1 _ _ refl, of "900 * second" "900 * second"
      "[Ev_Background (500 * second)]" _ "900 * second"] st1
  show ?thesis by auto
qed

text \<open>The timing condition of the replay guarantee is necessary: the entry lives exactly as
  long as the request can be fresh, with no margin. A request stamped one full window ahead of
  the brain's clock is accepted a second time when, at the very end of its freshness, the store
  reads its clock one nanosecond after the guard read its own.\<close>

theorem replay_accepted_at_edge:
  "\<exists>st1 st2. Verify memory_ops demo_guard (400 * second) (400 * second)
      (400 * second) NewMemory (Some demo_id) ''700'' demo_nonce = (None, st1) \<and>
    Verify memory_ops demo_guard (1000 * second) (1000 * second + 1)
      (1000 * second + 1) st1 (Some demo_id) ''700'' demo_nonce = (None, st2)"
proof -
  let ?k = "nonceKey demo_guard demo_id demo_nonce"
  note ttl = demo_guard_simps
  have f1: "fresh_request demo_guard (400 * second) ''700'' demo_nonce"
    and f2: "fresh_request demo_guard (1000 * second) ''700'' demo_nonce"
    using demo_hex by (simp_all add: fresh_request_def ParseInt_700 time_unix_700 ttl)
  let ?st1 = "snd (Store_SetNX memory_ops (400 * second) (400 * second) NewMemory ?k [CHR 0x01]
      (nonceTTL demo_guard))"
  have inv: "memory_inv NewMemory" by (simp add: memory_inv_def NewMemory_def)
  have none: "memory_live (400 * second) NewMemory ?k = None"
    by (simp add: memory_live_def NewMemory_def)
  then have "Store_SetNX memory_ops (400 * second) (400 * second) NewMemory ?k [CHR 0x01]
      (nonceTTL demo_guard) = (Inr True, ?st1)"
    using mem.setnx_result [OF inv] by (intro prod_eqI) simp_all
  with f1 ttl have a1: "Verify memory_ops demo_guard (400 * second) (400 * second) (400 * second) NewMemory
      (Some demo_id) ''700'' demo_nonce = (None, ?st1)"
    by (simp add: Verify_accepts_iff)
  have "memory_live (1000 * second + 1) ?st1 ?k = None"
    using mem.setnx_live_after [OF inv _ none] by (simp add: held_def ttl)
  then have "fst (Store_SetNX memory_ops (1000 * second + 1) (1000 * second + 1) ?st1 ?k [CHR 0x01]
      (nonceTTL demo_guard)) = Inr True"
    using mem.setnx_result [OF mem.setnx_inv [OF inv]] by simp
  then obtain st2 where "Store_SetNX memory_ops (1000 * second + 1) (1000 * second + 1) ?st1 ?k
      [CHR 0x01] (nonceTTL demo_guard) = (Inr True, st2)"
    by (metis prod.collapse)
  with f2 ttl have "Verify memory_ops demo_guard (1000 * second) (1000 * second + 1) (1000 * second + 1)
      ?st1 (Some demo_id) ''700'' demo_nonce = (None, st2)"
    by (simp add: Verify_accepts_iff)
  with a1 show ?thesis by blast
qed

text \<open>One caller cannot burn another's nonces: accepting a request of one identity leaves the
  verdict on any request with the same nonce from an identity with a different name unchanged.\<close>

theorem replay_nonces_isolated:
  assumes "memory_inv st" and "0 \<le> now'" and "window < 2 ^ 62" and g: "g = NewReplayGuard window pre"
    and "Verify memory_ops g t now now' st (Some i) tsStr nonce = (None, st1)"
    and "Identity_String j \<noteq> Identity_String i"
  shows "fst (Verify memory_ops g t2 now2 now2' st1 (Some j) tsStr2 nonce) =
    fst (Verify memory_ops g t2 now2 now2' st (Some j) tsStr2 nonce)"
  using mem.verify_isolates_identities [OF assms(1,2) _ _ assms(5,6)]
    NewReplayGuard_window [OF assms(3)] g by blast

theorem replay_nonces_isolated_witness:
  "\<exists>st1. Verify memory_ops demo_guard (400 * second) 1 1 NewMemory
      (Some demo_id) ''700'' demo_nonce = (None, st1) \<and>
    fst (Verify memory_ops demo_guard (500 * second) 2 2 st1
      (Some (demo_id\<lparr>ClusterID := ''c2''\<rparr>)) ''700'' demo_nonce) =
    fst (Verify memory_ops demo_guard (500 * second) 2 2 NewMemory
      (Some (demo_id\<lparr>ClusterID := ''c2''\<rparr>)) ''700'' demo_nonce)"
proof -
  obtain st1 where st1: "Verify memory_ops demo_guard (400 * second)
      1 1 NewMemory (Some demo_id) ''700'' demo_nonce = (None, st1)"
    using demo_verify_fresh [of NewMemory "400 * second" 1 1]
    by (auto simp: NewMemory_def)
  have "memory_inv NewMemory" by (simp add: memory_inv_def NewMemory_def)
  from replay_nonces_isolated [OF this _ _ demo_guard_def st1, of "demo_id\<lparr>ClusterID := ''c2''\<rparr>"] st1
  show ?thesis by (auto simp: Identity_String_def demo_id_def)
qed

text \<open>A request is accepted exactly when its identity is present, its timestamp parses and is
  within the window of the guard's clock on either side, its nonce is at least 32 hexadecimal
  characters, and the nonce entry could be created.\<close>

theorem replay_accepts_iff:
  assumes "window < 2 ^ 62" and "g = NewReplayGuard window pre"
  shows "Verify ops g t now now' st ident tsStr nonce = (None, st') \<longleftrightarrow>
    (\<exists>i u. ident = Some i \<and> ParseInt tsStr = Some u \<and>
       t - rg_window g \<le> time_unix u \<and> time_unix u \<le> t + rg_window g \<and>
       32 \<le> length nonce \<and> hex_decodable nonce \<and>
       Store_SetNX ops now now' st (nonceKey g i nonce) [CHR 0x01] (nonceTTL g) = (Inr True, st'))"
  using Verify_accepts_iff [of g ops t now now' st ident tsStr nonce st']
    NewReplayGuard_window [OF assms(1), of pre] assms(2)
  by (auto simp: fresh_request_def minNonceHexLen_def)

theorem replay_accepts_iff_witness:
  "\<nexists>st. Verify memory_ops demo_guard (400 * second) 1 1 NewMemory (Some demo_id)
     ''700'' ''ab'' = (None, st)"
  using replay_accepts_iff [OF _ demo_guard_def, of memory_ops "400 * second" 1 1 NewMemory
      "Some demo_id" "''700''" "''ab''"] by simp

end
