(* ===== verification/Brain.thy ===== *)
theory Brain
  imports Replay Bootstrap
begin

text \<open>
  The Brain service over gRPC: \<open>internal/ingest/handler.go\<close>, \<open>internal/grpcsrv/server.go\<close> and
  \<open>internal/grpcsrv/interceptors.go\<close>, chained as \<open>cmd/muthur/main.go\<close> chains them.

  A handler maps a context and a state to a result and a state; the result is \<open>None\<close> when the
  code panics. A status error is its code: message texts are not modelled. An interceptor takes
  the next handler as its argument, as in the code. The state is the shared store and the ingest
  handler; what a call reads from outside (clocks, the two snapshots of the tenant list, a random
  serial number) is its \<open>call_env\<close>.
\<close>

section \<open>Messages and status codes\<close>

datatype code = InvalidArgument | Unauthenticated | PermissionDenied | NotFound | FailedPrecondition
  | Unavailable | Internal

record BootstrapRequest =
  br_ClusterId :: string
  br_BootstrapToken :: string
  br_Csr :: string

datatype rpc_request = Ingest_Request AlertPayload | BootstrapCert_Request BootstrapRequest
  | SignCSR_Request string

datatype rpc_response = IngestResponse | BootstrapResponse string string | SignCSRResponse string string

definition Brain_Ingest_FullMethodName :: string where
  "Brain_Ingest_FullMethodName = ''/monitoring.v1.Brain/Ingest''"
definition Brain_BootstrapCert_FullMethodName :: string where
  "Brain_BootstrapCert_FullMethodName = ''/monitoring.v1.Brain/BootstrapCert''"
definition Brain_SignCSR_FullMethodName :: string where
  "Brain_SignCSR_FullMethodName = ''/monitoring.v1.Brain/SignCSR''"

definition FullMethod :: "rpc_request \<Rightarrow> string" where
  "FullMethod req =
     (case req of
        Ingest_Request _ \<Rightarrow> Brain_Ingest_FullMethodName
      | BootstrapCert_Request _ \<Rightarrow> Brain_BootstrapCert_FullMethodName
      | SignCSR_Request _ \<Rightarrow> Brain_SignCSR_FullMethodName)"

section \<open>The ingest handler\<close>

text \<open>\<open>spawned\<close> lists the payloads for which \<open>Process\<close> was started, in order; \<open>wg\<close> is the counter
  of the wait group.\<close>

record Ingest_Handler =
  spawned :: "AlertPayload list"
  wg :: nat

datatype ingest_error = ErrIngestNoIdentity | ErrIngestForbidden

definition Ingest_NewHandler :: Ingest_Handler where
  "Ingest_NewHandler = \<lparr>spawned = [], wg = 0\<rparr>"

definition Ingest ::
  "Identity option \<Rightarrow> AlertPayload \<Rightarrow> Ingest_Handler \<Rightarrow> ingest_error option \<times> Ingest_Handler" where
  "Ingest ident payload h =
     (case ident of
        None \<Rightarrow> (Some ErrIngestNoIdentity, h)
      | Some i \<Rightarrow>
          if ClusterId payload \<noteq> ClusterID i then (Some ErrIngestForbidden, h)
          else (None, h\<lparr>spawned := spawned h @ [payload], wg := wg h + 1\<rparr>))"

text \<open>The deferred \<open>Done\<close> of a goroutine, and whether \<open>Wait\<close> returns.\<close>

definition Ingest_Done :: "Ingest_Handler \<Rightarrow> Ingest_Handler" where
  "Ingest_Done h = h\<lparr>wg := wg h - 1\<rparr>"

definition Ingest_Wait :: "Ingest_Handler \<Rightarrow> bool" where
  "Ingest_Wait h \<longleftrightarrow> wg h = 0"

section \<open>The service\<close>

record 's Brain =
  B_x509 :: x509_ops
  B_sha256 :: "bytes \<Rightarrow> bytes"
  B_store :: "'s store_ops"
  B_bootstrap :: BootstrapHandler
  B_renew :: Signer
  B_replay :: ReplayGuard

record 's brain_state =
  bs_store :: 's
  bs_ingest :: Ingest_Handler

text \<open>\<open>Current()\<close> is called once by the revocation check and once by the issuing handler:
  \<open>tenants_gate\<close> and \<open>tenants_issue\<close>. \<open>r_t\<close>, \<open>r_now\<close>, \<open>r_now'\<close> are the clocks of the replay guard
  and of the store under it.\<close>

record call_env =
  tenants_gate :: "Tenants option"
  tenants_issue :: "Tenants option"
  serial :: "string + nat"
  r_t :: gotime
  r_now :: gotime
  r_now' :: gotime
  issue_k :: issue_clock

definition Server_Ingest ::
  "Identity option \<Rightarrow> AlertPayload \<Rightarrow> 's brain_state \<Rightarrow> (code + rpc_response) option \<times> 's brain_state" where
  "Server_Ingest ident payload st =
     (case Ingest ident payload (bs_ingest st) of
        (Some ErrIngestNoIdentity, h) \<Rightarrow> (Some (Inl Unauthenticated), st\<lparr>bs_ingest := h\<rparr>)
      | (Some ErrIngestForbidden, h) \<Rightarrow> (Some (Inl PermissionDenied), st\<lparr>bs_ingest := h\<rparr>)
      | (None, h) \<Rightarrow> (Some (Inr IngestResponse), st\<lparr>bs_ingest := h\<rparr>))"

definition bootstrap_code :: "bootstrap_error \<Rightarrow> code" where
  "bootstrap_code e =
     (case e of
        ErrBootstrapBadRequest \<Rightarrow> InvalidArgument
      | ErrBootstrapUnauthorized \<Rightarrow> Unauthenticated
      | ErrBootstrapForbidden \<Rightarrow> PermissionDenied
      | ErrBootstrapInternal \<Rightarrow> Internal)"

definition Server_BootstrapCert ::
  "'s Brain \<Rightarrow> call_env \<Rightarrow> BootstrapRequest \<Rightarrow> 's brain_state \<Rightarrow>
   (code + rpc_response) option \<times> 's brain_state" where
  "Server_BootstrapCert B e req st =
     (case Bootstrap_Issue (B_x509 B) (B_sha256 B) (B_store B) (B_bootstrap B) (tenants_issue e) (serial e)
             (issue_k e) \<lparr>In_ClusterID = br_ClusterId req, BootstrapToken = br_BootstrapToken req,
                          In_CSRPEM = br_Csr req\<rparr> (bs_store st) of
        (None, s) \<Rightarrow> (None, st\<lparr>bs_store := s\<rparr>)
      | (Some (Inl err), s) \<Rightarrow> (Some (Inl (bootstrap_code err)), st\<lparr>bs_store := s\<rparr>)
      | (Some (Inr r), s) \<Rightarrow>
          (Some (Inr (BootstrapResponse (CertificatePEM r) (CAPEM r))), st\<lparr>bs_store := s\<rparr>))"

definition renew_code :: "renew_error \<Rightarrow> code" where
  "renew_code e =
     (case e of
        ErrRenewBadRequest \<Rightarrow> InvalidArgument
      | ErrRenewForbidden \<Rightarrow> PermissionDenied
      | Renew_NoIdentity \<Rightarrow> Unauthenticated)"

definition Server_SignCSR ::
  "'s Brain \<Rightarrow> call_env \<Rightarrow> Identity option \<Rightarrow> string \<Rightarrow> 's brain_state \<Rightarrow>
   (code + rpc_response) option \<times> 's brain_state" where
  "Server_SignCSR B e ident csr st =
     (case Renew_Issue (B_x509 B) (B_renew B) (tenants_issue e) (serial e) (c_sign (issue_k e))
             (c_sign' (issue_k e)) ident csr of
        None \<Rightarrow> (None, st)
      | Some (Inl err) \<Rightarrow> (Some (Inl (renew_code err)), st)
      | Some (Inr r) \<Rightarrow> (Some (Inr (SignCSRResponse (CertificatePEM r) (CAPEM r))), st))"

definition Brain_dispatch ::
  "'s Brain \<Rightarrow> call_env \<Rightarrow> rpc_request \<Rightarrow> Identity option \<Rightarrow> 's brain_state \<Rightarrow>
   (code + rpc_response) option \<times> 's brain_state" where
  "Brain_dispatch B e req ident st =
     (case req of
        Ingest_Request p \<Rightarrow> Server_Ingest ident p st
      | BootstrapCert_Request r \<Rightarrow> Server_BootstrapCert B e r st
      | SignCSR_Request csr \<Rightarrow> Server_SignCSR B e ident csr st)"

section \<open>Interceptors\<close>

text \<open>\<open>ctx_peer\<close>: no peer, a peer without TLS, or the certificates of the handshake, leaf first.
  A missing metadata map reads as one without entries.\<close>

record rpc_ctx =
  ctx_peer :: "Certificate list option option"
  ctx_identity :: "Identity option"
  ctx_md :: "string \<Rightarrow> string list"

type_synonym 's rpc_handler = "rpc_ctx \<Rightarrow> 's brain_state \<Rightarrow> (code + rpc_response) option \<times> 's brain_state"

definition authExemptMethods :: "string list" where
  "authExemptMethods = [Brain_BootstrapCert_FullMethodName]"

definition AuthInterceptor :: "string \<Rightarrow> 's rpc_handler \<Rightarrow> 's rpc_handler" where
  "AuthInterceptor meth handler ctx st =
     (if meth \<in> set authExemptMethods then handler ctx st
      else case ctx_peer ctx of
        None \<Rightarrow> (Some (Inl Unauthenticated), st)
      | Some None \<Rightarrow> (Some (Inl Unauthenticated), st)
      | Some (Some []) \<Rightarrow> (Some (Inl Unauthenticated), st)
      | Some (Some (leaf # _)) \<Rightarrow>
          (case ExtractFromCert (Some leaf) of
             Inl err \<Rightarrow> (Some (Inl Unauthenticated), st)
           | Inr i \<Rightarrow> handler (ctx\<lparr>ctx_identity := Some i\<rparr>) st))"

definition RevocationInterceptor :: "Tenants option \<Rightarrow> string \<Rightarrow> 's rpc_handler \<Rightarrow> 's rpc_handler" where
  "RevocationInterceptor tenants meth handler ctx st =
     (if meth \<in> set authExemptMethods then handler ctx st
      else case ctx_identity ctx of
        None \<Rightarrow> (Some (Inl Unauthenticated), st)
      | Some i \<Rightarrow>
          if tenants = None then (Some (Inl Internal), st)
          else case Lookup tenants (ClusterID i) of
            None \<Rightarrow> (Some (Inl PermissionDenied), st)
          | Some tenant \<Rightarrow>
              if Revoked tenant then (Some (Inl PermissionDenied), st) else handler ctx st)"

definition MetaTimestamp :: string where "MetaTimestamp = ''x-muthur-timestamp''"
definition MetaNonce :: string where "MetaNonce = ''x-muthur-nonce''"

definition firstMeta :: "(string \<Rightarrow> string list) \<Rightarrow> string \<Rightarrow> string" where
  "firstMeta md key =
     (case find (\<lambda>v. v \<noteq> []) (map TrimSpace (md key)) of None \<Rightarrow> [] | Some v \<Rightarrow> v)"

definition malformed_replay :: "replay_error \<Rightarrow> bool" where
  "malformed_replay e \<longleftrightarrow>
     e = ErrReplayMissingTimestamp \<or> e = ErrReplayBadTimestamp \<or> e = ErrReplayMissingNonce \<or>
     e = ErrReplayBadNonce"

definition ReplayInterceptor :: "'s Brain \<Rightarrow> call_env \<Rightarrow> string \<Rightarrow> 's rpc_handler \<Rightarrow> 's rpc_handler" where
  "ReplayInterceptor B e meth handler ctx st =
     (if meth \<in> set authExemptMethods then handler ctx st
      else case ctx_identity ctx of
        None \<Rightarrow> (Some (Inl Unauthenticated), st)
      | Some i \<Rightarrow>
          let ts = firstMeta (ctx_md ctx) MetaTimestamp; nonce = firstMeta (ctx_md ctx) MetaNonce
          in case Verify (B_store B) (B_replay B) (r_t e) (r_now e) (r_now' e) (bs_store st) (Some i) ts nonce of
               (Some err, s) \<Rightarrow>
                 (Some (Inl (if malformed_replay err then InvalidArgument else Unauthenticated)),
                  st\<lparr>bs_store := s\<rparr>)
             | (None, s) \<Rightarrow> handler ctx (st\<lparr>bs_store := s\<rparr>))"

definition grpc_call :: "'s Brain \<Rightarrow> call_env \<Rightarrow> rpc_request \<Rightarrow> 's rpc_handler" where
  "grpc_call B e req =
     AuthInterceptor (FullMethod req)
       (RevocationInterceptor (tenants_gate e) (FullMethod req)
         (ReplayInterceptor B e (FullMethod req)
           (\<lambda>ctx. Brain_dispatch B e req (ctx_identity ctx))))"

section \<open>Facts\<close>

text \<open>The checks both transports make on an identity before the service sees a call.\<close>

definition tenant_active :: "Tenants option \<Rightarrow> Identity \<Rightarrow> bool" where
  "tenant_active tenants i \<longleftrightarrow> (\<exists>t. Lookup tenants (ClusterID i) = Some t \<and> \<not> Revoked t)"

definition grpc_identity :: "rpc_ctx \<Rightarrow> Identity option" where
  "grpc_identity ctx =
     (case ctx_peer ctx of
        Some (Some (leaf # _)) \<Rightarrow> (case ExtractFromCert (Some leaf) of Inl _ \<Rightarrow> None | Inr i \<Rightarrow> Some i)
      | _ \<Rightarrow> None)"

definition grpc_ts :: "rpc_ctx \<Rightarrow> string" where "grpc_ts ctx = firstMeta (ctx_md ctx) MetaTimestamp"
definition grpc_nonce :: "rpc_ctx \<Rightarrow> string" where "grpc_nonce ctx = firstMeta (ctx_md ctx) MetaNonce"

lemma exempt_iff [simp]:
  "FullMethod (BootstrapCert_Request r) \<in> set authExemptMethods"
  "FullMethod (Ingest_Request p) \<notin> set authExemptMethods"
  "FullMethod (SignCSR_Request c) \<notin> set authExemptMethods"
  by (simp_all add: FullMethod_def authExemptMethods_def Brain_Ingest_FullMethodName_def
      Brain_BootstrapCert_FullMethodName_def Brain_SignCSR_FullMethodName_def)

lemma Lookup_Some_tenants: "Lookup tenants c = Some t \<Longrightarrow> tenants \<noteq> None"
  by (cases tenants) (simp_all add: Lookup_def)

text \<open>A call that is not exempt reaches the service exactly when its certificate has an identity,
  that tenant is active and the replay guard accepts.\<close>

lemma grpc_call_gated:
  assumes "FullMethod req \<notin> set authExemptMethods"
  shows "grpc_call B e req ctx st =
    (case grpc_identity ctx of
       None \<Rightarrow> (Some (Inl Unauthenticated), st)
     | Some i \<Rightarrow>
         if tenant_active (tenants_gate e) i
         then case Verify (B_store B) (B_replay B) (r_t e) (r_now e) (r_now' e) (bs_store st) (Some i)
                (grpc_ts ctx) (grpc_nonce ctx) of
                (Some err, s) \<Rightarrow>
                  (Some (Inl (if malformed_replay err then InvalidArgument else Unauthenticated)),
                   st\<lparr>bs_store := s\<rparr>)
              | (None, s) \<Rightarrow> Brain_dispatch B e req (Some i) (st\<lparr>bs_store := s\<rparr>)
         else (Some (Inl (if tenants_gate e = None then Internal else PermissionDenied)), st))"
  using assms
  by (auto simp: grpc_call_def AuthInterceptor_def RevocationInterceptor_def ReplayInterceptor_def
      grpc_identity_def tenant_active_def grpc_ts_def grpc_nonce_def Let_def
      dest: Lookup_Some_tenants split: option.splits list.splits sum.splits prod.splits)

lemma dispatch_spawned:
  assumes "Brain_dispatch B e req (Some i) st = (res, st')"
  shows "spawned (bs_ingest st') =
    spawned (bs_ingest st) @ (case req of Ingest_Request p \<Rightarrow> if ClusterId p = ClusterID i then [p] else [] | _ \<Rightarrow> [])"
  using assms
  by (auto simp: Brain_dispatch_def Server_Ingest_def Ingest_def Server_BootstrapCert_def Server_SignCSR_def
      split: rpc_request.splits if_splits option.splits sum.splits prod.splits)

lemma dispatch_ingest:
  "Brain_dispatch B e (Ingest_Request p) (Some i) st =
    (if ClusterId p = ClusterID i
     then (Some (Inr IngestResponse), st\<lparr>bs_ingest := (bs_ingest st)\<lparr>spawned := spawned (bs_ingest st) @ [p],
             wg := wg (bs_ingest st) + 1\<rparr>\<rparr>)
     else (Some (Inl PermissionDenied), st))"
  by (simp add: Brain_dispatch_def Server_Ingest_def Ingest_def)

lemma bootstrap_spawns_nothing:
  "bs_ingest (snd (grpc_call B e (BootstrapCert_Request r) ctx st)) = bs_ingest st"
  by (simp add: grpc_call_def AuthInterceptor_def RevocationInterceptor_def ReplayInterceptor_def
      Brain_dispatch_def Server_BootstrapCert_def split: option.splits sum.splits prod.splits)

lemma grpc_identity_iff:
  "(grpc_identity ctx = Some i) =
    (\<exists>leaf rest. ctx_peer ctx = Some (Some (leaf # rest)) \<and> ExtractFromCert (Some leaf) = Inr i)"
  by (auto simp: grpc_identity_def split: option.splits list.splits sum.splits)

text \<open>Whether a call passes all the checks of the chain.\<close>

definition grpc_passes :: "'s Brain \<Rightarrow> call_env \<Rightarrow> rpc_ctx \<Rightarrow> 's brain_state \<Rightarrow> Identity \<Rightarrow> bool" where
  "grpc_passes B e ctx st i \<longleftrightarrow> grpc_identity ctx = Some i \<and> tenant_active (tenants_gate e) i \<and>
     fst (Verify (B_store B) (B_replay B) (r_t e) (r_now e) (r_now' e) (bs_store st) (Some i)
       (grpc_ts ctx) (grpc_nonce ctx)) = None"

lemma grpc_call_passes:
  assumes "FullMethod req \<notin> set authExemptMethods" "grpc_passes B e ctx st i"
  shows "grpc_call B e req ctx st = Brain_dispatch B e req (Some i)
    (st\<lparr>bs_store := snd (Verify (B_store B) (B_replay B) (r_t e) (r_now e) (r_now' e) (bs_store st) (Some i)
       (grpc_ts ctx) (grpc_nonce ctx))\<rparr>)"
  using assms by (auto simp: grpc_call_gated grpc_passes_def split: prod.splits)

lemma grpc_call_refused:
  assumes "FullMethod req \<notin> set authExemptMethods" "\<And>i. \<not> grpc_passes B e ctx st i"
    and "grpc_call B e req ctx st = (res, st')"
  shows "bs_ingest st' = bs_ingest st \<and> (\<exists>c. res = Some (Inl c))"
  using assms by (fastforce simp: grpc_call_gated grpc_passes_def split: prod.splits option.splits if_splits)

lemma grpc_spawns:
  assumes "grpc_call B e req ctx st = (res, st')"
  shows "if \<exists>p i. req = Ingest_Request p \<and> grpc_passes B e ctx st i \<and> ClusterID i = ClusterId p
    then res = Some (Inr IngestResponse) \<and>
      (\<exists>p. req = Ingest_Request p \<and> spawned (bs_ingest st') = spawned (bs_ingest st) @ [p])
    else spawned (bs_ingest st') = spawned (bs_ingest st)"
proof (cases req)
  case (BootstrapCert_Request r)
  then show ?thesis using bootstrap_spawns_nothing [of B e r ctx st] assms by simp
next
  case (SignCSR_Request c)
  then have ex: "FullMethod req \<notin> set authExemptMethods" by simp
  show ?thesis
  proof (cases "\<exists>i. grpc_passes B e ctx st i")
    case True
    then obtain i where "grpc_passes B e ctx st i" ..
    from dispatch_spawned [OF assms [unfolded grpc_call_passes [OF ex this]]] SignCSR_Request
    show ?thesis by simp
  next
    case False
    with grpc_call_refused [OF ex _ assms] SignCSR_Request show ?thesis by simp
  qed
next
  case (Ingest_Request p)
  then have ex: "FullMethod req \<notin> set authExemptMethods" by simp
  have uniq: "i = j" if "grpc_passes B e ctx st i" "grpc_passes B e ctx st j" for i j
    using that by (simp add: grpc_passes_def)
  show ?thesis
  proof (cases "\<exists>i. grpc_passes B e ctx st i")
    case True
    then obtain i where i: "grpc_passes B e ctx st i" ..
    have g: "(\<exists>q j. req = Ingest_Request q \<and> grpc_passes B e ctx st j \<and> ClusterID j = ClusterId q) =
        (ClusterID i = ClusterId p)"
      using uniq [OF i] i Ingest_Request by blast
    have run: "Brain_dispatch B e (Ingest_Request p) (Some i)
        (st\<lparr>bs_store := snd (Verify (B_store B) (B_replay B) (r_t e) (r_now e) (r_now' e) (bs_store st) (Some i)
          (grpc_ts ctx) (grpc_nonce ctx))\<rparr>) = (res, st')"
      using assms grpc_call_passes [OF ex i] unfolding Ingest_Request by argo
    show ?thesis
    proof (cases "ClusterID i = ClusterId p")
      case True
      from run show ?thesis unfolding g unfolding dispatch_ingest True Ingest_Request by auto
    next
      case False
      from dispatch_spawned [OF run] False show ?thesis unfolding g by simp
    qed
  next
    case False
    with grpc_call_refused [OF ex _ assms] show ?thesis by simp
  qed
qed

section \<open>Property\<close>

text \<open>C7: Over gRPC an alert enters the pipeline exactly when the leaf certificate of the
  connection carries an identity whose cluster is the one the alert claims, the tenant list knows
  that cluster and has not revoked it, and the replay guard accepts the timestamp and nonce of the
  call. Then this alert alone is handed over and the call succeeds. In particular a collector
  cannot ship data labelled as another cluster.\<close>

theorem grpc_ingest_authorised:
  assumes "grpc_call B e req ctx st = (res, st')"
  shows "((spawned (bs_ingest st') \<noteq> spawned (bs_ingest st)) =
      (\<exists>p i leaf rest. req = Ingest_Request p \<and> ctx_peer ctx = Some (Some (leaf # rest)) \<and>
         ExtractFromCert (Some leaf) = Inr i \<and> ClusterID i = ClusterId p \<and>
         (\<exists>t. Lookup (tenants_gate e) (ClusterID i) = Some t \<and> \<not> Revoked t) \<and>
         fst (Verify (B_store B) (B_replay B) (r_t e) (r_now e) (r_now' e) (bs_store st) (Some i)
           (firstMeta (ctx_md ctx) MetaTimestamp) (firstMeta (ctx_md ctx) MetaNonce)) = None)) \<and>
    (spawned (bs_ingest st') \<noteq> spawned (bs_ingest st) \<longrightarrow>
      res = Some (Inr IngestResponse) \<and>
      (\<exists>p. req = Ingest_Request p \<and> spawned (bs_ingest st') = spawned (bs_ingest st) @ [p]))"
proof -
  have pass: "(\<exists>p i. req = Ingest_Request p \<and> grpc_passes B e ctx st i \<and> ClusterID i = ClusterId p) =
      (\<exists>p i leaf rest. req = Ingest_Request p \<and> ctx_peer ctx = Some (Some (leaf # rest)) \<and>
         ExtractFromCert (Some leaf) = Inr i \<and> ClusterID i = ClusterId p \<and>
         (\<exists>t. Lookup (tenants_gate e) (ClusterID i) = Some t \<and> \<not> Revoked t) \<and>
         fst (Verify (B_store B) (B_replay B) (r_t e) (r_now e) (r_now' e) (bs_store st) (Some i)
           (firstMeta (ctx_md ctx) MetaTimestamp) (firstMeta (ctx_md ctx) MetaNonce)) = None)" (is "_ = ?G")
    unfolding grpc_passes_def grpc_identity_iff tenant_active_def grpc_ts_def grpc_nonce_def by blast
  have neq: "xs @ [p] \<noteq> xs" for xs :: "AlertPayload list" and p by simp
  have "(spawned (bs_ingest st') \<noteq> spawned (bs_ingest st)) = ?G"
    using grpc_spawns [OF assms] neq unfolding pass by (metis (full_types))
  moreover have "spawned (bs_ingest st') \<noteq> spawned (bs_ingest st) \<longrightarrow> res = Some (Inr IngestResponse) \<and>
      (\<exists>p. req = Ingest_Request p \<and> spawned (bs_ingest st') = spawned (bs_ingest st) @ [p])"
    using grpc_spawns [OF assms] by argo
  ultimately show ?thesis by blast
qed

end
