(* ===== verification/Sealed.thy ===== *)
theory Sealed
  imports Signing Quoting
begin

text \<open>
  \<open>internal/auth/sealed.go\<close>: the sealed envelope of the signed transport. HPKE contexts and
  AES-GCM are parameters, grouped in \<open>hpke_ops\<close> (a context has type \<open>'c\<close>); the layout of the
  envelope, the key identifiers and the key set are modelled. \<open>pem_blocks\<close> is the sequence of
  blocks that repeated \<open>pem.Decode\<close> calls find in a file.
\<close>

definition SealedVersion :: char where "SealedVersion = CHR 0x01"
definition hpkeEncSize :: nat where "hpkeEncSize = 32"
definition responseKeyLen :: nat where "responseKeyLen = 32"
definition gcmNonceLen :: nat where "gcmNonceLen = 12"
definition responseExportContext :: string where "responseExportContext = ''muthur/v1 response''"
definition HPKEKEMName :: string where "HPKEKEMName = ''dhkem-x25519-hkdf-sha256''"
definition HPKEKDFName :: string where "HPKEKDFName = ''hkdf-sha256''"
definition HPKEAEADName :: string where "HPKEAEADName = ''aes-256-gcm''"

definition hpkeInfo :: "string \<Rightarrow> bytes" where
  "hpkeInfo path = ''muthur/v1 '' @ path"

definition sealAAD :: "string \<Rightarrow> string \<Rightarrow> bytes" where
  "sealAAD timestamp nonce = timestamp @ [CHR 0x0A] @ nonce"

definition HPKEKeyID :: "(bytes \<Rightarrow> bytes) \<Rightarrow> bytes \<Rightarrow> string" where
  "HPKEKeyID sha256 pub = hex_encode (take 8 (sha256 pub))"

text \<open>\<open>NewSender\<close> takes the randomness it draws as its first argument.\<close>

record 'c hpke_ops =
  NewSender :: "bytes \<Rightarrow> bytes \<Rightarrow> bytes \<Rightarrow> string + bytes \<times> 'c"
  hpke_Seal :: "'c \<Rightarrow> bytes \<Rightarrow> bytes \<Rightarrow> string + bytes"
  hpke_Export :: "'c \<Rightarrow> string \<Rightarrow> nat \<Rightarrow> string + bytes"
  NewRecipient :: "bytes \<Rightarrow> bytes \<Rightarrow> bytes \<Rightarrow> string + 'c"
  hpke_Open :: "'c \<Rightarrow> bytes \<Rightarrow> bytes \<Rightarrow> string + bytes"
  hpke_public :: "bytes \<Rightarrow> bytes"
  gcm_Seal :: "bytes \<Rightarrow> bytes \<Rightarrow> bytes \<Rightarrow> bytes"
  gcm_Open :: "bytes \<Rightarrow> bytes \<Rightarrow> bytes \<Rightarrow> bytes option"

datatype sealed_error = ErrSealedMalformed | ErrUnknownHPKEKey | Sealed_crypto string

record ResponseOpener = opener_key :: bytes
record ResponseSealer = sealer_key :: bytes

definition SealRequest ::
  "'c hpke_ops \<Rightarrow> bytes \<Rightarrow> bytes \<Rightarrow> string \<Rightarrow> string \<Rightarrow> string \<Rightarrow> bytes \<Rightarrow> sealed_error + bytes \<times> ResponseOpener" where
  "SealRequest x rnd pub path timestamp nonce plaintext =
     (case NewSender x rnd pub (hpkeInfo path) of
        Inl e \<Rightarrow> Inl (Sealed_crypto e)
      | Inr (enc, sender) \<Rightarrow>
     (case hpke_Seal x sender (sealAAD timestamp nonce) plaintext of
        Inl e \<Rightarrow> Inl (Sealed_crypto e)
      | Inr ct \<Rightarrow>
     (case hpke_Export x sender responseExportContext responseKeyLen of
        Inl e \<Rightarrow> Inl (Sealed_crypto e)
      | Inr rk \<Rightarrow> Inr (SealedVersion # enc @ ct, \<lparr>opener_key = rk\<rparr>))))"

text \<open>\<open>aes.NewCipher\<close> refuses keys that are not 16, 24 or 32 bytes long.\<close>

definition newGCM :: "bytes \<Rightarrow> sealed_error + bytes" where
  "newGCM key = (if length key \<in> {16, 24, 32} then Inr key else Inl (Sealed_crypto ''response cipher''))"

definition Opener_Open :: "'c hpke_ops \<Rightarrow> ResponseOpener \<Rightarrow> bytes \<Rightarrow> sealed_error + bytes" where
  "Opener_Open x ro body =
     (if length body < 1 + gcmNonceLen \<or> hd body \<noteq> SealedVersion then Inl ErrSealedMalformed
      else case newGCM (opener_key ro) of
        Inl e \<Rightarrow> Inl e
      | Inr aead \<Rightarrow>
          (case gcm_Open x aead (take gcmNonceLen (drop 1 body)) (drop (1 + gcmNonceLen) body) of
             None \<Rightarrow> Inl ErrSealedMalformed
           | Some pt \<Rightarrow> Inr pt))"

text \<open>\<open>rnd\<close> is what \<open>rand.Read\<close> delivers for the nonce.\<close>

definition Sealer_Seal :: "'c hpke_ops \<Rightarrow> string + bytes \<Rightarrow> ResponseSealer \<Rightarrow> bytes \<Rightarrow> sealed_error + bytes" where
  "Sealer_Seal x rnd rs plaintext =
     (case newGCM (sealer_key rs) of
        Inl e \<Rightarrow> Inl e
      | Inr aead \<Rightarrow>
          (case rnd of
             Inl e \<Rightarrow> Inl (Sealed_crypto e)
           | Inr nonce \<Rightarrow> Inr (SealedVersion # nonce @ gcm_Seal x aead nonce plaintext)))"

section \<open>The key set\<close>

record HPKEKeySet =
  ks_order :: "string list"
  ks_keys :: "(string \<times> bytes) list"

datatype hpke_key = X25519_Key "string + bytes" | Other_Key

text \<open>\<open>parse_pkcs8\<close> decodes one block: an X25519 key carries the result of wrapping it for HPKE. A key
  that is not X25519 is an error, a repeated one and a block of another type are skipped.\<close>

fun parse_keys_loop ::
  "(bytes \<Rightarrow> bytes) \<Rightarrow> 'c hpke_ops \<Rightarrow> (bytes \<Rightarrow> string + hpke_key) \<Rightarrow> (string \<times> bytes) list \<Rightarrow> HPKEKeySet \<Rightarrow>
   string + HPKEKeySet" where
  "parse_keys_loop sha256 x parse_pkcs8 [] ks = Inr ks"
| "parse_keys_loop sha256 x parse_pkcs8 ((ty, der) # blocks) ks =
     (if ty \<noteq> ''PRIVATE KEY'' then parse_keys_loop sha256 x parse_pkcs8 blocks ks
      else case parse_pkcs8 der of
        Inl e \<Rightarrow> Inl (''parse HPKE key: '' @ e)
      | Inr Other_Key \<Rightarrow> Inl ''auth: HPKE key must be X25519''
      | Inr (X25519_Key (Inl e)) \<Rightarrow> Inl (''wrap HPKE key: '' @ e)
      | Inr (X25519_Key (Inr priv)) \<Rightarrow>
          (let kid = HPKEKeyID sha256 (hpke_public x priv)
           in if map_of (ks_keys ks) kid \<noteq> None then parse_keys_loop sha256 x parse_pkcs8 blocks ks
              else parse_keys_loop sha256 x parse_pkcs8 blocks
                     \<lparr>ks_order = ks_order ks @ [kid], ks_keys = ks_keys ks @ [(kid, priv)]\<rparr>))"

definition ParseHPKEKeys ::
  "(bytes \<Rightarrow> bytes) \<Rightarrow> 'c hpke_ops \<Rightarrow> (bytes \<Rightarrow> string + hpke_key) \<Rightarrow> (bytes \<Rightarrow> (string \<times> bytes) list) \<Rightarrow> bytes \<Rightarrow>
   string + HPKEKeySet" where
  "ParseHPKEKeys sha256 x parse_pkcs8 pem_blocks pemData =
     (case parse_keys_loop sha256 x parse_pkcs8 (pem_blocks pemData) \<lparr>ks_order = [], ks_keys = []\<rparr> of
        Inl e \<Rightarrow> Inl e
      | Inr ks \<Rightarrow> if ks_order ks = [] then Inl ''auth: no X25519 private key found in HPKE key file'' else Inr ks)"

definition LoadHPKEKeys ::
  "(bytes \<Rightarrow> bytes) \<Rightarrow> 'c hpke_ops \<Rightarrow> (bytes \<Rightarrow> string + hpke_key) \<Rightarrow> (bytes \<Rightarrow> (string \<times> bytes) list) \<Rightarrow>
   (string \<Rightarrow> string + bytes) \<Rightarrow> string \<Rightarrow> string + HPKEKeySet" where
  "LoadHPKEKeys sha256 x parse_pkcs8 pem_blocks read_file path =
     (case read_file path of
        Inl e \<Rightarrow> Inl (''read HPKE key file: '' @ e)
      | Inr data \<Rightarrow> ParseHPKEKeys sha256 x parse_pkcs8 pem_blocks data)"

text \<open>A kid without a key would be a nil interface: its \<open>PublicKey\<close> call panics.\<close>

definition KeySet_Public :: "'c hpke_ops \<Rightarrow> HPKEKeySet \<Rightarrow> (string \<times> bytes) list option" where
  "KeySet_Public x ks =
     (if list_all (\<lambda>kid. map_of (ks_keys ks) kid \<noteq> None) (ks_order ks)
      then Some (map (\<lambda>kid. (kid, hpke_public x (the (map_of (ks_keys ks) kid)))) (ks_order ks)) else None)"

definition OpenRequest ::
  "'c hpke_ops \<Rightarrow> HPKEKeySet \<Rightarrow> string \<Rightarrow> string \<Rightarrow> string \<Rightarrow> string \<Rightarrow> bytes \<Rightarrow>
   sealed_error + bytes \<times> ResponseSealer" where
  "OpenRequest x ks kid path timestamp nonce body =
     (case map_of (ks_keys ks) kid of
        None \<Rightarrow> Inl ErrUnknownHPKEKey
      | Some key \<Rightarrow>
          if length body < 1 + hpkeEncSize \<or> hd body \<noteq> SealedVersion then Inl ErrSealedMalformed
          else
            let enc = take hpkeEncSize (drop 1 body); ct = drop (1 + hpkeEncSize) body
            in case NewRecipient x enc key (hpkeInfo path) of
                 Inl e \<Rightarrow> Inl ErrSealedMalformed
               | Inr recipient \<Rightarrow>
                   (case hpke_Open x recipient (sealAAD timestamp nonce) ct of
                      Inl e \<Rightarrow> Inl ErrSealedMalformed
                    | Inr pt \<Rightarrow>
                        (case hpke_Export x recipient responseExportContext responseKeyLen of
                           Inl e \<Rightarrow> Inl (Sealed_crypto e)
                         | Inr rk \<Rightarrow> Inr (pt, \<lparr>sealer_key = rk\<rparr>))))"

section \<open>Signatures over the published keys\<close>

definition SignPayload ::
  "(bytes \<Rightarrow> bytes) \<Rightarrow> (PrivateKey \<Rightarrow> bytes \<Rightarrow> bool \<Rightarrow> string + bytes) \<Rightarrow> PrivateKey \<Rightarrow> bytes \<Rightarrow> string + bytes" where
  "SignPayload sha256 raw_sign key payload =
     (case key of
        PK_ECDSA k \<Rightarrow> raw_sign key (sha256 payload) True
      | PK_RSA k \<Rightarrow> raw_sign key (sha256 payload) True
      | PK_Ed25519 k \<Rightarrow> raw_sign key payload False
      | PK_Other k \<Rightarrow> Inl ''auth: unsupported signer key'')"

datatype sig_algo = ECDSAWithSHA256 | SHA256WithRSA | PureEd25519

definition VerifyPayload ::
  "(Certificate \<Rightarrow> sig_algo \<Rightarrow> bytes \<Rightarrow> bytes \<Rightarrow> bool) \<Rightarrow> Certificate \<Rightarrow> bytes \<Rightarrow> bytes \<Rightarrow> bool" where
  "VerifyPayload cert_check cert payload sig =
     (case KeyKind cert of
        ECDSA_P256 \<Rightarrow> cert_check cert ECDSAWithSHA256 payload sig
      | ECDSA_Other \<Rightarrow> cert_check cert ECDSAWithSHA256 payload sig
      | RSA_Key \<Rightarrow> cert_check cert SHA256WithRSA payload sig
      | Ed25519_Key \<Rightarrow> cert_check cert PureEd25519 payload sig
      | Unsupported_Key \<Rightarrow> False)"

section \<open>Facts\<close>

text \<open>What HPKE and GCM promise: an encapsulation is 32 bytes; the recipient's context opens what the
  sender's sealed under the same data and exports the same keys of the requested length; GCM opens
  what it sealed.\<close>

definition hpke_correct :: "'c hpke_ops \<Rightarrow> bool" where
  "hpke_correct x \<longleftrightarrow>
     (\<forall>rnd priv info enc s. NewSender x rnd (hpke_public x priv) info = Inr (enc, s) \<longrightarrow>
        length enc = 32 \<and>
        (\<exists>r. NewRecipient x enc priv info = Inr r \<and>
           (\<forall>aad pt ct. hpke_Seal x s aad pt = Inr ct \<longrightarrow> hpke_Open x r aad ct = Inr pt) \<and>
           (\<forall>c n k. hpke_Export x s c n = Inr k \<longrightarrow> hpke_Export x r c n = Inr k \<and> length k = n))) \<and>
     (\<forall>k n pt. gcm_Open x k n (gcm_Seal x k n pt) = Some pt)"

definition keyset_inv :: "HPKEKeySet \<Rightarrow> bool" where
  "keyset_inv ks \<longleftrightarrow> map fst (ks_keys ks) = ks_order ks \<and> distinct (ks_order ks)"

lemma keyset_known: "keyset_inv ks \<Longrightarrow> (map_of (ks_keys ks) k = None) = (k \<notin> set (ks_order ks))"
  by (metis keyset_inv_def map_of_eq_None_iff set_map)

lemma keyset_snoc:
  "keyset_inv ks \<Longrightarrow> map_of (ks_keys ks) k = None \<Longrightarrow>
     keyset_inv \<lparr>ks_order = ks_order ks @ [k], ks_keys = ks_keys ks @ [(k, v)]\<rparr>"
  using keyset_known [of ks k] by (simp add: keyset_inv_def)

lemma parse_keys_loop_inv:
  "keyset_inv ks \<Longrightarrow> parse_keys_loop sha256 x p blocks ks = Inr ks' \<Longrightarrow> keyset_inv ks'"
proof (induction blocks arbitrary: ks)
  case (Cons b blocks)
  obtain ty der where b: "b = (ty, der)" by fastforce
  show ?case
    using Cons.prems Cons.IH keyset_snoc [OF Cons.prems(1)] unfolding b
    by (auto simp: Let_def split: if_splits sum.splits hpke_key.splits)
qed simp

lemma ParseHPKEKeys_inv: "ParseHPKEKeys sha256 x p bl d = Inr ks \<Longrightarrow> keyset_inv ks \<and> ks_order ks \<noteq> []"
  using parse_keys_loop_inv [of "\<lparr>ks_order = [], ks_keys = []\<rparr>" sha256 x p "bl d"]
  by (auto simp: ParseHPKEKeys_def keyset_inv_def split: sum.splits if_splits)

lemma KeySet_Public_total: "keyset_inv ks \<Longrightarrow> \<exists>ps. KeySet_Public x ks = Some ps"
  by (simp add: KeySet_Public_def list_all_iff keyset_known del: not_None_eq)

lemma open_sealed:
  assumes "hpke_correct x" "map_of (ks_keys ks) kid = Some priv"
    and "SealRequest x rnd (hpke_public x priv) path ts nonce pt = Inr (body, ro)"
  shows "OpenRequest x ks kid path ts nonce body = Inr (pt, \<lparr>sealer_key = opener_key ro\<rparr>) \<and>
    length (opener_key ro) = 32"
proof -
  from assms(3) obtain enc s ct rk where s: "NewSender x rnd (hpke_public x priv) (hpkeInfo path) = Inr (enc, s)"
    "hpke_Seal x s (sealAAD ts nonce) pt = Inr ct" "hpke_Export x s responseExportContext responseKeyLen = Inr rk"
    "body = SealedVersion # enc @ ct" "ro = \<lparr>opener_key = rk\<rparr>"
    by (auto simp: SealRequest_def split: sum.splits)
  from assms(1) s(1) obtain r where r: "length enc = 32" "NewRecipient x enc priv (hpkeInfo path) = Inr r"
    "\<forall>aad pt ct. hpke_Seal x s aad pt = Inr ct \<longrightarrow> hpke_Open x r aad ct = Inr pt"
    "\<forall>c n k. hpke_Export x s c n = Inr k \<longrightarrow> hpke_Export x r c n = Inr k \<and> length k = n"
    unfolding hpke_correct_def by blast
  have "hpke_Open x r (sealAAD ts nonce) ct = Inr pt"
    "hpke_Export x r responseExportContext responseKeyLen = Inr rk" "length rk = 32"
    using r(3,4) s(2,3) by (auto simp: responseKeyLen_def)
  with assms(2) r(1,2) s(4,5) show ?thesis
    by (simp add: OpenRequest_def hpkeEncSize_def)
qed

text \<open>Sealing is invertible end to end: what a collector seals for a published key the brain
  opens, for the same path, timestamp and nonce, and the brain's sealed answer opens with the
  collector's opener for that request.\<close>

theorem sealed_exchange_roundtrip:
  assumes "hpke_correct x" and "map_of (ks_keys ks) kid = Some priv"
    and "SealRequest x rnd (hpke_public x priv) path ts nonce pt = Inr (body, ro)"
    and "length rnd' = gcmNonceLen"
  shows "\<exists>rs. OpenRequest x ks kid path ts nonce body = Inr (pt, rs) \<and>
    (\<exists>sealed. Sealer_Seal x (Inr rnd') rs answer = Inr sealed \<and> Opener_Open x ro sealed = Inr answer)"
proof -
  note o = open_sealed [OF assms(1-3)]
  have "gcm_Open x k n (gcm_Seal x k n p) = Some p" for k n p using assms(1) by (simp add: hpke_correct_def)
  with o assms(4) show ?thesis
    by (intro exI [of _ "\<lparr>sealer_key = opener_key ro\<rparr>"])
      (simp add: Sealer_Seal_def newGCM_def Opener_Open_def gcmNonceLen_def)
qed

text \<open>A transparent scheme for the examples: contexts and ciphertexts are the data themselves.\<close>

definition demo_hpke :: "unit hpke_ops" where
  "demo_hpke = \<lparr>NewSender = (\<lambda>rnd pub info. Inr (replicate 32 CHR ''e'', ())), hpke_Seal = (\<lambda>c aad pt. Inr pt),
     hpke_Export = (\<lambda>c ctx n. Inr (replicate n CHR ''k'')), NewRecipient = (\<lambda>enc priv info. Inr ()),
     hpke_Open = (\<lambda>c aad ct. Inr ct), hpke_public = (\<lambda>p. p), gcm_Seal = (\<lambda>k n p. p), gcm_Open = (\<lambda>k n c. Some c)\<rparr>"

lemma demo_hpke_correct: "hpke_correct demo_hpke"
  by (simp add: hpke_correct_def demo_hpke_def)

theorem sealed_exchange_roundtrip_witness:
  "\<exists>rs. OpenRequest demo_hpke \<lparr>ks_order = [''k1''], ks_keys = [(''k1'', ''priv'')]\<rparr> ''k1'' ''/p'' ''7'' ''ab''
     (SealedVersion # replicate 32 CHR ''e'' @ ''hello'') = Inr (''hello'', rs)"
  using sealed_exchange_roundtrip [OF demo_hpke_correct, of "\<lparr>ks_order = [''k1''], ks_keys = [(''k1'', ''priv'')]\<rparr>"
      "''k1''" "''priv''" "[]" "''/p''" "''7''" "''ab''" "''hello''" "SealedVersion # replicate 32 CHR ''e'' @ ''hello''"
      "\<lparr>opener_key = replicate 32 CHR ''k''\<rparr>" "replicate 12 CHR ''n''"]
  by (auto simp: SealRequest_def demo_hpke_def responseKeyLen_def gcmNonceLen_def)

end
