(* ===== verification/SignedSrv.thy ===== *)
theory SignedSrv
  imports Brain HttpSig Sealed Trust
begin

text \<open>
  \<open>internal/signedsrv/server.go\<close>: the Brain service over plain HTTP with signed requests and sealed
  bodies. Protocol buffers are a third-party library: their decoders and the encoder are fields of
  \<open>Deps\<close>, as are ECDSA, HPKE and the chain builder of \<open>crypto/x509\<close>. The message texts of error
  bodies are not modelled; the status and the error code are. \<open>middleware.Recoverer\<close> turns a panic
  into status 500; \<open>middleware.RealIP\<close> only rewrites an address nobody reads.
\<close>

definition PathKeys :: string where "PathKeys = ''/muthur/v1/keys''"
definition PathBootstrap :: string where "PathBootstrap = ''/muthur/v1/bootstrap''"
definition PathIngest :: string where "PathIngest = ''/muthur/v1/ingest''"
definition PathSignCSR :: string where "PathSignCSR = ''/muthur/v1/sign-csr''"
definition maxBody :: nat where "maxBody = 8 * 2 ^ 20"
definition SealedContentType :: string where "SealedContentType = ''application/vnd.muthur.sealed''"

datatype error_code = CodeBadRequest | CodeBadDigest | CodeBadSignature | CodeBadCert | CodeUnknownTenant
  | CodeRevoked | CodeReplay | CodeHPKEKeyUnknown | CodeSealed | CodeUnauthorized | CodeForbidden
  | CodeNotFound | CodePrecondition | CodeInternal

record ('s, 'c) Deps =
  D_Brain :: "'s Brain"
  D_Keys :: HPKEKeySet
  D_Trust :: TrustPools
  D_Signer :: Signer
  D_hpke :: "'c hpke_ops"
  D_ecdsa_verify :: "bytes \<Rightarrow> bytes \<Rightarrow> bytes \<Rightarrow> bool"
  D_x509_verify :: "cert_pool \<Rightarrow> cert_pool \<Rightarrow> gotime \<Rightarrow> Certificate \<Rightarrow> bool"
  D_raw_sign :: "PrivateKey \<Rightarrow> bytes \<Rightarrow> bool \<Rightarrow> string + bytes"
  D_Unmarshal_Alert :: "bytes \<Rightarrow> AlertPayload option"
  D_Unmarshal_Bootstrap :: "bytes \<Rightarrow> BootstrapRequest option"
  D_Unmarshal_SignCSR :: "bytes \<Rightarrow> string option"
  D_Marshal :: "rpc_response \<Rightarrow> string + bytes"

text \<open>A request as the handlers see it: \<open>q_body\<close> is what reading the body to its end gives.\<close>

record signed_request =
  q_method :: string
  q_path :: string
  q_header :: http_header
  q_body :: "string + bytes"

datatype http_answer = Http_Error nat error_code | Http_Sealed bytes | Http_JSON bytes | Http_OK | Http_Status nat

text \<open>\<open>s_now\<close> is \<open>s.Now()\<close>, \<open>s_rnd\<close> the nonce drawn for the answer.\<close>

record signed_env = call_env +
  s_now :: gotime
  s_rnd :: "string + bytes"

section \<open>The key document\<close>

definition key_entry :: "string \<times> bytes \<Rightarrow> json" where
  "key_entry k = JObj [(''kid'', JStr (fst k)), (''kem'', JStr HPKEKEMName), (''kdf'', JStr HPKEKDFName),
     (''aead'', JStr HPKEAEADName), (''public_key'', JStr (b64_encode (snd k)))]"

text \<open>An empty list of keys is a nil slice, which is written \<open>null\<close>.\<close>

definition KeysPayload :: "gotime \<Rightarrow> (string \<times> bytes) list \<Rightarrow> json" where
  "KeysPayload now ks = JObj [(''issued_at'', JNum (show_int (unix_of now))),
     (''keys'', if ks = [] then JNull else JArr (map key_entry ks))]"

definition KeysDocument :: "bytes \<Rightarrow> bytes \<Rightarrow> bytes \<Rightarrow> json" where
  "KeysDocument payload signature signer = JObj [(''payload'', JStr (b64_encode payload)),
     (''signature'', JStr (b64_encode signature)), (''signer'', JStr (b64_encode signer))]"

definition keys :: "('s, 'c) Deps \<Rightarrow> gotime \<Rightarrow> http_answer option" where
  "keys D now =
     (case KeySet_Public (D_hpke D) (D_Keys D) of
        None \<Rightarrow> None
      | Some ks \<Rightarrow>
          (let raw = Marshal (KeysPayload now ks)
           in case SignPayload (B_sha256 (D_Brain D)) (D_raw_sign D) (caKey (D_Signer D)) raw of
                Inl e \<Rightarrow> Some (Http_Error 500 CodeInternal)
              | Inr sig \<Rightarrow>
                  Some (Http_JSON (Marshal (KeysDocument raw sig (Raw (caCert (D_Signer D)))) @ [CHR 0x0A]))))"

section \<open>Authentication\<close>

definition parseCertHeader :: "x509_ops \<Rightarrow> string \<Rightarrow> Certificate option" where
  "parseCertHeader x v =
     (let v' = TrimSpace v
      in if v' = [] then None
         else case b64_decode v' of
           None \<Rightarrow> None
         | Some der \<Rightarrow> (case ParseCertificate x der of Inl e \<Rightarrow> None | Inr c \<Rightarrow> Some c))"

definition grpcToHTTP :: "code \<Rightarrow> nat \<times> error_code" where
  "grpcToHTTP c =
     (case c of
        InvalidArgument \<Rightarrow> (400, CodeBadRequest)
      | Unauthenticated \<Rightarrow> (401, CodeUnauthorized)
      | PermissionDenied \<Rightarrow> (403, CodeForbidden)
      | NotFound \<Rightarrow> (404, CodeNotFound)
      | FailedPrecondition \<Rightarrow> (412, CodePrecondition)
      | Unavailable \<Rightarrow> (503, CodeInternal)
      | Internal \<Rightarrow> (500, CodeInternal))"

text \<open>\<open>leaf.PublicKey.(*ecdsa.PublicKey)\<close>.\<close>

definition is_ecdsa :: "Certificate \<Rightarrow> bool" where
  "is_ecdsa c \<longleftrightarrow> KeyKind c = ECDSA_P256 \<or> KeyKind c = ECDSA_Other"

definition authenticate ::
  "('s, 'c) Deps \<Rightarrow> signed_env \<Rightarrow> signed_request \<Rightarrow> string \<Rightarrow> string \<Rightarrow> string \<Rightarrow> 's \<Rightarrow>
   (http_answer + Identity) \<times> 's" where
  "authenticate D e r path timestamp nonce st =
     (case parseCertHeader (B_x509 (D_Brain D)) (header_Get (q_header r) HeaderCert) of
        None \<Rightarrow> (Inl (Http_Error 401 CodeBadCert), st)
      | Some leaf \<Rightarrow>
          if \<not> VerifyClientLeaf (D_x509_verify D) (D_Trust D) leaf (s_now e) then (Inl (Http_Error 401 CodeBadCert), st)
          else if \<not> is_ecdsa leaf then (Inl (Http_Error 401 CodeBadCert), st)
          else case VerifyRequest (B_sha256 (D_Brain D)) (D_ecdsa_verify D) (q_method r) path (q_header r)
                      (Some (KeyKind leaf, PublicKey leaf)) of
            Inl err \<Rightarrow> (Inl (Http_Error 401 CodeBadSignature), st)
          | Inr info \<Rightarrow>
              if KeyID info \<noteq> CertKeyID (B_sha256 (D_Brain D)) (Raw leaf)
              then (Inl (Http_Error 401 CodeBadSignature), st)
              else if ParseInt timestamp \<noteq> Some (Created info) then (Inl (Http_Error 401 CodeBadSignature), st)
              else case ExtractFromCert (Some leaf) of
                Inl err \<Rightarrow> (Inl (Http_Error 401 CodeBadCert), st)
              | Inr i \<Rightarrow>
                  if tenants_gate e = None then (Inl (Http_Error 500 CodeInternal), st)
                  else case Lookup (tenants_gate e) (ClusterID i) of
                    None \<Rightarrow> (Inl (Http_Error 403 CodeUnknownTenant), st)
                  | Some tenant \<Rightarrow>
                      if Revoked tenant then (Inl (Http_Error 403 CodeRevoked), st)
                      else case Verify (B_store (D_Brain D)) (B_replay (D_Brain D)) (r_t e) (r_now e) (r_now' e)
                                  st (Some i) timestamp nonce of
                        (Some err, st') \<Rightarrow>
                          (Inl (if malformed_replay err then Http_Error 400 CodeBadRequest
                                else Http_Error 401 CodeReplay), st')
                      | (None, st') \<Rightarrow> (Inr i, st'))"

section \<open>The request pipeline\<close>

definition signed_ts :: "signed_request \<Rightarrow> string" where
  "signed_ts r = TrimSpace (header_Get (q_header r) HeaderTimestamp)"
definition signed_nonce :: "signed_request \<Rightarrow> string" where
  "signed_nonce r = TrimSpace (header_Get (q_header r) HeaderNonce)"
definition signed_kid :: "signed_request \<Rightarrow> string" where
  "signed_kid r = TrimSpace (header_Get (q_header r) HeaderHPKEKid)"

text \<open>After authentication: open the envelope, decode and call, seal the answer. \<open>None\<close> is a panic.\<close>

definition answer_sealed ::
  "('s, 'c) Deps \<Rightarrow> signed_env \<Rightarrow> signed_request \<Rightarrow> string \<Rightarrow> bytes \<Rightarrow>
   (bytes \<Rightarrow> 's brain_state \<Rightarrow> (code + rpc_response) option \<times> 's brain_state) \<Rightarrow> 's brain_state \<Rightarrow>
   http_answer option \<times> 's brain_state" where
  "answer_sealed D e r path body call st =
     (case OpenRequest (D_hpke D) (D_Keys D) (signed_kid r) path (signed_ts r) (signed_nonce r) body of
        Inl err \<Rightarrow>
          (Some (if err = ErrUnknownHPKEKey then Http_Error 400 CodeHPKEKeyUnknown
                 else Http_Error 400 CodeSealed), st)
      | Inr (plaintext, sealer) \<Rightarrow>
          (case call plaintext st of
             (None, st') \<Rightarrow> (None, st')
           | (Some (Inl c), st') \<Rightarrow> (Some (case grpcToHTTP c of (s, ec) \<Rightarrow> Http_Error s ec), st')
           | (Some (Inr resp), st') \<Rightarrow>
               (case D_Marshal D resp of
                  Inl err \<Rightarrow> (Some (Http_Error 500 CodeInternal), st')
                | Inr out \<Rightarrow>
                    (case Sealer_Seal (D_hpke D) (s_rnd e) sealer out of
                       Inl err \<Rightarrow> (Some (Http_Error 500 CodeInternal), st')
                     | Inr sealed \<Rightarrow> (Some (Http_Sealed sealed), st')))))"

definition handle ::
  "('s, 'c) Deps \<Rightarrow> signed_env \<Rightarrow> signed_request \<Rightarrow> string \<Rightarrow> bool \<Rightarrow>
   (Identity option \<Rightarrow> bytes \<Rightarrow> 's brain_state \<Rightarrow> (code + rpc_response) option \<times> 's brain_state) \<Rightarrow>
   's brain_state \<Rightarrow> http_answer option \<times> 's brain_state" where
  "handle D e r path authenticated call st =
     (if \<not> HasPrefix (header_Get (q_header r) ''Content-Type'') SealedContentType
      then (Some (Http_Error 415 CodeBadRequest), st)
      else case q_body r of
        Inl err \<Rightarrow> (Some (Http_Error 413 CodeBadRequest), st)
      | Inr body \<Rightarrow>
          if length body > maxBody then (Some (Http_Error 413 CodeBadRequest), st)
          else if VerifyContentDigest (B_sha256 (D_Brain D)) (q_header r) body \<noteq> None
          then (Some (Http_Error 400 CodeBadDigest), st)
          else if authenticated then
            (case authenticate D e r path (signed_ts r) (signed_nonce r) (bs_store st) of
               (Inl ans, s) \<Rightarrow> (Some ans, st\<lparr>bs_store := s\<rparr>)
             | (Inr i, s) \<Rightarrow> answer_sealed D e r path body (call (Some i)) (st\<lparr>bs_store := s\<rparr>))
          else answer_sealed D e r path body (call None) st)"

definition signed_bootstrap where
  "signed_bootstrap D e r = handle D e r PathBootstrap False
     (\<lambda>ident inp st. case D_Unmarshal_Bootstrap D inp of
        None \<Rightarrow> (Some (Inl InvalidArgument), st)
      | Some req \<Rightarrow> Brain_dispatch (D_Brain D) (call_env.truncate e) (BootstrapCert_Request req) ident st)"

definition signed_ingest where
  "signed_ingest D e r = handle D e r PathIngest True
     (\<lambda>ident inp st. case D_Unmarshal_Alert D inp of
        None \<Rightarrow> (Some (Inl InvalidArgument), st)
      | Some req \<Rightarrow> Brain_dispatch (D_Brain D) (call_env.truncate e) (Ingest_Request req) ident st)"

definition signed_signCSR where
  "signed_signCSR D e r = handle D e r PathSignCSR True
     (\<lambda>ident inp st. case D_Unmarshal_SignCSR D inp of
        None \<Rightarrow> (Some (Inl InvalidArgument), st)
      | Some req \<Rightarrow> Brain_dispatch (D_Brain D) (call_env.truncate e) (SignCSR_Request req) ident st)"

text \<open>The routes; an unknown path is 404, a known one with another method 405.\<close>

definition signed_serve ::
  "('s, 'c) Deps \<Rightarrow> signed_env \<Rightarrow> signed_request \<Rightarrow> 's brain_state \<Rightarrow> http_answer \<times> 's brain_state" where
  "signed_serve D e r st =
     (let recover = (\<lambda>(a, s). (case a of None \<Rightarrow> Http_Status 500 | Some b \<Rightarrow> b, s));
          get = (\<lambda>h. if q_method r = ''GET'' then h else (Some (Http_Status 405), st));
          post = (\<lambda>h. if q_method r = ''POST'' then h else (Some (Http_Status 405), st))
      in recover
           (if q_path r = PathKeys then get (keys D (s_now e), st)
            else if q_path r = PathBootstrap then post (signed_bootstrap D e r st)
            else if q_path r = PathIngest then post (signed_ingest D e r st)
            else if q_path r = PathSignCSR then post (signed_signCSR D e r st)
            else if q_path r = ''/healthz'' then get (Some Http_OK, st)
            else (Some (Http_Status 404), st)))"

section \<open>What authentication establishes\<close>

definition signed_identity :: "('s, 'c) Deps \<Rightarrow> signed_env \<Rightarrow> signed_request \<Rightarrow> string \<Rightarrow> Identity \<Rightarrow> bool" where
  "signed_identity D e r path i \<longleftrightarrow>
     (\<exists>leaf info. parseCertHeader (B_x509 (D_Brain D)) (header_Get (q_header r) HeaderCert) = Some leaf \<and>
        VerifyClientLeaf (D_x509_verify D) (D_Trust D) leaf (s_now e) \<and> is_ecdsa leaf \<and>
        VerifyRequest (B_sha256 (D_Brain D)) (D_ecdsa_verify D) (q_method r) path (q_header r)
          (Some (KeyKind leaf, PublicKey leaf)) = Inr info \<and>
        KeyID info = CertKeyID (B_sha256 (D_Brain D)) (Raw leaf) \<and>
        ParseInt (signed_ts r) = Some (Created info) \<and> ExtractFromCert (Some leaf) = Inr i)"

definition signed_passes ::
  "('s, 'c) Deps \<Rightarrow> signed_env \<Rightarrow> signed_request \<Rightarrow> string \<Rightarrow> 's \<Rightarrow> Identity \<Rightarrow> bool" where
  "signed_passes D e r path st i \<longleftrightarrow> signed_identity D e r path i \<and> tenant_active (tenants_gate e) i \<and>
     fst (Verify (B_store (D_Brain D)) (B_replay (D_Brain D)) (r_t e) (r_now e) (r_now' e) st (Some i)
       (signed_ts r) (signed_nonce r)) = None"

lemma signed_identity_fun: "signed_identity D e r path i \<Longrightarrow> signed_identity D e r path j \<Longrightarrow> i = j"
  by (auto simp: signed_identity_def)

lemma authenticate_identified:
  assumes "signed_identity D e r path i" "tenant_active (tenants_gate e) i"
  shows "authenticate D e r path (signed_ts r) (signed_nonce r) st =
    (case Verify (B_store (D_Brain D)) (B_replay (D_Brain D)) (r_t e) (r_now e) (r_now' e) st (Some i)
       (signed_ts r) (signed_nonce r) of
       (Some err, st') \<Rightarrow>
         (Inl (if malformed_replay err then Http_Error 400 CodeBadRequest else Http_Error 401 CodeReplay), st')
     | (None, st') \<Rightarrow> (Inr i, st'))"
  using assms
  by (auto simp: authenticate_def signed_identity_def tenant_active_def dest: Lookup_Some_tenants)

lemma authenticate_unidentified:
  assumes "\<And>i. \<not> (signed_identity D e r path i \<and> tenant_active (tenants_gate e) i)"
  shows "\<exists>a. authenticate D e r path (signed_ts r) (signed_nonce r) st = (Inl a, st)"
  using assms
  by (auto simp: authenticate_def signed_identity_def tenant_active_def
      split: option.splits sum.splits if_splits)

lemma authenticate_passes:
  assumes "signed_passes D e r path st i"
  shows "authenticate D e r path (signed_ts r) (signed_nonce r) st =
    (Inr i, snd (Verify (B_store (D_Brain D)) (B_replay (D_Brain D)) (r_t e) (r_now e) (r_now' e) st (Some i)
       (signed_ts r) (signed_nonce r)))"
  using assms authenticate_identified [of D e r path i st] unfolding signed_passes_def
  by (simp split: prod.splits)

lemma authenticate_refused:
  assumes "\<And>i. \<not> signed_passes D e r path st i"
  shows "\<exists>a. fst (authenticate D e r path (signed_ts r) (signed_nonce r) st) = Inl a"
proof (cases "\<exists>i. signed_identity D e r path i \<and> tenant_active (tenants_gate e) i")
  case True
  then obtain i where i: "signed_identity D e r path i" "tenant_active (tenants_gate e) i" by blast
  with assms [of i] obtain err s where "Verify (B_store (D_Brain D)) (B_replay (D_Brain D)) (r_t e) (r_now e)
      (r_now' e) st (Some i) (signed_ts r) (signed_nonce r) = (Some err, s)"
    unfolding signed_passes_def by (metis fst_conv not_None_eq surj_pair)
  then show ?thesis by (simp add: authenticate_identified [OF i])
next
  case False
  then obtain a where "authenticate D e r path (signed_ts r) (signed_nonce r) st = (Inl a, st)"
    using authenticate_unidentified [of D e r path st] by blast
  then show ?thesis by simp
qed

section \<open>The state after a request\<close>

lemma answer_sealed_state:
  "snd (answer_sealed D e r path body call st) =
    (case OpenRequest (D_hpke D) (D_Keys D) (signed_kid r) path (signed_ts r) (signed_nonce r) body of
       Inl err \<Rightarrow> st
     | Inr (plaintext, sealer) \<Rightarrow> snd (call plaintext st))"
  by (simp add: answer_sealed_def split: sum.splits prod.splits option.splits)

text \<open>The checks before authentication.\<close>

definition well_formed_request :: "('s, 'c) Deps \<Rightarrow> signed_request \<Rightarrow> bytes \<Rightarrow> bool" where
  "well_formed_request D r body \<longleftrightarrow> HasPrefix (header_Get (q_header r) ''Content-Type'') SealedContentType \<and>
     q_body r = Inr body \<and> length body \<le> maxBody \<and>
     VerifyContentDigest (B_sha256 (D_Brain D)) (q_header r) body = None"

lemma handle_malformed:
  assumes "\<And>body. \<not> well_formed_request D r body"
  shows "snd (handle D e r path a call st) = st \<and> (\<exists>s c. fst (handle D e r path a call st) = Some (Http_Error s c))"
proof (cases "q_body r")
  case (Inr body)
  with assms [of body] show ?thesis by (auto simp: handle_def well_formed_request_def not_le)
qed (simp add: handle_def)

lemma handle_well_formed:
  assumes "well_formed_request D r body"
  shows "handle D e r path True call st =
    (case authenticate D e r path (signed_ts r) (signed_nonce r) (bs_store st) of
       (Inl ans, s) \<Rightarrow> (Some ans, st\<lparr>bs_store := s\<rparr>)
     | (Inr i, s) \<Rightarrow> answer_sealed D e r path body (call (Some i)) (st\<lparr>bs_store := s\<rparr>))"
    and "handle D e r path False call st = answer_sealed D e r path body (call None) st"
  using assms by (simp_all add: handle_def well_formed_request_def)

lemma handle_refused:
  assumes "well_formed_request D r body" "\<And>i. \<not> signed_passes D e r path (bs_store st) i"
  shows "\<exists>a s. handle D e r path True call st = (Some a, st\<lparr>bs_store := s\<rparr>)"
proof -
  obtain a s where "authenticate D e r path (signed_ts r) (signed_nonce r) (bs_store st) = (Inl a, s)"
    using authenticate_refused [of D e r path "bs_store st"] assms(2) by (metis prod.collapse)
  then show ?thesis by (auto simp: handle_well_formed [OF assms(1)])
qed

lemma handle_passes:
  assumes "well_formed_request D r body" "signed_passes D e r path (bs_store st) i"
  shows "snd (handle D e r path True call st) =
    (let st1 = st\<lparr>bs_store := snd (Verify (B_store (D_Brain D)) (B_replay (D_Brain D)) (r_t e) (r_now e) (r_now' e)
                 (bs_store st) (Some i) (signed_ts r) (signed_nonce r))\<rparr>
     in case OpenRequest (D_hpke D) (D_Keys D) (signed_kid r) path (signed_ts r) (signed_nonce r) body of
          Inl err \<Rightarrow> st1
        | Inr (plaintext, sealer) \<Rightarrow> snd (call (Some i) plaintext st1))"
  by (simp add: handle_well_formed [OF assms(1)] authenticate_passes [OF assms(2)] answer_sealed_state Let_def)

lemma signed_bootstrap_spawns: "bs_ingest (snd (signed_bootstrap D e r st)) = bs_ingest st"
proof (cases "\<exists>body. well_formed_request D r body")
  case True
  then obtain body where "well_formed_request D r body" ..
  then show ?thesis
    by (auto simp: signed_bootstrap_def handle_well_formed answer_sealed_state Brain_dispatch_def
        Server_BootstrapCert_def split: sum.splits option.splits prod.splits)
next
  case False
  then show ?thesis using handle_malformed [of D r] by (simp add: signed_bootstrap_def)
qed

lemma signed_signCSR_spawns: "bs_ingest (snd (signed_signCSR D e r st)) = bs_ingest st"
proof (cases "\<exists>body. well_formed_request D r body")
  case True
  then obtain body where wf: "well_formed_request D r body" ..
  show ?thesis
    by (auto simp: signed_signCSR_def handle_well_formed [OF wf] answer_sealed_state Brain_dispatch_def
        Server_SignCSR_def split: sum.splits option.splits prod.splits)
next
  case False
  then show ?thesis using handle_malformed [of D r] by (simp add: signed_signCSR_def)
qed

definition signed_delivers :: "('s, 'c) Deps \<Rightarrow> signed_env \<Rightarrow> signed_request \<Rightarrow> 's \<Rightarrow> Identity \<Rightarrow> AlertPayload \<Rightarrow> bool" where
  "signed_delivers D e r st i p \<longleftrightarrow>
     (\<exists>body pt sealer. well_formed_request D r body \<and> signed_passes D e r PathIngest st i \<and>
        OpenRequest (D_hpke D) (D_Keys D) (signed_kid r) PathIngest (signed_ts r) (signed_nonce r) body =
          Inr (pt, sealer) \<and>
        D_Unmarshal_Alert D pt = Some p \<and> ClusterId p = ClusterID i)"

lemma signed_ingest_spawns:
  "spawned (bs_ingest (snd (signed_ingest D e r st))) = spawned (bs_ingest st) @ [p] \<longleftrightarrow>
     (\<exists>i. signed_delivers D e r (bs_store st) i p)"
  "spawned (bs_ingest (snd (signed_ingest D e r st))) = spawned (bs_ingest st) \<or>
     (\<exists>p. spawned (bs_ingest (snd (signed_ingest D e r st))) = spawned (bs_ingest st) @ [p])"
proof -
  have *: "(spawned (bs_ingest (snd (signed_ingest D e r st))) = spawned (bs_ingest st) @ [p] \<longleftrightarrow>
      (\<exists>i. signed_delivers D e r (bs_store st) i p)) \<and>
    (spawned (bs_ingest (snd (signed_ingest D e r st))) = spawned (bs_ingest st) \<or>
     (\<exists>p. spawned (bs_ingest (snd (signed_ingest D e r st))) = spawned (bs_ingest st) @ [p]))" for p
  proof (cases "\<exists>body. well_formed_request D r body")
    case False
    then show ?thesis using handle_malformed [of D r] by (auto simp: signed_ingest_def signed_delivers_def)
  next
    case True
    then obtain body where wf: "well_formed_request D r body" ..
    have body: "b = body" if "well_formed_request D r b" for b
      using wf that by (simp add: well_formed_request_def)
    show ?thesis
    proof (cases "\<exists>i. signed_passes D e r PathIngest (bs_store st) i")
      case False
      then obtain a s where "signed_ingest D e r st = (Some a, st\<lparr>bs_store := s\<rparr>)"
        using handle_refused [OF wf] unfolding signed_ingest_def by blast
      with False show ?thesis by (auto simp: signed_delivers_def)
    next
      case True
      then obtain i where i: "signed_passes D e r PathIngest (bs_store st) i" ..
      have uniq: "j = i" if "signed_passes D e r PathIngest (bs_store st) j" for j
        using that i signed_identity_fun unfolding signed_passes_def by blast
      have "(\<exists>j. signed_delivers D e r (bs_store st) j p) \<longleftrightarrow>
          (\<exists>pt sealer. OpenRequest (D_hpke D) (D_Keys D) (signed_kid r) PathIngest (signed_ts r) (signed_nonce r)
             body = Inr (pt, sealer) \<and> D_Unmarshal_Alert D pt = Some p \<and> ClusterId p = ClusterID i)"
        using wf i uniq body unfolding signed_delivers_def by blast
      then show ?thesis
        by (auto simp: signed_ingest_def handle_passes [OF wf i] Let_def dispatch_ingest
            split: sum.splits option.splits prod.splits)
    qed
  qed
  from * show "spawned (bs_ingest (snd (signed_ingest D e r st))) = spawned (bs_ingest st) @ [p] \<longleftrightarrow>
     (\<exists>i. signed_delivers D e r (bs_store st) i p)" by blast
  from * show "spawned (bs_ingest (snd (signed_ingest D e r st))) = spawned (bs_ingest st) \<or>
     (\<exists>p. spawned (bs_ingest (snd (signed_ingest D e r st))) = spawned (bs_ingest st) @ [p])" by blast
qed

lemma signed_serve_ingest:
  "snd (signed_serve D e r st) =
    (if q_path r = PathIngest \<and> q_method r = ''POST'' then snd (signed_ingest D e r st)
     else if q_path r = PathSignCSR \<and> q_method r = ''POST'' then snd (signed_signCSR D e r st)
     else if q_path r = PathBootstrap \<and> q_method r = ''POST'' then snd (signed_bootstrap D e r st)
     else st)"
  by (simp add: signed_serve_def Let_def PathKeys_def PathBootstrap_def PathIngest_def PathSignCSR_def
      split: prod.splits)

lemma signed_delivers_iff:
  "(\<exists>i. signed_delivers D e r st i p) \<longleftrightarrow>
      (\<exists>body i leaf info t pt sealer.
        HasPrefix (header_Get (q_header r) ''Content-Type'') SealedContentType \<and>
        q_body r = Inr body \<and> length body \<le> maxBody \<and>
        VerifyContentDigest (B_sha256 (D_Brain D)) (q_header r) body = None \<and>
        parseCertHeader (B_x509 (D_Brain D)) (header_Get (q_header r) HeaderCert) = Some leaf \<and>
        VerifyClientLeaf (D_x509_verify D) (D_Trust D) leaf (s_now e) \<and> is_ecdsa leaf \<and>
        VerifyRequest (B_sha256 (D_Brain D)) (D_ecdsa_verify D) (q_method r) PathIngest (q_header r)
          (Some (KeyKind leaf, PublicKey leaf)) = Inr info \<and>
        KeyID info = CertKeyID (B_sha256 (D_Brain D)) (Raw leaf) \<and>
        ParseInt (signed_ts r) = Some (Created info) \<and> ExtractFromCert (Some leaf) = Inr i \<and>
        Lookup (tenants_gate e) (ClusterID i) = Some t \<and> \<not> Revoked t \<and>
        fst (Verify (B_store (D_Brain D)) (B_replay (D_Brain D)) (r_t e) (r_now e) (r_now' e) st
          (Some i) (signed_ts r) (signed_nonce r)) = None \<and>
        OpenRequest (D_hpke D) (D_Keys D) (signed_kid r) PathIngest (signed_ts r) (signed_nonce r) body =
          Inr (pt, sealer) \<and>
        D_Unmarshal_Alert D pt = Some p \<and> ClusterId p = ClusterID i)"
  unfolding signed_delivers_def signed_passes_def signed_identity_def well_formed_request_def
    tenant_active_def by blast

section \<open>Property: who can deliver an alert\<close>

text \<open>C8: Over the signed transport an alert enters the pipeline exactly when it was posted to the
  ingest path in a body that matches its digest, under a certificate that chains to the trust
  anchors, with a signature of the certificate's key over that request that names the certificate
  and the timestamp header, by a known tenant that is not revoked, past the replay guard, sealed
  for a key of the brain with that path, timestamp and nonce, and claims the cluster of the
  certificate. At most one alert is delivered per request, and no other route delivers one.\<close>

theorem signed_ingest_authorised:
  assumes "signed_serve D e r st = (ans, st')"
  shows "(spawned (bs_ingest st') = spawned (bs_ingest st) @ [p] \<longleftrightarrow>
      q_method r = ''POST'' \<and> q_path r = PathIngest \<and>
      (\<exists>body i leaf info t pt sealer.
        HasPrefix (header_Get (q_header r) ''Content-Type'') SealedContentType \<and>
        q_body r = Inr body \<and> length body \<le> maxBody \<and>
        VerifyContentDigest (B_sha256 (D_Brain D)) (q_header r) body = None \<and>
        parseCertHeader (B_x509 (D_Brain D)) (header_Get (q_header r) HeaderCert) = Some leaf \<and>
        VerifyClientLeaf (D_x509_verify D) (D_Trust D) leaf (s_now e) \<and> is_ecdsa leaf \<and>
        VerifyRequest (B_sha256 (D_Brain D)) (D_ecdsa_verify D) (q_method r) PathIngest (q_header r)
          (Some (KeyKind leaf, PublicKey leaf)) = Inr info \<and>
        KeyID info = CertKeyID (B_sha256 (D_Brain D)) (Raw leaf) \<and>
        ParseInt (signed_ts r) = Some (Created info) \<and> ExtractFromCert (Some leaf) = Inr i \<and>
        Lookup (tenants_gate e) (ClusterID i) = Some t \<and> \<not> Revoked t \<and>
        fst (Verify (B_store (D_Brain D)) (B_replay (D_Brain D)) (r_t e) (r_now e) (r_now' e) (bs_store st)
          (Some i) (signed_ts r) (signed_nonce r)) = None \<and>
        OpenRequest (D_hpke D) (D_Keys D) (signed_kid r) PathIngest (signed_ts r) (signed_nonce r) body =
          Inr (pt, sealer) \<and>
        D_Unmarshal_Alert D pt = Some p \<and> ClusterId p = ClusterID i)) \<and>
    (spawned (bs_ingest st') = spawned (bs_ingest st) \<or>
      (\<exists>p. spawned (bs_ingest st') = spawned (bs_ingest st) @ [p]))"
    (is "(?S \<longleftrightarrow> ?M \<and> ?P \<and> ?D) \<and> ?U")
proof -
  have st': "st' = snd (signed_serve D e r st)" using assms by simp
  note simps = st' signed_serve_ingest signed_signCSR_spawns signed_bootstrap_spawns
  have "?S \<longleftrightarrow> ?M \<and> ?P \<and> ?D"
    using signed_ingest_spawns(1) [of D e r st p] signed_delivers_iff [of D e r "bs_store st" p]
    by (simp add: simps)
  moreover have ?U
    using signed_ingest_spawns(2) [of D e r st] by (simp add: simps)
  ultimately show ?thesis by blast
qed

section \<open>One acceptance across both transports\<close>

text \<open>Everything that touches the shared store: calls over either transport and the activity of the
  other components.\<close>

datatype brain_event =
    Over_gRPC call_env rpc_request rpc_ctx
  | Over_HTTP signed_env signed_request
  | Elsewhere store_event

fun brain_step ::
  "(gotime \<Rightarrow> 's \<Rightarrow> 's) \<Rightarrow> ('s, 'c) Deps \<Rightarrow> brain_event \<Rightarrow> 's brain_state \<Rightarrow> 's brain_state" where
  "brain_step bg D (Over_gRPC e req ctx) st = snd (grpc_call (D_Brain D) e req ctx st)"
| "brain_step bg D (Over_HTTP e r) st = snd (signed_serve D e r st)"
| "brain_step bg D (Elsewhere ev) st = st\<lparr>bs_store := store_step (B_store (D_Brain D)) bg ev (bs_store st)\<rparr>"

definition brain_run ::
  "(gotime \<Rightarrow> 's \<Rightarrow> 's) \<Rightarrow> ('s, 'c) Deps \<Rightarrow> brain_event list \<Rightarrow> 's brain_state \<Rightarrow> 's brain_state" where
  "brain_run bg D evs st = fold (brain_step bg D) evs st"

text \<open>The caller, timestamp and nonce of an authenticated call, and the clocks it is checked with.\<close>

fun presents :: "('s, 'c) Deps \<Rightarrow> brain_event \<Rightarrow> Identity \<Rightarrow> string \<Rightarrow> string \<Rightarrow> bool" where
  "presents D (Over_gRPC e req ctx) i ts nonce \<longleftrightarrow> FullMethod req \<notin> set authExemptMethods \<and>
     grpc_identity ctx = Some i \<and> ts = grpc_ts ctx \<and> nonce = grpc_nonce ctx"
| "presents D (Over_HTTP e r) i ts nonce \<longleftrightarrow> q_method r = ''POST'' \<and> (q_path r = PathIngest \<or> q_path r = PathSignCSR) \<and>
     signed_identity D e r (q_path r) i \<and> ts = signed_ts r \<and> nonce = signed_nonce r"
| "presents D (Elsewhere ev) i ts nonce \<longleftrightarrow> False"

fun ev_env :: "brain_event \<Rightarrow> call_env option" where
  "ev_env (Over_gRPC e req ctx) = Some e"
| "ev_env (Over_HTTP e r) = Some (call_env.truncate e)"
| "ev_env (Elsewhere ev) = None"

text \<open>A call succeeded when it was answered without an error status.\<close>

fun succeeds :: "('s, 'c) Deps \<Rightarrow> brain_event \<Rightarrow> 's brain_state \<Rightarrow> bool" where
  "succeeds D (Over_gRPC e req ctx) st \<longleftrightarrow> (\<exists>resp. fst (grpc_call (D_Brain D) e req ctx st) = Some (Inr resp))"
| "succeeds D (Over_HTTP e r) st \<longleftrightarrow> (\<exists>b. fst (signed_serve D e r st) = Http_Sealed b)"
| "succeeds D (Elsewhere ev) st \<longleftrightarrow> False"

text \<open>Events whose clocks are sane and no later than \<open>t\<close>, and whose activity elsewhere leaves the
  key alone.\<close>

fun timely :: "gotime \<Rightarrow> string \<Rightarrow> brain_event \<Rightarrow> bool" where
  "timely t key (Over_gRPC e req ctx) \<longleftrightarrow> 0 \<le> r_now' e \<and> r_now e \<le> t \<and> 0 \<le> c_store' (issue_k e) \<and>
     c_store (issue_k e) \<le> t"
| "timely t key (Over_HTTP e r) \<longleftrightarrow> 0 \<le> r_now' e \<and> r_now e \<le> t \<and> 0 \<le> c_store' (issue_k e) \<and>
     c_store (issue_k e) \<le> t"
| "timely t key (Elsewhere ev) \<longleftrightarrow> spares t key ev"

text \<open>The effect of a step on the store, as store events that spare a key.\<close>

definition store_path :: "'s store_ops \<Rightarrow> (gotime \<Rightarrow> 's \<Rightarrow> 's) \<Rightarrow> gotime \<Rightarrow> string \<Rightarrow> 's \<Rightarrow> 's \<Rightarrow> bool" where
  "store_path ops bg t key s s' \<longleftrightarrow> (\<exists>evs. s' = store_run ops bg evs s \<and> list_all (spares t key) evs)"

lemma store_path_refl [simp]: "store_path ops bg t key s s"
  unfolding store_path_def by (rule exI [of _ "[]"]) (simp add: store_run_def)

lemma store_path_step: "spares t key ev \<Longrightarrow> store_path ops bg t key s (store_step ops bg ev s)"
  unfolding store_path_def by (rule exI [of _ "[ev]"]) (simp add: store_run_def)

lemma store_path_trans:
  assumes "store_path ops bg t key s s'" "store_path ops bg t key s' s''"
  shows "store_path ops bg t key s s''"
proof -
  from assms obtain xs ys where "s' = store_run ops bg xs s" "list_all (spares t key) xs"
    "s'' = store_run ops bg ys s'" "list_all (spares t key) ys"
    unfolding store_path_def by blast
  then show ?thesis unfolding store_path_def
    by (intro exI [of _ "xs @ ys"]) (simp add: store_run_def)
qed

lemma Verify_path:
  assumes "0 \<le> now'" "now \<le> T"
  shows "store_path ops bg T key s (snd (Verify ops g t now now' s ident ts n))"
proof (cases "snd (Verify ops g t now now' s ident ts n) = s")
  case False
  then obtain i where "snd (Verify ops g t now now' s ident ts n) =
      store_step ops bg (Ev_SetNX now now' (nonceKey g i n) [CHR 0x01] (nonceTTL g)) s"
    by (auto simp: Verify_def Let_def split: option.splits if_splits sum.splits prod.splits) (metis snd_conv)+
  with assms store_path_step show ?thesis by (metis spares.simps(2))
qed simp

lemma Bootstrap_path:
  assumes "0 \<le> c_store' k" "c_store k \<le> T" "key \<noteq> usedKey h (In_ClusterID inp)"
  shows "store_path ops bg T key s (snd (Bootstrap_Issue x sha256 ops h tenants sn k inp s))"
proof (cases "\<exists>t. admissible sha256 tenants (c_now k) inp t")
  case True
  then obtain t where t: "admissible sha256 tenants (c_now k) inp t" ..
  let ?ev = "Ev_SetNX (c_store k) (c_store' k) (usedKey h (In_ClusterID inp)) [CHR 0x01] (bootstrap_ttl (c_until k) t)"
  have 1: "store_path ops bg T key s (store_step ops bg ?ev s)" using assms by (intro store_path_step) simp
  have "snd (Bootstrap_Issue x sha256 ops h tenants sn k inp s) = store_step ops bg ?ev s \<or>
      snd (Bootstrap_Issue x sha256 ops h tenants sn k inp s) =
        store_step ops bg (Ev_Delete (usedKey h (In_ClusterID inp))) (store_step ops bg ?ev s)"
    unfolding Issue_after_checks [OF t] by (auto split: prod.splits sum.splits bool.splits option.splits)
  then show ?thesis
    using 1 store_path_trans [OF 1 store_path_step [of T key "Ev_Delete (usedKey h (In_ClusterID inp))"]] assms(3)
    by (elim disjE) simp_all
next
  case False
  then show ?thesis using Issue_refused [of sha256 tenants k inp x ops h sn s] by fastforce
qed


lemma dispatch_path:
  assumes "0 \<le> c_store' (issue_k e)" "c_store (issue_k e) \<le> T" "\<And>c. key \<noteq> usedKey (B_bootstrap B) c"
  shows "store_path (B_store B) bg T key (bs_store st) (bs_store (snd (Brain_dispatch B e req ident st)))"
proof (cases req)
  case (BootstrapCert_Request r)
  have "bs_store (snd (Server_BootstrapCert B e r st)) =
      snd (Bootstrap_Issue (B_x509 B) (B_sha256 B) (B_store B) (B_bootstrap B) (tenants_issue e) (serial e)
        (issue_k e) \<lparr>In_ClusterID = br_ClusterId r, BootstrapToken = br_BootstrapToken r, In_CSRPEM = br_Csr r\<rparr>
        (bs_store st))"
    by (simp add: Server_BootstrapCert_def split: prod.splits option.splits sum.splits)
  with Bootstrap_path [OF assms(1,2), of key "B_bootstrap B" "\<lparr>In_ClusterID = br_ClusterId r,
      BootstrapToken = br_BootstrapToken r, In_CSRPEM = br_Csr r\<rparr>"] assms(3)
  show ?thesis by (simp add: BootstrapCert_Request Brain_dispatch_def)
next
  case (Ingest_Request p)
  then show ?thesis
    by (simp add: Brain_dispatch_def Server_Ingest_def Ingest_def split: option.splits)
next
  case (SignCSR_Request c)
  then show ?thesis
    by (simp add: Brain_dispatch_def Server_SignCSR_def split: option.splits sum.splits)
qed

lemma grpc_path:
  assumes "timely T key (Over_gRPC e req ctx)" "\<And>c. key \<noteq> usedKey (B_bootstrap B) c"
  shows "store_path (B_store B) bg T key (bs_store st) (bs_store (snd (grpc_call B e req ctx st)))"
proof (cases "FullMethod req \<in> set authExemptMethods")
  case True
  with dispatch_path [of e T key B] assms show ?thesis
    by (simp add: grpc_call_def AuthInterceptor_def RevocationInterceptor_def ReplayInterceptor_def)
next
  case False
  let ?v = "\<lambda>i. Verify (B_store B) (B_replay B) (r_t e) (r_now e) (r_now' e) (bs_store st) (Some i) (grpc_ts ctx)
    (grpc_nonce ctx)"
  have v: "store_path (B_store B) bg T key (bs_store st) (snd (?v i))" for i
    using assms by (intro Verify_path) simp_all
  have d: "store_path (B_store B) bg T key (snd (?v i))
      (bs_store (snd (Brain_dispatch B e req (Some i) (st\<lparr>bs_store := snd (?v i)\<rparr>))))" for i
    using dispatch_path [of e T key B bg "st\<lparr>bs_store := snd (?v i)\<rparr>"] assms by simp
  have "bs_store (snd (grpc_call B e req ctx st)) = bs_store st \<or>
      (\<exists>i. bs_store (snd (grpc_call B e req ctx st)) = snd (?v i) \<or>
        bs_store (snd (grpc_call B e req ctx st)) =
          bs_store (snd (Brain_dispatch B e req (Some i) (st\<lparr>bs_store := snd (?v i)\<rparr>))))"
    unfolding grpc_call_gated [OF False] by (auto split: option.splits prod.splits) (metis snd_conv)+
  then show ?thesis using v d store_path_trans by (metis store_path_refl)
qed

lemma handle_path:
  assumes "0 \<le> r_now' e" "r_now e \<le> T"
    and call: "\<And>ident pt st. store_path (B_store (D_Brain D)) bg T key (bs_store st) (bs_store (snd (call ident pt st)))"
  shows "store_path (B_store (D_Brain D)) bg T key (bs_store st) (bs_store (snd (handle D e r path a call st)))"
proof (cases "\<exists>body. well_formed_request D r body")
  case False
  then show ?thesis using handle_malformed [of D r e path a call st] by simp
next
  case True
  then obtain body where wf: "well_formed_request D r body" ..
  have ans: "store_path (B_store (D_Brain D)) bg T key (bs_store st)
      (bs_store (snd (answer_sealed D e r path body (call ident) st)))" for ident st
    using call by (simp add: answer_sealed_state split: sum.splits prod.splits)
  have auth: "store_path (B_store (D_Brain D)) bg T key (bs_store st)
      (snd (authenticate D e r path (signed_ts r) (signed_nonce r) (bs_store st)))"
  proof (cases "\<exists>i. signed_identity D e r path i \<and> tenant_active (tenants_gate e) i")
    case True
    then obtain i where "signed_identity D e r path i" "tenant_active (tenants_gate e) i" by blast
    note i = authenticate_identified [OF this, of "bs_store st"]
    let ?v = "Verify (B_store (D_Brain D)) (B_replay (D_Brain D)) (r_t e) (r_now e) (r_now' e) (bs_store st) (Some i)
      (signed_ts r) (signed_nonce r)"
    have "snd (authenticate D e r path (signed_ts r) (signed_nonce r) (bs_store st)) = snd ?v"
      unfolding i by (simp split: prod.splits option.splits)
    with Verify_path [OF assms(1,2)] show ?thesis by simp
  next
    case False
    then obtain a where "authenticate D e r path (signed_ts r) (signed_nonce r) (bs_store st) = (Inl a, bs_store st)"
      using authenticate_unidentified [of D e r path "bs_store st"] by blast
    then show ?thesis by simp
  qed
  show ?thesis
  proof (cases a)
    case True
    show ?thesis
    proof (cases "authenticate D e r path (signed_ts r) (signed_nonce r) (bs_store st)")
      case (Pair x s)
      with auth ans [of "st\<lparr>bs_store := s\<rparr>" "Some (projr x)"] show ?thesis
        by (cases x) (auto simp: True handle_well_formed [OF wf] intro: store_path_trans)
    qed
  qed (simp add: handle_well_formed [OF wf] ans)
qed

lemma signed_path:
  assumes "timely T key (Over_HTTP e r)" "\<And>c. key \<noteq> usedKey (B_bootstrap (D_Brain D)) c"
  shows "store_path (B_store (D_Brain D)) bg T key (bs_store st) (bs_store (snd (signed_serve D e r st)))"
proof -
  have t: "0 \<le> r_now' e" "r_now e \<le> T" "0 \<le> c_store' (issue_k (call_env.truncate e))"
    "c_store (issue_k (call_env.truncate e)) \<le> T"
    using assms(1) by (simp_all add: call_env.truncate_def)
  note d = dispatch_path [OF t(3,4), of key "D_Brain D", OF assms(2)]
  show ?thesis
    unfolding signed_serve_ingest signed_ingest_def signed_signCSR_def signed_bootstrap_def
    using t by (auto intro!: handle_path d split: option.splits)
qed

text \<open>A call took effect when it succeeded or delivered an alert.\<close>

definition effective :: "('s, 'c) Deps \<Rightarrow> brain_event \<Rightarrow> 's brain_state \<Rightarrow> bool" where
  "effective D ev st \<longleftrightarrow> succeeds D ev st \<or>
     spawned (bs_ingest (brain_step (\<lambda>_. id) D ev st)) \<noteq> spawned (bs_ingest st)"

lemma dispatch_keeps_store:
  "FullMethod req \<notin> set authExemptMethods \<Longrightarrow> bs_store (snd (Brain_dispatch B e req ident st)) = bs_store st"
  by (cases req) (auto simp: Brain_dispatch_def Server_Ingest_def Ingest_def Server_SignCSR_def
      split: option.splits sum.splits)

definition guard_accepts :: "'s Brain \<Rightarrow> 'a call_env_scheme \<Rightarrow> 's \<Rightarrow> Identity \<Rightarrow> string \<Rightarrow> string \<Rightarrow> 's \<Rightarrow> bool" where
  "guard_accepts B e st i ts nonce s \<longleftrightarrow>
     Verify (B_store B) (B_replay B) (r_t e) (r_now e) (r_now' e) st (Some i) ts nonce = (None, s)"

lemma grpc_effective:
  assumes "FullMethod req \<notin> set authExemptMethods" "grpc_identity ctx = Some i"
    and "effective D (Over_gRPC e req ctx) st"
  shows "guard_accepts (D_Brain D) e (bs_store st) i (grpc_ts ctx) (grpc_nonce ctx)
    (bs_store (snd (grpc_call (D_Brain D) e req ctx st)))"
proof -
  have "\<exists>j. grpc_passes (D_Brain D) e ctx st j"
  proof (rule ccontr)
    assume "\<nexists>j. grpc_passes (D_Brain D) e ctx st j"
    with grpc_call_refused [OF assms(1), of "D_Brain D" e ctx st] assms(3)
    show False by (auto simp: effective_def) (metis Inl_Inr_False fst_conv option.inject prod.collapse)+
  qed
  with assms(2) have p: "grpc_passes (D_Brain D) e ctx st i" by (auto simp: grpc_passes_def)
  then show ?thesis
    unfolding grpc_call_passes [OF assms(1) p] dispatch_keeps_store [OF assms(1)]
    by (simp add: guard_accepts_def grpc_passes_def prod_eq_iff)
qed

lemma handle_effective:
  assumes id: "signed_identity D e r path i"
    and eff: "(\<exists>b. fst (handle D e r path True call st) = Some (Http_Sealed b)) \<or>
      spawned (bs_ingest (snd (handle D e r path True call st))) \<noteq> spawned (bs_ingest st)"
    and call: "\<And>ident pt st. bs_store (snd (call ident pt st)) = bs_store st"
  shows "guard_accepts (D_Brain D) e (bs_store st) i (signed_ts r) (signed_nonce r)
    (bs_store (snd (handle D e r path True call st)))"
proof -
  obtain body where wf: "well_formed_request D r body"
    using eff handle_malformed [of D r e path True call st] by fastforce
  have sealed: "authenticate D e r path ts n s \<noteq> (Inl (Http_Sealed b), s')" for ts n s s' b
    by (auto simp: authenticate_def split: option.splits sum.splits if_splits prod.splits)
  have "signed_passes D e r path (bs_store st) i"
  proof (rule ccontr)
    assume "\<not> signed_passes D e r path (bs_store st) i"
    then have none: "\<not> signed_passes D e r path (bs_store st) j" for j
      using id signed_identity_fun unfolding signed_passes_def by blast
    then obtain a where "fst (authenticate D e r path (signed_ts r) (signed_nonce r) (bs_store st)) = Inl a"
      using authenticate_refused [of D e r path "bs_store st"] by blast
    then obtain s where a: "authenticate D e r path (signed_ts r) (signed_nonce r) (bs_store st) = (Inl a, s)"
      by (metis prod.collapse)
    with eff sealed show False by (auto simp: handle_well_formed [OF wf])
  qed
  then show ?thesis
    using call
    by (simp add: handle_passes [OF wf] guard_accepts_def Let_def split: sum.splits)
      (simp add: signed_passes_def prod_eq_iff)
qed

lemma signed_effective:
  assumes "q_method r = ''POST''" "q_path r = PathIngest \<or> q_path r = PathSignCSR"
    and "signed_identity D e r (q_path r) i" "effective D (Over_HTTP e r) st"
  shows "guard_accepts (D_Brain D) e (bs_store st) i (signed_ts r) (signed_nonce r)
    (bs_store (snd (signed_serve D e r st)))"
proof -
  have paths: "PathIngest \<noteq> PathKeys" "PathIngest \<noteq> PathBootstrap" "PathSignCSR \<noteq> PathKeys"
    "PathSignCSR \<noteq> PathBootstrap" "PathSignCSR \<noteq> PathIngest"
    by (simp_all add: PathKeys_def PathBootstrap_def PathIngest_def PathSignCSR_def)
  have ans: "fst (signed_serve D e r st) = Http_Sealed b \<longleftrightarrow>
      fst (if q_path r = PathIngest then signed_ingest D e r st else signed_signCSR D e r st) =
        Some (Http_Sealed b)" for b
    using assms(1,2) paths by (auto simp: signed_serve_def Let_def split: prod.splits option.splits)
  have st: "snd (signed_serve D e r st) =
      snd (if q_path r = PathIngest then signed_ingest D e r st else signed_signCSR D e r st)"
    using assms(1,2) paths by (auto simp: signed_serve_ingest)
  have store: "bs_store (snd (case x of None \<Rightarrow> (Some (Inl InvalidArgument), s)
      | Some q \<Rightarrow> Brain_dispatch B e' (f q) ident s)) = bs_store s"
    if "\<And>q. FullMethod (f q) \<notin> set authExemptMethods" for x B e' f ident and s :: "'a brain_state"
    by (cases x) (simp_all add: dispatch_keeps_store that)
  show ?thesis
    unfolding st
    using assms(2-4)
    by (auto simp: signed_ingest_def signed_signCSR_def effective_def ans st paths
        intro!: handle_effective store)
qed

context kv_store
begin

lemma replayed_after_path:
  assumes inv: "inv (bs_store st)" and D: "B_store (D_Brain D) = ops"
    and g: "g = B_replay (D_Brain D)" "0 < rg_window g" "rg_window g < max_int64" "nonceTTL g = 2 * rg_window g"
    and first: "presents D ev1 i ts nonce" "ev_env ev1 = Some e1" "effective D ev1 st" "0 \<le> r_now' e1"
    and path: "store_path ops background (r_now e2) (nonceKey g i nonce) (bs_store (brain_step background D ev1 st)) (bs_store st2)"
    and second: "presents D ev2 j ts nonce" "ev_env ev2 = Some e2"
    and gap: "r_now e2 - r_t e2 \<le> r_now' e1 - r_t e1"
    and same: "Identity_String j = Identity_String i"
  shows "\<not> effective D ev2 st2"
proof
  let ?st1 = "brain_step background D ev1 st"
  have acc: "guard_accepts (D_Brain D) e (bs_store s) k t n (bs_store (brain_step background D ev s))"
    if "presents D ev k t n" "ev_env ev = Some e" "effective D ev s" for ev e s k t n
    using that grpc_effective [of _ _ k D] signed_effective [of _ D _ k s]
    by (cases ev) (auto simp: guard_accepts_def call_env.truncate_def)
  from path obtain ses where ses: "bs_store st2 = store_run ops background ses (bs_store ?st1)"
    "list_all (spares (r_now e2) (nonceKey g i nonce)) ses"
    unfolding store_path_def by blast
  have v1: "Verify ops g (r_t e1) (r_now e1) (r_now' e1) (bs_store st) (Some i) ts nonce = (None, bs_store ?st1)"
    using acc [OF first(1-3)] by (simp add: guard_accepts_def D g(1))
  assume "effective D ev2 st2"
  from acc [OF second this] replay_refused [OF inv g(2-4) v1 first(4) gap same ses(2,1), of "r_now' e2"]
  show False by (fastforce simp: guard_accepts_def D g(1))
qed

lemma brain_step_path:
  assumes "B_store (D_Brain D) = ops" and "bh_prefix (B_bootstrap (D_Brain D)) = rg_prefix g" and "timely t (nonceKey g i nonce) ev"
  shows "store_path ops background t (nonceKey g i nonce) (bs_store s) (bs_store (brain_step background D ev s))"
proof -
  have "nonceKey g i nonce \<noteq> usedKey (B_bootstrap (D_Brain D)) c" for c
    by (simp add: nonceKey_def usedKey_def assms(2))
  then show ?thesis
    using assms(3) grpc_path [of t "nonceKey g i nonce" _ _ _ "D_Brain D" background s]
      signed_path [of t "nonceKey g i nonce" _ _ D background s]
    by (cases ev) (auto simp: assms(1) intro: store_path_step)
qed

lemma replayed_call_refused:
  assumes inv: "inv (bs_store st)" and D: "B_store (D_Brain D) = ops"
    and g: "g = B_replay (D_Brain D)" "0 < rg_window g" "rg_window g < max_int64" "nonceTTL g = 2 * rg_window g"
    and pre: "bh_prefix (B_bootstrap (D_Brain D)) = rg_prefix g"
    and first: "presents D ev1 i ts nonce" "ev_env ev1 = Some e1" "effective D ev1 st" "0 \<le> r_now' e1"
    and mid: "list_all (timely (r_now e2) (nonceKey g i nonce)) evs"
    and second: "presents D ev2 j ts nonce" "ev_env ev2 = Some e2"
    and gap: "r_now e2 - r_t e2 \<le> r_now' e1 - r_t e1"
    and same: "Identity_String j = Identity_String i"
  shows "\<not> effective D ev2 (brain_run background D (ev1 # evs) st)"
proof -
  have "store_path ops background (r_now e2) (nonceKey g i nonce) (bs_store s) (bs_store (fold (brain_step background D) evs s))" for s
    using mid
  proof (induction evs arbitrary: s)
    case (Cons ev evs)
    then show ?case using brain_step_path [OF D pre, of "r_now e2" i nonce ev s] store_path_trans by fastforce
  qed simp
  then have "store_path ops background (r_now e2) (nonceKey g i nonce) (bs_store (brain_step background D ev1 st))
      (bs_store (brain_run background D (ev1 # evs) st))"
    by (simp add: brain_run_def)
  from replayed_after_path [OF inv D g first this second gap same] show ?thesis .
qed

end

text \<open>A captured request works once, whichever way it is replayed. Once an authenticated call has
  taken effect over either transport, no later call over either transport with the same identity,
  timestamp and nonce does, after any interleaving of other calls, bootstraps, store activity and
  clean-up: it neither succeeds nor delivers an alert. The timing condition is the one of the
  replay guard.\<close>

theorem accepted_once_across_transports:
  assumes "memory_inv (bs_store st)" and "B_store (D_Brain D) = memory_ops"
    and "window < 2 ^ 62" and "B_replay (D_Brain D) = NewReplayGuard window pre"
    and "bh_prefix (B_bootstrap (D_Brain D)) = pre"
    and "presents D ev1 i ts nonce" "ev_env ev1 = Some e1" "effective D ev1 st" "0 \<le> r_now' e1"
    and "list_all (timely (r_now e2) (nonceKey (NewReplayGuard window pre) i nonce)) evs"
    and "presents D ev2 j ts nonce" "ev_env ev2 = Some e2"
    and "r_now e2 - r_t e2 \<le> r_now' e1 - r_t e1"
    and "Identity_String j = Identity_String i"
  shows "\<not> effective D ev2 (brain_run Memory_background D (ev1 # evs) st)"
proof -
  have "rg_prefix (NewReplayGuard window pre) = pre" by (simp add: NewReplayGuard_def Let_def)
  with mem.replayed_call_refused [OF assms(1,2) assms(4) [symmetric] _ _ _ _ assms(6-14)]
    NewReplayGuard_window [OF assms(3)] assms(5) show ?thesis by simp
qed

end
