(* ===== verification/EndToEnd.thy ===== *)
theory EndToEnd
  imports SignedSrv
begin

text \<open>
  The signed transport from both ends. The client functions of \<open>internal/auth\<close>
  (\<open>SealRequest\<close>, \<open>SignRequest\<close>, \<open>ContentDigest\<close>) are composed the way a collector has to compose
  them for \<open>internal/signedsrv\<close>, and the answer is followed back. Concrete instances of the
  transport theorems stand at the end.
\<close>

section \<open>Header values\<close>

lemma header_keys:
  "header_key ''Content-Type'' = ''content-type''" "header_key HeaderTimestamp = ''x-muthur-timestamp''"
  "header_key HeaderNonce = ''x-muthur-nonce''" "header_key HeaderCert = ''x-muthur-cert''"
  "header_key HeaderHPKEKid = ''x-muthur-hpke-kid''" "header_key HeaderContentDigest = ''content-digest''"
  "header_key HeaderSignatureInput = ''signature-input''" "header_key HeaderSignature = ''signature''"
  by (simp_all add: header_key_def lower_char_def char_of_def bit_0 HeaderTimestamp_def HeaderNonce_def HeaderCert_def
      HeaderHPKEKid_def HeaderContentDigest_def HeaderSignatureInput_def HeaderSignature_def)

lemma TrimSpace_solid: "list_all solid s \<Longrightarrow> TrimSpace s = s"
proof (cases "s = []")
  case True
  then show ?thesis by (simp add: TrimSpace_def)
next
  case False
  moreover assume "list_all solid s"
  ultimately show ?thesis by (intro TrimSpace_id) (simp_all add: list_all_iff)
qed

lemma solid_show_int: "list_all solid (show_int i)"
  by (auto simp: list_all_iff solid_def byte_in_def is_digit_def dest!: show_int_chars)

lemma solid_b64: "list_all solid (b64_encode bs)"
proof (rule b64_encode_all)
  have "list_all solid b64_alphabet" by (simp add: b64_alphabet_def solid_def byte_in_def)
  then show "solid (b64_char n)" if "n < 64" for n
    using that by (simp add: b64_char_def list_all_length b64_alphabet_def)
qed (simp add: solid_def byte_in_def)

lemma solid_hex: "list_all is_hex s \<Longrightarrow> list_all solid s"
  by (auto simp: list_all_iff solid_def byte_in_def is_hex_def is_lower_hex_def is_digit_def dest!: bspec)

section \<open>A collector's request\<close>

text \<open>The headers a collector sets before it signs.\<close>

definition collector_headers :: "(bytes \<Rightarrow> bytes) \<Rightarrow> Certificate \<Rightarrow> string \<Rightarrow> int \<Rightarrow> string \<Rightarrow> bytes \<Rightarrow> http_header" where
  "collector_headers sha256 leaf kid created nonce body =
     header_Set (header_Set (header_Set (header_Set (header_Set (header_Set Map.empty
       ''Content-Type'' SealedContentType) HeaderTimestamp (show_int created)) HeaderNonce nonce)
       HeaderHPKEKid kid) HeaderCert (b64_encode (Raw leaf))) HeaderContentDigest (ContentDigest sha256 body)"

lemma SignRequest_headers:
  assumes "SignRequest sha256 ecdsa_sign h meth path k der created = Inr h'"
  obtains a b where "h' = header_Set (header_Set h HeaderSignatureInput a) HeaderSignature b"
  using assms by (auto simp: SignRequest_def Let_def split: option.splits prod.splits PublicKeyKind.splits sum.splits)

lemma collector_header_values:
  assumes "h' = header_Set (header_Set (collector_headers sha256 leaf kid created nonce body) HeaderSignatureInput a)
      HeaderSignature b"
  shows "header_Get h' ''Content-Type'' = SealedContentType" "header_Get h' HeaderTimestamp = show_int created"
    "header_Get h' HeaderNonce = nonce" "header_Get h' HeaderHPKEKid = kid"
    "header_Get h' HeaderCert = b64_encode (Raw leaf)" "header_Get h' HeaderContentDigest = ContentDigest sha256 body"
  by (simp_all add: assms collector_headers_def header_Get_def header_Set_def header_keys)

lemma ContentDigest_solid: "list_all solid (ContentDigest sha256 body)" "ContentDigest sha256 body \<noteq> []"
  using solid_b64 by (simp_all add: ContentDigest_def solid_def byte_in_def)

lemma collector_request:
  assumes "SignRequest sha256 ecdsa_sign (collector_headers sha256 leaf kid created nonce body) ''POST'' path
      (Some (ECDSA_P256, key)) (Raw leaf) created = Inr h'"
    and "list_all is_hex nonce" "list_all is_hex kid" "B_sha256 (D_Brain D) = sha256" "length body \<le> maxBody"
    and r: "r = \<lparr>q_method = ''POST'', q_path = path, q_header = h', q_body = Inr body\<rparr>"
  shows "well_formed_request D r body" "signed_ts r = show_int created" "signed_nonce r = nonce" "signed_kid r = kid"
    "b64_encode (Raw leaf) \<noteq> [] \<Longrightarrow> ParseCertificate x (Raw leaf) = Inr leaf \<Longrightarrow>
      parseCertHeader x (header_Get (q_header r) HeaderCert) = Some leaf"
proof -
  from SignRequest_headers [OF assms(1)] obtain a b where
    "h' = header_Set (header_Set (collector_headers sha256 leaf kid created nonce body) HeaderSignatureInput a)
      HeaderSignature b" .
  note h = collector_header_values [OF this]
  show "well_formed_request D r body"
    using assms(4,5) ContentDigest_solid [of sha256 body]
    by (simp add: well_formed_request_def r h VerifyContentDigest_def TrimSpace_solid Let_def HasPrefix_def)
  show "signed_ts r = show_int created" "signed_nonce r = nonce" "signed_kid r = kid"
    using assms(2,3) by (simp_all add: signed_ts_def signed_nonce_def signed_kid_def r h TrimSpace_solid solid_show_int solid_hex)
  show "b64_encode (Raw leaf) \<noteq> [] \<Longrightarrow> ParseCertificate x (Raw leaf) = Inr leaf \<Longrightarrow>
      parseCertHeader x (header_Get (q_header r) HeaderCert) = Some leaf"
    by (simp add: parseCertHeader_def r h TrimSpace_solid solid_b64 b64_decode_encode Let_def)
qed

lemma Verify_hex: "Verify ops g t now now' st ident ts nonce = (None, st') \<Longrightarrow> list_all is_hex nonce"
  by (auto simp: Verify_def Let_def hex_decodable_def split: option.splits if_splits prod.splits sum.splits)

lemma HPKEKeyID_hex: "list_all is_hex (HPKEKeyID sha256 pub)"
proof -
  have "list_all is_lower_hex (HPKEKeyID sha256 pub)"
    unfolding HPKEKeyID_def by (rule hex_encode_lower_hex)
  then show ?thesis by (auto simp: list_all_iff is_hex_def)
qed

lemma signed_ingest_route:
  assumes "q_method r = ''POST''" "q_path r = PathIngest" "signed_ingest D e r st = (Some ans, st')"
  shows "signed_serve D e r st = (ans, st')"
  using assms
  by (simp add: signed_serve_def Let_def PathKeys_def PathBootstrap_def PathIngest_def)

lemma collector_identity:
  assumes sha: "B_sha256 (D_Brain D) = sha256"
    and ecdsa: "\<forall>d sig. ecdsa_sign key d = Inr sig \<longrightarrow> length sig = 64 \<and> D_ecdsa_verify D (PublicKey leaf) d sig"
    and leaf: "Raw leaf \<noteq> []" "KeyKind leaf = ECDSA_P256" "ParseCertificate (B_x509 (D_Brain D)) (Raw leaf) = Inr leaf"
      "D_x509_verify D (Roots (D_Trust D)) (Intermediates (D_Trust D)) (s_now e) leaf"
      "ExtractFromCert (Some leaf) = Inr i"
    and hex: "list_all is_hex nonce" "list_all is_hex kid" and len: "length body \<le> maxBody" and created: "in_int64 created"
    and sign: "SignRequest sha256 ecdsa_sign (collector_headers sha256 leaf kid created nonce body) ''POST'' path
      (Some (ECDSA_P256, key)) (Raw leaf) created = Inr h'"
    and r: "r = \<lparr>q_method = ''POST'', q_path = path, q_header = h', q_body = Inr body\<rparr>"
  shows "signed_identity D e r path i"
proof -
  note req = collector_request [OF sign hex sha len r]
  have ne: "b64_encode (Raw leaf) \<noteq> []"
    using b64_decode_encode [of "Raw leaf"] b64_decode_encode [of "[]"] leaf(1) by (metis b64_encode.simps(4) option.inject)
  have vr: "VerifyRequest sha256 (D_ecdsa_verify D) ''POST'' path h' (Some (ECDSA_P256, PublicKey leaf)) =
      Inr \<lparr>Created = created, KeyID = CertKeyID sha256 (Raw leaf)\<rparr>"
    by (rule sign_then_verify [where ecdsa_verify = "D_ecdsa_verify D", OF _ sign created]) (rule ecdsa)
  show ?thesis
    unfolding signed_identity_def
    using req(5) [OF ne leaf(3)] leaf vr sha req(2) ParseInt_show_int [OF created]
    by (intro exI [of _ leaf] exI [of _ "\<lparr>Created = created, KeyID = CertKeyID sha256 (Raw leaf)\<rparr>"])
      (simp add: VerifyClientLeaf_def is_ecdsa_def r)
qed

text \<open>C14: An honest collector gets through, and reads the answer. A collector that holds a trusted
  certificate of an active tenant, seals an alert of its own cluster for a published key and signs
  the request with fresh timestamp and nonce is answered with success, exactly that alert is handed
  to the pipeline, and the answer opens with the collector's key for this request. ECDSA, HPKE,
  certificate parsing and protocol buffers are assumed to be correct on this exchange.\<close>

theorem honest_collector_delivers:
  assumes sha: "B_sha256 (D_Brain D) = sha256"
    and hpke: "hpke_correct (D_hpke D)" "map_of (ks_keys (D_Keys D)) kid = Some priv"
      "kid = HPKEKeyID sha256 (hpke_public (D_hpke D) priv)"
    and ecdsa: "\<forall>d sig. ecdsa_sign key d = Inr sig \<longrightarrow> length sig = 64 \<and> D_ecdsa_verify D (PublicKey leaf) d sig"
    and leaf: "Raw leaf \<noteq> []" "KeyKind leaf = ECDSA_P256" "ParseCertificate (B_x509 (D_Brain D)) (Raw leaf) = Inr leaf"
      "D_x509_verify D (Roots (D_Trust D)) (Intermediates (D_Trust D)) (s_now e) leaf"
      "ExtractFromCert (Some leaf) = Inr i"
    and tenant: "Lookup (tenants_gate e) (ClusterID i) = Some t" "\<not> Revoked t"
    and fresh: "Verify (B_store (D_Brain D)) (B_replay (D_Brain D)) (r_t e) (r_now e) (r_now' e) (bs_store st)
      (Some i) (show_int created) nonce = (None, s)" "in_int64 created"
    and msg: "D_Unmarshal_Alert D pt = Some p" "ClusterId p = ClusterID i"
    and seal: "SealRequest (D_hpke D) rnd (hpke_public (D_hpke D) priv) PathIngest (show_int created) nonce pt =
      Inr (body, ro)" "length body \<le> maxBody"
    and sign: "SignRequest sha256 ecdsa_sign (collector_headers sha256 leaf kid created nonce body) ''POST'' PathIngest
      (Some (ECDSA_P256, key)) (Raw leaf) created = Inr h'"
    and answer: "D_Marshal D IngestResponse = Inr out" "s_rnd e = Inr rnd'" "length rnd' = gcmNonceLen"
  shows "\<exists>sealed. signed_serve D e \<lparr>q_method = ''POST'', q_path = PathIngest, q_header = h', q_body = Inr body\<rparr> st =
      (Http_Sealed sealed, st\<lparr>bs_store := s, bs_ingest := (bs_ingest st)\<lparr>spawned := spawned (bs_ingest st) @ [p],
         wg := wg (bs_ingest st) + 1\<rparr>\<rparr>) \<and>
    Opener_Open (D_hpke D) ro sealed = Inr out"
proof -
  let ?r = "\<lparr>q_method = ''POST'', q_path = PathIngest, q_header = h', q_body = Inr body\<rparr>"
  have kid: "list_all is_hex kid" unfolding hpke(3) by (rule HPKEKeyID_hex)
  note req = collector_request [OF sign Verify_hex [OF fresh(1)] kid sha seal(2) refl]
  have id: "signed_identity D e ?r PathIngest i"
    by (rule collector_identity [OF sha ecdsa leaf Verify_hex [OF fresh(1)] kid seal(2) fresh(2) sign refl])
  have pass: "authenticate D e ?r PathIngest (signed_ts ?r) (signed_nonce ?r) (bs_store st) = (Inr i, s)"
    using authenticate_identified [OF id, of "bs_store st"] tenant fresh(1) unfolding req(2,3)
    by (simp add: tenant_active_def)
  note o = open_sealed [OF hpke(1,2) seal(1)]
  have "gcm_Open (D_hpke D) k n (gcm_Seal (D_hpke D) k n q) = Some q" for k n q
    using hpke(1) by (simp add: hpke_correct_def)
  then obtain sealed where sealed: "Sealer_Seal (D_hpke D) (Inr rnd') \<lparr>sealer_key = opener_key ro\<rparr> out = Inr sealed"
    "Opener_Open (D_hpke D) ro sealed = Inr out"
    using o answer(3) by (simp add: Sealer_Seal_def newGCM_def Opener_Open_def gcmNonceLen_def)
  have "signed_ingest D e ?r st = (Some (Http_Sealed sealed), st\<lparr>bs_store := s,
      bs_ingest := (bs_ingest st)\<lparr>spawned := spawned (bs_ingest st) @ [p], wg := wg (bs_ingest st) + 1\<rparr>\<rparr>)"
    unfolding signed_ingest_def handle_well_formed(1) [OF req(1)] pass
    using o msg answer sealed(1) by (simp add: answer_sealed_def req(2-4) dispatch_ingest)
  from signed_ingest_route [OF _ _ this] sealed(2) show ?thesis by simp
qed

section \<open>A deployment for the examples\<close>

definition demo_client_leaf :: Certificate where
  "demo_client_leaf = \<lparr>URIs = [\<lparr>Scheme = ''spiffe'', Host = ''muthur'', Path = ''/acme/c1''\<rparr>], CommonName = ''c1'',
     SerialNumber = 1, NotBefore = 0, NotAfter = 0, IsCA = False, KeyKind = ECDSA_P256, PublicKey = ''pk'', Raw = ''leaf''\<rparr>"

lemma demo_client_id: "ExtractFromCert (Some demo_client_leaf) = Inr demo_id"
proof -
  have "parseSpiffePath \<lparr>Scheme = ''spiffe'', Host = ''muthur'', Path = ''/acme/c1''\<rparr> = Inr (''acme'', ''c1'')"
    using parseSpiffePath_complete [of "''acme''" "''c1''" "''spiffe''"] by (simp add: spiffeHost_def)
  moreover have "show_hex 1 = ''1''" by (simp add: show_hex.simps hex_digit_def char_of_def bit_0)
  moreover have "ToLower ''1'' = ''1''" by (rule ToLower_hex) (simp add: is_lower_hex_def is_digit_def)
  ultimately show ?thesis
    by (simp add: ExtractFromCert_def demo_client_leaf_def demo_id_def spiffeScheme_def Let_def)
qed

definition demo_brain :: "Memory Brain" where
  "demo_brain = \<lparr>B_x509 = demo_x509 demo_client_leaf, B_sha256 = pad32, B_store = memory_ops, B_bootstrap = demo_handler,
     B_renew = demo_signer, B_replay = demo_guard\<rparr>"

definition demo_env :: "gotime \<Rightarrow> call_env" where
  "demo_env t = \<lparr>tenants_gate = Some \<lparr>byCluster = [(''c1'', demo_tenant)]\<rparr>,
     tenants_issue = Some \<lparr>byCluster = [(''c1'', demo_tenant)]\<rparr>, serial = Inr 5, r_t = t, r_now = t, r_now' = t,
     issue_k = demo_clock t\<rparr>"

definition demo_ctx :: rpc_ctx where
  "demo_ctx = \<lparr>ctx_peer = Some (Some [demo_client_leaf]), ctx_identity = None,
     ctx_md = (\<lambda>k. if k = MetaTimestamp then [''700''] else [demo_nonce])\<rparr>"

definition demo_state :: "Memory brain_state" where
  "demo_state = \<lparr>bs_store = NewMemory, bs_ingest = Ingest_NewHandler\<rparr>"

lemma demo_meta: "grpc_ts demo_ctx = ''700''" "grpc_nonce demo_ctx = demo_nonce"
proof -
  have "list_all solid ''700''" by (simp add: solid_def byte_in_def)
  then have "TrimSpace ''700'' = ''700''" by (rule TrimSpace_solid)
  moreover have "TrimSpace demo_nonce = demo_nonce"
    using demo_hex by (intro TrimSpace_solid solid_hex) (simp add: hex_decodable_def)
  ultimately show "grpc_ts demo_ctx = ''700''" "grpc_nonce demo_ctx = demo_nonce"
    by (simp_all add: grpc_ts_def grpc_nonce_def firstMeta_def demo_ctx_def MetaTimestamp_def MetaNonce_def demo_nonce_def)
qed

lemma demo_ids: "grpc_identity demo_ctx = Some demo_id" "tenant_active (tenants_gate (demo_env t)) demo_id"
  by (simp_all add: grpc_identity_def demo_ctx_def demo_client_id tenant_active_def demo_env_def Lookup_def demo_id_def
      demo_tenant_def)

lemma demo_grpc_passes: "grpc_passes demo_brain (demo_env (400 * second)) demo_ctx demo_state demo_id"
proof -
  have "map_of (items NewMemory) (nonceKey demo_guard demo_id demo_nonce) = None" by (simp add: NewMemory_def)
  from demo_verify_fresh [OF this, of "400 * second" "400 * second" "400 * second"] obtain st' where
    "Verify memory_ops demo_guard (400 * second) (400 * second) (400 * second) NewMemory (Some demo_id) ''700'' demo_nonce =
      (None, st')" by auto
  then show ?thesis
    using demo_ids by (simp add: grpc_passes_def demo_brain_def demo_meta demo_state_def) (simp add: demo_env_def)
qed

definition demo_grpc_event :: "gotime \<Rightarrow> brain_event" where
  "demo_grpc_event t = Over_gRPC (demo_env t) (Ingest_Request demo_alert) demo_ctx"

lemma demo_grpc_call:
  "\<exists>st'. grpc_call demo_brain (demo_env (400 * second)) (Ingest_Request demo_alert) demo_ctx demo_state =
    (Some (Inr IngestResponse), st')"
  unfolding grpc_call_passes [OF exempt_iff(2) demo_grpc_passes]
  by (simp add: dispatch_ingest demo_alert_def demo_id_def)

theorem grpc_ingest_authorised_witness:
  "\<exists>res st'. grpc_call demo_brain (demo_env (400 * second)) (Ingest_Request demo_alert) demo_ctx demo_state = (res, st') \<and>
     res = Some (Inr IngestResponse) \<and> spawned (bs_ingest st') = [demo_alert]"
proof -
  obtain st' where st': "grpc_call demo_brain (demo_env (400 * second)) (Ingest_Request demo_alert) demo_ctx demo_state =
      (Some (Inr IngestResponse), st')" using demo_grpc_call by blast
  have "spawned (bs_ingest st') \<noteq> spawned (bs_ingest demo_state)"
    unfolding grpc_ingest_authorised [OF st', THEN conjunct1]
    using demo_grpc_passes unfolding grpc_passes_def grpc_ts_def grpc_nonce_def
    by (auto simp: demo_ctx_def demo_client_id demo_alert_def demo_id_def demo_env_def Lookup_def demo_tenant_def)
  from grpc_ingest_authorised [OF st', THEN conjunct2] this st' show ?thesis
    by (auto simp: demo_state_def Ingest_NewHandler_def)
qed

definition demo_signed_env :: "gotime \<Rightarrow> signed_env" where
  "demo_signed_env t = call_env.extend (demo_env t) \<lparr>s_now = t, s_rnd = Inr (replicate 12 CHR ''n'')\<rparr>"

definition demo_deps :: "(Memory, unit) Deps" where
  "demo_deps = \<lparr>D_Brain = demo_brain, D_Keys = \<lparr>ks_order = [HPKEKeyID pad32 ''priv''], ks_keys = [(HPKEKeyID pad32 ''priv'', ''priv'')]\<rparr>,
     D_Trust = \<lparr>Roots = [demo_cert], Intermediates = []\<rparr>, D_Signer = demo_signer, D_hpke = demo_hpke,
     D_ecdsa_verify = demo_ecdsa_verify, D_x509_verify = (\<lambda>roots ints now c. c = demo_client_leaf),
     D_raw_sign = (\<lambda>k d h. Inr d), D_Unmarshal_Alert = (\<lambda>b. if b = ''alert'' then Some demo_alert else None),
     D_Unmarshal_Bootstrap = (\<lambda>b. None), D_Unmarshal_SignCSR = Some, D_Marshal = (\<lambda>r. Inr [])\<rparr>"

definition demo_kid :: string where "demo_kid = HPKEKeyID pad32 ''priv''"

definition demo_body :: bytes where "demo_body = SealedVersion # replicate 32 CHR ''e'' @ ''alert''"

definition demo_headers :: http_header where
  "demo_headers = (case SignRequest pad32 demo_ecdsa_sign (collector_headers pad32 demo_client_leaf demo_kid 700 demo_nonce demo_body)
     ''POST'' PathIngest (Some (ECDSA_P256, ''key'')) (Raw demo_client_leaf) 700 of Inr h \<Rightarrow> h | Inl e \<Rightarrow> Map.empty)"

definition demo_request :: signed_request where
  "demo_request = \<lparr>q_method = ''POST'', q_path = PathIngest, q_header = demo_headers, q_body = Inr demo_body\<rparr>"

lemma demo_sign_request:
  "SignRequest pad32 demo_ecdsa_sign (collector_headers pad32 demo_client_leaf demo_kid 700 demo_nonce demo_body)
     ''POST'' PathIngest (Some (ECDSA_P256, ''key'')) (Raw demo_client_leaf) 700 = Inr demo_headers"
  by (simp add: demo_headers_def) (simp add: SignRequest_def demo_ecdsa_sign_def Let_def)

lemma demo_ecdsa_ok:
  "\<forall>d sig. demo_ecdsa_sign key d = Inr sig \<longrightarrow> length sig = 64 \<and> D_ecdsa_verify demo_deps pub d sig"
  by (auto simp: demo_ecdsa_sign_def demo_ecdsa_verify_def demo_deps_def)

lemma demo_leaf_ok:
  "Raw demo_client_leaf \<noteq> []" "KeyKind demo_client_leaf = ECDSA_P256"
  "ParseCertificate (B_x509 (D_Brain demo_deps)) (Raw demo_client_leaf) = Inr demo_client_leaf"
  "D_x509_verify demo_deps (Roots (D_Trust demo_deps)) (Intermediates (D_Trust demo_deps)) (s_now e) demo_client_leaf"
  by (simp_all add: demo_client_leaf_def demo_deps_def demo_brain_def demo_x509_def)

lemma demo_shapes: "list_all is_hex demo_nonce" "list_all is_hex demo_kid" "length demo_body \<le> maxBody" "in_int64 700"
  "B_sha256 (D_Brain demo_deps) = pad32"
  using demo_hex HPKEKeyID_hex
  by (simp_all add: hex_decodable_def demo_kid_def demo_body_def maxBody_def in_int64_def demo_deps_def demo_brain_def)

lemma demo_request_ok:
  "signed_identity demo_deps e demo_request PathIngest demo_id" "well_formed_request demo_deps demo_request demo_body"
  "signed_ts demo_request = ''700''" "signed_nonce demo_request = demo_nonce" "signed_kid demo_request = demo_kid"
proof -
  show "signed_identity demo_deps e demo_request PathIngest demo_id"
    by (rule collector_identity [OF demo_shapes(5) demo_ecdsa_ok demo_leaf_ok demo_client_id demo_shapes(1-4)
          demo_sign_request demo_request_def])
  have "show_int 700 = ''700''" by (simp add: show_int_def show_nat.simps digit_char_def char_of_def bit_0)
  with collector_request [OF demo_sign_request demo_shapes(1,2,5,3) demo_request_def]
  show "well_formed_request demo_deps demo_request demo_body" "signed_ts demo_request = ''700''"
    "signed_nonce demo_request = demo_nonce" "signed_kid demo_request = demo_kid" by simp_all
qed

lemma demo_signed_env_simps [simp]:
  "tenants_gate (demo_signed_env t) = tenants_gate (demo_env t)" "r_t (demo_signed_env t) = t"
  "r_now (demo_signed_env t) = t" "r_now' (demo_signed_env t) = t" "s_rnd (demo_signed_env t) = Inr (replicate 12 CHR ''n'')"
  "call_env.truncate (demo_signed_env t) = demo_env t"
  by (simp_all add: demo_signed_env_def demo_env_def call_env.extend_def call_env.truncate_def)

lemma demo_fresh:
  "\<exists>s. Verify (B_store (D_Brain demo_deps)) (B_replay (D_Brain demo_deps)) (400 * second) (400 * second) (400 * second)
     (bs_store demo_state) (Some demo_id) ''700'' demo_nonce = (None, s)"
  using demo_verify_fresh [of NewMemory "400 * second" "400 * second" "400 * second"]
  by (simp add: demo_deps_def demo_brain_def demo_state_def NewMemory_def)

lemma demo_open:
  "OpenRequest (D_hpke demo_deps) (D_Keys demo_deps) demo_kid PathIngest ''700'' demo_nonce demo_body =
     Inr (''alert'', \<lparr>sealer_key = replicate 32 CHR ''k''\<rparr>)"
  by (simp add: OpenRequest_def demo_deps_def demo_kid_def demo_body_def demo_hpke_def hpkeEncSize_def responseKeyLen_def)

theorem signed_ingest_authorised_witness:
  "spawned (bs_ingest (snd (signed_serve demo_deps (demo_signed_env (400 * second)) demo_request demo_state))) = [demo_alert]"
proof -
  let ?e = "demo_signed_env (400 * second)"
  have "signed_passes demo_deps ?e demo_request PathIngest (bs_store demo_state) demo_id"
    using demo_fresh demo_request_ok(1) [of ?e] demo_ids(2) by (auto simp: signed_passes_def demo_request_ok(3,4))
  then have "signed_delivers demo_deps ?e demo_request (bs_store demo_state) demo_id demo_alert"
    unfolding signed_delivers_def
    using demo_request_ok demo_open
    by (intro exI [of _ demo_body] exI [of _ "''alert''"] exI [of _ "\<lparr>sealer_key = replicate 32 CHR ''k''\<rparr>"])
      (simp add: demo_deps_def demo_alert_def demo_id_def)
  then have *: "\<exists>i. signed_delivers demo_deps ?e demo_request (bs_store demo_state) i demo_alert" ..
  have "q_method demo_request = ''POST''" "q_path demo_request = PathIngest" by (simp_all add: demo_request_def)
  with * [unfolded signed_delivers_iff] show ?thesis
    using signed_ingest_authorised [OF surjective_pairing, of demo_deps ?e demo_request demo_state demo_alert]
    by (simp add: demo_state_def Ingest_NewHandler_def)
qed

theorem honest_collector_delivers_witness:
  "\<exists>sealed st'. signed_serve demo_deps (demo_signed_env (400 * second)) demo_request demo_state = (Http_Sealed sealed, st') \<and>
     spawned (bs_ingest st') = [demo_alert] \<and> Opener_Open demo_hpke \<lparr>opener_key = replicate 32 CHR ''k''\<rparr> sealed = Inr []"
proof -
  have show700: "show_int 700 = ''700''" by (simp add: show_int_def show_nat.simps digit_char_def char_of_def bit_0)
  obtain s where s: "Verify (B_store (D_Brain demo_deps)) (B_replay (D_Brain demo_deps)) (400 * second) (400 * second)
      (400 * second) (bs_store demo_state) (Some demo_id) (show_int 700) demo_nonce = (None, s)"
    using demo_fresh show700 by auto
  have seal: "SealRequest (D_hpke demo_deps) [] (hpke_public (D_hpke demo_deps) ''priv'') PathIngest (show_int 700) demo_nonce
      ''alert'' = Inr (demo_body, \<lparr>opener_key = replicate 32 CHR ''k''\<rparr>)"
    by (simp add: SealRequest_def demo_deps_def demo_hpke_def demo_body_def responseKeyLen_def)
  have k: "hpke_correct (D_hpke demo_deps)" "map_of (ks_keys (D_Keys demo_deps)) demo_kid = Some ''priv''"
    "demo_kid = HPKEKeyID pad32 (hpke_public (D_hpke demo_deps) ''priv'')"
    using demo_hpke_correct by (simp_all add: demo_deps_def demo_kid_def) (simp add: demo_hpke_def)
  have t: "Lookup (tenants_gate (demo_signed_env (400 * second))) (ClusterID demo_id) = Some demo_tenant" "\<not> Revoked demo_tenant"
    by (simp_all add: demo_env_def Lookup_def demo_id_def demo_tenant_def)
  have m: "D_Unmarshal_Alert demo_deps ''alert'' = Some demo_alert" "ClusterId demo_alert = ClusterID demo_id"
    "D_Marshal demo_deps IngestResponse = Inr []"
    by (simp_all add: demo_deps_def demo_alert_def demo_id_def)
  have v: "Verify (B_store (D_Brain demo_deps)) (B_replay (D_Brain demo_deps)) (r_t (demo_signed_env (400 * second)))
      (r_now (demo_signed_env (400 * second))) (r_now' (demo_signed_env (400 * second))) (bs_store demo_state) (Some demo_id)
      (show_int 700) demo_nonce = (None, s)" using s by simp
  from honest_collector_delivers [OF demo_shapes(5) k demo_ecdsa_ok demo_leaf_ok demo_client_id t v demo_shapes(4) m(1,2)
      seal demo_shapes(3) demo_sign_request m(3) demo_signed_env_simps(5)]
  have "\<exists>sealed. signed_serve demo_deps (demo_signed_env (400 * second)) demo_request demo_state =
      (Http_Sealed sealed, demo_state\<lparr>bs_store := s, bs_ingest := (bs_ingest demo_state)\<lparr>spawned :=
        spawned (bs_ingest demo_state) @ [demo_alert], wg := wg (bs_ingest demo_state) + 1\<rparr>\<rparr>) \<and>
    Opener_Open (D_hpke demo_deps) \<lparr>opener_key = replicate 32 CHR ''k''\<rparr> sealed = Inr []"
    by (simp add: gcmNonceLen_def demo_request_def [symmetric])
  moreover have "D_hpke demo_deps = demo_hpke" by (simp add: demo_deps_def)
  ultimately show ?thesis by (force simp: demo_state_def Ingest_NewHandler_def)
qed

text \<open>The alert arrives over gRPC; a copy of the call replayed over the signed transport is refused.\<close>

theorem accepted_once_across_transports_witness:
  "\<not> effective demo_deps (Over_HTTP (demo_signed_env (900 * second)) demo_request)
     (brain_run Memory_background demo_deps [demo_grpc_event (400 * second), Elsewhere (Ev_Background (500 * second))] demo_state)"
proof -
  have eff: "effective demo_deps (demo_grpc_event (400 * second)) demo_state"
    using demo_grpc_call by (auto simp: effective_def demo_grpc_event_def demo_deps_def)
  have inv: "memory_inv (bs_store demo_state)" by (simp add: memory_inv_def demo_state_def NewMemory_def)
  have one: "presents demo_deps (demo_grpc_event (400 * second)) demo_id ''700'' demo_nonce"
    by (simp add: demo_grpc_event_def demo_ids demo_meta)
  have two: "presents demo_deps (Over_HTTP (demo_signed_env (900 * second)) demo_request) demo_id ''700'' demo_nonce"
    using demo_request_ok by (simp add: demo_request_def)
  have D: "B_store (D_Brain demo_deps) = memory_ops" "bh_prefix (B_bootstrap (D_Brain demo_deps)) = ''m:''"
    "B_replay (D_Brain demo_deps) = NewReplayGuard (5 * minute) ''m:''"
    by (simp_all add: demo_deps_def demo_brain_def demo_handler_def demo_guard_def)
  show ?thesis
    by (rule accepted_once_across_transports [where window = "5 * minute" and pre = "''m:''" and i = demo_id and j = demo_id
          and ts = "''700''" and nonce = demo_nonce and ?e1.0 = "demo_env (400 * second)" and
          ?e2.0 = "demo_env (900 * second)", OF inv D(1) _ D(3,2) one _ eff _ _ two])
      (simp_all add: demo_grpc_event_def demo_env_def)
qed

end
