(* ===== verification/RedisStore.thy ===== *)
theory RedisStore
  imports Store
begin

text \<open>
  \<open>internal/store/redis.go\<close>: the store shared between replicas. The go-redis client and the server
  behind it are the record \<open>redis_client\<close> over a state \<open>'s\<close>; the locale \<open>redis_server\<close> states the
  documented behaviour of the commands the code issues (expiries are kept exactly, one clock reading per
  command), and the wrapper is shown to satisfy the store contract under it, with every key prefixed.
\<close>

section \<open>The wrapper\<close>

record 's redis_client =
  rc_Get :: "gotime \<Rightarrow> 's \<Rightarrow> string \<Rightarrow> string + bytes option"
  rc_Set :: "gotime \<Rightarrow> 's \<Rightarrow> string \<Rightarrow> bytes \<Rightarrow> duration \<Rightarrow> string option \<times> 's"
  rc_SetNX :: "gotime \<Rightarrow> gotime \<Rightarrow> 's \<Rightarrow> string \<Rightarrow> bytes \<Rightarrow> duration \<Rightarrow> (string + bool) \<times> 's"
  rc_Del :: "'s \<Rightarrow> string \<Rightarrow> string option \<times> 's"
  rc_Scan :: "gotime \<Rightarrow> 's \<Rightarrow> string \<Rightarrow> string + string list"
  rc_MGet :: "gotime \<Rightarrow> 's \<Rightarrow> string list \<Rightarrow> string + bytes option list"
  rc_Ping :: "'s \<Rightarrow> string option"

record 's Redis =
  rd_client :: "'s redis_client"
  rd_prefix :: string

datatype redis_new_error = ErrRedisURL string | ErrRedisPing string

definition NewRedis ::
  "(string \<Rightarrow> string + 's redis_client) \<Rightarrow> 's \<Rightarrow> string \<Rightarrow> string \<Rightarrow> redis_new_error + 's Redis" where
  "NewRedis parseURL s url pre =
     (case parseURL url of
        Inl e \<Rightarrow> Inl (ErrRedisURL e)
      | Inr client \<Rightarrow>
          (case rc_Ping client s of
             Some e \<Rightarrow> Inl (ErrRedisPing e)
           | None \<Rightarrow> Inr \<lparr>rd_client = client, rd_prefix = pre\<rparr>))"

definition redis_k :: "'s Redis \<Rightarrow> string \<Rightarrow> string" where
  "redis_k r key = rd_prefix r @ key"

definition Redis_Get :: "'s Redis \<Rightarrow> gotime \<Rightarrow> 's \<Rightarrow> string \<Rightarrow> string + bytes option" where
  "Redis_Get r now s key = rc_Get (rd_client r) now s (redis_k r key)"

definition Redis_Set :: "'s Redis \<Rightarrow> gotime \<Rightarrow> 's \<Rightarrow> string \<Rightarrow> bytes \<Rightarrow> duration \<Rightarrow> string option \<times> 's" where
  "Redis_Set r now s key v ttl = rc_Set (rd_client r) now s (redis_k r key) v ttl"

definition Redis_SetNX ::
  "'s Redis \<Rightarrow> gotime \<Rightarrow> gotime \<Rightarrow> 's \<Rightarrow> string \<Rightarrow> bytes \<Rightarrow> duration \<Rightarrow> (string + bool) \<times> 's" where
  "Redis_SetNX r now now' s key v ttl = rc_SetNX (rd_client r) now now' s (redis_k r key) v ttl"

definition Redis_Delete :: "'s Redis \<Rightarrow> 's \<Rightarrow> string \<Rightarrow> string option \<times> 's" where
  "Redis_Delete r s key = rc_Del (rd_client r) s (redis_k r key)"

text \<open>A key that expired between \<open>SCAN\<close> and \<open>MGET\<close> has no value and is skipped.\<close>

definition Redis_ListByPrefix :: "'s Redis \<Rightarrow> gotime \<Rightarrow> 's \<Rightarrow> string \<Rightarrow> string + bytes list" where
  "Redis_ListByPrefix r now s pre =
     (case rc_Scan (rd_client r) now s (redis_k r pre @ ''*'') of
        Inl e \<Rightarrow> Inl e
      | Inr keys \<Rightarrow>
          if keys = [] then Inr []
          else case rc_MGet (rd_client r) now s keys of
                 Inl e \<Rightarrow> Inl e
               | Inr vals \<Rightarrow> Inr (List.map_filter id vals))"

definition Redis_Kind :: "'s Redis \<Rightarrow> string" where
  "Redis_Kind r = ''redis''"

definition redis_ops :: "'s Redis \<Rightarrow> 's store_ops" where
  "redis_ops r =
     \<lparr>Store_Get = Redis_Get r, Store_Set = Redis_Set r, Store_SetNX = Redis_SetNX r, Store_Delete = Redis_Delete r,
      Store_ListByPrefix = Redis_ListByPrefix r\<rparr>"

lemmas redis_wrapper = redis_ops_def Redis_Get_def Redis_Set_def Redis_SetNX_def Redis_Delete_def redis_k_def

section \<open>What the server promises\<close>

lemma set_present: "set (List.map_filter id (map f ks)) = {v. \<exists>k\<in>set ks. f k = Some v}"
  by (induction ks) (auto simp: map_filter_simps split: option.splits)

locale redis_server =
  fixes client :: "'s redis_client"
    and inv :: "'s \<Rightarrow> bool"
    and live :: "gotime \<Rightarrow> 's \<Rightarrow> string \<Rightarrow> bytes option"
    and background :: "gotime \<Rightarrow> 's \<Rightarrow> 's"
    and pre :: string
  assumes plain_pre: "plain_prefix pre"
    and rc_get: "inv s \<Longrightarrow> rc_Get client now s k = Inr (live now s k)"
    and rc_set_ok: "inv s \<Longrightarrow> fst (rc_Set client now s k v ttl) = None"
    and rc_set_inv: "inv s \<Longrightarrow> inv (snd (rc_Set client now s k v ttl))"
    and rc_set_live: "inv s \<Longrightarrow> 0 \<le> now \<Longrightarrow>
      live t (snd (rc_Set client now s k v ttl)) k' =
        (if k' = k then (if held now ttl t then Some v else None) else live t s k')"
    and rc_setnx_result: "inv s \<Longrightarrow> fst (rc_SetNX client now now' s k v ttl) = Inr (live now s k = None)"
    and rc_setnx_present: "inv s \<Longrightarrow> live now s k \<noteq> None \<Longrightarrow> snd (rc_SetNX client now now' s k v ttl) = s"
    and rc_setnx_absent: "inv s \<Longrightarrow> live now s k = None \<Longrightarrow>
      snd (rc_SetNX client now now' s k v ttl) = snd (rc_Set client now' s k v ttl)"
    and rc_del_ok: "inv s \<Longrightarrow> fst (rc_Del client s k) = None"
    and rc_del_inv: "inv s \<Longrightarrow> inv (snd (rc_Del client s k))"
    and rc_del_live: "inv s \<Longrightarrow> live t (snd (rc_Del client s k)) k' = (if k' = k then None else live t s k')"
    and rc_scan: "inv s \<Longrightarrow> plain_prefix p \<Longrightarrow> \<exists>ks. rc_Scan client now s (p @ ''*'') = Inr ks \<and>
      set ks = {k. HasPrefix k p \<and> live now s k \<noteq> None}"
    and rc_mget: "inv s \<Longrightarrow> rc_MGet client now s ks = Inr (map (live now s) ks)"
    and rc_live_earlier: "inv s \<Longrightarrow> live t s k = Some v \<Longrightarrow> t' \<le> t \<Longrightarrow> live t' s k = Some v"
    and rc_background_inv: "inv s \<Longrightarrow> inv (background now s)"
    and rc_background_live: "inv s \<Longrightarrow> now \<le> t \<Longrightarrow> live t (background now s) k = live t s k"
begin

lemma list_by_prefix:
  assumes "inv s" and "plain_prefix p"
  shows "\<exists>vs. Redis_ListByPrefix \<lparr>rd_client = client, rd_prefix = pre\<rparr> now s p = Inr vs \<and>
     set vs = {v. \<exists>k. HasPrefix k p \<and> live now s (pre @ k) = Some v}"
proof -
  have "plain_prefix (pre @ p)" using assms(2) plain_pre by (simp add: plain_prefix_def)
  then obtain ks where ks: "rc_Scan client now s (pre @ p @ ''*'') = Inr ks"
    "set ks = {k. HasPrefix k (pre @ p) \<and> live now s k \<noteq> None}"
    using rc_scan [OF assms(1), of "pre @ p" now] by auto
  have pk: "HasPrefix k (pre @ p) \<longleftrightarrow> (\<exists>k'. k = pre @ k' \<and> HasPrefix k' p)" for k
    by (auto simp: HasPrefix_iff)
  have vals: "set (List.map_filter id (map (live now s) ks)) = {v. \<exists>k. HasPrefix k p \<and> live now s (pre @ k) = Some v}"
    unfolding set_present ks(2) by (auto simp: pk)
  show ?thesis
  proof (cases "ks = []")
    case True
    then have "{v. \<exists>k. HasPrefix k p \<and> live now s (pre @ k) = Some v} = {}"
      using vals by (simp add: map_filter_simps)
    with True ks(1) show ?thesis by (simp add: Redis_ListByPrefix_def redis_k_def)
  next
    case False
    with ks(1) vals rc_mget [OF assms(1), of now ks] show ?thesis by (simp add: Redis_ListByPrefix_def redis_k_def)
  qed
qed

end

sublocale redis_server \<subseteq> kv_store "redis_ops \<lparr>rd_client = client, rd_prefix = pre\<rparr>" inv
  "\<lambda>now s k. live now s (pre @ k)" background
proof (unfold_locales, goal_cases)
  case (1 s now k) then show ?case by (simp add: redis_wrapper rc_get)
next
  case (2 s now k v ttl) then show ?case by (simp add: redis_wrapper rc_set_ok)
next
  case (3 s now k v ttl) then show ?case by (simp add: redis_wrapper rc_set_inv)
next
  case (4 s now t k v ttl k') then show ?case by (simp add: redis_wrapper rc_set_live)
next
  case (5 s now now' k v ttl) then show ?case by (simp add: redis_wrapper rc_setnx_result)
next
  case (6 s now k now' v ttl) then show ?case by (simp add: redis_wrapper rc_setnx_present)
next
  case (7 s now k now' v ttl) then show ?case by (simp add: redis_wrapper rc_setnx_absent)
next
  case (8 s k) then show ?case by (simp add: redis_wrapper rc_del_ok)
next
  case (9 s k) then show ?case by (simp add: redis_wrapper rc_del_inv)
next
  case (10 s t k k') then show ?case by (simp add: redis_wrapper rc_del_live)
next
  case (11 s p now) then show ?case using list_by_prefix [OF 11] by (simp add: redis_wrapper)
next
  case (12 s t k v t') then show ?case by (rule rc_live_earlier)
next
  case (13 s now) then show ?case by (rule rc_background_inv)
next
  case (14 s now t k) then show ?case by (rule rc_background_live)
qed

context redis_server
begin

lemma as_store: "kv_store (redis_ops \<lparr>rd_client = client, rd_prefix = pre\<rparr>) inv (\<lambda>now s k. live now s (pre @ k)) background"
  by (rule kv_store_axioms)

end

section \<open>A server for the contract\<close>

text \<open>A server that keeps its keys as \<open>Memory\<close> does and answers the commands as documented; \<open>SCAN\<close> with a
  pattern that ends in a star lists the keys with that prefix.\<close>

definition reference_client :: "Memory redis_client" where
  "reference_client =
     \<lparr>rc_Get = Memory_Get, rc_Set = Memory_Set, rc_SetNX = Memory_SetNX, rc_Del = Memory_Delete,
      rc_Scan = (\<lambda>now s pat. Inr (map fst (filter (\<lambda>(k, it). \<not> expired it now \<and> HasPrefix k (butlast pat)) (items s)))),
      rc_MGet = (\<lambda>now s ks. Inr (map (memory_live now s) ks)), rc_Ping = (\<lambda>_. None)\<rparr>"

definition redis_keyspace :: string where "redis_keyspace = ''muthur:''"

lemma reference_scan:
  assumes "memory_inv s"
  shows "set (map fst (filter (\<lambda>(k, it). \<not> expired it now \<and> HasPrefix k p) (items s))) =
    {k. HasPrefix k p \<and> memory_live now s k \<noteq> None}"
proof -
  have mem: "(k, it) \<in> set (items s) \<longleftrightarrow> map_of (items s) k = Some it" for k it
    using assms by (simp add: memory_inv_def)
  have "set (map fst (filter (\<lambda>(k, it). \<not> expired it now \<and> HasPrefix k p) (items s))) =
      {k. \<exists>it. (k, it) \<in> set (items s) \<and> \<not> expired it now \<and> HasPrefix k p}"
    by force
  also have "\<dots> = {k. HasPrefix k p \<and> memory_live now s k \<noteq> None}"
    by (auto simp: mem memory_live_def split: option.splits)
  finally show ?thesis .
qed

interpretation redis: redis_server reference_client memory_inv memory_live Memory_background redis_keyspace
proof (unfold_locales, goal_cases)
  case 1 show ?case by (simp add: plain_prefix_def redis_keyspace_def)
next
  case (2 s now k) show ?case by (simp add: reference_client_def Memory_Get_live)
next
  case (3 s now k v ttl) then show ?case using mem.set_ok by (simp add: reference_client_def memory_ops_def)
next
  case (4 s now k v ttl) then show ?case using mem.set_inv by (simp add: reference_client_def memory_ops_def)
next
  case (5 s now t k v ttl k') then show ?case using mem.set_live by (simp add: reference_client_def memory_ops_def)
next
  case (6 s now now' k v ttl) then show ?case using mem.setnx_result by (simp add: reference_client_def memory_ops_def)
next
  case (7 s now k now' v ttl) then show ?case using mem.setnx_present by (simp add: reference_client_def memory_ops_def)
next
  case (8 s now k now' v ttl) then show ?case using mem.setnx_absent by (simp add: reference_client_def memory_ops_def)
next
  case (9 s k) then show ?case using mem.delete_ok by (simp add: reference_client_def memory_ops_def)
next
  case (10 s k) then show ?case using mem.delete_inv by (simp add: reference_client_def memory_ops_def)
next
  case (11 s t k k') then show ?case using mem.delete_live by (simp add: reference_client_def memory_ops_def)
next
  case (12 s p now) then show ?case using reference_scan [of s now p] by (simp add: reference_client_def)
next
  case (13 s now ks) show ?case by (simp add: reference_client_def)
next
  case (14 s t k v t') then show ?case by (rule mem.live_earlier)
next
  case (15 s now) then show ?case by (rule mem.background_inv)
next
  case (16 s now t k) then show ?case by (rule mem.background_live)
qed

section \<open>Redis and memory give the same answers\<close>

datatype store_call =
    Call_Get gotime string
  | Call_Set gotime string bytes duration
  | Call_SetNX gotime gotime string bytes duration
  | Call_Delete string
  | Call_List gotime string
  | Call_Tick gotime

datatype answer =
    Ans_Value "string + bytes option"
  | Ans_Done "string option"
  | Ans_Written "string + bool"
  | Ans_Values "string + bytes set"
  | Ans_None

text \<open>The values of a listing are compared as a set: their order is unspecified.\<close>

fun store_answer :: "'s store_ops \<Rightarrow> (gotime \<Rightarrow> 's \<Rightarrow> 's) \<Rightarrow> store_call \<Rightarrow> 's \<Rightarrow> answer \<times> 's" where
  "store_answer ops bg (Call_Get now k) s = (Ans_Value (Store_Get ops now s k), s)"
| "store_answer ops bg (Call_Set now k v ttl) s = (case Store_Set ops now s k v ttl of (e, s') \<Rightarrow> (Ans_Done e, s'))"
| "store_answer ops bg (Call_SetNX now now' k v ttl) s = (case Store_SetNX ops now now' s k v ttl of (r, s') \<Rightarrow> (Ans_Written r, s'))"
| "store_answer ops bg (Call_Delete k) s = (case Store_Delete ops s k of (e, s') \<Rightarrow> (Ans_Done e, s'))"
| "store_answer ops bg (Call_List now p) s = (Ans_Values (map_sum id set (Store_ListByPrefix ops now s p)), s)"
| "store_answer ops bg (Call_Tick now) s = (Ans_None, bg now s)"

fun store_answers :: "'s store_ops \<Rightarrow> (gotime \<Rightarrow> 's \<Rightarrow> 's) \<Rightarrow> store_call list \<Rightarrow> 's \<Rightarrow> answer list" where
  "store_answers ops bg [] s = []"
| "store_answers ops bg (c # cs) s = (case store_answer ops bg c s of (a, s') \<Rightarrow> a # store_answers ops bg cs s')"

text \<open>A clock that never runs backwards, from \<open>T\<close> on, and listings of plain prefixes.\<close>

fun clocked :: "gotime \<Rightarrow> store_call list \<Rightarrow> bool" where
  "clocked T [] \<longleftrightarrow> True"
| "clocked T (Call_Get now k # cs) \<longleftrightarrow> T \<le> now \<and> clocked now cs"
| "clocked T (Call_Set now k v ttl # cs) \<longleftrightarrow> T \<le> now \<and> clocked now cs"
| "clocked T (Call_SetNX now now' k v ttl # cs) \<longleftrightarrow> T \<le> now \<and> now \<le> now' \<and> clocked now' cs"
| "clocked T (Call_Delete k # cs) \<longleftrightarrow> clocked T cs"
| "clocked T (Call_List now p # cs) \<longleftrightarrow> T \<le> now \<and> plain_prefix p \<and> clocked now cs"
| "clocked T (Call_Tick now # cs) \<longleftrightarrow> T \<le> now \<and> clocked now cs"

text \<open>Two stores that satisfy the contract and hold the same live items from \<open>T\<close> on.\<close>

definition same_items ::
  "('a \<Rightarrow> bool) \<Rightarrow> (gotime \<Rightarrow> 'a \<Rightarrow> string \<Rightarrow> bytes option) \<Rightarrow> ('b \<Rightarrow> bool) \<Rightarrow> (gotime \<Rightarrow> 'b \<Rightarrow> string \<Rightarrow> bytes option) \<Rightarrow>
   gotime \<Rightarrow> 'a \<Rightarrow> 'b \<Rightarrow> bool" where
  "same_items i l i' l' T s s' \<longleftrightarrow> i s \<and> i' s' \<and> 0 \<le> T \<and> (\<forall>t k. T \<le> t \<longrightarrow> l t s k = l' t s' k)"

lemma same_items_later: "same_items i l i' l' T s s' \<Longrightarrow> T \<le> T' \<Longrightarrow> same_items i l i' l' T' s s'"
  by (auto simp: same_items_def)

lemma same_items_set:
  assumes K: "kv_store o1 i l b" and K': "kv_store o2 i' l' b'"
    and "same_items i l i' l' T s s'" and "T \<le> now"
  shows "same_items i l i' l' now (snd (Store_Set o1 now s k v ttl)) (snd (Store_Set o2 now s' k v ttl))"
  using assms(3,4) kv_store.set_inv [OF K] kv_store.set_inv [OF K'] kv_store.set_live [OF K] kv_store.set_live [OF K']
  by (auto simp: same_items_def)

lemma store_answer_agree:
  assumes K: "kv_store o1 i l b" and K': "kv_store o2 i' l' b'"
    and same: "same_items i l i' l' T s s'" and "clocked T (c # cs)"
    and step: "store_answer o1 b c s = (a, s1)" "store_answer o2 b' c s' = (a', s1')"
  shows "a = a' \<and> (\<exists>T'. same_items i l i' l' T' s1 s1' \<and> clocked T' cs)"
proof -
  have inv: "i s" "i' s'" using same by (auto simp: same_items_def)
  show ?thesis
  proof (cases c)
    case (Call_Get now k)
    have "same_items i l i' l' now s s'" using same_items_later [OF same] assms(4) Call_Get by simp
    with assms(4) Call_Get step kv_store.get_live [OF K inv(1), of now k] kv_store.get_live [OF K' inv(2), of now k]
    show ?thesis by (auto simp: same_items_def)
  next
    case (Call_Set now k v ttl)
    with assms(4) step kv_store.set_ok [OF K inv(1), of now k v ttl] kv_store.set_ok [OF K' inv(2), of now k v ttl]
      same_items_set [OF K K' same, of now k v ttl]
    show ?thesis by (auto split: prod.split_asm)
  next
    case (Call_SetNX now now' k v ttl)
    have eq: "l now s k = l' now s' k" using same assms(4) Call_SetNX by (auto simp: same_items_def)
    have res: "a = a'"
      using step Call_SetNX eq kv_store.setnx_result [OF K inv(1), of now now' k v ttl]
        kv_store.setnx_result [OF K' inv(2), of now now' k v ttl] by (auto split: prod.split_asm)
    have s1: "s1 = snd (Store_SetNX o1 now now' s k v ttl)" "s1' = snd (Store_SetNX o2 now now' s' k v ttl)"
      using step Call_SetNX by (auto split: prod.split_asm)
    have "same_items i l i' l' now' s1 s1'"
    proof (cases "l now s k = None")
      case True
      with eq s1 show ?thesis
        using kv_store.setnx_absent [OF K inv(1) True] kv_store.setnx_absent [OF K' inv(2), of now k]
          same_items_set [OF K K' same, of now'] assms(4) Call_SetNX by simp
    next
      case False
      with eq s1 show ?thesis
        using kv_store.setnx_present [OF K inv(1) False] kv_store.setnx_present [OF K' inv(2), of now k]
          same_items_later [OF same, of now'] assms(4) Call_SetNX by simp
    qed
    with res assms(4) Call_SetNX show ?thesis by auto
  next
    case (Call_Delete k)
    have "same_items i l i' l' T (snd (Store_Delete o1 s k)) (snd (Store_Delete o2 s' k))"
      using same kv_store.delete_inv [OF K] kv_store.delete_inv [OF K'] kv_store.delete_live [OF K] kv_store.delete_live [OF K']
      by (auto simp: same_items_def)
    with Call_Delete assms(4) step kv_store.delete_ok [OF K inv(1), of k] kv_store.delete_ok [OF K' inv(2), of k]
    show ?thesis by (auto split: prod.split_asm)
  next
    case (Call_List now p)
    obtain vs vs' where "Store_ListByPrefix o1 now s p = Inr vs" "set vs = {v. \<exists>k. HasPrefix k p \<and> l now s k = Some v}"
      "Store_ListByPrefix o2 now s' p = Inr vs'" "set vs' = {v. \<exists>k. HasPrefix k p \<and> l' now s' k = Some v}"
      using kv_store.list_live [OF K inv(1), of p now] kv_store.list_live [OF K' inv(2), of p now] assms(4) Call_List by auto
    moreover have "same_items i l i' l' now s s'" using same_items_later [OF same] assms(4) Call_List by simp
    moreover from this have "l now s k = l' now s' k" for k by (simp add: same_items_def)
    ultimately show ?thesis using assms(4) Call_List step by auto
  next
    case (Call_Tick now)
    have "same_items i l i' l' now (b now s) (b' now s')"
      using same assms(4) Call_Tick kv_store.background_inv [OF K] kv_store.background_inv [OF K']
        kv_store.background_live [OF K] kv_store.background_live [OF K']
      by (auto simp: same_items_def)
    with assms(4) Call_Tick step show ?thesis by auto
  qed
qed

lemma store_answers_agree:
  assumes K: "kv_store o1 i l b" and K': "kv_store o2 i' l' b'"
  shows "same_items i l i' l' T s s' \<Longrightarrow> clocked T cs \<Longrightarrow> store_answers o1 b cs s = store_answers o2 b' cs s'"
proof (induction cs arbitrary: T s s')
  case (Cons c cs)
  obtain a s1 where a: "store_answer o1 b c s = (a, s1)" by fastforce
  obtain a' s1' where a': "store_answer o2 b' c s' = (a', s1')" by fastforce
  from store_answer_agree [OF K K' Cons.prems a a'] Cons.IH a a' show ?case by auto
qed simp


text \<open>Set-if-absent twice, a read and a listing.\<close>

definition demo_calls :: "store_call list" where
  "demo_calls = [Call_SetNX 1 1 ''k'' ''v'' second, Call_SetNX 2 2 ''k'' ''w'' second, Call_Get 3 ''k'', Call_List 4 ''k'']"


end
