(* ===== verification/Dedup.thy ===== *)
theory Dedup
  imports Store
begin

text \<open>
  \<open>internal/dedup\<close>: an alert is a duplicate when a set-if-absent on the key derived from its
  identity fields fails. Firing alerts and resolved notifications use two families of keys.
  The lemmas that rest on the store's contract are proved in the locale \<open>kv_store\<close> and
  instantiated for the in-memory store.
\<close>

record Deduplicator =
  window :: duration

definition Dedup_New :: "int \<Rightarrow> Deduplicator" where
  "Dedup_New windowMinutes = \<lparr>window = wrap64 (windowMinutes * minute)\<rparr>"

definition dedup_key :: "(bytes \<Rightarrow> bytes) \<Rightarrow> AlertPayload \<Rightarrow> string" where
  "dedup_key sha256 p = hex_encode (sha256 (raw_key p))"

definition dedup_resolvedKey :: "(bytes \<Rightarrow> bytes) \<Rightarrow> AlertPayload \<Rightarrow> string" where
  "dedup_resolvedKey sha256 p = hex_encode (sha256 (raw_episode_key p))"

text \<open>The store keys the two checks use.\<close>

definition firing_marker :: "(bytes \<Rightarrow> bytes) \<Rightarrow> AlertPayload \<Rightarrow> string" where
  "firing_marker sha256 p = ''dedup:'' @ dedup_key sha256 p"

definition resolved_marker :: "(bytes \<Rightarrow> bytes) \<Rightarrow> AlertPayload \<Rightarrow> string" where
  "resolved_marker sha256 p = ''dedup:resolved:'' @ dedup_resolvedKey sha256 p"

definition IsDuplicate ::
  "(bytes \<Rightarrow> bytes) \<Rightarrow> 's store_ops \<Rightarrow> Deduplicator \<Rightarrow> gotime \<Rightarrow> gotime \<Rightarrow> 's \<Rightarrow> AlertPayload
    \<Rightarrow> bool \<times> 's \<times> metric list" where
  "IsDuplicate sha256 ops d now now' st p =
     (let key = firing_marker sha256 p
      in case Store_SetNX ops now now' st key ''1'' (window d) of
           (Inl err, st') \<Rightarrow> (False, st', [])
         | (Inr wasset, st') \<Rightarrow>
             if \<not> wasset then (True, st', [AlertsDeduped (ClusterId p)]) else (False, st', []))"

definition IsDuplicateResolved ::
  "(bytes \<Rightarrow> bytes) \<Rightarrow> 's store_ops \<Rightarrow> Deduplicator \<Rightarrow> gotime \<Rightarrow> gotime \<Rightarrow> 's \<Rightarrow> AlertPayload
    \<Rightarrow> bool \<times> 's \<times> metric list" where
  "IsDuplicateResolved sha256 ops d now now' st p =
     (let key = resolved_marker sha256 p
      in case Store_SetNX ops now now' st key ''1'' (window d) of
           (Inl err, st') \<Rightarrow> (False, st', [])
         | (Inr wasset, st') \<Rightarrow>
             if \<not> wasset then (True, st', [AlertsDeduped (ClusterId p)]) else (False, st', []))"

section \<open>Keys\<close>

lemma hex_encode_head: "hex_encode bs = c # cs \<Longrightarrow> is_lower_hex c"
  using hex_encode_lower_hex [of bs] by simp

lemma dedup_keys_disjoint: "firing_marker sha256 p \<noteq> resolved_marker sha256 q"
proof
  assume "firing_marker sha256 p = resolved_marker sha256 q"
  then have "hex_encode (sha256 (raw_key p)) = CHR ''r'' # ''esolved:'' @ dedup_resolvedKey sha256 q"
    by (simp add: firing_marker_def resolved_marker_def dedup_key_def)
  from hex_encode_head [OF this] show False by simp
qed

lemma firing_marker_eq_iff [simp]:
  "firing_marker sha256 p = firing_marker sha256 q \<longleftrightarrow> dedup_key sha256 p = dedup_key sha256 q"
  by (simp add: firing_marker_def)

lemma resolved_marker_eq_iff [simp]:
  "resolved_marker sha256 p = resolved_marker sha256 q \<longleftrightarrow>
     dedup_resolvedKey sha256 p = dedup_resolvedKey sha256 q"
  by (simp add: resolved_marker_def)

lemma dedup_key_eq_iff:
  assumes "pipe_free p" "pipe_free q" and "inj_on sha256 {raw_key p, raw_key q}"
  shows "dedup_key sha256 p = dedup_key sha256 q \<longleftrightarrow> identity_fields p = identity_fields q"
proof
  assume "dedup_key sha256 p = dedup_key sha256 q"
  then have "sha256 (raw_key p) = sha256 (raw_key q)"
    unfolding dedup_key_def by (rule hex_encode_inj)
  from inj_onD [OF assms(3) this] have "raw_key p = raw_key q" by simp
  then show "identity_fields p = identity_fields q"
    using assms(1,2) by (rule raw_key_inj)
qed (simp add: dedup_key_def raw_key_def identity_fields_def)

lemma dedup_resolvedKey_eq_iff:
  assumes "pipe_free p" "pipe_free q"
    and "inj_on sha256 {raw_episode_key p, raw_episode_key q}"
  shows "dedup_resolvedKey sha256 p = dedup_resolvedKey sha256 q \<longleftrightarrow>
    identity_fields p = identity_fields q \<and> FiredAt p = FiredAt q"
proof
  assume "dedup_resolvedKey sha256 p = dedup_resolvedKey sha256 q"
  then have "sha256 (raw_episode_key p) = sha256 (raw_episode_key q)"
    unfolding dedup_resolvedKey_def by (rule hex_encode_inj)
  from inj_onD [OF assms(3) this] have "raw_episode_key p = raw_episode_key q" by simp
  then show "identity_fields p = identity_fields q \<and> FiredAt p = FiredAt q"
    using assms(1,2) by (rule raw_episode_key_inj)
qed (simp add: dedup_resolvedKey_def raw_episode_key_def raw_key_def identity_fields_def)

section \<open>Behaviour over any store\<close>

context kv_store
begin

lemma IsDuplicate_eq:
  assumes "inv st"
  shows "IsDuplicate sha256 ops d now now' st p =
    (let k = firing_marker sha256 p
     in (live now st k \<noteq> None, snd (Store_SetNX ops now now' st k ''1'' (window d)),
         if live now st k \<noteq> None then [AlertsDeduped (ClusterId p)] else []))"
  using setnx_result [OF assms, of now now' "firing_marker sha256 p" "''1''" "window d"]
  by (auto simp: IsDuplicate_def Let_def split: prod.splits sum.splits)

lemma IsDuplicateResolved_eq:
  assumes "inv st"
  shows "IsDuplicateResolved sha256 ops d now now' st p =
    (let k = resolved_marker sha256 p
     in (live now st k \<noteq> None, snd (Store_SetNX ops now now' st k ''1'' (window d)),
         if live now st k \<noteq> None then [AlertsDeduped (ClusterId p)] else []))"
  using setnx_result [OF assms, of now now' "resolved_marker sha256 p"
      "''1''" "window d"]
  by (auto simp: IsDuplicateResolved_def Let_def split: prod.splits sum.splits)

lemma duplicate_within_window:
  assumes inv: "inv st" and now': "0 \<le> now'"
    and first: "IsDuplicate sha256 ops d now now' st p = (False, st1, ms)"
    and evs: "list_all (spares t (firing_marker sha256 p)) evs"
    and held: "held now' (window d) t"
    and same: "dedup_key sha256 q = dedup_key sha256 p"
  shows "IsDuplicate sha256 ops d t t' (store_run ops background evs st1) q =
    (True, store_run ops background evs st1, [AlertsDeduped (ClusterId q)])"
proof -
  let ?k = "firing_marker sha256 p"
  have "live now st ?k = None" and st1: "st1 = snd (Store_SetNX ops now now' st ?k ''1'' (window d))"
    using first inv by (auto simp: IsDuplicate_eq Let_def)
  then have "Store_SetNX ops now now' st ?k ''1'' (window d) = (Inr True, st1)"
    using inv by (intro prod_eqI) (simp_all add: setnx_result)
  from setnx_exclusive [OF inv now' this evs held]
  show ?thesis using same by (simp add: IsDuplicate_def firing_marker_def)
qed

text \<open>The window is fixed at the first delivery: refused duplicates do not move its end.\<close>

lemma window_not_extended:
  assumes inv: "inv st" and now': "0 \<le> now'"
    and first: "IsDuplicate sha256 ops d now now' st p = (False, st1, ms)"
    and dup: "IsDuplicate sha256 ops d t t' st1 p = (True, st2, ms')"
    and past: "0 < window d" "now' + window d < u"
  shows "fst (IsDuplicate sha256 ops d u u' st2 p) = False"
proof -
  let ?k = "firing_marker sha256 p"
  have n: "live now st ?k = None" and st1: "st1 = snd (Store_SetNX ops now now' st ?k ''1'' (window d))"
    using first inv by (auto simp: IsDuplicate_eq Let_def)
  have i1: "inv st1" using inv by (simp add: st1 setnx_inv)
  then have "live t st1 ?k \<noteq> None" "st2 = snd (Store_SetNX ops t t' st1 ?k ''1'' (window d))"
    using dup by (auto simp: IsDuplicate_eq Let_def)
  then have "st2 = st1" using i1 by (simp add: setnx_present)
  moreover have "live u st1 ?k = None"
    using past by (simp add: st1 setnx_live_after [OF inv now' n] held_def)
  ultimately show ?thesis using i1 by (simp add: IsDuplicate_eq Let_def)
qed

text \<open>An alert whose key has not been seen is never suppressed.\<close>

lemma distinct_key_passes:
  assumes inv: "inv st" and now': "0 \<le> now'"
    and fresh: "live t st (firing_marker sha256 q) = None"
    and other: "dedup_key sha256 q \<noteq> dedup_key sha256 p"
  shows "fst (IsDuplicate sha256 ops d t t' (fst (snd (IsDuplicate sha256 ops d now now' st p))) q)
    = False"
proof -
  let ?k = "firing_marker sha256 p"
  let ?s = "snd (Store_SetNX ops now now' st ?k ''1'' (window d))"
  have "live t ?s (firing_marker sha256 q) = None"
    using inv now' fresh other
    by (cases "live now st ?k = None") (simp_all add: setnx_present setnx_absent set_live)
  with inv show ?thesis by (simp add: IsDuplicate_eq Let_def setnx_inv)
qed

end

section \<open>Properties of the in-memory deduplicator\<close>

text \<open>C21: After an alert has passed, every further alert with the same key that arrives before
  the end of the window (counted from the clock reading that set the marker) is reported as a
  duplicate, counted once and leaves the store as it is, whatever other operations and janitor
  sweeps the store has performed meanwhile, as long as none of them overwrites or deletes the
  marker.\<close>

theorem dedup_suppresses_within_window:
  assumes "memory_inv st" and "0 \<le> now'"
    and "IsDuplicate sha256 memory_ops d now now' st p = (False, st1, ms)"
    and "list_all (spares t (firing_marker sha256 p)) evs"
    and "held now' (window d) t"
    and "dedup_key sha256 q = dedup_key sha256 p"
  shows "IsDuplicate sha256 memory_ops d t t' (store_run memory_ops Memory_background evs st1) q =
    (True, store_run memory_ops Memory_background evs st1, [AlertsDeduped (ClusterId q)])"
  using assms by (rule mem.duplicate_within_window)

lemmas demo_store_simps = IsDuplicate_def IsDuplicateResolved_def memory_ops_def Memory_SetNX_def
  NewMemory_def memory_inv_def

theorem dedup_suppresses_within_window_witness:
  "fst (IsDuplicate pad32 memory_ops (Dedup_New 15) 2000 2001
     (store_run memory_ops Memory_background [Ev_Background 1500, Ev_Delete ''x'']
       (fst (snd (IsDuplicate pad32 memory_ops (Dedup_New 15) 1000 1001 NewMemory demo_alert))))
     demo_alert)"
proof -
  let ?r = "IsDuplicate pad32 memory_ops (Dedup_New 15) 1000 1001 NewMemory demo_alert"
  have first: "?r = (False, fst (snd ?r), [])" by (simp add: demo_store_simps)
  have "held 1001 (window (Dedup_New 15)) 2000"
    by (simp add: held_def Dedup_New_def in_int64_def)
  from dedup_suppresses_within_window [OF _ _ first _ this, of
      "[Ev_Background 1500, Ev_Delete ''x'']" demo_alert 2001]
  show ?thesis by (simp add: demo_store_simps firing_marker_def)
qed

text \<open>The suppression window is fixed, not sliding: a duplicate refused inside the window
  does not postpone its end, so the first alert after the end passes again.\<close>

theorem dedup_window_not_sliding:
  assumes "memory_inv st" and "0 \<le> now'"
    and "IsDuplicate sha256 memory_ops d now now' st p = (False, st1, ms)"
    and "IsDuplicate sha256 memory_ops d t t' st1 p = (True, st2, ms')"
    and "0 < window d" and "now' + window d < u"
  shows "fst (IsDuplicate sha256 memory_ops d u u' st2 p) = False"
  using assms by (rule mem.window_not_extended)

theorem dedup_window_not_sliding_witness:
  "\<exists>st2 ms'. IsDuplicate pad32 memory_ops (Dedup_New 1) 2000 2001
      (fst (snd (IsDuplicate pad32 memory_ops (Dedup_New 1) 1000 1001 NewMemory demo_alert)))
      demo_alert = (True, st2, ms') \<and>
    \<not> fst (IsDuplicate pad32 memory_ops (Dedup_New 1) (minute + 1002) (minute + 1003) st2 demo_alert)"
proof -
  let ?r = "IsDuplicate pad32 memory_ops (Dedup_New 1) 1000 1001 NewMemory demo_alert"
  let ?q = "IsDuplicate pad32 memory_ops (Dedup_New 1) 2000 2001 (fst (snd ?r)) demo_alert"
  have first: "?r = (False, fst (snd ?r), [])" by (simp add: demo_store_simps)
  have dup: "?q = (True, fst (snd ?q), snd (snd ?q))"
    by (simp add: demo_store_simps expired_def expiry_def zero_time_def Dedup_New_def in_int64_def)
  from dedup_window_not_sliding [OF _ _ first dup, of "minute + 1002" "minute + 1003"]
  have "\<not> fst (IsDuplicate pad32 memory_ops (Dedup_New 1) (minute + 1002) (minute + 1003)
      (fst (snd ?q)) demo_alert)"
    by (simp add: demo_store_simps Dedup_New_def in_int64_def)
  with dup show ?thesis by blast
qed


text \<open>The parts of the key are joined with a bar and not escaped: alerts with a bar in a name or a namespace can share a marker.\<close>

theorem separator_confuses_alerts:
  "firing_marker sha256 (p\<lparr>AlertName := x @ ''|'' @ y, Namespace := z\<rparr>) =
   firing_marker sha256 (p\<lparr>AlertName := x, Namespace := y @ ''|'' @ z\<rparr>)"
  by (simp add: firing_marker_def dedup_key_def raw_key_def)

text \<open>C22: Alerts are not confused: for alerts whose fields contain no bar, the separator of the key, and whose
  digests do not collide, passing one alert never suppresses another alert that differs in
  cluster, name, namespace or pod and was not itself seen before.\<close>

theorem dedup_distinguishes_alerts:
  assumes "memory_inv st" and "0 \<le> now'" and "pipe_free p" and "pipe_free q"
    and "inj_on sha256 {raw_key q, raw_key p}" and "identity_fields q \<noteq> identity_fields p"
    and "memory_live t st (firing_marker sha256 q) = None"
  shows "fst (IsDuplicate sha256 memory_ops d t t'
    (fst (snd (IsDuplicate sha256 memory_ops d now now' st p))) q) = False"
  using assms by (intro mem.distinct_key_passes) (simp_all add: dedup_key_eq_iff)

theorem dedup_distinguishes_alerts_witness:
  "fst (IsDuplicate pad32 memory_ops (Dedup_New 15) 2000 2001
     (fst (snd (IsDuplicate pad32 memory_ops (Dedup_New 15) 1000 1001 NewMemory demo_alert)))
     (demo_alert\<lparr>PodName := ''p2''\<rparr>)) = False"
  by (rule dedup_distinguishes_alerts)
    (simp_all add: demo_store_simps demo_alert_def zero_payload_def pipe_free_def inj_on_def
      raw_key_def pad32_def identity_fields_def memory_live_def)


text \<open>A window of zero or fewer minutes (also the result of an unparsable
  \<open>DEDUP_WINDOW_MINUTES\<close>) does not switch deduplication off: the marker never expires and every
  later alert with the key is suppressed.\<close>

theorem dedup_zero_window_suppresses_forever:
  assumes "memory_inv st" and "0 \<le> now'"
    and "IsDuplicate sha256 memory_ops (Dedup_New 0) now now' st p = (False, st1, ms)"
  shows "fst (IsDuplicate sha256 memory_ops (Dedup_New 0) t t' st1 p) = True"
proof -
  have "held now' (window (Dedup_New 0)) t"
    by (simp add: held_def Dedup_New_def wrap64_def)
  from mem.duplicate_within_window [OF assms _ this, of "[]" p t']
  show ?thesis by (simp add: store_run_def)
qed

theorem dedup_zero_window_suppresses_forever_witness:
  "fst (IsDuplicate pad32 memory_ops (Dedup_New 0) (10000 * hour) (10000 * hour)
     (fst (snd (IsDuplicate pad32 memory_ops (Dedup_New 0) 1000 1001 NewMemory demo_alert)))
     demo_alert) = True"
  by (rule dedup_zero_window_suppresses_forever [where st = NewMemory and now' = 1001 and ms = "[]"])
    (simp_all add: demo_store_simps)


text \<open>A store failure never drops an alert: when the store reports an error both checks
  answer "not a duplicate" and count nothing.\<close>

theorem dedup_fails_open:
  assumes "\<And>k v ttl. \<exists>e. Store_SetNX ops now now' st k v ttl = (Inl e, st)"
  shows "IsDuplicate sha256 ops d now now' st p = (False, st, []) \<and>
    IsDuplicateResolved sha256 ops d now now' st p = (False, st, [])"
proof -
  obtain e1 where "Store_SetNX ops now now' st (firing_marker sha256 p) ''1'' (window d)
      = (Inl e1, st)" using assms by blast
  moreover obtain e2 where "Store_SetNX ops now now' st
      (resolved_marker sha256 p) ''1'' (window d) = (Inl e2, st)"
    using assms by blast
  ultimately show ?thesis by (simp add: IsDuplicate_def IsDuplicateResolved_def)
qed

theorem dedup_fails_open_witness:
  "IsDuplicate pad32 (memory_ops\<lparr>Store_SetNX := \<lambda>_ _ s _ _ _. (Inl ''redis down'', s)\<rparr>)
     (Dedup_New 15) 1 2 NewMemory demo_alert = (False, NewMemory, [])"
  using dedup_fails_open [of "memory_ops\<lparr>Store_SetNX := \<lambda>_ _ s _ _ _. (Inl ''redis down'', s)\<rparr>"
      1 2 NewMemory pad32 "Dedup_New 15" demo_alert]
  by simp


text \<open>Each firing episode gets its own resolved notification: passing the resolved
  notification of one episode suppresses neither the resolved notification of an episode that
  fired at another time nor any firing alert.\<close>

theorem dedup_resolved_per_episode:
  assumes inv: "memory_inv st" and now': "0 \<le> now'" and "pipe_free p" and "pipe_free q"
    and "inj_on sha256 {raw_episode_key q, raw_episode_key p}" and "FiredAt q \<noteq> FiredAt p"
    and fresh: "memory_live t st (resolved_marker sha256 q) = None"
    and st1: "IsDuplicateResolved sha256 memory_ops d now now' st p = (b, st1, ms)"
  shows "fst (IsDuplicateResolved sha256 memory_ops d t t' st1 q) = False \<and>
    fst (IsDuplicate sha256 memory_ops d t t' st1 r) = fst (IsDuplicate sha256 memory_ops d t t' st r)"
proof -
  let ?k = "resolved_marker sha256 p"
  have s: "st1 = snd (Store_SetNX memory_ops now now' st ?k ''1'' (window d))"
    using st1 inv by (simp add: mem.IsDuplicateResolved_eq Let_def)
  have frame: "memory_live t st1 k = memory_live t st k" if "k \<noteq> ?k" for k
    using inv now' that s
    by (cases "memory_live now st ?k = None")
      (simp_all add: mem.setnx_present mem.setnx_absent mem.set_live)
  have "dedup_resolvedKey sha256 q \<noteq> dedup_resolvedKey sha256 p"
    using assms by (simp add: dedup_resolvedKey_eq_iff)
  then have "memory_live t st1 (resolved_marker sha256 q) = None"
    using fresh frame by simp
  moreover have "memory_live t st1 (firing_marker sha256 r) =
      memory_live t st (firing_marker sha256 r)"
    using dedup_keys_disjoint [of sha256 r p] by (intro frame) simp
  moreover have "memory_inv st1" using inv s by (simp add: mem.setnx_inv)
  ultimately show ?thesis
    using inv by (simp add: mem.IsDuplicate_eq mem.IsDuplicateResolved_eq Let_def)
qed

theorem dedup_resolved_per_episode_witness:
  "fst (IsDuplicateResolved pad32 memory_ops (Dedup_New 15) 2000 2001
     (fst (snd (IsDuplicateResolved pad32 memory_ops (Dedup_New 15) 1000 1001 NewMemory demo_alert)))
     (demo_alert\<lparr>FiredAt := 8\<rparr>)) = False"
proof -
  let ?r = "IsDuplicateResolved pad32 memory_ops (Dedup_New 15) 1000 1001 NewMemory demo_alert"
  have r: "?r = (fst ?r, fst (snd ?r), snd (snd ?r))" by simp
  have inj: "inj_on pad32 {raw_episode_key (demo_alert\<lparr>FiredAt := 8\<rparr>), raw_episode_key demo_alert}"
    by (simp add: inj_on_def pad32_def raw_episode_key_def raw_key_def demo_alert_def
        zero_payload_def show_int_def show_nat.simps digit_char_def)
  from dedup_resolved_per_episode [OF _ _ _ _ inj _ _ r]
  show ?thesis
    by (simp add: NewMemory_def memory_inv_def memory_live_def pipe_free_def demo_alert_def
        zero_payload_def)
qed

end
