(* ===== verification/Limiter.thy ===== *)
theory Limiter
  imports Messages Float64
begin

text \<open>
  \<open>internal/llmlimit/llmlimit.go\<close>: the token bucket and the concurrency semaphore in front of
  the LLM, and the pool with one limiter per tenant.

  The channel \<open>concurrency\<close> is the number of occupied slots and its capacity. \<open>Acquire\<close> is not
  atomic: the slot is taken with a non-blocking send, the tokens are handled under the mutex,
  and the slot is given back after the mutex is released. The three parts are separate
  definitions; \<open>Limiter_Acquire\<close> composes them for one goroutine and \<open>lim_step\<close> interleaves
  them for many. Arithmetic is \<open>float64\<close> arithmetic: every operation is rounded.
\<close>

record Limiter =
  tokens :: rat
  maxTokens :: rat
  refillPerSec :: rat
  last_at :: gotime
  slots :: nat
  capacity :: nat

text \<open>A nil \<open>*Limiter\<close> is \<open>None\<close>.\<close>

definition Limiter_New :: "gotime \<Rightarrow> int \<Rightarrow> int \<Rightarrow> int \<Rightarrow> Limiter option" where
  "Limiter_New now callsPerMinute burst maxConcurrent =
     (if callsPerMinute \<le> 0 \<or> maxConcurrent \<le> 0 then None
      else let burst = (if burst \<le> 0 then callsPerMinute else burst)
           in Some \<lparr>tokens = round64 (of_int burst), maxTokens = round64 (of_int burst),
                    refillPerSec = round64 (round64 (of_int callsPerMinute) / 60),
                    last_at = now, slots = 0, capacity = nat maxConcurrent\<rparr>)"

text \<open>\<open>Duration.Seconds\<close>: the whole seconds plus the remaining nanoseconds over \<open>1e9\<close>; Go's
  division truncates towards zero.\<close>

definition Seconds :: "duration \<Rightarrow> rat" where
  "Seconds d =
     (let sec = sgn d * (\<bar>d\<bar> div second); nsec = sgn d * (\<bar>d\<bar> mod second)
      in round64 (of_int sec + round64 (of_int nsec / 1000000000)))"

definition take_slot :: "Limiter \<Rightarrow> Limiter option" where
  "take_slot l = (if slots l < capacity l then Some (l\<lparr>slots := slots l + 1\<rparr>) else None)"

text \<open>The section under the mutex: refill, clip, and take a token if there is a whole one.\<close>

definition take_token :: "gotime \<Rightarrow> Limiter \<Rightarrow> bool \<times> Limiter" where
  "take_token now l =
     (let t = round64 (tokens l + round64 (Seconds (time_sub now (last_at l)) * refillPerSec l));
          t = (if t > maxTokens l then maxTokens l else t);
          l = l\<lparr>tokens := t, last_at := now\<rparr>
      in if t < 1 then (False, l) else (True, l\<lparr>tokens := round64 (t - 1)\<rparr>))"

text \<open>\<open><-l.concurrency\<close> blocks on an empty channel: \<open>None\<close>.\<close>

definition give_back :: "Limiter \<Rightarrow> Limiter option" where
  "give_back l = (if 0 < slots l then Some (l\<lparr>slots := slots l - 1\<rparr>) else None)"

definition Limiter_Acquire ::
  "gotime \<Rightarrow> Limiter option \<Rightarrow> string \<Rightarrow> (bool \<times> Limiter option \<times> metric list) option" where
  "Limiter_Acquire now lm clusterID =
     (case lm of
        None \<Rightarrow> Some (True, None, [])
      | Some l \<Rightarrow>
          (case take_slot l of
             None \<Rightarrow> Some (False, Some l, [LLMThrottled ''concurrency'' clusterID])
           | Some l1 \<Rightarrow>
               (case take_token now l1 of
                  (True, l2) \<Rightarrow> Some (True, Some l2, [])
                | (False, l2) \<Rightarrow>
                    (case give_back l2 of
                       None \<Rightarrow> None
                     | Some l3 \<Rightarrow> Some (False, Some l3, [LLMThrottled ''rate'' clusterID])))))"

text \<open>\<open>Release\<close> drains one slot if there is one and never blocks.\<close>

definition Limiter_Release :: "Limiter option \<Rightarrow> string \<Rightarrow> Limiter option" where
  "Limiter_Release lm clusterID =
     (case lm of
        None \<Rightarrow> None
      | Some l \<Rightarrow> (case give_back l of None \<Rightarrow> Some l | Some l' \<Rightarrow> Some l'))"

section \<open>The pool\<close>

record Pool =
  buckets :: "string \<rightharpoonup> Limiter option"
  callsPerMinute :: int
  burst :: int
  maxConcurrent :: int

definition NewPool :: "int \<Rightarrow> int \<Rightarrow> int \<Rightarrow> Pool option" where
  "NewPool calls bst conc =
     (if calls \<le> 0 \<or> conc \<le> 0 then None
      else Some \<lparr>buckets = Map.empty, callsPerMinute = calls, burst = bst, maxConcurrent = conc\<rparr>)"

definition Pool_bucket :: "gotime \<Rightarrow> Pool \<Rightarrow> string \<Rightarrow> Limiter option \<times> Pool" where
  "Pool_bucket now p clusterID =
     (case buckets p clusterID of
        Some b \<Rightarrow> (b, p)
      | None \<Rightarrow> let b = Limiter_New now (callsPerMinute p) (burst p) (maxConcurrent p)
                in (b, p\<lparr>buckets := (buckets p)(clusterID \<mapsto> b)\<rparr>))"

text \<open>The bucket is a pointer: what \<open>Acquire\<close> and \<open>Release\<close> do to it is visible through the map.\<close>

definition Pool_Acquire ::
  "gotime \<Rightarrow> gotime \<Rightarrow> Pool option \<Rightarrow> string \<Rightarrow> (bool \<times> Pool option \<times> metric list) option" where
  "Pool_Acquire now now' pool clusterID =
     (case pool of
        None \<Rightarrow> Some (True, None, [])
      | Some p \<Rightarrow>
          let (b, p1) = Pool_bucket now p clusterID
          in (case Limiter_Acquire now' b clusterID of
                None \<Rightarrow> None
              | Some (ok, b', ms) \<Rightarrow>
                  Some (ok, Some (p1\<lparr>buckets := (buckets p1)(clusterID \<mapsto> b')\<rparr>), ms)))"

definition Pool_Release :: "gotime \<Rightarrow> Pool option \<Rightarrow> string \<Rightarrow> Pool option" where
  "Pool_Release now pool clusterID =
     (case pool of
        None \<Rightarrow> None
      | Some p \<Rightarrow>
          let (b, p1) = Pool_bucket now p clusterID
          in Some (p1\<lparr>buckets := (buckets p1)(clusterID \<mapsto> Limiter_Release b clusterID)\<rparr>))"

section \<open>The limiter invariant\<close>

definition limiter_inv :: "Limiter \<Rightarrow> bool" where
  "limiter_inv l \<longleftrightarrow> 0 \<le> tokens l \<and> tokens l \<le> maxTokens l \<and> round64 (maxTokens l) = maxTokens l \<and>
     0 \<le> refillPerSec l \<and> slots l \<le> capacity l"

lemma Limiter_New_inv: "Limiter_New now c b m = Some l \<Longrightarrow> limiter_inv l \<and> slots l = 0"
  by (auto simp: Limiter_New_def Let_def limiter_inv_def intro!: round64_nonneg divide_nonneg_pos
      split: if_splits)

lemma Seconds_nonneg: "0 \<le> d \<Longrightarrow> 0 \<le> Seconds d"
  unfolding Seconds_def Let_def
  by (intro round64_nonneg add_nonneg_nonneg) (auto simp: sgn_if intro!: round64_nonneg divide_nonneg_pos)

lemma take_slot_inv: "limiter_inv l \<Longrightarrow> take_slot l = Some l' \<Longrightarrow> limiter_inv l'"
  by (auto simp: take_slot_def limiter_inv_def split: if_splits)

lemma give_back_inv: "limiter_inv l \<Longrightarrow> give_back l = Some l' \<Longrightarrow> limiter_inv l'"
  by (auto simp: give_back_def limiter_inv_def split: if_splits)

text \<open>What one refill leaves in the bucket before a token is taken.\<close>

definition refilled :: "gotime \<Rightarrow> Limiter \<Rightarrow> rat" where
  "refilled now l =
     min (maxTokens l)
       (round64 (tokens l + round64 (Seconds (time_sub now (last_at l)) * refillPerSec l)))"

lemma take_token_eq:
  "take_token now l =
     (1 \<le> refilled now l,
      l\<lparr>tokens := if 1 \<le> refilled now l then round64 (refilled now l - 1) else refilled now l,
        last_at := now\<rparr>)"
  by (auto simp: take_token_def refilled_def Let_def min_def)

lemma time_sub_nonneg: "u \<le> t \<Longrightarrow> 0 \<le> time_sub t u"
  by (simp add: time_sub_def)

lemma refilled_bounds:
  assumes "limiter_inv l" "last_at l \<le> now"
  shows "0 \<le> refilled now l \<and> refilled now l \<le> maxTokens l"
  using assms Seconds_nonneg [OF time_sub_nonneg [OF assms(2)]]
  by (auto simp: refilled_def limiter_inv_def intro!: round64_nonneg add_nonneg_nonneg mult_nonneg_nonneg)

lemma take_token_inv:
  assumes "limiter_inv l" "last_at l \<le> now"
  shows "limiter_inv (snd (take_token now l))"
proof -
  note b = refilled_bounds [OF assms]
  have "round64 (refilled now l - 1) \<le> round64 (maxTokens l)"
    using b by (intro round64_mono) linarith
  then show ?thesis
    using assms(1) b by (auto simp: take_token_eq limiter_inv_def intro: round64_nonneg)
qed

lemma take_token_frame [simp]:
  "slots (snd (take_token now l)) = slots l" "capacity (snd (take_token now l)) = capacity l"
  "maxTokens (snd (take_token now l)) = maxTokens l" "last_at (snd (take_token now l)) = now"
  "refillPerSec (snd (take_token now l)) = refillPerSec l"
  by (simp_all add: take_token_eq)

section \<open>Interleaved calls\<close>

text \<open>
  Goroutines calling \<open>Acquire\<close> and \<open>Release\<close>: \<open>pending\<close> have a slot and wait for the mutex,
  \<open>returning\<close> found no token and still have to give their slot back, \<open>calls\<close> were granted and
  will release once. The mutex makes clock readings monotone.
\<close>

record lim_state =
  the_lim :: Limiter
  pending :: nat
  returning :: nat
  calls :: nat

inductive lim_step :: "lim_state \<Rightarrow> lim_state \<Rightarrow> bool" where
  enter: "take_slot (the_lim s) = Some l \<Longrightarrow>
    lim_step s (s\<lparr>the_lim := l, pending := pending s + 1\<rparr>)"
| token: "pending s = Suc n \<Longrightarrow> last_at (the_lim s) \<le> now \<Longrightarrow> take_token now (the_lim s) = (True, l) \<Longrightarrow>
    lim_step s (s\<lparr>the_lim := l, pending := n, calls := calls s + 1\<rparr>)"
| no_token: "pending s = Suc n \<Longrightarrow> last_at (the_lim s) \<le> now \<Longrightarrow> take_token now (the_lim s) = (False, l) \<Longrightarrow>
    lim_step s (s\<lparr>the_lim := l, pending := n, returning := returning s + 1\<rparr>)"
| hand_back: "returning s = Suc n \<Longrightarrow> give_back (the_lim s) = Some l \<Longrightarrow>
    lim_step s (s\<lparr>the_lim := l, returning := n\<rparr>)"
| release: "calls s = Suc n \<Longrightarrow> Limiter_Release (Some (the_lim s)) c = Some l \<Longrightarrow>
    lim_step s (s\<lparr>the_lim := l, calls := n\<rparr>)"

definition lim_init :: "Limiter \<Rightarrow> lim_state" where
  "lim_init l = \<lparr>the_lim = l, pending = 0, returning = 0, calls = 0\<rparr>"

definition lim_state_inv :: "lim_state \<Rightarrow> bool" where
  "lim_state_inv s \<longleftrightarrow> limiter_inv (the_lim s) \<and>
     slots (the_lim s) = pending s + returning s + calls s"

lemma lim_step_inv: "lim_step s s' \<Longrightarrow> lim_state_inv s \<Longrightarrow> lim_state_inv s' \<and>
    capacity (the_lim s') = capacity (the_lim s)"
proof (induction rule: lim_step.induct)
  case (enter s l)
  then show ?case
    using take_slot_inv [of "the_lim s" l] by (auto simp: lim_state_inv_def take_slot_def split: if_splits)
next
  case (token s n now l)
  then show ?case
    using take_token_inv [of "the_lim s" now] take_token_frame [of now "the_lim s"]
    by (auto simp: lim_state_inv_def)
next
  case (no_token s n now l)
  then show ?case
    using take_token_inv [of "the_lim s" now] take_token_frame [of now "the_lim s"]
    by (auto simp: lim_state_inv_def)
next
  case (hand_back s n l)
  then show ?case
    using give_back_inv [of "the_lim s" l] by (auto simp: lim_state_inv_def give_back_def split: if_splits)
next
  case (release s n c l)
  then show ?case
    using give_back_inv [of "the_lim s" l]
    by (auto simp: lim_state_inv_def Limiter_Release_def give_back_def split: if_splits)
qed

interpretation limited: step_system lim_step "\<lambda>s. lim_state_inv s \<and> capacity (the_lim s) = n" for n
  by unfold_locales (auto dest: lim_step_inv)

lemma lim_reachable_inv:
  "lim_step\<^sup>*\<^sup>* s s' \<Longrightarrow> lim_state_inv s \<Longrightarrow> lim_state_inv s' \<and> capacity (the_lim s') = capacity (the_lim s)"
  by (rule limited.run_good) simp_all

section \<open>The rate\<close>

text \<open>The unit roundoff.\<close>

definition ulp_half :: rat where "ulp_half = 1 / 2 ^ 53"

lemma round64_upper: "0 \<le> x \<Longrightarrow> round64 x \<le> x * (1 + ulp_half)"
  using round64_error [of x] unfolding ulp_half_def abs_le_iff by (simp add: algebra_simps)

lemma round64_lower: "0 \<le> x \<Longrightarrow> x * (1 - ulp_half) \<le> round64 x"
  using round64_error [of x] unfolding ulp_half_def abs_le_iff by (simp add: algebra_simps)

lemma ulp_half_pos: "0 < ulp_half" "ulp_half < 1"
  by (simp_all add: ulp_half_def)

lemma nonneg_Seconds:
  "0 \<le> d \<Longrightarrow> Seconds d = round64 (of_int (d div second) + round64 (of_int (d mod second) / 1000000000))"
  by (cases "d = 0") (auto simp: Seconds_def Let_def)

lemma Seconds_upper:
  assumes "0 \<le> d" shows "Seconds d \<le> of_int d / 1000000000 * (1 + ulp_half) ^ 2"
proof -
  let ?q = "of_int (d div second) :: rat" and ?r = "of_int (d mod second) / 1000000000 :: rat"
  have pos: "0 \<le> ?q" "0 \<le> ?r" using assms by (simp_all add: pos_imp_zdiv_nonneg_iff)
  have "(of_int d :: rat) = of_int (second * (d div second) + d mod second)"
    by (simp only: mult_div_mod_eq)
  then have d: "?q + ?r = of_int d / 1000000000" by (simp only: of_int_add of_int_mult) simp
  have "?q + round64 ?r \<le> (?q + ?r) * (1 + ulp_half)"
    using round64_upper [OF pos(2)] mult_nonneg_nonneg [OF pos(1), of ulp_half] ulp_half_pos
    by (simp only: distrib_left distrib_right mult_1_right) linarith
  moreover have "0 \<le> ?q + round64 ?r" using pos round64_nonneg [of ?r] by simp
  ultimately have "round64 (?q + round64 ?r) \<le> (?q + ?r) * (1 + ulp_half) * (1 + ulp_half)"
    using round64_upper [of "?q + round64 ?r"] ulp_half_pos
    by (meson add_nonneg_nonneg less_imp_le mult_right_mono order_trans zero_le_one)
  then show ?thesis using assms by (simp add: nonneg_Seconds d power2_eq_square algebra_simps)
qed

definition inflow :: "Limiter \<Rightarrow> rat" where
  "inflow l = refillPerSec l * (1 + ulp_half) ^ 3 / 1000000000"

lemma refill_upper:
  assumes "limiter_inv l" "last_at l \<le> now"
  shows "round64 (Seconds (time_sub now (last_at l)) * refillPerSec l) \<le>
    inflow l * of_int (now - last_at l)"
proof -
  let ?d = "time_sub now (last_at l)" and ?u = "1 + ulp_half"
  have d: "0 \<le> ?d" "?d \<le> now - last_at l"
    using assms(2) by (simp_all add: time_sub_def)
  have r: "0 \<le> refillPerSec l" using assms(1) by (simp add: limiter_inv_def)
  have u: "0 \<le> ?u" using ulp_half_pos by simp
  have "(of_int ?d :: rat) \<le> of_int (now - last_at l)" using d(2) by (simp only: of_int_le_iff)
  then have "of_int ?d / 1000000000 * ?u ^ 2 \<le> of_int (now - last_at l) / 1000000000 * ?u ^ 2"
    using u by (intro mult_right_mono divide_right_mono) auto
  with Seconds_upper [OF d(1)]
  have "Seconds ?d \<le> of_int (now - last_at l) / 1000000000 * ?u ^ 2" by linarith
  then have "Seconds ?d * refillPerSec l * ?u \<le>
      of_int (now - last_at l) / 1000000000 * ?u ^ 2 * refillPerSec l * ?u"
    using r u by (intro mult_right_mono) auto
  moreover have "round64 (Seconds ?d * refillPerSec l) \<le> Seconds ?d * refillPerSec l * ?u"
    using Seconds_nonneg [OF d(1)] r by (intro round64_upper) simp
  moreover have "of_int (now - last_at l) / 1000000000 * ?u ^ 2 * refillPerSec l * ?u =
      inflow l * of_int (now - last_at l)"
    by (simp add: inflow_def power2_eq_square power3_eq_cube)
  ultimately show ?thesis by linarith
qed

text \<open>One pass through the mutex: the tokens after it, plus the one granted, are at most the
  tokens before it plus the inflow since the last pass and two rounding errors.\<close>

lemma token_account:
  assumes inv: "limiter_inv l" "last_at l \<le> now" and tk: "take_token now l = (ok, l')"
  shows "tokens l' + of_bool ok \<le>
    tokens l + inflow l * of_int (now - last_at l) + 2 * ulp_half * maxTokens l"
proof -
  let ?p = "round64 (Seconds (time_sub now (last_at l)) * refillPerSec l)"
  let ?t = "refilled now l"
  note b = refilled_bounds [OF inv]
  have p: "0 \<le> ?p"
    using inv Seconds_nonneg [OF time_sub_nonneg [OF inv(2)]]
    by (intro round64_nonneg) (simp add: limiter_inv_def)
  have m: "0 \<le> ulp_half * maxTokens l" using b ulp_half_pos by simp
  have refill: "?t \<le> tokens l + ?p + ulp_half * maxTokens l"
  proof (cases "tokens l + ?p \<le> maxTokens l")
    case True
    have "?t \<le> round64 (tokens l + ?p)" by (simp add: refilled_def)
    also have "\<dots> \<le> (tokens l + ?p) * (1 + ulp_half)"
      using inv p by (intro round64_upper) (simp add: limiter_inv_def)
    also have "\<dots> \<le> tokens l + ?p + ulp_half * maxTokens l"
      using mult_left_mono [OF True, of ulp_half] ulp_half_pos by (simp add: algebra_simps)
    finally show ?thesis .
  next
    case False
    with b m show ?thesis by linarith
  qed
  have take: "round64 (?t - 1) + 1 \<le> ?t + ulp_half * maxTokens l" if "1 \<le> ?t"
  proof -
    have "round64 (?t - 1) \<le> (?t - 1) * (1 + ulp_half)" using that by (intro round64_upper) simp
    also have "\<dots> \<le> ?t - 1 + ulp_half * maxTokens l"
      using b ulp_half_pos 
        mult_left_mono [of "?t - 1" "maxTokens l" ulp_half] by (simp add: algebra_simps)
    finally show ?thesis by simp
  qed
  show ?thesis
    using tk refill take refill_upper [OF inv] m
    by (auto simp: take_token_eq)
qed

datatype lim_event = LAcquire gotime | LRelease

text \<open>The number of calls a sequence of operations is granted; \<open>None\<close> would be a blocked one.\<close>

fun limiter_run :: "string \<Rightarrow> lim_event list \<Rightarrow> Limiter option \<Rightarrow> (nat \<times> Limiter option) option" where
  "limiter_run c [] lm = Some (0, lm)"
| "limiter_run c (LAcquire now # evs) lm =
     (case Limiter_Acquire now lm c of
        None \<Rightarrow> None
      | Some (ok, lm', ms) \<Rightarrow> map_option (apfst (\<lambda>n. of_bool ok + n)) (limiter_run c evs lm'))"
| "limiter_run c (LRelease # evs) lm = limiter_run c evs (Limiter_Release lm c)"

text \<open>Clock readings do not go back and end no later than \<open>t\<close>.\<close>

fun clock_ordered :: "gotime \<Rightarrow> lim_event list \<Rightarrow> gotime \<Rightarrow> bool" where
  "clock_ordered t0 [] t \<longleftrightarrow> t0 \<le> t"
| "clock_ordered t0 (LAcquire now # evs) t \<longleftrightarrow> t0 \<le> now \<and> clock_ordered now evs t"
| "clock_ordered t0 (LRelease # evs) t \<longleftrightarrow> clock_ordered t0 evs t"

lemma clock_ordered_le: "clock_ordered t0 evs t \<Longrightarrow> t0 \<le> t"
  by (induction t0 evs t rule: clock_ordered.induct) auto

lemma Limiter_Acquire_some:
  "Limiter_Acquire now (Some l) c =
     (if slots l < capacity l
      then let (ok, l2) = take_token now (l\<lparr>slots := slots l + 1\<rparr>)
           in if ok then Some (True, Some l2, [])
              else Some (False, Some (l2\<lparr>slots := slots l\<rparr>), [LLMThrottled ''rate'' c])
      else Some (False, Some l, [LLMThrottled ''concurrency'' c]))"
  by (auto simp: Limiter_Acquire_def take_slot_def give_back_def take_token_eq Let_def)

lemma refilled_slots [simp]: "refilled now (l\<lparr>slots := n\<rparr>) = refilled now l"
  by (simp add: refilled_def)

lemma inflow_frame [simp]: "inflow (l\<lparr>slots := n\<rparr>) = inflow l"
  by (simp add: inflow_def)

lemma Limiter_Acquire_account:
  assumes inv: "limiter_inv l" "last_at l \<le> now"
  obtains ok l' ms where "Limiter_Acquire now (Some l) c = Some (ok, Some l', ms)"
    and "limiter_inv l'" and "last_at l' \<le> now"
    and "inflow l' = inflow l" and "maxTokens l' = maxTokens l"
    and "tokens l' - inflow l * of_int (last_at l') + of_bool ok \<le>
      tokens l - inflow l * of_int (last_at l) + 2 * ulp_half * maxTokens l"
proof (cases "slots l < capacity l")
  case True
  define l1 where "l1 = l\<lparr>slots := slots l + 1\<rparr>"
  have i1: "limiter_inv l1" "last_at l1 \<le> now"
    using inv True by (simp_all add: l1_def limiter_inv_def)
  obtain ok l2 where tk: "take_token now l1 = (ok, l2)" by fastforce
  define l' where "l' = (if ok then l2 else l2\<lparr>slots := slots l\<rparr>)"
  have i2: "limiter_inv l2" "slots l2 = slots l + 1" "maxTokens l2 = maxTokens l" "last_at l2 = now"
    "refillPerSec l2 = refillPerSec l"
    using take_token_inv [OF i1] take_token_frame [of now l1] unfolding tk by (simp_all add: l1_def)
  have "Limiter_Acquire now (Some l) c =
      Some (ok, Some l', if ok then [] else [LLMThrottled ''rate'' c])"
    using True tk by (simp add: Limiter_Acquire_some l1_def l'_def)
  moreover have "tokens l' - inflow l * of_int (last_at l') + of_bool ok \<le>
      tokens l - inflow l * of_int (last_at l) + 2 * ulp_half * maxTokens l"
    using token_account [OF i1 tk] i2 by (cases ok) (simp_all add: l'_def l1_def algebra_simps)
  ultimately show ?thesis
    using that i2 by (simp add: l'_def limiter_inv_def inflow_def)
next
  case False
  have "0 \<le> 2 * ulp_half * maxTokens l"
    using inv ulp_half_pos by (simp add: limiter_inv_def)
  with False that inv show ?thesis by (simp add: Limiter_Acquire_some)
qed

lemma Limiter_Release_frame:
  assumes "limiter_inv l"
  obtains l' where "Limiter_Release (Some l) c = Some l'" "limiter_inv l'" "tokens l' = tokens l"
    "last_at l' = last_at l" "inflow l' = inflow l" "maxTokens l' = maxTokens l"
proof (cases "0 < slots l")
  case True
  with assms show ?thesis
    by (intro that [of "l\<lparr>slots := slots l - 1\<rparr>"])
      (auto simp: Limiter_Release_def give_back_def limiter_inv_def)
next
  case False
  with assms show ?thesis
    by (intro that [of l]) (simp_all add: Limiter_Release_def give_back_def)
qed

lemma limiter_run_account:
  "limiter_inv l \<Longrightarrow> last_at l \<le> t0 \<Longrightarrow> clock_ordered t0 evs t \<Longrightarrow>
     \<exists>n l'. limiter_run c evs (Some l) = Some (n, Some l') \<and> limiter_inv l' \<and> last_at l' \<le> t \<and>
       of_nat n \<le> tokens l + inflow l * of_int (last_at l' - last_at l) +
         of_nat (length evs) * (2 * ulp_half * maxTokens l)"
proof (induction c evs "Some l" arbitrary: l t0 rule: limiter_run.induct)
  case (1 c l)
  then show ?case by (simp add: limiter_inv_def)
next
  case (2 c now evs l)
  from 2(2-4) have ord: "last_at l \<le> now" "clock_ordered now evs t" by auto
  obtain ok l1 ms where a: "Limiter_Acquire now (Some l) c = Some (ok, Some l1, ms)"
    and i1: "limiter_inv l1" "last_at l1 \<le> now" and f: "inflow l1 = inflow l" "maxTokens l1 = maxTokens l"
    and acc: "tokens l1 - inflow l * of_int (last_at l1) + of_bool ok \<le>
      tokens l - inflow l * of_int (last_at l) + 2 * ulp_half * maxTokens l"
    using Limiter_Acquire_account [OF 2(2) ord(1)] .
  from 2(1) [OF a refl refl i1 ord(2)] obtain n l'
    where "limiter_run c evs (Some l1) = Some (n, Some l')" "limiter_inv l'" "last_at l' \<le> t"
      "of_nat n \<le> tokens l1 + inflow l * of_int (last_at l' - last_at l1) +
         of_nat (length evs) * (2 * ulp_half * maxTokens l)"
    using f by auto
  with a acc show ?case by (simp add: algebra_simps)
next
  case (3 c evs l)
  obtain l1 where r: "Limiter_Release (Some l) c = Some l1"
    and f: "limiter_inv l1" "tokens l1 = tokens l" "last_at l1 = last_at l"
      "inflow l1 = inflow l" "maxTokens l1 = maxTokens l"
    using Limiter_Release_frame [OF 3(2)] .
  have "last_at l1 \<le> t0" "clock_ordered t0 evs t" using 3(3,4) f by simp_all
  from 3(1) [OF r f(1) this] f obtain n l'
    where *: "limiter_run c evs (Some l1) = Some (n, Some l')" "limiter_inv l'" "last_at l' \<le> t"
      "of_nat n \<le> tokens l + inflow l * of_int (last_at l' - last_at l) +
         of_nat (length evs) * (2 * ulp_half * maxTokens l)"
    by auto
  have "0 \<le> 2 * ulp_half * maxTokens l"
    using 3(2) ulp_half_pos by (simp add: limiter_inv_def)
  with * r show ?case by (simp add: algebra_simps)
qed

lemma limiter_run_frame:
  "limiter_run c evs (Some l) = Some (n, Some l') \<Longrightarrow>
     maxTokens l' = maxTokens l \<and> refillPerSec l' = refillPerSec l"
proof (induction c evs "Some l" arbitrary: l n rule: limiter_run.induct)
  case (2 c now evs l)
  from 2(2) obtain ok lm ms k where a: "Limiter_Acquire now (Some l) c = Some (ok, lm, ms)"
    and run: "limiter_run c evs lm = Some (k, Some l')"
    by (auto split: option.splits)
  from a obtain l1 where l1: "lm = Some l1"
    and f: "maxTokens l1 = maxTokens l" "refillPerSec l1 = refillPerSec l"
    by (auto simp: Limiter_Acquire_some take_token_eq Let_def split: if_splits)
  with 2(1) [OF a refl] run show ?case by simp
next
  case (3 c evs l)
  then show ?case
    by (auto simp: Limiter_Release_def give_back_def split: if_splits)
qed simp

lemma Seconds_ge:
  assumes "k * second \<le> d" "0 \<le> k" "k < 2 ^ 53" shows "of_int k \<le> Seconds d"
proof -
  have d: "0 \<le> d" using assms by (simp add: order_trans [OF _ assms(1)])
  have "k \<le> d div second" using assms(1) zdiv_mono1 [of "k * second" d second] by simp
  then have "(of_int k :: rat) \<le> of_int (d div second)" by (simp only: of_int_le_iff)
  moreover have "0 \<le> round64 (of_int (d mod second) / 1000000000)" by (intro round64_nonneg) simp
  ultimately have "round64 (of_int k) \<le> Seconds d"
    unfolding nonneg_Seconds [OF d] by (intro round64_mono) linarith
  then show ?thesis using assms by simp
qed

section \<open>Properties of one limiter\<close>

lemma Limiter_New_params:
  assumes "Limiter_New now c b m = Some l"
  shows "tokens l = maxTokens l \<and> maxTokens l = round64 (of_int (if b \<le> 0 then c else b)) \<and>
    refillPerSec l = round64 (round64 (of_int c) / 60) \<and> last_at l = now \<and>
    capacity l = nat m \<and> 0 < c \<and> 0 < m"
  using assms by (auto simp: Limiter_New_def Let_def split: if_splits)

lemma inflow_New:
  assumes "Limiter_New now c b m = Some l" "c < 2 ^ 53"
  shows "inflow l \<le> of_int c / 60 * (1 + 1 / 2 ^ 50) / 1000000000"
proof -
  have c: "0 < c" and r: "refillPerSec l = round64 (of_int c / 60)"
    using Limiter_New_params [OF assms(1)] assms(2) by auto
  have "round64 (of_int c / 60) \<le> of_int c / 60 * (1 + ulp_half)"
    using c by (intro round64_upper) simp
  then have "inflow l \<le> of_int c / 60 * (1 + ulp_half) * (1 + ulp_half) ^ 3 / 1000000000"
    unfolding inflow_def r using ulp_half_pos by (intro divide_right_mono mult_right_mono) auto
  also have "\<dots> = of_int c / 60 * (1 + ulp_half) ^ 4 / 1000000000"
    by (simp add: power4_eq_xxxx power3_eq_cube)
  also have "\<dots> \<le> of_int c / 60 * (1 + 1 / 2 ^ 50) / 1000000000"
    using c by (intro divide_right_mono mult_left_mono) (simp_all add: ulp_half_def power_divide)
  finally show ?thesis .
qed

text \<open>C15: The call rate is bounded. From a fresh limiter, whatever the sequence of \<open>Acquire\<close> and
  \<open>Release\<close> calls during a period of \<open>T\<close> nanoseconds, none of them blocks, and the number
  of granted calls is at most the burst plus the configured rate times the period; the actual
  \<open>float64\<close> arithmetic adds at most one part in \<open>2 ^ 50\<close> to the rate and, per operation, one
  part in \<open>2 ^ 52\<close> of the burst.\<close>

theorem limiter_rate_bounded:
  assumes new: "Limiter_New t0 c b m = Some l" and "c < 2 ^ 53" and "b < 2 ^ 53"
    and ord: "clock_ordered t0 evs (t0 + T)"
  shows "\<exists>n l'. limiter_run cluster evs (Some l) = Some (n, Some l') \<and>
    of_nat n \<le> of_int (if b \<le> 0 then c else b) * (1 + of_nat (length evs) / 2 ^ 52) +
      (1 + 1 / 2 ^ 50) * of_int c / 60 * (of_int T / 1000000000 :: rat)"
proof -
  let ?B = "if b \<le> 0 then c else b" and ?K = "of_int c / 60 * (1 + 1 / 2 ^ 50) / 1000000000 :: rat"
  note p = Limiter_New_params [OF new]
  then have B: "maxTokens l = of_int ?B" "tokens l = of_int ?B" using assms(2,3) by auto
  have last: "last_at l \<le> t0" using p by simp
  obtain n l' where run: "limiter_run cluster evs (Some l) = Some (n, Some l')" "limiter_inv l'"
    "last_at l' \<le> t0 + T"
    and n: "of_nat n \<le> tokens l + inflow l * of_int (last_at l' - last_at l) +
      of_nat (length evs) * (2 * ulp_half * maxTokens l)"
    using limiter_run_account [OF conjunct1 [OF Limiter_New_inv [OF new]] last ord] by blast
  have K: "0 \<le> inflow l" "inflow l \<le> ?K"
    using Limiter_New_inv [OF new] ulp_half_pos inflow_New [OF new assms(2)]
    by (auto simp: inflow_def limiter_inv_def)
  have "last_at l' - last_at l \<le> T" using run p by simp
  then have "(of_int (last_at l' - last_at l) :: rat) \<le> of_int T" by (simp only: of_int_le_iff)
  then have "inflow l * of_int (last_at l' - last_at l) \<le> inflow l * of_int T"
    using K by (intro mult_left_mono) auto
  also have "\<dots> \<le> ?K * of_int T"
    using K clock_ordered_le [OF ord] by (intro mult_right_mono) auto
  finally have "of_nat n \<le> of_int ?B + ?K * of_int T + of_nat (length evs) * (2 * ulp_half * of_int ?B)"
    using n B by simp
  then have "of_nat n \<le> of_int ?B * (1 + of_nat (length evs) / 2 ^ 52) +
      (1 + 1 / 2 ^ 50) * of_int c / 60 * (of_int T / 1000000000 :: rat)"
    by (simp add: ulp_half_def algebra_simps)
  with run show ?thesis by blast
qed

text \<open>A limiter for the examples: 60 calls a minute, a burst of 2, 2 concurrent calls.\<close>

definition demo_limiter :: Limiter where
  "demo_limiter = \<lparr>tokens = 2, maxTokens = 2, refillPerSec = 1, last_at = 0, slots = 0, capacity = 2\<rparr>"

lemma demo_limiter_New: "Limiter_New 0 60 2 2 = Some demo_limiter"
  using round64_of_int [of 60] round64_of_int [of 2] by (simp add: Limiter_New_def demo_limiter_def)

theorem limiter_rate_bounded_witness:
  "\<exists>n l'. limiter_run ''c1'' [LAcquire 0, LAcquire 1, LRelease, LAcquire 2] (Some demo_limiter) =
       Some (n, Some l') \<and>
     of_nat n \<le> (2 * (1 + 4 / 2 ^ 52) + (1 + 1 / 2 ^ 50) :: rat)"
  using limiter_rate_bounded [OF demo_limiter_New, of "[LAcquire 0, LAcquire 1, LRelease, LAcquire 2]"
      second "''c1''"] by simp

text \<open>The concurrency ceiling holds under every interleaving: the calls in flight never
  exceed \<open>maxConcurrent\<close>, the tokens stay between 0 and the burst, and a goroutine that gives its
  slot back always finds one in the channel, so \<open>Acquire\<close> never blocks.\<close>

theorem limiter_concurrency_bounded:
  assumes "Limiter_New now c b m = Some l" and "lim_step\<^sup>*\<^sup>* (lim_init l) s"
  shows "int (calls s) \<le> m \<and> 0 \<le> tokens (the_lim s) \<and> tokens (the_lim s) \<le> maxTokens (the_lim s) \<and>
    (0 < returning s \<longrightarrow> (\<exists>l'. give_back (the_lim s) = Some l')) \<and>
    (0 < calls s \<longrightarrow> slots (the_lim s) \<noteq> 0)"
proof -
  have "lim_state_inv (lim_init l)"
    using Limiter_New_inv [OF assms(1)] by (simp add: lim_state_inv_def lim_init_def)
  from lim_reachable_inv [OF assms(2) this] have "lim_state_inv s" "capacity (the_lim s) = nat m"
    using Limiter_New_params [OF assms(1)] by (simp_all add: lim_init_def)
  then show ?thesis
    using Limiter_New_params [OF assms(1)]
    by (auto simp: lim_state_inv_def limiter_inv_def give_back_def)
qed

theorem limiter_concurrency_bounded_witness:
  "lim_step\<^sup>*\<^sup>* (lim_init demo_limiter)
     \<lparr>the_lim = demo_limiter\<lparr>slots := 1\<rparr>, pending = 1, returning = 0, calls = 0\<rparr> \<and>
   int 0 \<le> 2"
proof
  let ?s = "\<lparr>the_lim = demo_limiter\<lparr>slots := 1\<rparr>, pending = 1, returning = 0, calls = 0\<rparr>"
  have "lim_step (lim_init demo_limiter) ?s"
    using lim_step.enter [of "lim_init demo_limiter" "demo_limiter\<lparr>slots := 1\<rparr>"]
    by (simp add: lim_init_def take_slot_def demo_limiter_def)
  then show st: "lim_step\<^sup>*\<^sup>* (lim_init demo_limiter) ?s" by simp
  show "int 0 \<le> 2"
    using limiter_concurrency_bounded [OF demo_limiter_New st] by simp
qed

text \<open>No starvation: 61 seconds after the last pass through the mutex a call is granted
  whenever a slot is free, whatever happened before.\<close>

theorem limiter_recovers:
  assumes new: "Limiter_New t0 c b m = Some l0" and "c < 2 ^ 53" and "b < 2 ^ 53"
    and "clock_ordered t0 evs t" and run: "limiter_run cluster evs (Some l0) = Some (n, Some l)"
    and "t + 61 * second \<le> now" and "slots l < capacity l"
  shows "\<exists>l'. Limiter_Acquire now (Some l) cluster = Some (True, Some l', [])"
proof -
  have p: "tokens l0 = maxTokens l0" "1 \<le> maxTokens l0" "refillPerSec l0 = round64 (of_int c / 60)"
    "0 < c" "last_at l0 = t0"
    using Limiter_New_params [OF new] assms(2,3) by auto
  have i: "limiter_inv l" "last_at l \<le> t"
    using limiter_run_account [OF conjunct1 [OF Limiter_New_inv [OF new]] _ assms(4), of cluster] run p
    by auto
  have f: "maxTokens l = maxTokens l0" "refillPerSec l = refillPerSec l0"
    using limiter_run_frame [OF run] by simp_all
  have "61 * second \<le> time_sub now (last_at l)"
    using i assms(6) by (simp add: time_sub_def)
  then have s: "61 \<le> Seconds (time_sub now (last_at l))" using Seconds_ge [of 61] by simp
  have "of_int c / 60 * (1 - ulp_half) \<le> refillPerSec l"
    unfolding f p using p by (intro round64_lower) simp
  moreover have "1 / 61 \<le> of_int c / 60 * (1 - ulp_half)"
  proof -
    have "(1::rat) \<le> of_int c" using p by simp
    then have "1 / 60 * (1 - ulp_half) \<le> of_int c / 60 * (1 - ulp_half)"
      using ulp_half_pos by (intro mult_right_mono divide_right_mono) auto
    then show ?thesis by (simp add: ulp_half_def)
  qed
  ultimately have r: "1 / 61 \<le> refillPerSec l" by linarith
  have "61 * (1 / 61) \<le> Seconds (time_sub now (last_at l)) * refillPerSec l"
    using s r by (intro mult_mono) auto
  then have "1 \<le> round64 (Seconds (time_sub now (last_at l)) * refillPerSec l)"
    using round64_mono [of 1] by simp
  then have "1 \<le> round64 (tokens l + round64 (Seconds (time_sub now (last_at l)) * refillPerSec l))"
    using round64_mono [of 1] i by (simp add: limiter_inv_def)
  then have "1 \<le> refilled now l" using p f by (simp add: refilled_def)
  then show ?thesis
    using assms(7) by (simp add: Limiter_Acquire_some take_token_eq)
qed

theorem limiter_recovers_witness:
  "\<exists>l'. Limiter_Acquire (61 * second) (Some demo_limiter) ''c1'' = Some (True, Some l', [])"
  using limiter_recovers [OF demo_limiter_New, of "[]" 0 "''c1''" 0 demo_limiter "61 * second"]
  by (simp add: demo_limiter_def)

section \<open>Tenants do not share a budget\<close>

datatype pool_event = PAcquire string gotime gotime | PRelease string gotime

fun event_tenant :: "pool_event \<Rightarrow> string" where
  "event_tenant (PAcquire c now now') = c"
| "event_tenant (PRelease c now) = c"

text \<open>A sequence of pool operations, with the answer of every \<open>Acquire\<close>.\<close>

fun pool_run :: "pool_event list \<Rightarrow> Pool option \<Rightarrow> ((string \<times> bool) list \<times> Pool option) option" where
  "pool_run [] pool = Some ([], pool)"
| "pool_run (PAcquire c now now' # evs) pool =
     (case Pool_Acquire now now' pool c of
        None \<Rightarrow> None
      | Some (ok, pool', ms) \<Rightarrow> map_option (apfst ((#) (c, ok))) (pool_run evs pool'))"
| "pool_run (PRelease c now # evs) pool = pool_run evs (Pool_Release now pool c)"

lemma Limiter_Acquire_total: "\<exists>ok lm' ms. Limiter_Acquire now lm c = Some (ok, lm', ms)"
  by (cases lm) (auto simp: Limiter_Acquire_some Limiter_Acquire_def [of _ None] Let_def take_token_eq)

text \<open>Two pools that look the same to tenant \<open>c\<close>.\<close>

definition same_for :: "string \<Rightarrow> Pool \<Rightarrow> Pool \<Rightarrow> bool" where
  "same_for c p q \<longleftrightarrow> buckets p c = buckets q c \<and> callsPerMinute p = callsPerMinute q \<and>
     burst p = burst q \<and> maxConcurrent p = maxConcurrent q"

lemma Pool_bucket_same:
  "same_for c p q \<Longrightarrow> fst (Pool_bucket now p c) = fst (Pool_bucket now q c) \<and>
     same_for c (snd (Pool_bucket now p c)) (snd (Pool_bucket now q c))"
  by (auto simp: same_for_def Pool_bucket_def Let_def split: option.splits)

lemma Pool_bucket_other: "d \<noteq> c \<Longrightarrow> same_for c (snd (Pool_bucket now p d)) p"
  by (auto simp: same_for_def Pool_bucket_def Let_def split: option.splits)

lemma Pool_Acquire_eq:
  "\<exists>ok b' ms. Limiter_Acquire now' (fst (Pool_bucket now p c)) c = Some (ok, b', ms) \<and>
     Pool_Acquire now now' (Some p) c = Some (ok, Some ((snd (Pool_bucket now p c))
       \<lparr>buckets := (buckets (snd (Pool_bucket now p c)))(c \<mapsto> b')\<rparr>), ms)"
  using Limiter_Acquire_total [of now' "fst (Pool_bucket now p c)" c]
  by (auto simp: Pool_Acquire_def split: prod.splits)

lemma Pool_Acquire_same:
  assumes "same_for c p q"
  obtains ok p' q' ms where "Pool_Acquire now now' (Some p) c = Some (ok, Some p', ms)"
    "Pool_Acquire now now' (Some q) c = Some (ok, Some q', ms)" "same_for c p' q'"
  using Pool_Acquire_eq [of now' now p c] Pool_Acquire_eq [of now' now q c]
    Pool_bucket_same [OF assms, of now] that
  by (auto simp: same_for_def)

lemma Pool_Acquire_other:
  assumes "d \<noteq> c"
  obtains ok p' ms where "Pool_Acquire now now' (Some p) d = Some (ok, Some p', ms)" "same_for c p' p"
  using Pool_Acquire_eq [of now' now p d] Pool_bucket_other [OF assms, of now p] assms that
  by (auto simp: same_for_def)

lemma Pool_Release_same:
  assumes "same_for c p q"
  obtains p' q' where "Pool_Release now (Some p) c = Some p'" "Pool_Release now (Some q) c = Some q'"
    "same_for c p' q'"
  using Pool_bucket_same [OF assms, of now] that
  by (auto simp: same_for_def Pool_Release_def case_prod_beta)

lemma Pool_Release_other:
  assumes "d \<noteq> c"
  obtains p' where "Pool_Release now (Some p) d = Some p'" "same_for c p' p"
  using Pool_bucket_other [OF assms, of now p] assms that
  by (auto simp: same_for_def Pool_Release_def case_prod_beta)

lemma same_for_trans: "same_for c p q \<Longrightarrow> same_for c q r \<Longrightarrow> same_for c p r"
  by (simp add: same_for_def)

lemma pool_run_same:
  "same_for c p q \<Longrightarrow> \<exists>rs p' rs' q'.
     pool_run evs (Some p) = Some (rs, Some p') \<and>
     pool_run (filter (\<lambda>e. event_tenant e = c) evs) (Some q) = Some (rs', Some q') \<and>
     filter (\<lambda>r. fst r = c) rs = rs' \<and> same_for c p' q'"
proof (induction evs arbitrary: p q)
  case (Cons e evs)
  show ?case
  proof (cases e)
    case (PAcquire d now now')
    show ?thesis
    proof (cases "d = c")
      case True
      obtain ok p1 q1 ms where "Pool_Acquire now now' (Some p) c = Some (ok, Some p1, ms)"
        "Pool_Acquire now now' (Some q) c = Some (ok, Some q1, ms)" "same_for c p1 q1"
        using Pool_Acquire_same [OF Cons.prems] .
      with Cons.IH [of p1 q1] True PAcquire show ?thesis by force
    next
      case False
      obtain ok p1 ms where "Pool_Acquire now now' (Some p) d = Some (ok, Some p1, ms)" "same_for c p1 p"
        using Pool_Acquire_other [OF False] .
      with Cons.IH [of p1 q] Cons.prems False PAcquire show ?thesis by (force dest: same_for_trans)
    qed
  next
    case (PRelease d now)
    show ?thesis
    proof (cases "d = c")
      case True
      obtain p1 q1 where "Pool_Release now (Some p) c = Some p1"
        "Pool_Release now (Some q) c = Some q1" "same_for c p1 q1"
        using Pool_Release_same [OF Cons.prems] .
      with Cons.IH [of p1 q1] True PRelease show ?thesis by force
    next
      case False
      obtain p1 where "Pool_Release now (Some p) d = Some p1" "same_for c p1 p"
        using Pool_Release_other [OF False] .
      with Cons.IH [of p1 q] Cons.prems False PRelease show ?thesis by (force dest: same_for_trans)
    qed
  qed
qed simp

text \<open>C39: One tenant's load never costs another tenant a call: in any sequence of pool
  operations, the answers given to tenant \<open>c\<close> and the state of its bucket are those of the
  sequence with every other tenant's operations removed.\<close>

theorem pool_tenants_isolated:
  "\<exists>rs p' rs' q'. pool_run evs (Some p) = Some (rs, Some p') \<and>
     pool_run (filter (\<lambda>e. event_tenant e = c) evs) (Some p) = Some (rs', Some q') \<and>
     filter (\<lambda>r. fst r = c) rs = rs' \<and> buckets p' c = buckets q' c"
  using pool_run_same [of c p p evs] by (auto simp: same_for_def)

text \<open>A pool that lets the first call of a cluster through.\<close>

definition demo_pool :: Pool where
  "demo_pool = \<lparr>buckets = Map.empty, callsPerMinute = 60, burst = 2, maxConcurrent = 2\<rparr>"

lemma demo_acquire: "\<exists>pool. Pool_Acquire 0 0 (Some demo_pool) c = Some (True, pool, [])"
  using demo_limiter_New round64_of_int [of 2]
  by (simp add: Pool_Acquire_def Pool_bucket_def demo_pool_def Limiter_Acquire_some take_token_def demo_limiter_def Seconds_def time_sub_def Let_def)

end
