(* ===== verification/Routing.thy ===== *)
theory Routing
  imports Messages
begin

text \<open>
  \<open>internal/routing\<close>: which receivers an alert goes to. The first rule whose non-empty match
  fields all equal the alert's wins.
\<close>

record Match =
  M_Severity :: string
  M_ClusterID :: string
  M_AlertName :: string
  M_Namespace :: string

record Rule =
  R_Name :: string
  R_Match :: Match
  Receivers :: "string list"

record Router =
  rules :: "Rule list"

definition Router_New :: "Rule list \<Rightarrow> Router" where
  "Router_New rs = \<lparr>rules = rs\<rparr>"

definition Matches :: "Rule \<Rightarrow> AlertPayload \<Rightarrow> bool" where
  "Matches r payload =
     (let m = R_Match r
      in if M_Severity m \<noteq> [] \<and> M_Severity m \<noteq> Severity payload then False
         else if M_ClusterID m \<noteq> [] \<and> M_ClusterID m \<noteq> ClusterId payload then False
         else if M_AlertName m \<noteq> [] \<and> M_AlertName m \<noteq> AlertName payload then False
         else if M_Namespace m \<noteq> [] \<and> M_Namespace m \<noteq> Namespace payload then False
         else True)"

text \<open>The result slice; \<open>nil\<close> is the empty list.\<close>

fun route_loop :: "Rule list \<Rightarrow> AlertPayload \<Rightarrow> string list" where
  "route_loop [] payload = []"
| "route_loop (r # rs) payload = (if Matches r payload then Receivers r else route_loop rs payload)"

definition Route :: "Router \<Rightarrow> AlertPayload \<Rightarrow> string list" where
  "Route r payload = route_loop (rules r) payload"

section \<open>Properties\<close>

lemma route_loop_skip:
  "list_all (\<lambda>r. \<not> Matches r p) rs \<Longrightarrow> route_loop (rs @ rest) p = route_loop rest p"
  by (induction rs) auto

lemma Matches_iff:
  "Matches r p \<longleftrightarrow>
     M_Severity (R_Match r) \<in> {[], Severity p} \<and> M_ClusterID (R_Match r) \<in> {[], ClusterId p} \<and>
     M_AlertName (R_Match r) \<in> {[], AlertName p} \<and> M_Namespace (R_Match r) \<in> {[], Namespace p}"
  by (auto simp: Matches_def Let_def)

text \<open>Routing is first-match and exact: the receivers of an alert are those of a rule every
  one of whose non-empty fields equals the alert's and which no earlier rule of that kind
  precedes; with no such rule there are none. A rule bound to a cluster never receives another
  cluster's alert.\<close>

theorem route_first_match:
  "(\<exists>before r after. rules router = before @ r # after \<and> Matches r p \<and>
      (\<forall>r'. r' \<in> set before \<longrightarrow> \<not> Matches r' p) \<and> Route router p = Receivers r \<and>
      M_ClusterID (R_Match r) \<in> {[], ClusterId p}) \<or>
   (\<forall>r. r \<in> set (rules router) \<longrightarrow> \<not> Matches r p) \<and> Route router p = []"
proof (cases "\<exists>r\<in>set (rules router). Matches r p")
  case True
  then obtain before r after where s: "rules router = before @ r # after" "Matches r p"
    "\<forall>r'\<in>set before. \<not> Matches r' p"
    by (rule split_list_first_propE)
  then have "Route router p = Receivers r"
    by (simp add: Route_def route_loop_skip list_all_iff)
  moreover have "M_ClusterID (R_Match r) \<in> {[], ClusterId p}"
    using s(2) unfolding Matches_iff by (elim conjE)
  ultimately show ?thesis using s by blast
next
  case False
  then have "route_loop (rules router @ []) p = route_loop [] p"
    by (intro route_loop_skip) (auto simp: list_all_iff)
  with False show ?thesis by (simp add: Route_def)
qed

text \<open>The rules of the example: criticals of one cluster page, everything else goes to chat.\<close>

definition demo_rules :: "Rule list" where
  "demo_rules =
     [\<lparr>R_Name = ''page'', R_Match = \<lparr>M_Severity = ''critical'', M_ClusterID = ''c1'', M_AlertName = [],
        M_Namespace = []\<rparr>, Receivers = [''oncall'']\<rparr>,
      \<lparr>R_Name = ''rest'', R_Match = \<lparr>M_Severity = [], M_ClusterID = [], M_AlertName = [],
        M_Namespace = []\<rparr>, Receivers = [''chat'']\<rparr>]"

theorem route_first_match_witness:
  "\<exists>r. r \<in> set demo_rules \<and> Matches r demo_alert \<and> Receivers r = [''chat'']"
proof -
  have "Route (Router_New demo_rules) demo_alert = [''chat'']"
    by (simp add: Route_def Router_New_def demo_rules_def Matches_def demo_alert_def)
  with route_first_match [of "Router_New demo_rules" demo_alert]
  obtain before r after where "rules (Router_New demo_rules) = before @ r # after"
    "Matches r demo_alert" "Receivers r = [''chat'']"
    by auto
  moreover from this have "r \<in> set demo_rules"
    unfolding Router_New_def Router.simps in_set_conv_decomp by blast
  ultimately show ?thesis by blast
qed

end
