(* ===== verification/Silence.thy ===== *)
theory Silence
  imports Messages Encoding
begin

text \<open>
  \<open>internal/silence/alertmanager.go\<close>: the AlertManager silence the LLM may ask for, and the
  guards that limit it. The HTTP transport is the parameter \<open>http_do\<close>; the result lists the
  request that was sent, if any.
\<close>

record Silence_Client =
  baseURL :: string
  sil_duration :: duration
  sil_enabled :: bool
  allowed :: "(string \<Rightarrow> bool) option"

text \<open>\<open>allowed\<close> is a Go map used as a set: \<open>None\<close> is the nil map.\<close>

definition NewClient :: "string \<Rightarrow> duration \<Rightarrow> bool \<Rightarrow> string list \<Rightarrow> Silence_Client" where
  "NewClient url dur en allowlist =
     \<lparr>baseURL = url, sil_duration = dur, sil_enabled = en,
      allowed = (if length allowlist > 0
                 then Some (\<lambda>n. n \<in> set (filter (\<lambda>n. n \<noteq> []) (map TrimSpace allowlist)))
                 else None)\<rparr>"

record matcher =
  m_Name :: string
  m_Value :: string
  IsRegex :: bool
  IsEqual :: bool

record silenceRequest =
  Matchers :: "matcher list"
  StartsAt :: string
  EndsAt :: string
  CreatedBy :: string
  Comment :: string

definition silence_json :: "silenceRequest \<Rightarrow> json" where
  "silence_json r =
     JObj [(''matchers'', JArr (map (\<lambda>m. JObj [(''name'', JStr (m_Name m)), (''value'', JStr (m_Value m)),
              (''isRegex'', JBool (IsRegex m)), (''isEqual'', JBool (IsEqual m))]) (Matchers r))),
           (''startsAt'', JStr (StartsAt r)), (''endsAt'', JStr (EndsAt r)),
           (''createdBy'', JStr (CreatedBy r)), (''comment'', JStr (Comment r))]"

definition silence_for :: "duration \<Rightarrow> gotime \<Rightarrow> AlertPayload \<Rightarrow> string \<Rightarrow> silenceRequest" where
  "silence_for dur now payload reason =
     \<lparr>Matchers =
        [\<lparr>m_Name = ''alertname'', m_Value = AlertName payload, IsRegex = False, IsEqual = True\<rparr>,
         \<lparr>m_Name = ''namespace'', m_Value = Namespace payload, IsRegex = False, IsEqual = True\<rparr>],
      StartsAt = rfc3339 now, EndsAt = rfc3339 (now + dur),
      CreatedBy = ''muthur-central'', Comment = reason\<rparr>"

datatype silence_error = SilErrRequest | SilErrCall string | SilErrStatus int

text \<open>\<open>json.Marshal\<close> of these strings and booleans cannot fail.\<close>

definition CreateSilence ::
  "(string \<Rightarrow> bool) \<Rightarrow> (http_request \<Rightarrow> string + http_response) \<Rightarrow> Silence_Client \<Rightarrow> gotime \<Rightarrow>
   AlertPayload \<Rightarrow> string \<Rightarrow> silence_error option \<times> metric list \<times> silenceRequest list" where
  "CreateSilence url_ok http_do c now payload reason =
     (if \<not> sil_enabled c then (None, [], [])
      else if EqualFold (Severity payload) ''critical'' then (None, [Silences ''blocked''], [])
      else if (case allowed c of None \<Rightarrow> False | Some al \<Rightarrow> \<not> al (AlertName payload))
      then (None, [Silences ''blocked''], [])
      else
        let req = silence_for (sil_duration c) now payload reason;
            url = baseURL c @ ''/api/v2/silences''
        in if \<not> url_ok url then (Some SilErrRequest, [], [])
           else case http_do \<lparr>Method = ''POST'', Req_URL = url,
                       Headers = [(''Content-Type'', ''application/json'')],
                       Body = Marshal (silence_json req)\<rparr> of
                  Inl e \<Rightarrow> (Some (SilErrCall e), [Silences ''error''], [req])
                | Inr resp \<Rightarrow>
                    if StatusCode resp \<noteq> 200
                    then (Some (SilErrStatus (StatusCode resp)), [Silences ''error''], [req])
                    else (None, [Silences ''created''], [req]))"

section \<open>Which alerts a silence mutes\<close>

text \<open>AlertManager mutes an alert when every matcher of the silence holds of its labels; the two
  labels used here are fields of the payload.\<close>

definition matcher_holds :: "matcher \<Rightarrow> AlertPayload \<Rightarrow> bool" where
  "matcher_holds m p \<longleftrightarrow>
     (m_Name m = ''alertname'' \<longrightarrow> m_Value m = AlertName p) \<and>
     (m_Name m = ''namespace'' \<longrightarrow> m_Value m = Namespace p)"

definition mutes :: "silenceRequest \<Rightarrow> AlertPayload \<Rightarrow> bool" where
  "mutes r p \<longleftrightarrow> list_all (\<lambda>m. matcher_holds m p) (Matchers r)"

section \<open>Properties\<close>

lemma EqualFold_critical: "EqualFold s ''critical'' \<longleftrightarrow> map lower_char s = ''critical''"
  by (simp add: EqualFold_def lower_char_def)

lemma demo_not_critical: "\<not> EqualFold ''warning'' ''critical''"
  by (simp add: EqualFold_def lower_char_def)

text \<open>When a request is sent at all.\<close>

definition may_silence :: "Silence_Client \<Rightarrow> AlertPayload \<Rightarrow> bool" where
  "may_silence c p \<longleftrightarrow> sil_enabled c \<and> \<not> EqualFold (Severity p) ''critical'' \<and>
     (case allowed c of None \<Rightarrow> True | Some al \<Rightarrow> al (AlertName p))"

lemma CreateSilence_sent:
  "snd (snd (CreateSilence url_ok http_do c now p reason)) =
     (if may_silence c p \<and> url_ok (baseURL c @ ''/api/v2/silences'')
      then [silence_for (sil_duration c) now p reason] else [])"
  by (auto simp: CreateSilence_def may_silence_def Let_def split: option.splits sum.splits)

text \<open>C13: A critical alert is never silenced: whatever the spelling of the severity's case, the
  configuration, the allowlist, the reason and the state of the network, no request is sent and
  no error is reported.\<close>

theorem critical_never_silenced:
  assumes "map lower_char (Severity p) = ''critical''"
  shows "\<exists>ms. CreateSilence url_ok http_do c now p reason = (None, ms, []) \<and> Silences ''created'' \<notin> set ms"
  using assms by (auto simp: CreateSilence_def EqualFold_critical)

lemma lower_demo: "map lower_char ''CRITICAL'' = ''critical''" "TrimSpace '' '' = []"
  by (simp_all add: lower_char_def char_of_def bit_0 TrimSpace_def space_seqs_def HasPrefix_def)

theorem critical_never_silenced_witness:
  "\<exists>ms. CreateSilence (\<lambda>u. True) (\<lambda>r. Inr \<lparr>StatusCode = 200, Resp_Body = []\<rparr>)
      (NewClient ''http://am'' hour True []) 0 (demo_alert\<lparr>Severity := ''CRITICAL''\<rparr>) ''noise'' =
      (None, ms, []) \<and> Silences ''created'' \<notin> set ms"
  by (rule critical_never_silenced) (use lower_demo in simp)

text \<open>The allowlist is honoured: with a non-empty allowlist (even one of blank entries) a
  request is sent exactly when silencing is enabled, the alert is not critical and its name is
  one of the trimmed entries; the request names that alert and namespace and nothing else.\<close>

theorem allowlist_honoured:
  assumes "names \<noteq> []" and "url_ok (url @ ''/api/v2/silences'')"
  shows "snd (snd (CreateSilence url_ok http_do (NewClient url dur en names) now p reason)) =
    (if en \<and> map lower_char (Severity p) \<noteq> ''critical'' \<and> AlertName p \<noteq> [] \<and>
        AlertName p \<in> TrimSpace ` set names
     then [silence_for dur now p reason] else [])"
  using assms
  by (auto simp: CreateSilence_sent may_silence_def NewClient_def EqualFold_critical)

theorem allowlist_honoured_witness:
  "snd (snd (CreateSilence (\<lambda>u. True) (\<lambda>r. Inl ''down'') (NewClient ''http://am'' hour True ['' ''])
      0 demo_alert ''noise'')) = []"
  using allowlist_honoured [of "['' '']" "\<lambda>u. True" "''http://am''" "\<lambda>r. Inl ''down''" hour True 0
      demo_alert "''noise''"]
  by (simp add: lower_demo)

text \<open>The guard covers the alert, not the silence: a silence created for a non-critical alert
  also mutes every alert with that name and namespace, critical ones and those of other clusters
  included, because neither severity nor cluster is among its matchers.\<close>

theorem silence_mutes_critical_sibling:
  assumes "req \<in> set (snd (snd (CreateSilence url_ok http_do c now p reason)))"
  shows "mutes req (p\<lparr>Severity := ''critical'', ClusterId := other\<rparr>)"
  using assms
  by (auto simp: CreateSilence_sent silence_for_def mutes_def matcher_holds_def split: if_splits)

theorem silence_mutes_critical_sibling_witness:
  "mutes (silence_for hour 0 demo_alert ''noise'')
     (demo_alert\<lparr>Severity := ''critical'', ClusterId := ''c2''\<rparr>)"
  by (rule silence_mutes_critical_sibling [where url_ok = "\<lambda>u. True" and http_do = "\<lambda>r. Inl ''down''" and
        c = "NewClient ''http://am'' hour True []" and now = 0 and reason = "''noise''"])
    (simp add: CreateSilence_sent may_silence_def NewClient_def demo_alert_def demo_not_critical)

end
