(* ===== verification/Correlator.thy ===== *)
theory Correlator
  imports Messages "HOL-Library.AList" "HOL-Library.Multiset"
begin

text \<open>
  \<open>internal/incident/correlator.go\<close>: alerts that fire together become one incident. The first
  alert of a group opens a bucket and arms a timer; the timer flushes whatever bucket the group
  then has.

  A timer is an identifier; \<open>armed\<close> lists the timers that are still to fire with the key their
  closure captured. \<open>time.AfterFunc\<close> adds one, firing or stopping removes it. Every section under
  the mutex is one step.
\<close>

section \<open>Keys and representatives\<close>

definition groupKey :: "AlertPayload \<Rightarrow> string" where
  "groupKey p =
     (case Target p of
        Some t \<Rightarrow> if Node t \<noteq> [] then ClusterId p @ ''|node|'' @ Node t
                  else ClusterId p @ ''|ns|'' @ Namespace p
      | None \<Rightarrow> ClusterId p @ ''|ns|'' @ Namespace p)"

definition severityRank :: "string \<Rightarrow> int" where
  "severityRank s =
     (if s = ''critical'' then 3 else if s = ''warning'' then 2 else if s = ''info'' then 1 else 0)"

definition Representative :: "AlertPayload list \<Rightarrow> AlertPayload option" where
  "Representative alerts =
     (case alerts of
        [] \<Rightarrow> None
      | a # as \<Rightarrow> Some (fold (\<lambda>x best. if severityRank (Severity x) > severityRank (Severity best)
                               then x else best) as a))"

section \<open>The correlator\<close>

record bucket =
  b_alerts :: "AlertPayload list"
  b_timer :: nat

record Correlator =
  cor_enabled :: bool
  cor_window :: duration
  maxGroup :: int
  cor_buckets :: "(string \<times> bucket) list"
  armed :: "(nat \<times> string) list"
  next_timer :: nat

definition Correlator_New :: "bool \<Rightarrow> int \<Rightarrow> int \<Rightarrow> Correlator" where
  "Correlator_New en windowSeconds mx =
     \<lparr>cor_enabled = en, cor_window = wrap64 (windowSeconds * second),
      maxGroup = (if mx \<le> 0 then 25 else mx), cor_buckets = [], armed = [], next_timer = 0\<rparr>"

text \<open>\<open>append(b.alerts, payload)\<close> mutates the bucket the map points to.\<close>

definition Correlator_Add :: "AlertPayload \<Rightarrow> Correlator \<Rightarrow> Correlator" where
  "Correlator_Add payload c =
     (let key = groupKey payload;
          fresh = (case map_of (cor_buckets c) key of
                     None \<Rightarrow> True
                   | Some b \<Rightarrow> int (length (b_alerts b)) \<ge> maxGroup c)
      in if fresh
         then c\<lparr>cor_buckets := AList.update key \<lparr>b_alerts = [payload], b_timer = next_timer c\<rparr> (cor_buckets c),
                armed := (next_timer c, key) # armed c, next_timer := next_timer c + 1\<rparr>
         else case map_of (cor_buckets c) key of
                None \<Rightarrow> c
              | Some b \<Rightarrow> c\<lparr>cor_buckets :=
                    AList.update key (b\<lparr>b_alerts := b_alerts b @ [payload]\<rparr>) (cor_buckets c)\<rparr>)"

text \<open>The groups handed to the flush function, and the correlator afterwards.\<close>

definition flushKey :: "string \<Rightarrow> Correlator \<Rightarrow> AlertPayload list list \<times> Correlator" where
  "flushKey key c =
     (let c' = c\<lparr>cor_buckets := AList.delete key (cor_buckets c)\<rparr>
      in case map_of (cor_buckets c) key of
           None \<Rightarrow> ([], c')
         | Some b \<Rightarrow> if b_alerts b = [] then ([], c') else ([b_alerts b], c'))"

fun flush_all :: "string list \<Rightarrow> Correlator \<Rightarrow> AlertPayload list list \<times> Correlator" where
  "flush_all [] c = ([], c)"
| "flush_all (k # ks) c =
     (let (out, c1) = flushKey k c; (out', c2) = flush_all ks c1 in (out @ out', c2))"

text \<open>\<open>Stop\<close> disarms the timers of the current buckets; then every key is flushed.\<close>

definition Drain :: "Correlator \<Rightarrow> AlertPayload list list \<times> Correlator" where
  "Drain c =
     (let stop = map (\<lambda>(k, b). b_timer b) (cor_buckets c);
          keys = map fst (cor_buckets c)
      in flush_all keys (c\<lparr>armed := filter (\<lambda>(t, k). t \<notin> set stop) (armed c)\<rparr>))"

text \<open>A timer goroutine: it is no longer armed and runs \<open>flushKey\<close> on the key it captured.\<close>

definition timer_fires :: "nat \<times> string \<Rightarrow> Correlator \<Rightarrow> AlertPayload list list \<times> Correlator" where
  "timer_fires t c = flushKey (snd t) (c\<lparr>armed := remove1 t (armed c)\<rparr>)"

section \<open>Runs\<close>

text \<open>The world around the correlator: what was added, what was flushed, and, for the accounting,
  the alerts of buckets that were replaced while still holding them.\<close>

record corr_state =
  cor :: Correlator
  added :: "AlertPayload list"
  flushed :: "AlertPayload list list"
  dropped :: "AlertPayload list"

definition overwritten :: "AlertPayload \<Rightarrow> Correlator \<Rightarrow> AlertPayload list" where
  "overwritten p c =
     (case map_of (cor_buckets c) (groupKey p) of
        None \<Rightarrow> []
      | Some b \<Rightarrow> if int (length (b_alerts b)) \<ge> maxGroup c then b_alerts b else [])"

inductive corr_step :: "corr_state \<Rightarrow> corr_state \<Rightarrow> bool" where
  add: "corr_step s (s\<lparr>cor := Correlator_Add p (cor s), added := added s @ [p],
          dropped := dropped s @ overwritten p (cor s)\<rparr>)"
| fire: "t \<in> set (armed (cor s)) \<Longrightarrow> timer_fires t (cor s) = (out, c) \<Longrightarrow>
    corr_step s (s\<lparr>cor := c, flushed := flushed s @ out\<rparr>)"
| drain: "Drain (cor s) = (out, c) \<Longrightarrow> corr_step s (s\<lparr>cor := c, flushed := flushed s @ out\<rparr>)"

definition corr_init :: "Correlator \<Rightarrow> corr_state" where
  "corr_init c = \<lparr>cor = c, added = [], flushed = [], dropped = []\<rparr>"

inductive_cases corr_step_cases: "corr_step s s'"

definition buffered :: "Correlator \<Rightarrow> AlertPayload multiset" where
  "buffered c = mset (concat (map (\<lambda>(k, b). b_alerts b) (cor_buckets c)))"

section \<open>Invariants\<close>

text \<open>A group that may be flushed: not empty, not too big, one key.\<close>

definition good_group :: "int \<Rightarrow> string \<Rightarrow> AlertPayload list \<Rightarrow> bool" where
  "good_group mx k g \<longleftrightarrow> g \<noteq> [] \<and> int (length g) \<le> mx \<and> (\<forall>a\<in>set g. groupKey a = k)"

definition corr_inv :: "Correlator \<Rightarrow> bool" where
  "corr_inv c \<longleftrightarrow> 0 < maxGroup c \<and> distinct (map fst (cor_buckets c)) \<and>
     (\<forall>k b. map_of (cor_buckets c) k = Some b \<longrightarrow>
        good_group (maxGroup c) k (b_alerts b) \<and> (b_timer b, k) \<in> set (armed c)) \<and>
     (\<forall>t\<in>set (armed c). fst t < next_timer c) \<and> distinct (map fst (armed c))"

lemma Correlator_New_inv: "corr_inv (Correlator_New en w mx)"
  by (simp add: corr_inv_def Correlator_New_def)

lemma good_group_snoc:
  "good_group mx (groupKey p) g \<Longrightarrow> int (length g) < mx \<Longrightarrow> good_group mx (groupKey p) (g @ [p])"
  by (auto simp: good_group_def)

lemma Add_inv:
  assumes "corr_inv c" shows "corr_inv (Correlator_Add p c)"
proof (cases "case map_of (cor_buckets c) (groupKey p) of None \<Rightarrow> True
    | Some b \<Rightarrow> int (length (b_alerts b)) \<ge> maxGroup c")
  case True
  then have "Correlator_Add p c =
      c\<lparr>cor_buckets := AList.update (groupKey p) \<lparr>b_alerts = [p], b_timer = next_timer c\<rparr> (cor_buckets c),
        armed := (next_timer c, groupKey p) # armed c, next_timer := next_timer c + 1\<rparr>"
    by (simp add: Correlator_Add_def Let_def)
  then show ?thesis
    using assms by (auto simp: corr_inv_def distinct_update update_conv' good_group_def split: if_splits)
next
  case False
  then obtain b where b: "map_of (cor_buckets c) (groupKey p) = Some b"
    "int (length (b_alerts b)) < maxGroup c"
    by (auto split: option.splits)
  then have "Correlator_Add p c = c\<lparr>cor_buckets :=
      AList.update (groupKey p) (b\<lparr>b_alerts := b_alerts b @ [p]\<rparr>) (cor_buckets c)\<rparr>"
    by (simp add: Correlator_Add_def Let_def)
  then show ?thesis
    using assms b by (auto simp: corr_inv_def distinct_update update_conv' good_group_snoc split: if_splits)
qed

lemma flushKey_eq:
  "flushKey k c = (case map_of (cor_buckets c) k of None \<Rightarrow> [] | Some b \<Rightarrow> filter (\<lambda>g. g \<noteq> []) [b_alerts b],
     c\<lparr>cor_buckets := AList.delete k (cor_buckets c)\<rparr>)"
  by (auto simp: flushKey_def Let_def split: option.splits)

lemma flushKey_frame:
  assumes "flushKey k c = (out, c')"
  shows "armed c' = armed c \<and> maxGroup c' = maxGroup c \<and> next_timer c' = next_timer c \<and>
    map_of (cor_buckets c') = (map_of (cor_buckets c))(k := None) \<and>
    map fst (cor_buckets c') = filter (\<lambda>x. x \<noteq> k) (map fst (cor_buckets c))"
proof -
  have "map fst (AList.delete k al) = filter (\<lambda>x. x \<noteq> k) (map fst al)" for al :: "(string \<times> bucket) list"
    by (induction al) auto
  with assms show ?thesis by (auto simp: flushKey_eq delete_conv)
qed

lemma delete_buffered:
  "distinct (map fst bs) \<Longrightarrow>
     mset (concat (map (\<lambda>(k, b). b_alerts b) bs)) =
       (case map_of bs k of None \<Rightarrow> {#} | Some b \<Rightarrow> mset (b_alerts b)) +
       mset (concat (map (\<lambda>(k, b). b_alerts b) (AList.delete k bs)))"
proof (induction bs)
  case (Cons x bs)
  then show ?case
    by (cases x) (auto simp: AList.delete_eq split: option.splits
        dest!: map_of_SomeD [of bs k] intro!: image_eqI)
qed simp

lemma flushKey_account:
  assumes "distinct (map fst (cor_buckets c))" "flushKey k c = (out, c')"
  shows "buffered c = mset (concat out) + buffered c'"
  using assms(2) delete_buffered [OF assms(1), of k]
  by (cases "map_of (cor_buckets c) k") (auto simp: flushKey_eq buffered_def split: if_splits)

text \<open>The invariant without the promise that each bucket has an armed timer, which \<open>Drain\<close> gives
  up for the buckets it is about to flush.\<close>

definition corr_inv0 :: "Correlator \<Rightarrow> bool" where
  "corr_inv0 c \<longleftrightarrow> 0 < maxGroup c \<and> distinct (map fst (cor_buckets c)) \<and>
     (\<forall>k b. map_of (cor_buckets c) k = Some b \<longrightarrow> good_group (maxGroup c) k (b_alerts b))"

lemma corr_inv_inv0: "corr_inv c \<Longrightarrow> corr_inv0 c"
  by (simp add: corr_inv_def corr_inv0_def)

lemma flushKey_inv0: "corr_inv0 c \<Longrightarrow> flushKey k c = (out, c') \<Longrightarrow> corr_inv0 c'"
  using flushKey_frame [of k c out c'] by (auto simp: corr_inv0_def split: if_splits)

lemma flushKey_groups:
  "corr_inv0 c \<Longrightarrow> flushKey k c = (out, c') \<Longrightarrow> \<forall>g\<in>set out. good_group (maxGroup c) k g"
  by (auto simp: flushKey_eq corr_inv0_def split: option.splits if_splits)

lemma flush_all_spec:
  "corr_inv0 c \<Longrightarrow> flush_all ks c = (out, c') \<Longrightarrow>
     corr_inv0 c' \<and> buffered c = mset (concat out) + buffered c' \<and>
     armed c' = armed c \<and> maxGroup c' = maxGroup c \<and> next_timer c' = next_timer c \<and>
     map fst (cor_buckets c') = filter (\<lambda>k. k \<notin> set ks) (map fst (cor_buckets c)) \<and>
     (\<forall>g\<in>set out. \<exists>k. good_group (maxGroup c) k g)"
proof (induction ks arbitrary: c out c')
  case (Cons k ks)
  obtain out1 c1 where f: "flushKey k c = (out1, c1)" by fastforce
  obtain out2 c2 where a: "flush_all ks c1 = (out2, c2)" by fastforce
  with f Cons.prems(2) have r: "out = out1 @ out2" "c' = c2" by auto
  note fr = flushKey_frame [OF f]
  have g1: "\<forall>g\<in>set out1. good_group (maxGroup c) k g"
    using flushKey_groups [OF Cons.prems(1) f] .
  have "buffered c = mset (concat out1) + buffered c1"
    using flushKey_account [OF _ f] Cons.prems(1) by (simp add: corr_inv0_def)
  with Cons.IH [OF flushKey_inv0 [OF Cons.prems(1) f] a] fr g1 show ?case
    by (auto simp: r filter_filter conj_commute intro: filter_cong)
qed simp

lemma Drain_spec:
  assumes inv: "corr_inv c" and d: "Drain c = (out, c')"
  shows "cor_buckets c' = [] \<and> mset (concat out) = buffered c \<and> corr_inv c' \<and>
    maxGroup c' = maxGroup c \<and> (\<forall>g\<in>set out. \<exists>k. good_group (maxGroup c) k g)"
proof -
  define c0 where "c0 = c\<lparr>armed := filter (\<lambda>(t, k). t \<notin> set (map (\<lambda>(k, b). b_timer b) (cor_buckets c))) (armed c)\<rparr>"
  have f: "flush_all (map fst (cor_buckets c)) c0 = (out, c')"
    using d by (simp add: Drain_def Let_def c0_def)
  have i0: "corr_inv0 c0" using corr_inv_inv0 [OF inv] by (simp add: corr_inv0_def c0_def)
  note s = flush_all_spec [OF i0 f]
  then have e: "cor_buckets c' = []" by (simp add: c0_def)
  moreover have "mset (concat out) = buffered c"
    using s e by (simp add: buffered_def c0_def)
  moreover have "corr_inv c'"
    using s e inv by (auto simp: corr_inv_def c0_def distinct_map intro: inj_on_subset)
  ultimately show ?thesis using s by (simp add: c0_def)
qed

lemma remove_timer_inv:
  assumes "corr_inv c" "t \<in> set (armed c)" "timer_fires t c = (out, c')"
  shows "corr_inv c'"
proof -
  define c0 where "c0 = c\<lparr>armed := remove1 t (armed c)\<rparr>"
  have f: "flushKey (snd t) c0 = (out, c')" using assms(3) by (simp add: timer_fires_def c0_def)
  have keep: "(x, k) \<in> set (remove1 t (armed c))" if "(x, k) \<in> set (armed c)" "k \<noteq> snd t" for x k
    using that by (cases t) (auto simp: in_set_remove1)
  have d: "distinct (map fst (remove1 t (armed c)))"
    using assms(1) by (auto simp: corr_inv_def distinct_map intro: inj_on_subset dest: notin_set_remove1)
  show ?thesis
    using assms(1) flushKey_frame [OF f] d keep
    by (auto simp: corr_inv_def c0_def split: if_splits dest: in_set_remove1 [THEN iffD1, rotated] notin_set_remove1)
qed

lemma update_buffered:
  assumes "distinct (map fst bs)"
  shows "mset (concat (map (\<lambda>(k, b). b_alerts b) (AList.update k v bs))) +
      (case map_of bs k of None \<Rightarrow> {#} | Some b \<Rightarrow> mset (b_alerts b)) =
    mset (concat (map (\<lambda>(k, b). b_alerts b) bs)) + mset (b_alerts v)"
proof -
  have d: "distinct (map fst (AList.update k v bs))" using assms by (simp add: distinct_update)
  show ?thesis
    using delete_buffered [OF assms, of k] delete_buffered [OF d, of k]
    by (simp add: delete_update_same update_conv')
qed

lemma Add_account:
  assumes "corr_inv c"
  shows "buffered (Correlator_Add p c) + mset (overwritten p c) = buffered c + {#p#}"
proof -
  have d: "distinct (map fst (cor_buckets c))" using assms by (simp add: corr_inv_def)
  let ?k = "groupKey p" and ?new = "\<lparr>b_alerts = [p], b_timer = next_timer c\<rparr>"
  show ?thesis
  proof (cases "map_of (cor_buckets c) ?k")
    case None
    with update_buffered [OF d, of ?k ?new] show ?thesis
      by (simp add: Correlator_Add_def overwritten_def buffered_def Let_def)
  next
    case (Some b)
    with update_buffered [OF d, of ?k ?new] update_buffered [OF d, of ?k "b\<lparr>b_alerts := b_alerts b @ [p]\<rparr>"]
    show ?thesis
      by (simp add: Correlator_Add_def overwritten_def buffered_def Let_def)
  qed
qed

lemma timer_fires_account:
  assumes "corr_inv c" "timer_fires t c = (out, c')"
  shows "buffered c = mset (concat out) + buffered c'"
  using flushKey_account [of "c\<lparr>armed := remove1 t (armed c)\<rparr>" "snd t" out c'] assms
  by (simp add: timer_fires_def corr_inv_def buffered_def)

definition run_inv :: "int \<Rightarrow> corr_state \<Rightarrow> bool" where
  "run_inv mx s \<longleftrightarrow> corr_inv (cor s) \<and> maxGroup (cor s) = mx \<and>
     mset (added s) = mset (concat (flushed s)) + buffered (cor s) + mset (dropped s) \<and>
     (\<forall>g\<in>set (flushed s). \<exists>k. good_group mx k g)"

lemma maxGroup_Add [simp]: "maxGroup (Correlator_Add p c) = maxGroup c"
  by (simp add: Correlator_Add_def Let_def split: option.splits)

lemma corr_step_inv: "corr_step s s' \<Longrightarrow> run_inv mx s \<Longrightarrow> run_inv mx s'"
proof (induction rule: corr_step.induct)
  case (add s p)
  then have inv: "corr_inv (cor s)"
    and acc: "mset (added s) = mset (concat (flushed s)) + buffered (cor s) + mset (dropped s)"
    by (simp_all add: run_inv_def)
  have "mset (added s) + {#p#} = mset (concat (flushed s)) + mset (dropped s) + (buffered (cor s) + {#p#})"
    unfolding acc by (simp only: ac_simps)
  also have "\<dots> = mset (concat (flushed s)) + buffered (Correlator_Add p (cor s)) +
      (mset (dropped s) + mset (overwritten p (cor s)))"
    unfolding Add_account [OF inv, symmetric] by (simp only: ac_simps)
  finally show ?case
    using add Add_inv [OF inv, of p] by (simp add: run_inv_def)
next
  case (fire t s out c)
  from fire have inv: "corr_inv (cor s)" by (simp add: run_inv_def)
  define c0 where "c0 = cor s\<lparr>armed := remove1 t (armed (cor s))\<rparr>"
  have f: "flushKey (snd t) c0 = (out, c)" using fire(2) by (simp add: timer_fires_def c0_def)
  have "corr_inv0 c0" using corr_inv_inv0 [OF inv] by (simp add: corr_inv0_def c0_def)
  from flushKey_groups [OF this f] have "\<forall>g\<in>set out. good_group (maxGroup (cor s)) (snd t) g"
    by (simp add: c0_def)
  moreover have "maxGroup c = maxGroup (cor s)" using flushKey_frame [OF f] by (simp add: c0_def)
  moreover note remove_timer_inv [OF inv fire(1,2)] timer_fires_account [OF inv fire(2)]
  ultimately show ?case
    using fire(3) unfolding run_inv_def by (simp add: ball_Un) blast
next
  case (drain s out c)
  from drain have inv: "corr_inv (cor s)" by (simp add: run_inv_def)
  show ?case
    using drain Drain_spec [OF inv drain(1)] by (auto simp: run_inv_def buffered_def)
qed

interpretation corr: step_system corr_step "run_inv mx" for mx
  by unfold_locales (rule corr_step_inv)

lemmas corr_run_inv = corr.run_good

lemma corr_init_inv: "0 < mx \<Longrightarrow> run_inv mx (corr_init (Correlator_New en w mx))"
  using Correlator_New_inv [of en w mx]
  by (simp add: run_inv_def corr_init_def Correlator_New_def buffered_def)

section \<open>Properties\<close>

text \<open>Nothing is duplicated and nothing vanishes silently: in every state reachable by adding
  alerts, timers firing and draining, each added alert is exactly once in a flushed group, in a
  bucket, or in a bucket that was replaced when full. Every flushed group is non-empty, no larger
  than the maximum and of one group key, and every bucket has an armed timer for its key.\<close>

theorem correlator_accounts:
  assumes "0 < mx" and "corr_step\<^sup>*\<^sup>* (corr_init (Correlator_New en w mx)) s"
  shows "mset (added s) = mset (concat (flushed s)) + buffered (cor s) + mset (dropped s) \<and>
    (\<forall>g\<in>set (flushed s). g \<noteq> [] \<and> int (length g) \<le> mx \<and> (\<forall>a\<in>set g. groupKey a = groupKey (hd g))) \<and>
    (\<forall>k b. map_of (cor_buckets (cor s)) k = Some b \<longrightarrow> (b_timer b, k) \<in> set (armed (cor s)))"
  using corr_run_inv [OF assms(2) corr_init_inv [OF assms(1)]]
  by (fastforce simp: run_inv_def corr_inv_def good_group_def)

lemma one_add:
  "corr_step\<^sup>*\<^sup>* (corr_init c) ((corr_init c)\<lparr>cor := Correlator_Add p c, added := [p],
     dropped := overwritten p c\<rparr>)"
  using corr_step.add [of "corr_init c" p] by (simp add: corr_init_def)

theorem correlator_accounts_witness:
  "buffered (Correlator_Add demo_alert (Correlator_New True 30 2)) = {#demo_alert#}"
  using correlator_accounts [OF _ one_add, of 2 demo_alert True 30]
  by (simp add: corr_init_def overwritten_def Correlator_New_def)

text \<open>Draining loses nothing: \<open>Drain\<close> hands every buffered alert to the pipeline exactly once
  and leaves no bucket behind.\<close>

theorem drain_flushes_everything:
  assumes "0 < mx" and "corr_step\<^sup>*\<^sup>* (corr_init (Correlator_New en w mx)) s"
    and "Drain (cor s) = (out, c')"
  shows "mset (concat out) = buffered (cor s) \<and> cor_buckets c' = []"
  using Drain_spec [OF _ assms(3)] corr_run_inv [OF assms(2) corr_init_inv [OF assms(1)]]
  by (simp add: run_inv_def)

theorem drain_flushes_everything_witness:
  "\<exists>out c'. Drain (Correlator_Add demo_alert (Correlator_New True 30 2)) = (out, c') \<and>
     mset (concat out) = buffered (Correlator_Add demo_alert (Correlator_New True 30 2))"
  using drain_flushes_everything [OF _ one_add, of 2 demo_alert True 30] by (auto simp: prod_eq_iff)

lemma groupKey_cluster:
  assumes "groupKey p = groupKey q" "CHR ''|'' \<notin> set (ClusterId p)" "CHR ''|'' \<notin> set (ClusterId q)"
  shows "ClusterId p = ClusterId q"
proof -
  have "\<exists>r. groupKey x = ClusterId x @ CHR ''|'' # r" for x
    by (auto simp: groupKey_def split: option.splits)
  then obtain r r' where "groupKey p = ClusterId p @ CHR ''|'' # r" "groupKey q = ClusterId q @ CHR ''|'' # r'"
    by blast
  with assms show ?thesis using sep_cancel_left [of "ClusterId p" "CHR ''|''" r "ClusterId q" r'] by simp
qed

text \<open>Incidents never mix clusters: the alerts of one flushed group all come from the same
  cluster (cluster identifiers contain no \<open>|\<close>).\<close>

theorem incidents_never_mix_clusters:
  assumes "0 < mx" and "corr_step\<^sup>*\<^sup>* (corr_init (Correlator_New en w mx)) s"
    and "g \<in> set (flushed s)" and "a \<in> set g" and "b \<in> set g"
    and "CHR ''|'' \<notin> set (ClusterId a)" and "CHR ''|'' \<notin> set (ClusterId b)"
  shows "ClusterId a = ClusterId b"
proof -
  have "run_inv mx s" using corr_run_inv [OF assms(2) corr_init_inv [OF assms(1)]] .
  with assms(3-5) have "groupKey a = groupKey b" by (force simp: run_inv_def good_group_def)
  then show ?thesis using assms(6,7) by (rule groupKey_cluster)
qed

lemma add_then_drain:
  assumes "Drain (Correlator_Add p c) = (out, c')"
  shows "corr_step\<^sup>*\<^sup>* (corr_init c) \<lparr>cor = c', added = [p], flushed = out, dropped = overwritten p c\<rparr>"
proof -
  let ?s = "(corr_init c)\<lparr>cor := Correlator_Add p c, added := [p], dropped := overwritten p c\<rparr>"
  have "corr_step ?s (?s\<lparr>cor := c', flushed := flushed ?s @ out\<rparr>)"
    by (rule corr_step.drain) (use assms in simp)
  then have "corr_step ?s \<lparr>cor = c', added = [p], flushed = out, dropped = overwritten p c\<rparr>"
    by (simp add: corr_init_def)
  with one_add [of c p] show ?thesis by (rule rtranclp.rtrancl_into_rtrancl)
qed

lemma drain_demo:
  "\<exists>c'. Drain (Correlator_Add demo_alert (Correlator_New True 30 2)) = ([[demo_alert]], c')"
  by (simp add: Correlator_Add_def Correlator_New_def Drain_def flushKey_def Let_def)

theorem incidents_never_mix_clusters_witness:
  "ClusterId demo_alert = ''c1''"
proof -
  obtain c' where "Drain (Correlator_Add demo_alert (Correlator_New True 30 2)) = ([[demo_alert]], c')"
    using drain_demo by blast
  from incidents_never_mix_clusters [OF _ add_then_drain [OF this], of "[demo_alert]" demo_alert demo_alert]
  show ?thesis by (simp add: demo_alert_def)
qed

subsection \<open>Full buckets\<close>

lemma fold_Add_bucket:
  assumes "int (length as) \<le> maxGroup c" "as \<noteq> []" "\<forall>a\<in>set as. groupKey a = k" "cor_buckets c = []"
  shows "\<exists>tm. cor_buckets (fold Correlator_Add as c) = [(k, \<lparr>b_alerts = as, b_timer = tm\<rparr>)] \<and>
    maxGroup (fold Correlator_Add as c) = maxGroup c"
  using assms
proof (induction as rule: rev_induct)
  case (snoc a as)
  show ?case
  proof (cases "as = []")
    case True
    with snoc show ?thesis by (simp add: Correlator_Add_def Let_def)
  next
    case False
    with snoc obtain tm where "cor_buckets (fold Correlator_Add as c) = [(k, \<lparr>b_alerts = as, b_timer = tm\<rparr>)]"
      "maxGroup (fold Correlator_Add as c) = maxGroup c"
      by auto
    with snoc.prems show ?thesis
      by (simp add: Correlator_Add_def [of a "fold Correlator_Add as c"] Let_def)
  qed
qed simp

text \<open>A full group is lost when one more alert arrives: after \<open>maxGroup\<close> alerts of one group
  key, the next one replaces the bucket that holds them, so neither a later timer nor \<open>Drain\<close>
  ever delivers them; only the newcomer is flushed.\<close>

theorem full_group_is_lost:
  assumes "int (length as) = mx" and "0 < mx" and "\<forall>a\<in>set as. groupKey a = groupKey p"
  shows "fst (Drain (Correlator_Add p (fold Correlator_Add as (Correlator_New en w mx)))) = [[p]]"
proof -
  let ?c = "fold Correlator_Add as (Correlator_New en w mx)"
  have "maxGroup (Correlator_New en w mx) = mx" "cor_buckets (Correlator_New en w mx) = []"
    using assms(2) by (simp_all add: Correlator_New_def)
  then obtain tm where "cor_buckets ?c = [(groupKey p, \<lparr>b_alerts = as, b_timer = tm\<rparr>)]" "maxGroup ?c = mx"
    using fold_Add_bucket [of as "Correlator_New en w mx" "groupKey p"] assms by auto
  then have "cor_buckets (Correlator_Add p ?c) = [(groupKey p, \<lparr>b_alerts = [p], b_timer = next_timer ?c\<rparr>)]"
    using assms(1) by (simp add: Correlator_Add_def Let_def)
  then show ?thesis by (simp add: Drain_def flushKey_def Let_def)
qed

theorem full_group_is_lost_witness:
  "fst (Drain (Correlator_Add demo_alert (fold Correlator_Add [demo_alert\<lparr>PodName := ''p2''\<rparr>]
     (Correlator_New True 30 1)))) = [[demo_alert]]"
  by (rule full_group_is_lost) (simp_all add: groupKey_def demo_alert_def zero_payload_def)

text \<open>The alerts of one key in a list.\<close>

definition of_key :: "string \<Rightarrow> AlertPayload list \<Rightarrow> AlertPayload list" where
  "of_key k as = filter (\<lambda>a. groupKey a = k) as"

lemma bucket_le_added:
  assumes "run_inv mx s" "map_of (cor_buckets (cor s)) k = Some b"
  shows "length (b_alerts b) \<le> length (of_key k (added s))"
proof -
  have g: "\<forall>a\<in>set (b_alerts b). groupKey a = k" "distinct (map fst (cor_buckets (cor s)))"
    using assms by (auto simp: run_inv_def corr_inv_def good_group_def)
  have "mset (b_alerts b) \<subseteq># mset (added s)"
    using delete_buffered [OF g(2), of k] assms by (simp add: run_inv_def buffered_def subset_mset.add_increasing)
  then have "filter_mset (\<lambda>a. groupKey a = k) (mset (b_alerts b)) \<subseteq># mset (of_key k (added s))"
    by (simp add: of_key_def mset_filter multiset_filter_mono)
  moreover have "filter_mset (\<lambda>a. groupKey a = k) (mset (b_alerts b)) = mset (b_alerts b)"
    using g(1) by (simp add: filter_mset_eq_conv)
  ultimately show ?thesis by (metis size_mset size_mset_mono)
qed

lemma dropped_needs_overflow:
  "corr_step\<^sup>*\<^sup>* s0 s \<Longrightarrow> run_inv mx s0 \<Longrightarrow> dropped s0 = [] \<Longrightarrow>
     dropped s = [] \<or> (\<exists>k. mx < int (length (of_key k (added s))))"
proof (induction rule: rtranclp_induct)
  case (step s s')
  from corr_run_inv [OF step(1) step(4)] have inv: "run_inv mx s" .
  have ih: "dropped s = [] \<or> (\<exists>k. mx < int (length (of_key k (added s))))" using step by blast
  from step(2) show ?case
  proof (cases rule: corr_step.cases)
    case (add p)
    show ?thesis
    proof (cases "overwritten p (cor s) = []")
      case True
      have "length (of_key k (added s)) \<le> length (of_key k (added s'))" for k
        by (simp add: add of_key_def)
      then show ?thesis using ih True add by (force intro: less_le_trans)
    next
      case False
      then obtain b where b: "map_of (cor_buckets (cor s)) (groupKey p) = Some b"
        "mx \<le> int (length (b_alerts b))"
        using inv by (auto simp: overwritten_def run_inv_def split: option.splits if_splits)
      have "mx < int (length (of_key (groupKey p) (added s')))"
        using bucket_le_added [OF inv b(1)] b(2) by (simp add: add of_key_def)
      then show ?thesis by blast
    qed
  qed (use ih in auto)
qed simp

text \<open>Below the maximum nothing is lost: as long as no group key receives more than
  \<open>maxGroup\<close> alerts, every alert added has been flushed or is still buffered, exactly once.\<close>

theorem no_loss_below_maximum:
  assumes "0 < mx" and "corr_step\<^sup>*\<^sup>* (corr_init (Correlator_New en w mx)) s"
    and "\<forall>k. int (length (of_key k (added s))) \<le> mx"
  shows "mset (added s) = mset (concat (flushed s)) + buffered (cor s)"
proof -
  note i = corr_init_inv [OF assms(1), of en w]
  have "dropped s = []"
    using dropped_needs_overflow [OF assms(2) i] assms(3) by (simp add: corr_init_def not_less [symmetric])
  then show ?thesis using corr_run_inv [OF assms(2) i] by (simp add: run_inv_def)
qed

theorem no_loss_below_maximum_witness:
  "{#demo_alert#} = buffered (Correlator_Add demo_alert (Correlator_New True 30 2))"
  using no_loss_below_maximum [OF _ one_add, of 2 demo_alert True 30]
  by (simp add: corr_init_def of_key_def)

subsection \<open>The representative\<close>

lemma fold_rank:
  "\<exists>as bs. a # xs = as @ fold (\<lambda>x best. if severityRank (Severity x) > severityRank (Severity best)
       then x else best) xs a # bs \<and>
     (\<forall>x\<in>set as. severityRank (Severity x) <
        severityRank (Severity (fold (\<lambda>x best. if severityRank (Severity x) > severityRank (Severity best)
           then x else best) xs a))) \<and>
     (\<forall>x\<in>set bs. severityRank (Severity x) \<le>
        severityRank (Severity (fold (\<lambda>x best. if severityRank (Severity x) > severityRank (Severity best)
           then x else best) xs a)))"
  (is "\<exists>as bs. ?P xs as bs")
proof (induction xs rule: rev_induct)
  case (snoc y xs)
  let ?f = "\<lambda>x best. if severityRank (Severity x) > severityRank (Severity best) then x else best"
  from snoc obtain as bs where ab: "a # xs = as @ fold ?f xs a # bs"
    "\<forall>x\<in>set as. severityRank (Severity x) < severityRank (Severity (fold ?f xs a))"
    "\<forall>x\<in>set bs. severityRank (Severity x) \<le> severityRank (Severity (fold ?f xs a))"
    by blast
  show ?case
  proof (cases "severityRank (Severity y) > severityRank (Severity (fold ?f xs a))")
    case True
    have "\<forall>x\<in>set (a # xs). severityRank (Severity x) < severityRank (Severity y)"
      unfolding ab(1) using ab(2,3) True by auto
    with True show ?thesis by (intro exI [of _ "a # xs"] exI [of _ "[]"]) simp
  next
    case False
    with ab show ?thesis by (intro exI [of _ as] exI [of _ "bs @ [y]"]) auto
  qed
next
  case Nil
  show ?case by (intro exI [of _ "[]"]) simp
qed

text \<open>The notification of an incident centres on its most severe alert, the earliest of those:
  the representative is in the group, everything before it ranks strictly lower and nothing after
  it ranks higher.\<close>

theorem representative_most_severe:
  assumes "Representative alerts = Some r"
  shows "\<exists>before after. alerts = before @ r # after \<and>
    (\<forall>x\<in>set before. severityRank (Severity x) < severityRank (Severity r)) \<and>
    (\<forall>x\<in>set after. severityRank (Severity x) \<le> severityRank (Severity r))"
proof (cases alerts)
  case Nil
  with assms show ?thesis by (simp add: Representative_def)
next
  case (Cons a xs)
  with assms fold_rank [of a xs] show ?thesis by (simp add: Representative_def)
qed

theorem representative_most_severe_witness:
  "\<exists>before after. [demo_alert, demo_alert\<lparr>Severity := ''critical''\<rparr>] =
     before @ demo_alert\<lparr>Severity := ''critical''\<rparr> # after"
  using representative_most_severe [of "[demo_alert, demo_alert\<lparr>Severity := ''critical''\<rparr>]"
      "demo_alert\<lparr>Severity := ''critical''\<rparr>"]
  by (auto simp: Representative_def severityRank_def demo_alert_def)

end
