(* ===== verification/FloatText.thy ===== *)
theory FloatText
  imports Float64 Messages Encoding
begin

text \<open>
  Numbers as text: \<open>strconv.FormatFloat\<close> with a fixed number of decimals (also the \<open>%.4f\<close> verb),
  the shortest decimal form \<open>encoding/json\<close> writes, and padding. A \<open>float64\<close> is a value of type
  \<open>float64\<close>; finite ones are rationals.
\<close>

section \<open>Fixed precision\<close>

definition pad_zeros :: "nat \<Rightarrow> string \<Rightarrow> string" where
  "pad_zeros w s = replicate (w - length s) CHR ''0'' @ s"

text \<open>The exact binary value is rounded to \<open>prec\<close> decimals, ties to even.\<close>

definition fixed_rat :: "nat \<Rightarrow> rat \<Rightarrow> string" where
  "fixed_rat prec r =
     (let n = nat (round_even (\<bar>r\<bar> * 10 ^ prec))
      in (if r < 0 then ''-'' else []) @ show_nat (n div 10 ^ prec) @
         (if prec = 0 then [] else ''.'' @ pad_zeros prec (show_nat (n mod 10 ^ prec))))"

definition FormatFixed :: "nat \<Rightarrow> float64 \<Rightarrow> string" where
  "FormatFixed prec v =
     (case v of
        NaN \<Rightarrow> ''NaN'' | PosInf \<Rightarrow> ''+Inf'' | NegInf \<Rightarrow> ''-Inf'' | Finite r \<Rightarrow> fixed_rat prec r)"

text \<open>The \<open>%-25s\<close> verb, in runes.\<close>

definition pad_right :: "nat \<Rightarrow> string \<Rightarrow> string" where
  "pad_right w s = s @ replicate (w - length (runes s)) CHR '' ''"

section \<open>Shortest form\<close>

definition dec_expo :: "rat \<Rightarrow> int" where
  "dec_expo x =
     (let (a, b) = quotient_of x;
          k = int (length (show_nat (nat a))) - int (length (show_nat (nat b)))
      in if x < 10 powi k then k - 1 else k)"

text \<open>The decimal with \<open>n\<close> significant digits that reads back as \<open>x\<close>, the nearer one when there are
  two, as an integer and a power of ten.\<close>

definition short_try :: "(rat \<Rightarrow> rat) \<Rightarrow> rat \<Rightarrow> nat \<Rightarrow> (int \<times> int) option" where
  "short_try rnd x n =
     (let p = dec_expo x - (int n - 1);
          y = x / 10 powi p; lo = \<lfloor>y\<rfloor>; hi = lo + 1;
          ok = (\<lambda>c. rnd (of_int c * 10 powi p) = x)
      in if ok lo \<and> ok hi then Some (round_even y, p)
         else if ok lo then Some (lo, p) else if ok hi then Some (hi, p) else None)"

fun first_some :: "('a \<Rightarrow> 'b option) \<Rightarrow> 'a list \<Rightarrow> 'b option" where
  "first_some f [] = None"
| "first_some f (x # xs) = (case f x of None \<Rightarrow> first_some f xs | Some y \<Rightarrow> Some y)"

text \<open>Digits without trailing zeros and the exponent of the first one.\<close>

definition short_digits :: "(rat \<Rightarrow> rat) \<Rightarrow> rat \<Rightarrow> string \<times> int" where
  "short_digits rnd x =
     (case first_some (short_try rnd x) [1..<18] of
        None \<Rightarrow> ([], 0)
      | Some (c, p) \<Rightarrow>
          (let ds = show_nat (nat c)
           in (rev (dropWhile (\<lambda>d. d = CHR ''0'') (rev ds)), p + int (length ds) - 1)))"

text \<open>\<open>encoding/json\<close>: plain decimals between \<open>1e-6\<close> and \<open>1e21\<close>, otherwise an exponent of at least
  one digit.\<close>

definition json_rat :: "(rat \<Rightarrow> rat) \<Rightarrow> rat \<Rightarrow> string" where
  "json_rat rnd r =
     (let x = \<bar>r\<bar>; sg = (if r < 0 then ''-'' else [])
      in if r = 0 then ''0''
         else case short_digits rnd x of (ds, e) \<Rightarrow>
           if x < 1 / 10 ^ 6 \<or> 10 ^ 21 \<le> x then
             sg @ take 1 ds @ (if length ds > 1 then ''.'' @ drop 1 ds else []) @ ''e'' @
               (if e < 0 then ''-'' else ''+'') @ (if e < 0 then show_nat (nat (- e)) else pad_zeros 2 (show_nat (nat e)))
           else if e < 0 then sg @ ''0.'' @ replicate (nat (- e) - 1) CHR ''0'' @ ds
           else if length ds \<le> nat e + 1 then sg @ ds @ replicate (nat e + 1 - length ds) CHR ''0''
           else sg @ take (nat e + 1) ds @ ''.'' @ drop (nat e + 1) ds)"

text \<open>\<open>json.Marshal\<close> of a \<open>float64\<close> fails on infinities and NaN.\<close>

definition json_float64 :: "float64 \<Rightarrow> json option" where
  "json_float64 v = (case v of Finite r \<Rightarrow> Some (JNum (json_rat round64 r)) | _ \<Rightarrow> None)"

end
