(* ===== verification/Json.thy ===== *)
theory Json
  imports Quoting
begin

text \<open>
  \<open>encoding/json\<close> as the sources use it on the way in: the parser, and the decoding of an object
  into a struct. Together with \<open>Marshal\<close> of theory \<open>Encoding\<close> it gives the round trips of everything
  the brain stores as JSON.
\<close>

section \<open>Strings\<close>

text \<open>\<open>U+FFFD\<close>, which replaces whatever is not valid.\<close>

definition rune_error :: string where
  "rune_error = [CHR 0xEF, CHR 0xBF, CHR 0xBD]"

definition hex4_val :: "string \<Rightarrow> nat option" where
  "hex4_val s =
     (if length s \<ge> 4 \<and> list_all is_hex (take 4 s)
      then Some (foldl (\<lambda>a c. 16 * a + nibble c) 0 (take 4 s)) else None)"

text \<open>The rest of \<open>\u\<close>: the decoded text and how much was consumed after the four digits. A high
  surrogate joins a low one that follows it; a lone surrogate is an error rune.\<close>

definition unicode_escape :: "nat \<Rightarrow> string \<Rightarrow> string \<times> nat" where
  "unicode_escape u rest =
     (if 0xD800 \<le> u \<and> u < 0xE000 then
        (case (if HasPrefix rest [CHR 0x5C, CHR ''u''] then hex4_val (drop 2 rest) else None) of
           Some v \<Rightarrow>
             if u < 0xDC00 \<and> 0xDC00 \<le> v \<and> v < 0xE000
             then (utf8_encode ((u - 0xD800) * 1024 + (v - 0xDC00) + 0x10000), 6) else (rune_error, 0)
         | None \<Rightarrow> (rune_error, 0))
      else (utf8_encode u, 0))"

definition simple_escape :: "char \<Rightarrow> char option" where
  "simple_escape e =
     (if e = CHR 0x22 \<or> e = CHR 0x5C \<or> e = CHR ''/'' then Some e
      else if e = CHR ''b'' then Some (CHR 0x08) else if e = CHR ''f'' then Some (CHR 0x0C)
      else if e = CHR ''n'' then Some (CHR 0x0A) else if e = CHR ''r'' then Some (CHR 0x0D)
      else if e = CHR ''t'' then Some (CHR 0x09) else None)"

text \<open>The text of a string after its opening quote, and what follows its closing quote.\<close>

function unesc :: "string \<Rightarrow> (string \<times> string) option" where
  "unesc [] = None"
| "unesc (c # s) =
     (if c = CHR 0x22 then Some ([], s)
      else if c = CHR 0x5C then
        (case s of
           [] \<Rightarrow> None
         | e # t \<Rightarrow>
             if e = CHR ''u'' then
               (case hex4_val t of
                  None \<Rightarrow> None
                | Some u \<Rightarrow>
                    (case unicode_escape u (drop 4 t) of
                       (txt, n) \<Rightarrow> map_option (\<lambda>(r, k). (txt @ r, k)) (unesc (drop (4 + n) t))))
             else case simple_escape e of
                    None \<Rightarrow> None
                  | Some x \<Rightarrow> map_option (\<lambda>(r, k). (x # r, k)) (unesc t))
      else if byte_in 0 0x1F c then None
      else case rune_len (c # s) of
             0 \<Rightarrow> map_option (\<lambda>(r, k). (rune_error @ r, k)) (unesc s)
           | Suc n \<Rightarrow> map_option (\<lambda>(r, k). (take (Suc n) (c # s) @ r, k)) (unesc (drop n s)))"
  by pat_completeness auto
termination by (relation "measure length") auto

section \<open>Values\<close>

definition skip_ws :: "string \<Rightarrow> string" where
  "skip_ws s = dropWhile (\<lambda>c. c = CHR '' '' \<or> c = CHR 0x09 \<or> c = CHR 0x0A \<or> c = CHR 0x0D) s"

text \<open>The number grammar: the longest literal at the front, and what follows it.\<close>

definition span_digits :: "string \<Rightarrow> string \<times> string" where
  "span_digits s = (takeWhile is_digit s, dropWhile is_digit s)"

definition num_int :: "string \<Rightarrow> (string \<times> string) option" where
  "num_int s =
     (case s of
        [] \<Rightarrow> None
      | c # t \<Rightarrow>
          if c = CHR ''0'' then Some ([c], t)
          else if is_digit c then Some (span_digits s) else None)"

definition num_frac :: "string \<Rightarrow> (string \<times> string) option" where
  "num_frac s =
     (case s of
        [] \<Rightarrow> Some ([], s)
      | c # t \<Rightarrow>
          if c = CHR ''.'' then (case span_digits t of ([], _) \<Rightarrow> None | (ds, r) \<Rightarrow> Some (c # ds, r))
          else Some ([], s))"

definition num_exp :: "string \<Rightarrow> (string \<times> string) option" where
  "num_exp s =
     (case s of
        [] \<Rightarrow> Some ([], s)
      | c # t \<Rightarrow>
          if c = CHR ''e'' \<or> c = CHR ''E'' then
            (let (sg, t') = (case t of
                 [] \<Rightarrow> ([], t)
               | x # t1 \<Rightarrow> if x = CHR ''+'' \<or> x = CHR ''-'' then ([x], t1) else ([], t))
             in case span_digits t' of ([], _) \<Rightarrow> None | (ds, r) \<Rightarrow> Some (c # sg @ ds, r))
          else Some ([], s))"

definition num_lit :: "string \<Rightarrow> (string \<times> string) option" where
  "num_lit s =
     (let (sg, s0) = (case s of [] \<Rightarrow> ([], s) | c # t \<Rightarrow> if c = CHR ''-'' then ([c], t) else ([], s))
      in case num_int s0 of
           None \<Rightarrow> None
         | Some (i, s1) \<Rightarrow>
             (case num_frac s1 of
                None \<Rightarrow> None
              | Some (f, s2) \<Rightarrow>
                  (case num_exp s2 of
                     None \<Rightarrow> None
                   | Some (e, s3) \<Rightarrow> Some (sg @ i @ f @ e, s3))))"

text \<open>The first argument is fuel, the second the nesting depth that is left. Every call consumes
  at least one character per two units of fuel (\<open>json_fuel\<close> below).\<close>

fun parse_value :: "nat \<Rightarrow> nat \<Rightarrow> string \<Rightarrow> (json \<times> string) option"
and parse_elems :: "nat \<Rightarrow> nat \<Rightarrow> string \<Rightarrow> (json list \<times> string) option"
and parse_fields :: "nat \<Rightarrow> nat \<Rightarrow> string \<Rightarrow> ((string \<times> json) list \<times> string) option" where
  "parse_value 0 d s = None"
| "parse_value (Suc n) d s =
     (case skip_ws s of
        [] \<Rightarrow> None
      | c # t \<Rightarrow>
          if c = CHR 0x22 then map_option (\<lambda>(x, r). (JStr x, r)) (unesc t)
          else if c = CHR ''['' then
            (case d of
               0 \<Rightarrow> None
             | Suc d' \<Rightarrow>
                 if HasPrefix (skip_ws t) '']'' then Some (JArr [], drop 1 (skip_ws t))
                 else map_option (\<lambda>(vs, r). (JArr vs, r)) (parse_elems n d' t))
          else if c = CHR ''{'' then
            (case d of
               0 \<Rightarrow> None
             | Suc d' \<Rightarrow>
                 if HasPrefix (skip_ws t) ''}'' then Some (JObj [], drop 1 (skip_ws t))
                 else map_option (\<lambda>(fs, r). (JObj fs, r)) (parse_fields n d' t))
          else if HasPrefix (c # t) ''null'' then Some (JNull, drop 3 t)
          else if HasPrefix (c # t) ''true'' then Some (JBool True, drop 3 t)
          else if HasPrefix (c # t) ''false'' then Some (JBool False, drop 4 t)
          else map_option (\<lambda>(l, r). (JNum l, r)) (num_lit (c # t)))"
| "parse_elems 0 d s = None"
| "parse_elems (Suc n) d s =
     (case parse_value n d s of
        None \<Rightarrow> None
      | Some (v, r) \<Rightarrow>
          (case skip_ws r of
             [] \<Rightarrow> None
           | c # t \<Rightarrow>
               if c = CHR '','' then map_option (\<lambda>(vs, k). (v # vs, k)) (parse_elems n d t)
               else if c = CHR '']'' then Some ([v], t) else None))"
| "parse_fields 0 d s = None"
| "parse_fields (Suc n) d s =
     (case skip_ws s of
        [] \<Rightarrow> None
      | q # t0 \<Rightarrow>
          if q \<noteq> CHR 0x22 then None
          else case unesc t0 of
            None \<Rightarrow> None
          | Some (name, r0) \<Rightarrow>
              (case skip_ws r0 of
                 [] \<Rightarrow> None
               | col # t1 \<Rightarrow>
                   if col \<noteq> CHR '':'' then None
                   else case parse_value n d t1 of
                     None \<Rightarrow> None
                   | Some (v, r) \<Rightarrow>
                       (case skip_ws r of
                          [] \<Rightarrow> None
                        | c # t \<Rightarrow>
                            if c = CHR '','' then map_option (\<lambda>(fs, k). ((name, v) # fs, k)) (parse_fields n d t)
                            else if c = CHR ''}'' then Some ([(name, v)], t) else None)))"

definition max_depth :: nat where "max_depth = 10000"

definition json_parse :: "bytes \<Rightarrow> json option" where
  "json_parse s =
     (case parse_value (2 * length s + 1) max_depth s of
        None \<Rightarrow> None
      | Some (v, r) \<Rightarrow> if skip_ws r = [] then Some v else None)"

section \<open>Decoding into structs\<close>

text \<open>Field names are matched up to case. The names of the sources are lower-case ASCII; two
  non-ASCII runes fold to ASCII letters.\<close>

fun json_fold :: "string \<Rightarrow> string" where
  "json_fold [] = []"
| "json_fold (c # cs) =
     (if take 3 (c # cs) = [CHR 0xE2, CHR 0x84, CHR 0xAA] then CHR ''k'' # json_fold (drop 2 cs)
      else if take 2 (c # cs) = [CHR 0xC5, CHR 0xBF] then CHR ''s'' # json_fold (drop 1 cs)
      else lower_char c # json_fold cs)"

text \<open>One struct field: every entry of the object with its name is decoded into it, in order.
  \<open>None\<close> is a type error, which makes the whole \<open>Unmarshal\<close> fail.\<close>

fun decode_field :: "('a \<Rightarrow> json \<Rightarrow> 'a option) \<Rightarrow> string \<Rightarrow> 'a \<Rightarrow> (string \<times> json) list \<Rightarrow> 'a option" where
  "decode_field dec name cur [] = Some cur"
| "decode_field dec name cur ((k, v) # fs) =
     (if json_fold k = name
      then (case dec cur v of None \<Rightarrow> None | Some x \<Rightarrow> decode_field dec name x fs)
      else decode_field dec name cur fs)"

fun decode_string :: "string \<Rightarrow> json \<Rightarrow> string option" where
  "decode_string cur (JStr s) = Some s"
| "decode_string cur JNull = Some cur"
| "decode_string cur _ = None"

fun decode_bool :: "bool \<Rightarrow> json \<Rightarrow> bool option" where
  "decode_bool cur (JBool b) = Some b"
| "decode_bool cur JNull = Some cur"
| "decode_bool cur _ = None"

fun decode_int :: "int \<Rightarrow> json \<Rightarrow> int option" where
  "decode_int cur (JNum l) = ParseInt l"
| "decode_int cur JNull = Some cur"
| "decode_int cur _ = None"

text \<open>A slice; an element is decoded into the one it replaces, if there is one.\<close>

fun decode_elems :: "('a \<Rightarrow> json \<Rightarrow> 'a option) \<Rightarrow> 'a \<Rightarrow> 'a list \<Rightarrow> json list \<Rightarrow> 'a list option" where
  "decode_elems dec zero old [] = Some []"
| "decode_elems dec zero old (v # vs) =
     (case dec (if old = [] then zero else hd old) v of
        None \<Rightarrow> None
      | Some x \<Rightarrow> map_option ((#) x) (decode_elems dec zero (tl old) vs))"

fun decode_slice :: "('a \<Rightarrow> json \<Rightarrow> 'a option) \<Rightarrow> 'a \<Rightarrow> 'a list \<Rightarrow> json \<Rightarrow> 'a list option" where
  "decode_slice dec zero cur (JArr vs) = decode_elems dec zero cur vs"
| "decode_slice dec zero cur JNull = Some []"
| "decode_slice dec zero cur _ = None"

text \<open>A pointer to a struct.\<close>

fun decode_ptr :: "('a \<Rightarrow> json \<Rightarrow> 'a option) \<Rightarrow> 'a \<Rightarrow> 'a option \<Rightarrow> json \<Rightarrow> 'a option option" where
  "decode_ptr dec zero cur JNull = Some None"
| "decode_ptr dec zero cur v = map_option Some (dec (case cur of None \<Rightarrow> zero | Some x \<Rightarrow> x) v)"

lemma decode_field_skip:
  "list_all (\<lambda>kv. json_fold (fst kv) \<noteq> name) fs \<Longrightarrow> decode_field dec name cur fs = Some cur"
  by (induction fs) auto

lemma decode_elems_map:
  "(\<And>x. x \<in> set xs \<Longrightarrow> dec zero (f x) = Some x) \<Longrightarrow> decode_elems dec zero [] (map f xs) = Some xs"
  by (induction xs) auto

section \<open>The parser consumes its input\<close>

lemma unesc_shorter: "unesc s = Some (x, r) \<Longrightarrow> length r < length s"
proof (induction s arbitrary: x r rule: unesc.induct)
  case (2 c s)
  show ?case
    using 2(5) "2.IH"
    by (fastforce split: if_splits list.splits option.splits prod.splits nat.splits)
qed simp

lemma skip_ws_le: "length (skip_ws s) \<le> length s"
  by (simp add: skip_ws_def length_dropWhile_le)

lemma num_lit_shorter:
  assumes "num_lit s = Some (l, r)" shows "length r < length s"
proof -
  have i: "num_int t = Some (a, u) \<Longrightarrow> length u < length t" for t a u
    using length_dropWhile_le [of is_digit "tl t"]
    by (auto simp: num_int_def span_digits_def split: list.splits if_splits)
  have f: "num_frac t = Some (a, u) \<Longrightarrow> length u \<le> length t" for t a u
    using length_dropWhile_le [of is_digit "tl t"]
    by (auto simp: num_frac_def span_digits_def split: list.splits if_splits)
  have e: "num_exp t = Some (a, u) \<Longrightarrow> length u \<le> length t" for t a u
    using length_dropWhile_le [of is_digit "tl t"] length_dropWhile_le [of is_digit "tl (tl t)"]
    by (auto simp: num_exp_def span_digits_def Let_def split: list.splits if_splits prod.splits)
  show ?thesis
    using assms
    by (fastforce simp: num_lit_def Let_def split: list.splits if_splits option.splits prod.splits dest!: i f e)
qed

lemma skip_ws_Cons: "skip_ws s = c # t \<Longrightarrow> length t < length s"
  using skip_ws_le [of s] by simp

lemma parse_shorter:
  "parse_value n d s = Some (v, r) \<Longrightarrow> length r < length s"
  "parse_elems n d s = Some (vs, r) \<Longrightarrow> length r < length s"
  "parse_fields n d s = Some (fs, r) \<Longrightarrow> length r < length s"
proof (induction n d s and n d s and n d s arbitrary: v r and vs r and fs r
    rule: parse_value_parse_elems_parse_fields.induct)
  case (2 n d s)
  show ?case
  proof (cases "skip_ws s")
    case (Cons c t)
    note ct = skip_ws_Cons [OF Cons] and tt = skip_ws_le [of t]
    from Cons "2.prems" "2.IH" ct tt show ?thesis
      by (fastforce split: if_splits nat.splits dest: unesc_shorter num_lit_shorter)
  qed (use "2.prems" in simp)
next
  case (4 n d s)
  from "4.prems" obtain v r0 where v: "parse_value n d s = Some (v, r0)"
    by (simp split: option.splits prod.splits)
  from "4.IH"(1) [OF this] have 1: "length r0 < length s" .
  show ?case
  proof (cases "skip_ws r0")
    case (Cons c t)
    note ct = skip_ws_Cons [OF Cons]
    from Cons "4.prems" "4.IH"(2) [OF v refl Cons] 1 ct v show ?thesis
      by (fastforce split: if_splits)
  qed (use "4.prems" v in simp)
next
  case (6 n d s)
  from "6.prems" obtain q t0 name r0 col t1 v r1 c t where
    p: "skip_ws s = q # t0" "q = CHR 0x22" "unesc t0 = Some (name, r0)" "skip_ws r0 = col # t1" "col = CHR '':''"
      "parse_value n d t1 = Some (v, r1)" "skip_ws r1 = c # t"
    by (auto split: list.splits if_splits option.splits prod.splits)
  have l: "length t0 < length s" "length r0 < length t0" "length t1 < length r0" "length t < length r1"
    using p skip_ws_Cons unesc_shorter by blast+
  have "length r1 < length t1"
    using "6.IH"(1) p by simp
  with l p "6.prems" "6.IH"(2) show ?case
    by (fastforce split: if_splits)
qed simp_all

lemma parse_fuel:
  "2 * length s < n \<Longrightarrow> 2 * length s < m \<Longrightarrow> parse_value n d s = parse_value m d s"
  "2 * length s + 1 < n \<Longrightarrow> 2 * length s + 1 < m \<Longrightarrow> parse_elems n d s = parse_elems m d s"
  "2 * length s + 1 < n \<Longrightarrow> 2 * length s + 1 < m \<Longrightarrow> parse_fields n d s = parse_fields m d s"
proof (induction n arbitrary: s m d)
  case (Suc n)
  {
    case 1
    then obtain m' where m: "m = Suc m'" by (cases m) auto
    show ?case
    proof (cases "skip_ws s")
      case (Cons c t)
      then have "length t < length s" by (rule skip_ws_Cons)
      then have "parse_elems n d' t = parse_elems m' d' t" "parse_fields n d' t = parse_fields m' d' t" for d'
        using 1 m Suc.IH(2,3) [of t m' d'] by auto
      then show ?thesis using Cons m by (simp split: nat.splits)
    qed (simp add: m)
  next
    case 2
    then obtain m' where m: "m = Suc m'" by (cases m) auto
    then have v: "parse_value n d s = parse_value m' d s" using 2 Suc.IH(1) [of s m' d] by auto
    have "parse_elems n d t = parse_elems m' d t"
      if "parse_value m' d s = Some (x, r)" "skip_ws r = c # t" for x r c t
      using that 2 m parse_shorter(1) skip_ws_Cons [OF that(2)] Suc.IH(2) [of t m' d] by fastforce
    then show ?case unfolding m parse_elems.simps v by (auto split: option.splits list.splits)
  next
    case 3
    then obtain m' where m: "m = Suc m'" by (cases m) auto
    have v: "parse_value n d t1 = parse_value m' d t1" if "length t1 < length s" for t1
      using that 3 m Suc.IH(1) [of t1 m' d] by auto
    have f: "parse_fields n d t = parse_fields m' d t" if "length t < length s" for t
      using that 3 m Suc.IH(3) [of t m' d] by auto
    have t1: "length t1 < length s" if "skip_ws s = q # t0" "unesc t0 = Some (name, r0)" "skip_ws r0 = col # t1"
      for q t0 name r0 col t1
      using that skip_ws_Cons unesc_shorter by (meson less_trans)
    have t: "length t < length s" if "length t1 < length s" "parse_value m' d t1 = Some (x, r)" "skip_ws r = c # t"
      for t1 x r c t
      using that skip_ws_Cons parse_shorter(1) by (meson less_trans)
    show ?case
      unfolding m parse_fields.simps using v f t1 t by (fastforce split: option.splits list.splits)
  }
qed simp_all

text \<open>So the fuel of \<open>json_parse\<close> is enough: more of it changes nothing.\<close>

lemma json_fuel: "2 * length s < n \<Longrightarrow> parse_value n max_depth s = parse_value (2 * length s + 1) max_depth s"
  by (rule parse_fuel(1)) simp_all

section \<open>What \<open>Marshal\<close> writes is read back\<close>

text \<open>The encodings of two, three and four bytes.\<close>

definition utf8_two :: "char \<Rightarrow> char \<Rightarrow> bool" where
  "utf8_two a b \<longleftrightarrow> byte_in 0xC2 0xDF a \<and> cont_byte b"

definition utf8_three :: "char \<Rightarrow> char \<Rightarrow> char \<Rightarrow> bool" where
  "utf8_three a b c \<longleftrightarrow> cont_byte c \<and>
     (byte_in 0xE0 0xE0 a \<and> byte_in 0xA0 0xBF b \<or> byte_in 0xE1 0xEC a \<and> cont_byte b \<or>
      byte_in 0xED 0xED a \<and> byte_in 0x80 0x9F b \<or> byte_in 0xEE 0xEF a \<and> cont_byte b)"

definition utf8_four :: "char \<Rightarrow> char \<Rightarrow> char \<Rightarrow> char \<Rightarrow> bool" where
  "utf8_four a b c d \<longleftrightarrow> cont_byte c \<and> cont_byte d \<and>
     (byte_in 0xF0 0xF0 a \<and> byte_in 0x90 0xBF b \<or> byte_in 0xF1 0xF3 a \<and> cont_byte b \<or>
      byte_in 0xF4 0xF4 a \<and> byte_in 0x80 0x8F b)"

lemma rune_len_Cons:
  "rune_len (a # t) =
    (if byte_in 0 0x7F a then 1
     else case t of [] \<Rightarrow> 0 | b # u \<Rightarrow>
       if utf8_two a b then 2
       else case u of [] \<Rightarrow> 0 | c # v \<Rightarrow>
         if utf8_three a b c then 3
         else case v of [] \<Rightarrow> 0 | d # w \<Rightarrow> if utf8_four a b c d then 4 else 0)"
proof -
  note d = utf8_two_def utf8_three_def utf8_four_def rune_len.simps list.case
  show ?thesis
  proof (cases t)
    case (Cons b u)
    show ?thesis
    proof (cases u)
      case (Cons c v)
      then show ?thesis using \<open>t = b # u\<close> by (cases v) (simp_all only: d)
    qed (simp only: d \<open>t = b # u\<close>)
  qed (simp only: d)
qed

lemma rune_len_pos:
  assumes "rune_len s = Suc n"
  obtains a r where "s = a # r" "n = 0" "byte_in 0 0x7F a"
  | a b r where "s = a # b # r" "n = 1" "\<not> byte_in 0 0x7F a" "utf8_two a b"
  | a b c r where "s = a # b # c # r" "n = 2" "\<not> byte_in 0 0x7F a" "\<not> utf8_two a b" "utf8_three a b c"
  | a b c d r where "s = a # b # c # d # r" "n = 3" "\<not> byte_in 0 0x7F a" "\<not> utf8_two a b" "\<not> utf8_three a b c"
      "utf8_four a b c d"
  using assms by (cases s) (auto simp: rune_len_Cons rune_len.simps(5) simp del: rune_len.simps(1-4) split: list.splits if_splits)

lemma rune_len_take:
  assumes "rune_len s = Suc n" shows "rune_len (take (Suc n) s @ rest) = Suc n"
  using assms by (rule rune_len_pos) (simp_all add: rune_len_Cons numeral_nat del: rune_len.simps)

lemma rune_first: "rune_len (c # s) = Suc n \<Longrightarrow> (n = 0) = byte_in 0 0x7F c"
  by (erule rune_len_pos) simp_all

lemma nibble_hex_digit: "d < 16 \<Longrightarrow> nibble (hex_digit d) = d"
  by (simp add: nibble_def of_char_hex_digit Let_def)

lemma hex_digit_hex: "d < 16 \<Longrightarrow> is_hex (hex_digit d)"
  by (simp add: is_hex_def hex_digit_lower_hex)

lemma hex4_val_hex4: "n < 65536 \<Longrightarrow> hex4_val (hex4 n @ rest) = Some n"
proof -
  assume n: "n < 65536"
  have "n div 4096 < 16" using n by (simp add: less_mult_imp_div_less)
  moreover have "n div 16 div 16 = n div 256" "n div 256 div 16 = n div 4096" by (simp_all add: div_mult2_eq [symmetric])
  moreover have "16 * (n div 16) + n mod 16 = n" "16 * (n div 16 div 16) + n div 16 mod 16 = n div 16"
    "16 * (n div 256 div 16) + n div 256 mod 16 = n div 256"
    by (simp_all only: mult_div_mod_eq)
  ultimately have "16 * (16 * (16 * (n div 4096 mod 16) + n div 256 mod 16) + n div 16 mod 16) + n mod 16 = n"
    by simp
  moreover have "n div 4096 < 16" using n by (simp add: less_mult_imp_div_less)
  moreover from this have "n div 4096 mod 16 = n div 4096" by simp
  ultimately show ?thesis
    by (simp add: hex4_val_def hex4_def hex_digit_hex nibble_hex_digit)
qed

lemma utf8_encode_byte: "byte_in 0 0x7F c \<Longrightarrow> utf8_encode (of_char c) = [c]"
  by (simp add: utf8_encode_def byte_in_def)

lemma unicode_escape_byte: "byte_in 0 0x7F c \<Longrightarrow> unicode_escape (of_char c) rest = ([c], 0)"
  by (simp add: unicode_escape_def utf8_encode_byte) (simp add: byte_in_def)

lemma unesc_hex4:
  assumes "byte_in 0 0x7F c"
  shows "unesc (CHR 0x5C # CHR ''u'' # hex4 (of_char c) @ rest) = map_option (\<lambda>(r, k). (c # r, k)) (unesc rest)"
proof -
  have n: "(of_char c :: nat) < 65536" by (rule less_trans [OF of_char_lt]) simp
  have "drop 4 (hex4 (of_char c) @ rest) = rest" by (simp add: hex4_def)
  then show ?thesis
    using hex4_val_hex4 [OF n, of rest] unicode_escape_byte [OF assms] by simp
qed

lemma unesc_line_separator:
  "unesc (CHR 0x5C # ''u2028'' @ rest) = map_option (\<lambda>(r, k). ([CHR 0xE2, CHR 0x80, CHR 0xA8] @ r, k)) (unesc rest)"
  "unesc (CHR 0x5C # ''u2029'' @ rest) = map_option (\<lambda>(r, k). ([CHR 0xE2, CHR 0x80, CHR 0xA9] @ r, k)) (unesc rest)"
proof -
  have h: "hex4 0x2028 = ''2028''" "hex4 0x2029 = ''2029''"
    by (simp_all add: hex4_def hex_digit_def char_of_def bit_0)
  have u: "unicode_escape 0x2028 x = ([CHR 0xE2, CHR 0x80, CHR 0xA8], 0)"
    "unicode_escape 0x2029 x = ([CHR 0xE2, CHR 0x80, CHR 0xA9], 0)" for x
    by (simp_all add: unicode_escape_def utf8_encode_def char_of_def bit_0)
  have v: "hex4_val (''2028'' @ rest) = Some 0x2028" "hex4_val (''2029'' @ rest) = Some 0x2029"
    using hex4_val_hex4 [of "0x2028" rest] hex4_val_hex4 [of "0x2029" rest] unfolding h by simp_all
  show "unesc (CHR 0x5C # ''u2028'' @ rest) = map_option (\<lambda>(r, k). ([CHR 0xE2, CHR 0x80, CHR 0xA8] @ r, k)) (unesc rest)"
    "unesc (CHR 0x5C # ''u2029'' @ rest) = map_option (\<lambda>(r, k). ([CHR 0xE2, CHR 0x80, CHR 0xA9] @ r, k)) (unesc rest)"
    using v by (simp_all add: u)
qed

lemma unesc_ascii:
  assumes "byte_in 0 0x7F c"
  shows "unesc (json_escape_ascii c @ rest) = map_option (\<lambda>(r, k). (c # r, k)) (unesc rest)"
proof (cases "json_escape_ascii c = CHR 0x5C # CHR ''u'' # hex4 (of_char c)")
  case True
  then show ?thesis using unesc_hex4 [OF assms] by simp
next
  case False
  have "rune_len (c # rest) = 1" using assms by (simp add: rune_len_Cons del: rune_len.simps)
  then show ?thesis
    using False by (auto simp: json_escape_ascii_def simple_escape_def split: if_splits)
qed

lemma unesc_escape_rune:
  assumes "rune_len s = Suc n"
  shows "unesc (json_escape_rune (True, take (Suc n) s) @ rest) =
    map_option (\<lambda>(r, k). (take (Suc n) s @ r, k)) (unesc rest)"
proof (cases s)
  case (Cons c t)
  show ?thesis
  proof (cases n)
    case 0
    then have "byte_in 0 0x7F c" using rune_first assms Cons by blast
    from unesc_ascii [OF this, of rest] show ?thesis by (simp add: json_escape_rune_def Cons 0)
  next
    case (Suc m)
    have c: "\<not> byte_in 0 0x7F c" using rune_first [of c t n] assms Cons Suc by simp
    have len: "Suc n \<le> length s" using rune_len_le [of s] assms by simp
    obtain d u where u: "take (Suc n) s = c # d # u" using Suc Cons len by (cases t) auto
    have raw: "unesc (c # d # u @ rest) = map_option (\<lambda>(r, k). (c # d # u @ r, k)) (unesc rest)"
    proof -
      have l: "length (d # u) = n" using u len by (metis length_Cons length_take min.absorb2 Suc_inject)
      have r: "rune_len (c # d # u @ rest) = Suc n" using rune_len_take [OF assms, of rest] u by simp
      have "c \<noteq> CHR 0x22" "c \<noteq> CHR 0x5C" "\<not> byte_in 0 0x1F c" using c by (auto simp: byte_in_def)
      moreover have "take (Suc n) (c # d # u @ rest) = c # d # u" "drop n (d # u @ rest) = rest" using l by auto
      ultimately show ?thesis using r by simp
    qed
    note sep = unesc_line_separator
    show ?thesis
      using raw sep by (simp add: json_escape_rune_def u del: unesc.simps)
  qed
qed (use assms in simp)

lemma unesc_runes:
  "valid_utf8 s \<Longrightarrow> unesc (concat (map json_escape_rune (runes s)) @ CHR 0x22 # k) = Some (s, k)"
proof (induction s rule: runes.induct)
  case (2 c s)
  show ?case
  proof (cases "rune_len (c # s)")
    case 0
    with "2.prems" show ?thesis by (simp add: valid_utf8_def)
  next
    case (Suc n)
    have "runes (c # s) = (True, take (Suc n) (c # s)) # runes (drop n s)" using Suc by simp
    moreover have "valid_utf8 (drop n s)" using "2.prems" Suc by (simp add: valid_utf8_def)
    ultimately show ?thesis
      using "2.IH"(2) [OF Suc] unesc_escape_rune [OF Suc, of "concat (map json_escape_rune (runes (drop n s))) @ CHR 0x22 # k"]
      by simp
  qed
qed simp

lemma unesc_json_string: "valid_utf8 s \<Longrightarrow> \<exists>t. json_string s = CHR 0x22 # t \<and> unesc (t @ k) = Some (s, k)"
  by (simp add: json_string_def unesc_runes)

text \<open>What can follow a value inside a document.\<close>

definition stop :: "string \<Rightarrow> bool" where
  "stop k \<longleftrightarrow> k = [] \<or> hd k = CHR '','' \<or> hd k = CHR '']'' \<or> hd k = CHR ''}''"

definition number_ok :: "string \<Rightarrow> bool" where
  "number_ok l \<longleftrightarrow> num_lit l = Some (l, [])"

lemma stop_cases: "stop k \<Longrightarrow> k = [] \<or> (\<exists>c r. k = c # r \<and> \<not> is_digit c \<and> c \<noteq> CHR ''.'' \<and> c \<noteq> CHR ''e'' \<and> c \<noteq> CHR ''E'' \<and>
    c \<noteq> CHR ''+'' \<and> c \<noteq> CHR ''-'' \<and> c \<noteq> CHR ''0'')"
  by (cases k) (auto simp: stop_def is_digit_def)

lemma span_digits_stop: "stop k \<Longrightarrow> span_digits (s @ k) = (takeWhile is_digit s, dropWhile is_digit s @ k)"
proof -
  assume "stop k"
  then have "takeWhile is_digit k = []" "dropWhile is_digit k = k" using stop_cases by fastforce+
  then show ?thesis
    by (induction s) (auto simp: span_digits_def)
qed

lemma num_parts_stop:
  assumes "stop k"
  shows "num_int s = Some (i, u) \<Longrightarrow> num_int (s @ k) = Some (i, u @ k)"
    and "num_frac s = Some (f, u) \<Longrightarrow> num_frac (s @ k) = Some (f, u @ k)"
    and "num_exp s = Some (e, u) \<Longrightarrow> num_exp (s @ k) = Some (e, u @ k)"
proof -
  note sd = span_digits_stop [OF assms] and st = stop_cases [OF assms]
  show "num_int s = Some (i, u) \<Longrightarrow> num_int (s @ k) = Some (i, u @ k)"
    using sd [of s] by (cases s) (auto simp: num_int_def span_digits_def split: if_splits)
  show "num_frac s = Some (f, u) \<Longrightarrow> num_frac (s @ k) = Some (f, u @ k)"
  proof (cases s)
    case (Cons c t)
    assume "num_frac s = Some (f, u)"
    then show ?thesis
      using Cons sd [of t] by (auto simp: num_frac_def span_digits_def split: if_splits list.splits)
  qed (use st in \<open>auto simp: num_frac_def\<close>)
  show "num_exp s = Some (e, u) \<Longrightarrow> num_exp (s @ k) = Some (e, u @ k)"
  proof (cases s)
    case (Cons c t)
    assume e: "num_exp s = Some (e, u)"
    show ?thesis
    proof (cases "c = CHR ''e'' \<or> c = CHR ''E''")
      case True
      with e Cons have "t \<noteq> []" by (auto simp: num_exp_def span_digits_def)
      then obtain x t1 where t: "t = x # t1" by (cases t) auto
      show ?thesis
        using True e Cons t sd [of t] sd [of t1]
        by (auto simp: num_exp_def span_digits_def split: if_splits list.splits)
    qed (use e Cons in \<open>auto simp: num_exp_def\<close>)
  qed (use st in \<open>auto simp: num_exp_def\<close>)
qed

lemma num_lit_stop:
  assumes "number_ok l" "stop k" shows "num_lit (l @ k) = Some (l, k)"
proof -
  obtain sg s0 where s: "(case l of [] \<Rightarrow> ([], l) | c # t \<Rightarrow> if c = CHR ''-'' then ([c], t) else ([], l)) = (sg, s0)"
    by fastforce
  from assms(1) s obtain i s1 f s2 e where p: "num_int s0 = Some (i, s1)" "num_frac s1 = Some (f, s2)"
    "num_exp s2 = Some (e, [])" "sg @ i @ f @ e = l"
    by (auto simp: number_ok_def num_lit_def Let_def split: option.splits prod.splits)
  have "l \<noteq> []" using p(1) s by (auto simp: num_int_def)
  then have "(case l @ k of [] \<Rightarrow> ([], l @ k) | c # t \<Rightarrow> if c = CHR ''-'' then ([c], t) else ([], l @ k)) = (sg, s0 @ k)"
    using s by (auto split: list.splits if_splits)
  moreover note num_parts_stop(1) [OF assms(2) p(1)] num_parts_stop(2) [OF assms(2) p(2)]
    num_parts_stop(3) [OF assms(2) p(3)]
  ultimately show ?thesis using p(4) by (simp add: num_lit_def Let_def)
qed

section \<open>The round trip\<close>

text \<open>Documents within the nesting depth whose texts are valid UTF-8 and whose numbers are literals.\<close>

fun json_ok :: "nat \<Rightarrow> json \<Rightarrow> bool" where
  "json_ok d JNull \<longleftrightarrow> True"
| "json_ok d (JBool b) \<longleftrightarrow> True"
| "json_ok d (JNum l) \<longleftrightarrow> number_ok l"
| "json_ok d (JStr s) \<longleftrightarrow> valid_utf8 s"
| "json_ok d (JArr vs) \<longleftrightarrow> 0 < d \<and> (\<forall>v\<in>set vs. json_ok (d - 1) v)"
| "json_ok d (JObj fs) \<longleftrightarrow> 0 < d \<and> (\<forall>kv\<in>set fs. valid_utf8 (fst kv) \<and> json_ok (d - 1) (snd kv))"

definition ws :: "char \<Rightarrow> bool" where
  "ws c \<longleftrightarrow> c = CHR '' '' \<or> c = CHR 0x09 \<or> c = CHR 0x0A \<or> c = CHR 0x0D"

lemma skip_ws_id: "\<not> ws c \<Longrightarrow> skip_ws (c # s) = c # s"
  by (simp add: skip_ws_def ws_def)

lemma number_head: "number_ok l \<Longrightarrow> \<exists>c t. l = c # t \<and> (c = CHR ''-'' \<or> is_digit c)"
  by (cases l) (auto simp: number_ok_def num_lit_def num_int_def Let_def is_digit_def split: if_splits)

lemma Marshal_head:
  "json_ok d j \<Longrightarrow> \<exists>c t. Marshal j = c # t \<and> \<not> ws c \<and> c \<noteq> CHR '']'' \<and> c \<noteq> CHR ''}''"
proof (cases j)
  case (JNum l)
  moreover assume "json_ok d j"
  ultimately show ?thesis using number_head [of l] by (auto simp: ws_def is_digit_def)
qed (auto simp: ws_def json_string_def)

lemma parse_scalar:
  assumes "0 < n"
  shows "parse_value n d (CHR ''n'' # CHR ''u'' # CHR ''l'' # CHR ''l'' # k) = Some (JNull, k)"
    and "parse_value n d (CHR ''t'' # CHR ''r'' # CHR ''u'' # CHR ''e'' # k) = Some (JBool True, k)"
    and "parse_value n d (CHR ''f'' # CHR ''a'' # CHR ''l'' # CHR ''s'' # CHR ''e'' # k) = Some (JBool False, k)"
  using assms by (cases n; simp add: skip_ws_id ws_def HasPrefix_def)+

lemma parse_number:
  assumes "number_ok l" "stop k" "0 < n" shows "parse_value n d (l @ k) = Some (JNum l, k)"
proof -
  obtain m where n: "n = Suc m" using assms(3) by (cases n) auto
  obtain c t where l: "l = c # t" "c = CHR ''-'' \<or> is_digit c" using number_head [OF assms(1)] by blast
  then have "\<not> ws c" "c \<noteq> CHR 0x22" "c \<noteq> CHR ''[''" "c \<noteq> CHR ''{''" "c \<noteq> CHR ''n''" "c \<noteq> CHR ''t''" "c \<noteq> CHR ''f''"
    by (auto simp: ws_def is_digit_def)
  with num_lit_stop [OF assms(1,2)] l(1) show ?thesis by (simp add: n skip_ws_id HasPrefix_def)
qed

lemma parse_string:
  assumes "valid_utf8 s" "0 < n" shows "parse_value n d (json_string s @ k) = Some (JStr s, k)"
proof -
  obtain t where "json_string s = CHR 0x22 # t" "unesc (t @ k) = Some (s, k)"
    using unesc_json_string [OF assms(1)] by blast
  with assms(2) show ?thesis by (cases n) (simp_all add: skip_ws_id ws_def)
qed

lemma parse_elems_Marshal:
  assumes "\<And>v n k. v \<in> set vs \<Longrightarrow> stop k \<Longrightarrow> 2 * length (Marshal v) < n \<Longrightarrow> parse_value n d (Marshal v @ k) = Some (v, k)"
    and "vs \<noteq> []" "2 * length (Join (map Marshal vs) '','') + 1 < n"
  shows "parse_elems n d (Join (map Marshal vs) '','' @ '']'' @ k) = Some (vs, k)"
  using assms
proof (induction vs arbitrary: n)
  case (Cons v vs)
  obtain n' where n: "n = Suc n'" using Cons.prems(3) by (cases n) auto
  show ?case
  proof (cases vs)
    case Nil
    have "parse_value n' d (Marshal v @ '']'' @ k) = Some (v, '']'' @ k)"
      using Cons.prems(3) n Nil by (intro Cons.prems(1)) (simp_all add: stop_def)
    then show ?thesis by (simp add: n Nil skip_ws_id ws_def)
  next
    case (Cons w us)
    let ?rest = "Join (map Marshal vs) '','' @ '']'' @ k"
    have J: "Join (map Marshal (v # vs)) '','' = Marshal v @ '','' @ Join (map Marshal vs) '',''" by (simp add: Cons)
    have "parse_value n' d (Marshal v @ '','' @ ?rest) = Some (v, '','' @ ?rest)"
      using Cons.prems(3) n J by (intro Cons.prems(1)) (simp_all add: stop_def)
    moreover have "parse_elems n' d ?rest = Some (vs, k)"
      using Cons.prems(3) n J Cons by (intro Cons.IH Cons.prems(1)) simp_all
    ultimately show ?thesis unfolding J by (simp add: n skip_ws_id ws_def)
  qed
qed simp

definition marshal_field :: "string \<times> json \<Rightarrow> string" where
  "marshal_field kv = json_string (fst kv) @ '':'' @ Marshal (snd kv)"

lemma Marshal_obj: "Marshal (JObj fs) = ''{'' @ Join (map marshal_field fs) '','' @ ''}''"
proof -
  have "(\<lambda>(k, v). json_string k @ '':'' @ Marshal v) = marshal_field"
    by (rule ext) (simp add: marshal_field_def split_beta)
  then show ?thesis by simp
qed

lemma parse_field_Marshal:
  assumes "valid_utf8 (fst kv)" "c = CHR '','' \<or> c = CHR ''}''"
    and "parse_value n d (Marshal (snd kv) @ c # r) = Some (snd kv, c # r)"
  shows "parse_fields (Suc n) d (marshal_field kv @ c # r) =
    (if c = CHR '','' then map_option (\<lambda>(fs, k). (kv # fs, k)) (parse_fields n d r) else Some ([kv], r))"
proof -
  obtain t where "json_string (fst kv) = CHR 0x22 # t"
    "unesc (t @ '':'' @ Marshal (snd kv) @ c # r) = Some (fst kv, '':'' @ Marshal (snd kv) @ c # r)"
    using unesc_json_string [OF assms(1)] by blast
  moreover have "\<not> ws c" using assms(2) by (auto simp: ws_def)
  ultimately show ?thesis
    using assms(2,3) by (auto simp: marshal_field_def skip_ws_id ws_def)
qed

lemma parse_fields_Marshal:
  assumes "\<And>kv n k. kv \<in> set fs \<Longrightarrow> stop k \<Longrightarrow> 2 * length (Marshal (snd kv)) < n \<Longrightarrow>
      parse_value n d (Marshal (snd kv) @ k) = Some (snd kv, k)"
    and "\<And>kv. kv \<in> set fs \<Longrightarrow> valid_utf8 (fst kv)"
    and "fs \<noteq> []" "2 * length (Join (map marshal_field fs) '','') + 1 < n"
  shows "parse_fields n d (Join (map marshal_field fs) '','' @ ''}'' @ k) = Some (fs, k)"
  using assms
proof (induction fs arbitrary: n)
  case (Cons kv fs)
  obtain n' where n: "n = Suc n'" using Cons.prems(4) by (cases n) auto
  have len: "length (Marshal (snd kv)) \<le> length (marshal_field kv)" by (simp add: marshal_field_def)
  have val: "parse_value n' d (Marshal (snd kv) @ c # r) = Some (snd kv, c # r)"
    if "c = CHR '','' \<or> c = CHR ''}''" "2 * length (marshal_field kv) < n'" for c r
    using that len by (intro Cons.prems(1)) (auto simp: stop_def)
  have field: "parse_fields n d (marshal_field kv @ c # r) =
      (if c = CHR '','' then map_option (\<lambda>(fs, k). (kv # fs, k)) (parse_fields n' d r) else Some ([kv], r))"
    if "c = CHR '','' \<or> c = CHR ''}''" "2 * length (marshal_field kv) < n'" for c r
    unfolding n by (rule parse_field_Marshal [OF Cons.prems(2) that(1) val [OF that]]) simp
  show ?case
  proof (cases fs)
    case Nil
    then show ?thesis using field [of "CHR ''}''" k] Cons.prems(4) n by simp
  next
    case (Cons w us)
    have J: "Join (map marshal_field (kv # fs)) '','' = marshal_field kv @ '','' @ Join (map marshal_field fs) '',''"
      by (simp add: Cons)
    have "parse_fields n' d (Join (map marshal_field fs) '','' @ ''}'' @ k) = Some (fs, k)"
      using Cons.prems(4) n J Cons by (intro Cons.IH Cons.prems(1,2)) simp_all
    then show ?thesis unfolding J
      using field [of "CHR '',''" "Join (map marshal_field fs) '','' @ ''}'' @ k"] Cons.prems(4) n J by simp
  qed
qed simp

lemma Join_head: "xs \<noteq> [] \<Longrightarrow> hd xs = c # t \<Longrightarrow> \<exists>u. Join xs sep = c # u"
  by (cases "(xs, sep)" rule: Join.cases) auto

lemma parse_Marshal:
  "json_ok d j \<Longrightarrow> stop k \<Longrightarrow> 2 * length (Marshal j) < n \<Longrightarrow> parse_value n d (Marshal j @ k) = Some (j, k)"
proof (induction j arbitrary: d n k)
  case (JArr vs)
  obtain n' d' where n: "n = Suc n'" and d: "d = Suc d'" using JArr.prems by (cases n; cases d) auto
  show ?case
  proof (cases "vs = []")
    case False
    then have "json_ok d' (hd vs)" using JArr.prems(1) d by (cases vs) auto
    then obtain c t where c: "Marshal (hd vs) = c # t" "\<not> ws c" "c \<noteq> CHR '']''" using Marshal_head by blast
    obtain u where u: "Join (map Marshal vs) '','' = c # u"
      using Join_head [of "map Marshal vs" c t "'',''"] False c(1) by (auto simp: hd_map)
    have "parse_elems n' d' (Join (map Marshal vs) '','' @ '']'' @ k) = Some (vs, k)"
      using JArr.prems n d False by (intro parse_elems_Marshal JArr.IH) simp_all
    then show ?thesis using u c(2,3) by (simp add: n d skip_ws_id ws_def HasPrefix_def)
  qed (simp add: n d skip_ws_id ws_def HasPrefix_def)
next
  case (JObj fs)
  obtain n' d' where n: "n = Suc n'" and d: "d = Suc d'" using JObj.prems by (cases n; cases d) auto
  show ?case
  proof (cases "fs = []")
    case False
    obtain t where t: "marshal_field (hd fs) = CHR 0x22 # t" by (simp add: marshal_field_def json_string_def)
    obtain u where u: "Join (map marshal_field fs) '','' = CHR 0x22 # u"
      using Join_head [of "map marshal_field fs" "CHR 0x22" t "'',''"] False t by (auto simp: hd_map)
    have "parse_value m d' (Marshal (snd kv) @ q) = Some (snd kv, q)"
      if "kv \<in> set fs" "stop q" "2 * length (Marshal (snd kv)) < m" for kv m q
      using JObj.prems(1) d that by (intro JObj.IH [of kv]) (auto simp: snds.simps)
    then have "parse_fields n' d' (Join (map marshal_field fs) '','' @ ''}'' @ k) = Some (fs, k)"
      using JObj.prems n d False by (intro parse_fields_Marshal) (simp_all add: Marshal_obj del: Marshal.simps)
    then show ?thesis using u unfolding Marshal_obj by (simp add: n d skip_ws_id ws_def HasPrefix_def)
  qed (simp add: n d skip_ws_id ws_def HasPrefix_def)
qed (auto simp: parse_scalar parse_number parse_string simp del: parse_value.simps)

theorem json_roundtrip: "json_ok max_depth j \<Longrightarrow> json_parse (Marshal j) = Some j"
  using parse_Marshal [of max_depth j "[]" "2 * length (Marshal j) + 1"]
  by (simp add: json_parse_def stop_def skip_ws_def)

end
