(* ===== verification/Embed.thy ===== *)
theory Embed
  imports FloatText Json "HOL-Library.Word"
begin

unbundle bit_operations_syntax

text \<open>
  \<open>internal/embed/embed.go\<close>: the feature-hashing vectoriser of the semantic cache. Go's \<open>float32\<close> and
  \<open>float64\<close> are rationals rounded after every operation (24 and 53 bits; a fused multiply-add, which Go
  allows on some processors, is not modelled); hashes are 32-bit words. The tables of package \<open>unicode\<close>
  are the record \<open>utables\<close>.
\<close>

section \<open>Numbers\<close>

definition round32 :: "rat \<Rightarrow> rat" where
  "round32 x =
     (if x = 0 then 0
      else let k = expo \<bar>x\<bar> - 23; y = of_int (round_even (\<bar>x\<bar> / 2 powi k)) * 2 powi k
           in if x < 0 then - y else y)"

fun isqrt :: "nat \<Rightarrow> nat" where
  "isqrt n =
     (if n = 0 then 0
      else let r = 2 * isqrt (n div 4) in if (r + 1) * (r + 1) \<le> n then r + 1 else r)"

declare isqrt.simps [simp del]

text \<open>\<open>math.Sqrt\<close> rounds correctly: the integer root carries at least two bits more than a
  significand, and half a unit stands for what is cut off.\<close>

definition sqrt64 :: "rat \<Rightarrow> rat" where
  "sqrt64 x =
     (if x \<le> 0 then 0
      else let t = 56 - expo x div 2;
               y = x * 2 powi (2 * t);
               r = isqrt (nat \<lfloor>y\<rfloor>);
               v = of_nat r + (if of_nat (r * r) = y then 0 else 1 / 2)
           in round64 (v * 2 powi (- t)))"

section \<open>Hashes\<close>

definition fnv_offset :: "32 word" where "fnv_offset = 2166136261"
definition fnv_prime :: "32 word" where "fnv_prime = 16777619"

definition byte_word :: "char \<Rightarrow> 32 word" where
  "byte_word c = word_of_nat (of_char c)"

definition fnv32 :: "bytes \<Rightarrow> 32 word" where
  "fnv32 bs = foldl (\<lambda>h c. (h * fnv_prime) XOR byte_word c) fnv_offset bs"

definition fnv32a :: "bytes \<Rightarrow> 32 word" where
  "fnv32a bs = foldl (\<lambda>h c. (h XOR byte_word c) * fnv_prime) fnv_offset bs"

section \<open>Tokens\<close>

record utables =
  ut_ToLower :: "string \<Rightarrow> string"
  ut_IsLetter :: "string \<Rightarrow> bool"
  ut_IsNumber :: "string \<Rightarrow> bool"

text \<open>\<open>strings.FieldsFunc\<close>: maximal runs of runes that are not separators. An invalid byte is read as
  the replacement rune, which is neither letter nor number.\<close>

fun fields_loop :: "(bool \<times> string \<Rightarrow> bool) \<Rightarrow> string \<Rightarrow> (bool \<times> string) list \<Rightarrow> string list" where
  "fields_loop sep cur [] = (if cur = [] then [] else [cur])"
| "fields_loop sep cur (r # rs) =
     (if sep r then (if cur = [] then fields_loop sep [] rs else cur # fields_loop sep [] rs)
      else fields_loop sep (cur @ snd r) rs)"

definition FieldsFunc :: "string \<Rightarrow> (bool \<times> string \<Rightarrow> bool) \<Rightarrow> string list" where
  "FieldsFunc s sep = fields_loop sep [] (runes s)"

definition tokenize :: "utables \<Rightarrow> string \<Rightarrow> string list" where
  "tokenize ut text' =
     FieldsFunc (ut_ToLower ut text') (\<lambda>(valid, r). \<not> (valid \<and> (ut_IsLetter ut r \<or> ut_IsNumber ut r)))"

section \<open>The embedder\<close>

record HashEmbedder =
  he_dim :: int

definition NewHashEmbedder :: "int \<Rightarrow> HashEmbedder" where
  "NewHashEmbedder d = \<lparr>he_dim = (if d \<le> 0 then 256 else d)\<rparr>"

definition Dim :: "HashEmbedder \<Rightarrow> int" where
  "Dim h = he_dim h"

text \<open>The remainder is taken in \<open>uint32\<close>; a dimension that is a multiple of \<open>2 ^ 32\<close> would divide by zero.\<close>

definition bucket :: "string \<Rightarrow> int \<Rightarrow> nat" where
  "bucket tok d = unat (fnv32a tok mod word_of_int d)"

definition signBit :: "string \<Rightarrow> bool" where
  "signBit tok \<longleftrightarrow> fnv32 tok AND 1 = 0"

type_synonym vec = "rat list"

definition bump :: "int \<Rightarrow> string \<Rightarrow> vec \<Rightarrow> vec" where
  "bump d tok v =
     (let idx = bucket tok d
      in if signBit tok then v[idx := round32 (v ! idx + 1)] else v[idx := round32 (v ! idx - 1)])"

definition sum_squares :: "vec \<Rightarrow> rat" where
  "sum_squares v = fold (\<lambda>x acc. round64 (acc + round64 (x * x))) v 0"

definition normalize_vec :: "vec \<Rightarrow> vec" where
  "normalize_vec v =
     (let norm = sum_squares v
      in if norm = 0 then v
         else let inv = round32 (round64 (1 / sqrt64 norm)) in map (\<lambda>x. round32 (x * inv)) v)"

definition Embed :: "utables \<Rightarrow> HashEmbedder \<Rightarrow> string \<Rightarrow> vec" where
  "Embed ut h text' =
     normalize_vec (fold (bump (he_dim h)) (tokenize ut text') (replicate (nat (he_dim h)) 0))"

definition dot :: "vec \<Rightarrow> vec \<Rightarrow> rat" where
  "dot a b = fold (\<lambda>(x, y) acc. round64 (acc + round64 (x * y))) (zip a b) 0"

definition Cosine :: "vec \<Rightarrow> vec \<Rightarrow> rat" where
  "Cosine a b =
     (if length a \<noteq> length b \<or> length a = 0 then 0
      else let na = dot a a; nb = dot b b
           in if na = 0 \<or> nb = 0 then 0
              else round64 (dot a b / round64 (sqrt64 na * sqrt64 nb)))"

end
