(* ===== verification/Verdict.thy ===== *)
theory Verdict
  imports Json Messages
begin

text \<open>
  \<open>internal/evaluator/types.go\<close> and \<open>internal/evaluator/schema.go\<close>: the verdict of the language
  model, its JSON form, the schema advertised to the model and the validator that every answer has
  to pass. The texts of decoding errors are \<open>encoding/json\<close>'s: a parameter \<open>json_error\<close>.
\<close>

section \<open>JSON form\<close>

definition zero_analysis :: Analysis where
  "zero_analysis = \<lparr>A_Severity = [], RootCause = [], Evidence = [], Action = [], Confidence = [], Grounding = [],
     Silence = False, SilenceReason = []\<rparr>"

definition analysis_json :: "Analysis \<Rightarrow> json" where
  "analysis_json a = JObj ([(''severity'', JStr (A_Severity a)), (''root_cause'', JStr (RootCause a)),
     (''evidence'', JStr (Evidence a)), (''action'', JStr (Action a)), (''confidence'', JStr (Confidence a)),
     (''grounding'', JStr (Grounding a)), (''silence'', JBool (Silence a))] @
     omitempty_str ''silence_reason'' (SilenceReason a))"

definition decode_analysis :: "Analysis \<Rightarrow> json \<Rightarrow> Analysis option" where
  "decode_analysis a j =
     (case j of
        JNull \<Rightarrow> Some a
      | JObj fs \<Rightarrow>
          (case (decode_field decode_string ''severity'' (A_Severity a) fs,
                 decode_field decode_string ''root_cause'' (RootCause a) fs,
                 decode_field decode_string ''evidence'' (Evidence a) fs,
                 decode_field decode_string ''action'' (Action a) fs,
                 decode_field decode_string ''confidence'' (Confidence a) fs,
                 decode_field decode_string ''grounding'' (Grounding a) fs,
                 decode_field decode_bool ''silence'' (Silence a) fs,
                 decode_field decode_string ''silence_reason'' (SilenceReason a) fs) of
             (Some sv, Some rc, Some ev, Some ac, Some co, Some gr, Some si, Some sr) \<Rightarrow>
               Some \<lparr>A_Severity = sv, RootCause = rc, Evidence = ev, Action = ac, Confidence = co, Grounding = gr,
                     Silence = si, SilenceReason = sr\<rparr>
           | _ \<Rightarrow> None)
      | _ \<Rightarrow> None)"

definition Unmarshal_Analysis :: "bytes \<Rightarrow> Analysis option" where
  "Unmarshal_Analysis raw = (case json_parse raw of None \<Rightarrow> None | Some j \<Rightarrow> decode_analysis zero_analysis j)"

section \<open>The contract\<close>

definition severityEnum :: "string list" where "severityEnum = [''critical'', ''warning'', ''info'']"
definition confidenceEnum :: "string list" where "confidenceEnum = [''high'', ''medium'', ''low'']"
definition groundingEnum :: "string list" where "groundingEnum = [''stated'', ''inferred'']"

definition analysisRequired :: "string list" where
  "analysisRequired = [''severity'', ''root_cause'', ''evidence'', ''action'', ''confidence'', ''grounding'', ''silence'']"

text \<open>A Go map is encoded with its keys sorted; the entries are written in that order.\<close>

definition string_property :: "string \<Rightarrow> json" where
  "string_property descr = JObj [(''description'', JStr descr), (''type'', JStr ''string'')]"

definition enum_property :: "string \<Rightarrow> string list \<Rightarrow> json" where
  "enum_property descr vals = JObj [(''description'', JStr descr), (''enum'', JArr (map JStr vals)), (''type'', JStr ''string'')]"

definition analysisProperties :: "(string \<times> json) list" where
  "analysisProperties =
     [(''action'', string_property ''Recommended immediate action.''),
      (''confidence'', enum_property (''Your certainty in the root cause. 'high' only when the logs/metrics state it directly; '' @
         [CHR 0x27] @ ''low' when you are guessing from sparse data.'') confidenceEnum),
      (''evidence'', string_property ''Specific log lines or metric trends supporting the root cause.''),
      (''grounding'', enum_property ([CHR 0x27] @ ''stated' if the root cause is read directly from the provided data; '' @
         [CHR 0x27] @ ''inferred' if you are reasoning beyond what the data literally says.'') groundingEnum),
      (''root_cause'', string_property ''One sentence root cause grounded in the provided logs and metrics.''),
      (''severity'', enum_property ''Overall severity of the situation based on the evidence.'' severityEnum),
      (''silence'', JObj [(''description'', JStr ''True only if this alert is noise that should be silenced.''),
         (''type'', JStr ''boolean'')]),
      (''silence_reason'', string_property ''Why the alert should be silenced. Only set when silence is true.'')]"

definition analysisJSONSchema :: json where
  "analysisJSONSchema =
     (let props = map (\<lambda>(k, v). if k = ''silence_reason''
            then (k, JObj [(''description'', JStr ''Why the alert should be silenced. Only set when silence is true; null otherwise.''),
                           (''type'', JArr [JStr ''string'', JStr ''null''])])
            else (k, v)) analysisProperties
      in JObj [(''additionalProperties'', JBool False), (''properties'', JObj props),
           (''required'', JArr (map JStr [''severity'', ''root_cause'', ''evidence'', ''action'', ''confidence'', ''grounding'',
              ''silence'', ''silence_reason''])),
           (''type'', JStr ''object'')])"

definition inEnum :: "string list \<Rightarrow> string \<Rightarrow> bool" where
  "inEnum allowed v \<longleftrightarrow> v \<in> set allowed"

text \<open>The \<open>%v\<close> of a string slice.\<close>

definition show_strings :: "string list \<Rightarrow> string" where
  "show_strings xs = ''['' @ Join xs '' '' @ '']''"

definition validateAnalysis :: "(string \<Rightarrow> bool) \<Rightarrow> Analysis \<Rightarrow> string option" where
  "validateAnalysis isPrint a =
     (if \<not> inEnum severityEnum (A_Severity a)
      then Some (''severity '' @ QuoteText isPrint (A_Severity a) @ '' not one of '' @ show_strings severityEnum)
      else if TrimSpace (RootCause a) = [] then Some ''root_cause is required''
      else if TrimSpace (Evidence a) = [] then Some ''evidence is required''
      else if TrimSpace (Action a) = [] then Some ''action is required''
      else if \<not> inEnum confidenceEnum (Confidence a)
      then Some (''confidence '' @ QuoteText isPrint (Confidence a) @ '' not one of '' @ show_strings confidenceEnum)
      else if \<not> inEnum groundingEnum (Grounding a)
      then Some (''grounding '' @ QuoteText isPrint (Grounding a) @ '' not one of '' @ show_strings groundingEnum)
      else None)"

definition decodeAndValidate ::
  "(bytes \<Rightarrow> string) \<Rightarrow> (string \<Rightarrow> bool) \<Rightarrow> bytes \<Rightarrow> string + Analysis" where
  "decodeAndValidate json_error isPrint raw =
     (case Unmarshal_Analysis raw of
        None \<Rightarrow> Inl (''decode analysis: '' @ json_error raw)
      | Some a \<Rightarrow> (case validateAnalysis isPrint a of Some e \<Rightarrow> Inl e | None \<Rightarrow> Inr a))"

section \<open>Facts\<close>

text \<open>What every consumer of a verdict may rely on.\<close>

definition valid_verdict :: "Analysis \<Rightarrow> bool" where
  "valid_verdict a \<longleftrightarrow> A_Severity a \<in> {''critical'', ''warning'', ''info''} \<and>
     Confidence a \<in> {''high'', ''medium'', ''low''} \<and> Grounding a \<in> {''stated'', ''inferred''} \<and>
     TrimSpace (RootCause a) \<noteq> [] \<and> TrimSpace (Evidence a) \<noteq> [] \<and> TrimSpace (Action a) \<noteq> []"

lemma validateAnalysis_iff: "validateAnalysis isPrint a = None \<longleftrightarrow> valid_verdict a"
  by (auto simp: validateAnalysis_def valid_verdict_def inEnum_def severityEnum_def confidenceEnum_def groundingEnum_def)

lemma decodeAndValidate_iff:
  "decodeAndValidate json_error isPrint raw = Inr a \<longleftrightarrow> Unmarshal_Analysis raw = Some a \<and> valid_verdict a"
proof (cases "Unmarshal_Analysis raw")
  case (Some b)
  then show ?thesis
    using validateAnalysis_iff [of isPrint b]
    by (cases "validateAnalysis isPrint b") (auto simp: decodeAndValidate_def)
qed (simp add: decodeAndValidate_def)

definition utf8_analysis :: "Analysis \<Rightarrow> bool" where
  "utf8_analysis a \<longleftrightarrow> valid_utf8 (A_Severity a) \<and> valid_utf8 (RootCause a) \<and> valid_utf8 (Evidence a) \<and>
     valid_utf8 (Action a) \<and> valid_utf8 (Confidence a) \<and> valid_utf8 (Grounding a) \<and> valid_utf8 (SilenceReason a)"

lemma json_fold_names:
  "json_fold ''severity'' = ''severity''" "json_fold ''root_cause'' = ''root_cause''" "json_fold ''evidence'' = ''evidence''"
  "json_fold ''action'' = ''action''" "json_fold ''confidence'' = ''confidence''" "json_fold ''grounding'' = ''grounding''"
  "json_fold ''silence'' = ''silence''" "json_fold ''silence_reason'' = ''silence_reason''"
  by (simp_all add: lower_char_def)

lemma decode_analysis_json: "decode_analysis zero_analysis (analysis_json a) = Some a"
  by (cases a)
    (simp add: decode_analysis_def analysis_json_def json_fold_names zero_analysis_def omitempty_str_def del: json_fold.simps)

lemma valid_utf8_ascii: "list_all (byte_in 0 0x7F) s \<Longrightarrow> valid_utf8 s"
proof (induction s)
  case (Cons c s)
  then have "rune_len (c # s) = 1" by (simp add: rune_len_Cons del: rune_len.simps)
  with Cons show ?case by (simp add: valid_utf8_def)
qed (simp add: valid_utf8_def)

lemma field_names_utf8:
  "valid_utf8 ''severity''" "valid_utf8 ''root_cause''" "valid_utf8 ''evidence''" "valid_utf8 ''action''"
  "valid_utf8 ''confidence''" "valid_utf8 ''grounding''" "valid_utf8 ''silence''" "valid_utf8 ''silence_reason''"
  by (rule valid_utf8_ascii, simp add: byte_in_def)+

lemma analysis_json_ok: "utf8_analysis a \<Longrightarrow> 0 < d \<Longrightarrow> json_ok d (analysis_json a)"
  by (auto simp: analysis_json_def utf8_analysis_def omitempty_str_def field_names_utf8)

lemma Unmarshal_Marshal_Analysis: "utf8_analysis a \<Longrightarrow> Unmarshal_Analysis (Marshal (analysis_json a)) = Some a"
  using json_roundtrip [OF analysis_json_ok, of a]
  by (simp add: Unmarshal_Analysis_def decode_analysis_json max_depth_def)

text \<open>A verdict to try things on.\<close>

definition demo_verdict :: Analysis where
  "demo_verdict = \<lparr>A_Severity = ''warning'', RootCause = ''rc'', Evidence = ''ev'', Action = ''ac'', Confidence = ''high'',
     Grounding = ''stated'', Silence = False, SilenceReason = []\<rparr>"

lemma utf8_demo_verdict: "utf8_analysis demo_verdict"
  by (simp add: utf8_analysis_def demo_verdict_def valid_utf8_ascii byte_in_def)

lemma valid_demo_verdict: "valid_verdict demo_verdict"
  by (simp add: valid_verdict_def demo_verdict_def TrimSpace_def space_seqs_def Let_def go_defs)

end
