(* ===== verification/Cache.thy ===== *)
theory Cache
  imports Embed Verdict Prompt Store Dedup
begin

text \<open>
  \<open>internal/llmcache/llmcache.go\<close>: verdicts cached under the exact alert key, and a semantic layer that
  reuses the verdict of the most similar alert. The store and the embedder are arguments, as the Go
  interfaces are; every clock reading of the store is an argument.
\<close>

section \<open>Vectors as JSON\<close>

text \<open>The value of a JSON number.\<close>

definition num_value :: "string \<Rightarrow> rat" where
  "num_value l =
     (let neg = HasPrefix l ''-''; s = TrimPrefix l ''-'';
          m = takeWhile (\<lambda>c. c \<noteq> CHR ''e'' \<and> c \<noteq> CHR ''E'') s; x = drop (Suc (length m)) s;
          ip = takeWhile (\<lambda>c. c \<noteq> CHR ''.'') m; fp = drop (Suc (length ip)) m;
          e = (if HasPrefix x ''-'' then - int (digits_val (drop 1 x)) else int (digits_val (TrimPrefix x ''+'')));
          v = of_nat (digits_val (ip @ fp)) * 10 powi (e - int (length fp))
      in if neg then - v else v)"

definition decode_float32 :: "rat \<Rightarrow> json \<Rightarrow> rat option" where
  "decode_float32 cur j =
     (case j of
        JNum l \<Rightarrow> (let v = round32 (num_value l) in if \<bar>v\<bar> < 2 ^ 128 then Some v else None)
      | JNull \<Rightarrow> Some cur
      | _ \<Rightarrow> None)"

record vecEntry =
  Vec :: vec
  ve_Analysis :: "Analysis option"

definition vecEntry_json :: "vecEntry \<Rightarrow> json" where
  "vecEntry_json e =
     JObj [(''vec'', JArr (map (\<lambda>x. JNum (json_rat round32 x)) (Vec e))),
           (''analysis'', case ve_Analysis e of None \<Rightarrow> JNull | Some a \<Rightarrow> analysis_json a)]"

definition Unmarshal_vecEntry :: "bytes \<Rightarrow> vecEntry option" where
  "Unmarshal_vecEntry raw =
     (case json_parse raw of
        Some JNull \<Rightarrow> Some \<lparr>Vec = [], ve_Analysis = None\<rparr>
      | Some (JObj fs) \<Rightarrow>
          (case (decode_field (decode_slice decode_float32 0) ''vec'' [] fs,
                 decode_field (decode_ptr decode_analysis zero_analysis) ''analysis'' None fs) of
             (Some v, Some a) \<Rightarrow> Some \<lparr>Vec = v, ve_Analysis = a\<rparr>
           | _ \<Rightarrow> None)
      | _ \<Rightarrow> None)"

section \<open>The cache\<close>

text \<open>An embedder is its \<open>Embed\<close> method.\<close>

record Cache =
  ca_enabled :: bool
  ca_ttl :: duration
  ca_embedder :: "(string \<Rightarrow> vec) option"
  ca_semantic :: bool
  ca_threshold :: float64

definition Cache_New ::
  "bool \<Rightarrow> int \<Rightarrow> (string \<Rightarrow> vec) option \<Rightarrow> bool \<Rightarrow> float64 \<Rightarrow> Cache" where
  "Cache_New enabled ttlMinutes emb semantic threshold =
     \<lparr>ca_enabled = enabled, ca_ttl = wrap64 (ttlMinutes * minute), ca_embedder = emb,
      ca_semantic = (semantic \<and> emb \<noteq> None), ca_threshold = threshold\<rparr>"

definition cache_key :: "(bytes \<Rightarrow> bytes) \<Rightarrow> AlertPayload \<Rightarrow> string" where
  "cache_key sha256 p = hex_encode (sha256 (raw_key p))"

text \<open>The loop of \<open>semanticLookup\<close>: the first entry with the greatest positive similarity.\<close>

fun best_match :: "vec \<Rightarrow> bytes list \<Rightarrow> Analysis option \<times> rat \<Rightarrow> Analysis option \<times> rat" where
  "best_match query [] acc = acc"
| "best_match query (raw # vals) (best, bestSim) =
     (case Unmarshal_vecEntry raw of
        None \<Rightarrow> best_match query vals (best, bestSim)
      | Some e \<Rightarrow>
          if ve_Analysis e = None then best_match query vals (best, bestSim)
          else let sim = Cosine query (Vec e)
               in best_match query vals (if sim > bestSim then (ve_Analysis e, sim) else (best, bestSim)))"

definition reaches :: "rat \<Rightarrow> float64 \<Rightarrow> bool" where
  "reaches x t = (case t of Finite r \<Rightarrow> x \<ge> r | NegInf \<Rightarrow> True | _ \<Rightarrow> False)"

definition semanticLookup ::
  "'s store_ops \<Rightarrow> Cache \<Rightarrow> gotime \<Rightarrow> 's \<Rightarrow> AlertPayload \<Rightarrow> (Analysis \<times> rat) option" where
  "semanticLookup ops c now s p =
     (case Store_ListByPrefix ops now s ''vec:'' of
        Inl _ \<Rightarrow> None
      | Inr vals \<Rightarrow>
          (case ca_embedder c of
             None \<Rightarrow> None
           | Some emb \<Rightarrow>
               (case best_match (emb (Signature p)) vals (None, 0) of
                  (Some a, sim) \<Rightarrow> if reaches sim (ca_threshold c) then Some (a, sim) else None
                | (None, _) \<Rightarrow> None)))"

definition Cache_Get ::
  "(bytes \<Rightarrow> bytes) \<Rightarrow> 's store_ops \<Rightarrow> Cache \<Rightarrow> gotime \<Rightarrow> gotime \<Rightarrow> 's \<Rightarrow> AlertPayload \<Rightarrow> Analysis option \<times> metric list" where
  "Cache_Get sha256 ops c now now' s p =
     (if \<not> ca_enabled c then (None, [])
      else
        let exact = (case Store_Get ops now s (''cache:'' @ cache_key sha256 p) of
                       Inr (Some data) \<Rightarrow> Unmarshal_Analysis data
                     | _ \<Rightarrow> None)
        in case exact of
             Some a \<Rightarrow> (Some a, [CacheLookups ''exact_hit''])
           | None \<Rightarrow>
               (case (if ca_semantic c then semanticLookup ops c now' s p else None) of
                  Some (a, sim) \<Rightarrow> (Some a, [CacheLookups ''semantic_hit''])
                | None \<Rightarrow> (None, [CacheLookups ''miss''])))"

text \<open>Encoding a verdict cannot fail, and neither can encoding finite vectors.\<close>

definition Cache_Set ::
  "(bytes \<Rightarrow> bytes) \<Rightarrow> 's store_ops \<Rightarrow> Cache \<Rightarrow> gotime \<Rightarrow> gotime \<Rightarrow> 's \<Rightarrow> AlertPayload \<Rightarrow> Analysis option \<Rightarrow> 's" where
  "Cache_Set sha256 ops c now now' s p analysis =
     (case analysis of
        None \<Rightarrow> s
      | Some a \<Rightarrow>
          if \<not> ca_enabled c then s
          else
            let s1 = snd (Store_Set ops now s (''cache:'' @ cache_key sha256 p) (Marshal (analysis_json a)) (ca_ttl c))
            in case ca_embedder c of
                 Some emb \<Rightarrow>
                   (if ca_semantic c
                    then snd (Store_Set ops now' s1 (''vec:'' @ cache_key sha256 p)
                           (Marshal (vecEntry_json \<lparr>Vec = emb (Signature p), ve_Analysis = Some a\<rparr>)) (ca_ttl c))
                    else s1)
               | None \<Rightarrow> s1)"

section \<open>Facts\<close>

text \<open>What the scan offers: a stored vector entry with its verdict and its similarity to the query.\<close>

definition offers :: "vec \<Rightarrow> bytes \<Rightarrow> Analysis \<Rightarrow> rat \<Rightarrow> bool" where
  "offers query raw a sim \<longleftrightarrow>
     (\<exists>e. Unmarshal_vecEntry raw = Some e \<and> ve_Analysis e = Some a \<and> sim = Cosine query (Vec e))"

definition beats_all :: "vec \<Rightarrow> bytes list \<Rightarrow> rat \<Rightarrow> bool" where
  "beats_all query vals best \<longleftrightarrow> (\<forall>raw a sim. raw \<in> set vals \<longrightarrow> offers query raw a sim \<longrightarrow> sim \<le> best)"

lemma beats_all_Cons:
  "beats_all query (raw # vals) best \<longleftrightarrow>
     beats_all query vals best \<and> (\<forall>a sim. offers query raw a sim \<longrightarrow> sim \<le> best)"
  by (auto simp: beats_all_def)

lemma best_match_spec:
  "best_match query vals (best, bestSim) = (r, sim) \<Longrightarrow>
   bestSim \<le> sim \<and> beats_all query vals sim \<and>
   ((r, sim) = (best, bestSim) \<or> (\<exists>raw a. raw \<in> set vals \<and> r = Some a \<and> offers query raw a sim \<and> bestSim < sim))"
proof (induction vals arbitrary: best bestSim)
  case Nil
  then show ?case by (simp add: beats_all_def)
next
  case (Cons raw vals)
  show ?case
  proof (cases "\<exists>e a. Unmarshal_vecEntry raw = Some e \<and> ve_Analysis e = Some a")
    case True
    then obtain e a where e: "Unmarshal_vecEntry raw = Some e" "ve_Analysis e = Some a" by blast
    let ?s = "Cosine query (Vec e)"
    have off: "offers query raw a' s \<longleftrightarrow> a' = a \<and> s = ?s" for a' s
      using e by (auto simp: offers_def)
    have "best_match query vals (if ?s > bestSim then (Some a, ?s) else (best, bestSim)) = (r, sim)"
      using Cons.prems e by (cases "?s > bestSim") (simp_all add: Let_def)
    then show ?thesis
      using Cons.IH [of "Some a" ?s] Cons.IH [of best bestSim] off
      by (cases "?s > bestSim") (auto simp: beats_all_Cons)
  next
    case False
    then have "best_match query vals (best, bestSim) = (r, sim)" and "\<not> offers query raw a s" for a s
      using Cons.prems by (auto simp: offers_def split: option.split_asm if_split_asm)
    with Cons.IH show ?thesis by (auto simp: beats_all_Cons)
  qed
qed

lemma semanticLookup_sound:
  assumes "semanticLookup ops c now s p = Some (a, sim)"
  shows "\<exists>emb vals raw. ca_embedder c = Some emb \<and> Store_ListByPrefix ops now s ''vec:'' = Inr vals \<and>
     raw \<in> set vals \<and> offers (emb (Signature p)) raw a sim \<and> 0 < sim \<and> reaches sim (ca_threshold c) \<and>
     beats_all (emb (Signature p)) vals sim"
proof -
  obtain vals emb where l: "Store_ListByPrefix ops now s ''vec:'' = Inr vals" and e: "ca_embedder c = Some emb"
    using assms by (auto simp: semanticLookup_def split: sum.split_asm option.split_asm)
  obtain r t where b: "best_match (emb (Signature p)) vals (None, 0) = (r, t)" by fastforce
  have "r = Some a" "t = sim" "reaches sim (ca_threshold c)"
    using assms l e b by (auto simp: semanticLookup_def split: option.split_asm if_split_asm)
  with best_match_spec [OF b] l e show ?thesis by auto
qed

text \<open>C26: Soundness of cache hits. The verdict the cache returns for an alert is either the one stored
  under the alert's own key, or the verdict of the stored alert that is most similar to it, with a
  similarity that is positive and reaches the configured threshold. A disabled cache returns nothing.\<close>

theorem cache_hit_sound:
  assumes "fst (Cache_Get sha256 ops c now now' s p) = Some a"
  shows "ca_enabled c \<and>
     ((\<exists>data. Store_Get ops now s (''cache:'' @ hex_encode (sha256 (raw_key p))) = Inr (Some data) \<and> Unmarshal_Analysis data = Some a) \<or>
      (\<exists>emb vals raw sim. ca_semantic c \<and> ca_embedder c = Some emb \<and> Store_ListByPrefix ops now' s ''vec:'' = Inr vals \<and>
         raw \<in> set vals \<and> offers (emb (Signature p)) raw a sim \<and> 0 < sim \<and> reaches sim (ca_threshold c) \<and>
         beats_all (emb (Signature p)) vals sim))"
proof -
  let ?exact = "case Store_Get ops now s (''cache:'' @ cache_key sha256 p) of Inr (Some data) \<Rightarrow> Unmarshal_Analysis data | _ \<Rightarrow> None"
  have en: "ca_enabled c" using assms by (auto simp: Cache_Get_def split: if_split_asm)
  show ?thesis
  proof (cases ?exact)
    case (Some b)
    with assms en have "a = b" by (simp add: Cache_Get_def Let_def)
    with Some en show ?thesis
      by (auto simp: cache_key_def split: sum.split_asm option.split_asm)
  next
    case None
    then obtain sim where "ca_semantic c" "semanticLookup ops c now' s p = Some (a, sim)"
      using assms en by (auto simp: Cache_Get_def Let_def split: if_split_asm option.split_asm)
    with semanticLookup_sound [of ops c now' s p a sim] en show ?thesis by blast
  qed
qed

lemma Signature_ClusterId: "Signature (p\<lparr>ClusterId := other\<rparr>) = Signature p"
  by (simp add: Signature_def)

text \<open>The semantic layer does not look at the origin of an alert. The verdict it finds for an alert is the
  one it would find if the alert came from any other cluster, so that a verdict computed for one cluster
  (and tenant) is reused for the others.\<close>

theorem semantic_cache_ignores_cluster:
  "semanticLookup ops c now s (p\<lparr>ClusterId := other\<rparr>) = semanticLookup ops c now s p"
  unfolding semanticLookup_def Signature_ClusterId ..

section \<open>What was stored is found\<close>

context kv_store
begin

lemma cache_roundtrip:
  assumes "inv s" and "0 \<le> now" and "0 \<le> now'" and "utf8_analysis a" and "ca_enabled c"
    and "list_all (spares t (''cache:'' @ cache_key sha256 p)) evs" and "held now (ca_ttl c) t"
  shows "Cache_Get sha256 ops c t t'
     (store_run ops background evs (Cache_Set sha256 ops c now now' s p (Some a))) p = (Some a, [CacheLookups ''exact_hit''])"
proof -
  let ?k = "''cache:'' @ cache_key sha256 p"
  let ?s1 = "snd (Store_Set ops now s ?k (Marshal (analysis_json a)) (ca_ttl c))"
  let ?s2 = "Cache_Set sha256 ops c now now' s p (Some a)"
  have i1: "inv ?s1" using assms(1) by (rule set_inv)
  have l1: "live t ?s1 ?k = Some (Marshal (analysis_json a))" using assms by (simp add: set_live)
  have "?s2 = ?s1 \<or> (\<exists>v. ?s2 = snd (Store_Set ops now' ?s1 (''vec:'' @ cache_key sha256 p) v (ca_ttl c)))"
    using assms(5) by (auto simp: Cache_Set_def Let_def split: option.split)
  then have "inv ?s2 \<and> live t ?s2 ?k = Some (Marshal (analysis_json a))"
    using i1 l1 assms(3) by (auto simp: set_inv set_live)
  then have "live t (store_run ops background evs ?s2) ?k = Some (Marshal (analysis_json a))"
    and "inv (store_run ops background evs ?s2)"
    using assms(6) by (auto intro: run_frame run_inv)
  then show ?thesis
    using assms(4,5) by (simp add: Cache_Get_def get_live Unmarshal_Marshal_Analysis)
qed

end

text \<open>C27: A cached verdict is found again. After \<open>Set\<close>, a \<open>Get\<close> for the same alert within the time to live
  returns the very same verdict, as an exact hit, whatever other keys of the store were written, deleted or
  swept in between.\<close>

theorem cache_returns_what_was_set:
  assumes "memory_inv s" and "0 \<le> now" and "0 \<le> now'" and "utf8_analysis a" and "ca_enabled c"
    and "list_all (spares t (''cache:'' @ cache_key sha256 p)) evs" and "held now (ca_ttl c) t"
  shows "Cache_Get sha256 memory_ops c t t'
     (store_run memory_ops Memory_background evs (Cache_Set sha256 memory_ops c now now' s p (Some a))) p =
     (Some a, [CacheLookups ''exact_hit''])"
  using assms by (rule mem.cache_roundtrip)

section \<open>An alert cached and found\<close>

definition demo_cache :: Cache where
  "demo_cache = Cache_New True 30 None False (Finite (95 / 100))"

lemma demo_cached:
  "held 0 (ca_ttl demo_cache) 1" "ca_enabled demo_cache" "memory_inv NewMemory"
  by (simp_all add: held_def demo_cache_def Cache_New_def wrap64_def memory_inv_def NewMemory_def)

theorem cache_returns_what_was_set_witness:
  "Cache_Get pad32 memory_ops demo_cache 1 1
     (store_run memory_ops Memory_background [Ev_Background 1] (Cache_Set pad32 memory_ops demo_cache 0 0 NewMemory demo_alert (Some demo_verdict)))
     demo_alert = (Some demo_verdict, [CacheLookups ''exact_hit''])"
  by (rule cache_returns_what_was_set) (simp_all add: demo_cached utf8_demo_verdict)

theorem cache_hit_sound_witness:
  "\<exists>s. fst (Cache_Get pad32 memory_ops demo_cache 1 1 s demo_alert) = Some demo_verdict \<and> ca_enabled demo_cache \<and>
     (\<exists>data. Store_Get memory_ops 1 s (''cache:'' @ hex_encode (pad32 (raw_key demo_alert))) = Inr (Some data) \<and>
        Unmarshal_Analysis data = Some demo_verdict)"
proof -
  let ?s = "store_run memory_ops Memory_background [] (Cache_Set pad32 memory_ops demo_cache 0 0 NewMemory demo_alert (Some demo_verdict))"
  have "Cache_Get pad32 memory_ops demo_cache 1 1 ?s demo_alert = (Some demo_verdict, [CacheLookups ''exact_hit''])"
    by (rule mem.cache_roundtrip) (simp_all add: demo_cached utf8_demo_verdict)
  then have hit: "fst (Cache_Get pad32 memory_ops demo_cache 1 1 ?s demo_alert) = Some demo_verdict" by simp
  have "\<not> ca_semantic demo_cache" by (simp add: demo_cache_def Cache_New_def)
  with cache_hit_sound [OF hit] hit show ?thesis by blast
qed

end
