(* ===== verification/History.thy ===== *)
theory History
  imports Verdict Store
begin

text \<open>
  \<open>internal/history/history.go\<close>: the incident records kept in the store. A nil \<open>*Store\<close> and a nil alert
  are \<open>None\<close>; pointer comparison of alerts is comparison of \<open>ptr\<close>.
\<close>

section \<open>Records\<close>

record Record =
  R_ID :: string
  R_ClusterID :: string
  R_AlertName :: string
  R_Namespace :: string
  R_Severity :: string
  R_FiredAt :: int
  AlertCount :: int
  RelatedAlerts :: "string list"
  R_Analysis :: "Analysis option"
  RecordedAt :: int

definition zero_record :: Record where
  "zero_record = \<lparr>R_ID = [], R_ClusterID = [], R_AlertName = [], R_Namespace = [], R_Severity = [], R_FiredAt = 0,
     AlertCount = 0, RelatedAlerts = [], R_Analysis = None, RecordedAt = 0\<rparr>"

definition record_json :: "Record \<Rightarrow> json" where
  "record_json r = JObj (
     [(''id'', JStr (R_ID r)), (''cluster_id'', JStr (R_ClusterID r)), (''alert_name'', JStr (R_AlertName r)),
      (''namespace'', JStr (R_Namespace r)), (''severity'', JStr (R_Severity r)), (''fired_at'', JNum (show_int (R_FiredAt r))),
      (''alert_count'', JNum (show_int (AlertCount r)))] @
     (if RelatedAlerts r = [] then [] else [(''related_alerts'', JArr (map JStr (RelatedAlerts r)))]) @
     (case R_Analysis r of None \<Rightarrow> [] | Some a \<Rightarrow> [(''analysis'', analysis_json a)]) @
     [(''recorded_at'', JNum (show_int (RecordedAt r)))])"

definition decode_record :: "json \<Rightarrow> Record option" where
  "decode_record j =
     (case j of
        JNull \<Rightarrow> Some zero_record
      | JObj fs \<Rightarrow>
          (case (decode_field decode_string ''id'' [] fs, decode_field decode_string ''cluster_id'' [] fs,
                 decode_field decode_string ''alert_name'' [] fs, decode_field decode_string ''namespace'' [] fs,
                 decode_field decode_string ''severity'' [] fs, decode_field decode_int ''fired_at'' 0 fs,
                 decode_field decode_int ''alert_count'' 0 fs,
                 decode_field (decode_slice decode_string []) ''related_alerts'' [] fs,
                 decode_field (decode_ptr decode_analysis zero_analysis) ''analysis'' None fs,
                 decode_field decode_int ''recorded_at'' 0 fs) of
             (Some i, Some c, Some n, Some ns, Some sv, Some f, Some ac, Some ra, Some an, Some rt) \<Rightarrow>
               Some \<lparr>R_ID = i, R_ClusterID = c, R_AlertName = n, R_Namespace = ns, R_Severity = sv, R_FiredAt = f,
                     AlertCount = ac, RelatedAlerts = ra, R_Analysis = an, RecordedAt = rt\<rparr>
           | _ \<Rightarrow> None)
      | _ \<Rightarrow> None)"

definition Unmarshal_Record :: "bytes \<Rightarrow> Record option" where
  "Unmarshal_Record raw = (case json_parse raw of None \<Rightarrow> None | Some j \<Rightarrow> decode_record j)"

section \<open>The store of records\<close>

record History_Store =
  hs_ttl :: duration

definition History_New :: "duration \<Rightarrow> History_Store" where
  "History_New ttl = \<lparr>hs_ttl = (if ttl \<le> 0 then 30 * 24 * hour else ttl)\<rparr>"

definition incident_key :: "string \<Rightarrow> string" where
  "incident_key i = ''incident:'' @ i"

definition new_record ::
  "(bytes \<Rightarrow> bytes) \<Rightarrow> gotime \<Rightarrow> AlertPayload \<Rightarrow> Analysis option \<Rightarrow> AlertPayload list \<Rightarrow> Record" where
  "new_record sha256 now rep analysis alerts =
     \<lparr>R_ID = alertkey_ID sha256 rep, R_ClusterID = ClusterId rep, R_AlertName = AlertName rep, R_Namespace = Namespace rep,
      R_Severity = Severity rep, R_FiredAt = FiredAt rep,
      AlertCount = (if alerts = [] then 1 else int (length alerts)),
      RelatedAlerts = map AlertName (filter (\<lambda>a. ptr a \<noteq> ptr rep) alerts), R_Analysis = analysis, RecordedAt = unix_of now\<rparr>"

text \<open>\<open>now\<close> stamps the record, \<open>now'\<close> is the store's clock.\<close>

definition History_Record ::
  "(bytes \<Rightarrow> bytes) \<Rightarrow> 's store_ops \<Rightarrow> History_Store option \<Rightarrow> gotime \<Rightarrow> gotime \<Rightarrow> 's \<Rightarrow> AlertPayload option \<Rightarrow>
   Analysis option \<Rightarrow> AlertPayload list \<Rightarrow> 's \<times> metric list" where
  "History_Record sha256 ops h now now' s rep analysis alerts =
     (case (h, rep) of
        (Some hs, Some r) \<Rightarrow>
          (let rec = new_record sha256 now r analysis alerts
           in case Store_Set ops now' s (incident_key (R_ID rec)) (Marshal (record_json rec)) (hs_ttl hs) of
                (Some err, s') \<Rightarrow> (s', [])
              | (None, s') \<Rightarrow> (s', [IncidentsRecorded]))
      | _ \<Rightarrow> (s, []))"

datatype history_error = HistStore string | HistDecode

definition History_Get ::
  "'s store_ops \<Rightarrow> History_Store option \<Rightarrow> gotime \<Rightarrow> 's \<Rightarrow> string \<Rightarrow> history_error + Record option" where
  "History_Get ops h now s i =
     (case h of
        None \<Rightarrow> Inr None
      | Some _ \<Rightarrow>
          (case Store_Get ops now s (incident_key i) of
             Inl e \<Rightarrow> Inl (HistStore e)
           | Inr None \<Rightarrow> Inr None
           | Inr (Some data) \<Rightarrow>
               (case Unmarshal_Record data of None \<Rightarrow> Inl HistDecode | Some r \<Rightarrow> Inr (Some r))))"

definition History_List :: "'s store_ops \<Rightarrow> History_Store option \<Rightarrow> gotime \<Rightarrow> 's \<Rightarrow> string + Record list" where
  "History_List ops h now s =
     (case h of
        None \<Rightarrow> Inr []
      | Some _ \<Rightarrow>
          (case Store_ListByPrefix ops now s (incident_key []) of
             Inl e \<Rightarrow> Inl e
           | Inr vals \<Rightarrow> Inr (List.map_filter Unmarshal_Record vals)))"

section \<open>Round trip\<close>

definition record_ok :: "Record \<Rightarrow> bool" where
  "record_ok r \<longleftrightarrow> valid_utf8 (R_ID r) \<and> valid_utf8 (R_ClusterID r) \<and> valid_utf8 (R_AlertName r) \<and> valid_utf8 (R_Namespace r) \<and>
     valid_utf8 (R_Severity r) \<and> list_all valid_utf8 (RelatedAlerts r) \<and>
     (case R_Analysis r of None \<Rightarrow> True | Some a \<Rightarrow> utf8_analysis a) \<and>
     in_int64 (R_FiredAt r) \<and> in_int64 (AlertCount r) \<and> in_int64 (RecordedAt r)"

lemma json_fold_lower: "list_all (byte_in 95 122) s \<Longrightarrow> json_fold s = s"
proof (induction s)
  case (Cons c s)
  then have "c \<noteq> CHR 0xE2" "c \<noteq> CHR 0xC5" "lower_char c = c" by (auto simp: byte_in_def lower_char_def)
  with Cons show ?case by simp
qed simp

lemma show_nat_leading: "show_nat n = CHR ''0'' # t \<Longrightarrow> t = []"
proof (induction n arbitrary: t rule: show_nat.induct)
  case (1 n)
  show ?case
  proof (cases "n < 10")
    case True
    with 1(2) show ?thesis by (simp add: show_nat.simps [of n])
  next
    case False
    then have dec: "show_nat (n div 10) @ [digit_char (n mod 10)] = CHR ''0'' # t"
      using 1(2) by (simp add: show_nat.simps [of n])
    then obtain t' where t': "show_nat (n div 10) = CHR ''0'' # t'"
      by (cases "show_nat (n div 10)") auto
    with 1(1) [OF False] have "show_nat (n div 10) = ''0''" by simp
    then have "digits_val (show_nat (n div 10)) = 0" by (simp add: digits_val_def digit_val_def)
    then show ?thesis using False by simp
  qed
qed

lemma num_int_show_nat: "num_int (show_nat n) = Some (show_nat n, [])"
proof -
  obtain c cs where c: "show_nat n = c # cs" "is_digit c" using show_nat_head by blast
  have "takeWhile is_digit (show_nat n) = show_nat n" "dropWhile is_digit (show_nat n) = []"
    using show_nat_digits [of n] by (auto simp: list_all_iff takeWhile_eq_all_conv dropWhile_eq_Nil_conv)
  with c show_nat_leading [of n cs] show ?thesis by (auto simp: num_int_def span_digits_def)
qed

lemma number_ok_show_int: "number_ok (show_int i)"
proof (cases "i < 0")
  case True
  then show ?thesis
    by (simp add: number_ok_def num_lit_def show_int_def num_int_show_nat num_frac_def num_exp_def)
next
  case False
  obtain c cs where c: "show_nat (nat i) = c # cs" "is_digit c" using show_nat_head by blast
  then have "c \<noteq> CHR ''-''" by (auto simp: is_digit_def)
  with False c num_int_show_nat [of "nat i"] show ?thesis
    by (simp add: number_ok_def num_lit_def show_int_def num_frac_def num_exp_def)
qed

lemma decode_int_show: "in_int64 i \<Longrightarrow> decode_int cur (JNum (show_int i)) = Some i"
  by (simp add: ParseInt_show_int)

lemma utf8_name: "list_all (byte_in 95 122) s \<Longrightarrow> valid_utf8 s"
  by (rule valid_utf8_ascii) (auto simp: list_all_iff byte_in_def)

lemma decode_strings: "decode_slice decode_string [] cur (JArr (map JStr xs)) = Some xs"
  if "cur = []"
  using decode_elems_map [of xs decode_string "[]" JStr] that by simp

lemma decode_analysis_ptr: "decode_ptr decode_analysis zero_analysis None (analysis_json a) = Some (Some a)"
  using decode_analysis_json [of a] by (simp add: analysis_json_def)

lemma decode_record_json:
  assumes "in_int64 (R_FiredAt r)" "in_int64 (AlertCount r)" "in_int64 (RecordedAt r)"
  shows "decode_record (record_json r) = Some r"
  using assms
  by (cases r; cases "R_Analysis r"; cases "RelatedAlerts r = []")
    (simp_all add: decode_record_def record_json_def json_fold_lower byte_in_def decode_int_show decode_strings
      decode_analysis_ptr del: json_fold.simps decode_int.simps decode_slice.simps decode_ptr.simps)

lemma record_json_ok: "record_ok r \<Longrightarrow> 2 < d \<Longrightarrow> json_ok d (record_json r)"
  by (cases "R_Analysis r")
    (auto simp: record_ok_def record_json_def number_ok_show_int utf8_name byte_in_def analysis_json_ok list_all_iff)

lemma Unmarshal_Marshal_Record:
  assumes "record_ok r" shows "Unmarshal_Record (Marshal (record_json r)) = Some r"
proof -
  have "json_parse (Marshal (record_json r)) = Some (record_json r)"
    by (rule json_roundtrip [OF record_json_ok [OF assms]]) (simp add: max_depth_def)
  with assms show ?thesis by (simp add: Unmarshal_Record_def decode_record_json record_ok_def)
qed

section \<open>What was recorded is found\<close>

context kv_store
begin

lemma history_roundtrip:
  fixes rep :: AlertPayload and sha256 now analysis alerts
  defines "r \<equiv> new_record sha256 now rep analysis alerts"
  assumes "inv s" and "0 \<le> now'" and "record_ok r" and "held now' (hs_ttl h) t"
    and rec: "History_Record sha256 ops (Some h) now now' s (Some rep) analysis alerts = (s1, ms)"
    and "list_all (spares t (incident_key (alertkey_ID sha256 rep))) evs"
  shows "ms = [IncidentsRecorded] \<and>
     History_Get ops (Some h) t (store_run ops background evs s1) (alertkey_ID sha256 rep) = Inr (Some r) \<and>
     (\<exists>rs. History_List ops (Some h) t (store_run ops background evs s1) = Inr rs \<and> r \<in> set rs)"
proof -
  let ?k = "incident_key (alertkey_ID sha256 rep)" and ?v = "Marshal (record_json r)"
  have id: "R_ID r = alertkey_ID sha256 rep" by (simp add: r_def new_record_def)
  have ok: "fst (Store_Set ops now' s ?k ?v (hs_ttl h)) = None" using assms(2) by (rule set_ok)
  have s1: "s1 = snd (Store_Set ops now' s ?k ?v (hs_ttl h))" "ms = [IncidentsRecorded]"
    using rec ok id by (auto simp: History_Record_def r_def [symmetric] Let_def split: prod.split_asm option.split_asm)
  have "inv s1" using assms(2) by (simp add: s1 set_inv)
  have "live t s1 ?k = Some ?v" using assms by (simp add: s1 set_live)
  then have live: "live t (store_run ops background evs s1) ?k = Some ?v"
    and inv: "inv (store_run ops background evs s1)"
    using \<open>inv s1\<close> assms(7) by (auto intro: run_frame run_inv)
  have dec: "Unmarshal_Record ?v = Some r" by (rule Unmarshal_Marshal_Record) fact
  obtain vs where vs: "Store_ListByPrefix ops t (store_run ops background evs s1) (incident_key []) = Inr vs"
    "set vs = {v. \<exists>k. HasPrefix k (incident_key []) \<and> live t (store_run ops background evs s1) k = Some v}"
    using list_live [OF inv, of "incident_key []" t] by (auto simp: plain_prefix_def incident_key_def)
  have "HasPrefix ?k (incident_key [])" by (simp add: HasPrefix_def incident_key_def)
  with live vs(2) have "?v \<in> set vs" by blast
  with dec have "r \<in> set (List.map_filter Unmarshal_Record vs)" by (force simp: List.map_filter_def)
  with s1 live inv dec vs(1) show ?thesis
    by (auto simp: History_Get_def History_List_def get_live)
qed

end

text \<open>C28: Incident history. A recorded incident can be read back by the shared alert identifier and shows up in
  the list of incidents, unchanged, for the whole time to live, whatever else happens to other keys.\<close>

theorem history_reads_back:
  assumes "memory_inv s" and "0 \<le> now'" and "record_ok (new_record sha256 now rep analysis alerts)"
    and "held now' (hs_ttl h) t"
    and "History_Record sha256 memory_ops (Some h) now now' s (Some rep) analysis alerts = (s1, ms)"
    and "list_all (spares t (incident_key (alertkey_ID sha256 rep))) evs"
  shows "ms = [IncidentsRecorded] \<and>
     History_Get memory_ops (Some h) t (store_run memory_ops Memory_background evs s1) (alertkey_ID sha256 rep) =
       Inr (Some (new_record sha256 now rep analysis alerts)) \<and>
     (\<exists>rs. History_List memory_ops (Some h) t (store_run memory_ops Memory_background evs s1) = Inr rs \<and>
        new_record sha256 now rep analysis alerts \<in> set rs)"
  using assms by (rule mem.history_roundtrip)

definition demo_record :: Record where
  "demo_record = new_record pad32 0 demo_alert (Some demo_verdict) [demo_alert]"

lemma hex_utf8: "valid_utf8 (hex_encode bs)"
  using hex_encode_lower_hex [of bs]
  by (intro valid_utf8_ascii) (auto simp: list_all_iff is_lower_hex_def is_digit_def byte_in_def)

lemma take_hex_utf8: "valid_utf8 (take n (hex_encode bs))"
  using hex_encode_lower_hex [of bs]
  by (intro valid_utf8_ascii) (auto simp: list_all_iff is_lower_hex_def is_digit_def byte_in_def dest!: in_set_takeD)

lemma demo_record_ok: "record_ok demo_record"
  unfolding demo_record_def record_ok_def new_record_def alertkey_ID_def
  by (auto simp: take_hex_utf8 utf8_demo_verdict demo_alert_def zero_payload_def in_int64_def unix_of_def
      intro!: valid_utf8_ascii simp: byte_in_def)

theorem history_reads_back_witness:
  "\<exists>s1. History_Record pad32 memory_ops (Some (History_New 0)) 0 0 NewMemory (Some demo_alert) (Some demo_verdict) [demo_alert] =
       (s1, [IncidentsRecorded]) \<and>
     History_Get memory_ops (Some (History_New 0)) 1 (store_run memory_ops Memory_background [] s1) (alertkey_ID pad32 demo_alert) =
       Inr (Some (new_record pad32 0 demo_alert (Some demo_verdict) [demo_alert]))"
proof -
  obtain s1 ms where r: "History_Record pad32 memory_ops (Some (History_New 0)) 0 0 NewMemory (Some demo_alert)
     (Some demo_verdict) [demo_alert] = (s1, ms)" by fastforce
  have "memory_inv NewMemory" by (simp add: memory_inv_def NewMemory_def)
  moreover have "held 0 (hs_ttl (History_New 0)) 1" by (simp add: held_def History_New_def)
  ultimately have "ms = [IncidentsRecorded] \<and>
     History_Get memory_ops (Some (History_New 0)) 1 (store_run memory_ops Memory_background [] s1) (alertkey_ID pad32 demo_alert) =
       Inr (Some (new_record pad32 0 demo_alert (Some demo_verdict) [demo_alert])) \<and>
     (\<exists>rs. History_List memory_ops (Some (History_New 0)) 1 (store_run memory_ops Memory_background [] s1) = Inr rs \<and>
        new_record pad32 0 demo_alert (Some demo_verdict) [demo_alert] \<in> set rs)"
    using demo_record_ok unfolding demo_record_def by (intro history_reads_back [OF _ _ _ _ r]) simp_all
  with r show ?thesis by blast
qed

end
