(* ===== verification/UrlQuery.thy ===== *)
theory UrlQuery
  imports Encoding
begin

text \<open>
  The part of package \<open>net/url\<close> the sources use: query escaping, \<open>Values.Encode\<close> and
  \<open>URL.Query().Get\<close>.
\<close>

section \<open>Escaping\<close>

definition upper_hex :: "nat \<Rightarrow> char" where
  "upper_hex d = (if d < 10 then char_of (48 + d) else char_of (55 + d))"

definition unreserved :: "char \<Rightarrow> bool" where
  "unreserved c \<longleftrightarrow> byte_in 97 122 c \<or> byte_in 65 90 c \<or> byte_in 48 57 c \<or> c \<in> set ''-_.~''"

definition escape_byte :: "char \<Rightarrow> string" where
  "escape_byte c =
     (if c = CHR '' '' then ''+''
      else if unreserved c then [c]
      else [CHR ''%'', upper_hex (of_char c div 16), upper_hex (of_char c mod 16)])"

definition QueryEscape :: "string \<Rightarrow> string" where
  "QueryEscape s = concat (map escape_byte s)"

definition unhex :: "char \<Rightarrow> nat" where
  "unhex c =
     (if byte_in 48 57 c then of_char c - 48
      else if byte_in 97 102 c then of_char c - 87
      else of_char c - 55)"

text \<open>\<open>None\<close> is the escape error.\<close>

fun QueryUnescape :: "string \<Rightarrow> string option" where
  "QueryUnescape [] = Some []"
| "QueryUnescape (c # s) =
     (if c = CHR ''%'' then
        (case s of
           a # b # rest \<Rightarrow>
             if is_hex a \<and> is_hex b
             then map_option ((#) (char_of (unhex a * 16 + unhex b))) (QueryUnescape rest)
             else None
         | _ \<Rightarrow> None)
      else map_option ((#) (if c = CHR ''+'' then CHR '' '' else c)) (QueryUnescape s))"

section \<open>Parameters\<close>

text \<open>\<open>url.ParseQuery\<close>, whose error \<open>URL.Query\<close> drops: a parameter that contains a semicolon or a bad
  escape is skipped, and so is an empty one.\<close>

definition parse_param :: "string \<Rightarrow> (string \<times> string) option" where
  "parse_param kv =
     (if CHR '';'' \<in> set kv \<or> kv = [] then None
      else let k = takeWhile (\<lambda>c. c \<noteq> CHR ''='') kv; v = drop (Suc (length k)) kv
           in case (QueryUnescape k, QueryUnescape v) of
                (Some k', Some v') \<Rightarrow> Some (k', v')
              | _ \<Rightarrow> None)"

definition ParseQuery :: "string \<Rightarrow> (string \<times> string) list" where
  "ParseQuery q = List.map_filter parse_param (Split q CHR ''&'')"

definition Query_Get :: "string \<Rightarrow> string \<Rightarrow> string" where
  "Query_Get q k = (case map_of (ParseQuery q) k of None \<Rightarrow> [] | Some v \<Rightarrow> v)"

text \<open>\<open>Values.Encode\<close> of parameters already in the order of their keys.\<close>

definition Values_Encode :: "(string \<times> string) list \<Rightarrow> string" where
  "Values_Encode kvs = Join (map (\<lambda>(k, v). QueryEscape k @ ''='' @ QueryEscape v) kvs) ''&''"

section \<open>Facts\<close>

lemma of_char_hex_parts: "(of_char (c :: char) :: nat) div 16 < 16" "(of_char (c :: char) :: nat) mod 16 < 16"
  by (simp_all add: of_char_div16)

lemma upper_hex_inverse: "d < 16 \<Longrightarrow> is_hex (upper_hex d) \<and> unhex (upper_hex d) = d"
  by (auto simp: upper_hex_def unhex_def is_hex_def is_lower_hex_def is_digit_def byte_in_def)

lemma QueryUnescape_escape_byte: "QueryUnescape (escape_byte c @ s) = map_option ((#) c) (QueryUnescape s)"
proof -
  have "\<not> unreserved CHR ''%''" "\<not> unreserved CHR ''+''" by (simp_all add: unreserved_def byte_in_def)
  then show ?thesis
    using upper_hex_inverse [OF of_char_hex_parts(1)] upper_hex_inverse [OF of_char_hex_parts(2)]
    by (auto simp: escape_byte_def)
qed

lemma QueryUnescape_QueryEscape: "QueryUnescape (QueryEscape s) = Some s"
  by (induction s) (simp_all add: QueryEscape_def QueryUnescape_escape_byte)

end
