(* ===== verification/FeedbackLoop.thy ===== *)
theory FeedbackLoop
  imports History UrlQuery
begin

text \<open>
  \<open>internal/feedback/feedback.go\<close>: feedback links, the verdicts operators click, and their replay as
  few-shot examples.
\<close>

section \<open>Entries\<close>

record Manager =
  publicURL :: string
  pendingTTL :: duration
  verdictTTL :: duration
  fewShot :: int

record pendingEntry =
  pe_ClusterID :: string
  pe_AlertName :: string
  pe_Namespace :: string
  pe_Analysis :: "Analysis option"

record verdictEntry =
  vd_AlertName :: string
  vd_Verdict :: string
  vd_Analysis :: "Analysis option"
  vd_TS :: int

definition analysis_or_null :: "Analysis option \<Rightarrow> json" where
  "analysis_or_null a = (case a of None \<Rightarrow> JNull | Some x \<Rightarrow> analysis_json x)"

definition pending_json :: "pendingEntry \<Rightarrow> json" where
  "pending_json e = JObj [(''cluster_id'', JStr (pe_ClusterID e)), (''alert_name'', JStr (pe_AlertName e)),
     (''namespace'', JStr (pe_Namespace e)), (''analysis'', analysis_or_null (pe_Analysis e))]"

definition verdict_json :: "verdictEntry \<Rightarrow> json" where
  "verdict_json e = JObj [(''alert_name'', JStr (vd_AlertName e)), (''verdict'', JStr (vd_Verdict e)),
     (''analysis'', analysis_or_null (vd_Analysis e)), (''ts'', JNum (show_int (vd_TS e)))]"

definition decode_pending :: "json \<Rightarrow> pendingEntry option" where
  "decode_pending j =
     (case j of
        JNull \<Rightarrow> Some \<lparr>pe_ClusterID = [], pe_AlertName = [], pe_Namespace = [], pe_Analysis = None\<rparr>
      | JObj fs \<Rightarrow>
          (case (decode_field decode_string ''cluster_id'' [] fs, decode_field decode_string ''alert_name'' [] fs,
                 decode_field decode_string ''namespace'' [] fs,
                 decode_field (decode_ptr decode_analysis zero_analysis) ''analysis'' None fs) of
             (Some c, Some n, Some ns, Some a) \<Rightarrow>
               Some \<lparr>pe_ClusterID = c, pe_AlertName = n, pe_Namespace = ns, pe_Analysis = a\<rparr>
           | _ \<Rightarrow> None)
      | _ \<Rightarrow> None)"

definition decode_verdict :: "json \<Rightarrow> verdictEntry option" where
  "decode_verdict j =
     (case j of
        JNull \<Rightarrow> Some \<lparr>vd_AlertName = [], vd_Verdict = [], vd_Analysis = None, vd_TS = 0\<rparr>
      | JObj fs \<Rightarrow>
          (case (decode_field decode_string ''alert_name'' [] fs, decode_field decode_string ''verdict'' [] fs,
                 decode_field (decode_ptr decode_analysis zero_analysis) ''analysis'' None fs,
                 decode_field decode_int ''ts'' 0 fs) of
             (Some n, Some v, Some a, Some t) \<Rightarrow> Some \<lparr>vd_AlertName = n, vd_Verdict = v, vd_Analysis = a, vd_TS = t\<rparr>
           | _ \<Rightarrow> None)
      | _ \<Rightarrow> None)"

definition Unmarshal_pending :: "bytes \<Rightarrow> pendingEntry option" where
  "Unmarshal_pending raw = (case json_parse raw of None \<Rightarrow> None | Some j \<Rightarrow> decode_pending j)"

definition Unmarshal_verdict :: "bytes \<Rightarrow> verdictEntry option" where
  "Unmarshal_verdict raw = (case json_parse raw of None \<Rightarrow> None | Some j \<Rightarrow> decode_verdict j)"

section \<open>Operations\<close>

definition trimSlash :: "string \<Rightarrow> string" where
  "trimSlash s = TrimRight s ''/''"

definition Feedback_New :: "string \<Rightarrow> int \<Rightarrow> Manager" where
  "Feedback_New url few =
     \<lparr>publicURL = trimSlash url, pendingTTL = 7 * 24 * hour, verdictTTL = 30 * 24 * hour,
      fewShot = (if few \<le> 0 then 3 else few)\<rparr>"

definition LinksEnabled :: "Manager \<Rightarrow> bool" where
  "LinksEnabled m \<longleftrightarrow> publicURL m \<noteq> []"

definition feedback_id :: "(bytes \<Rightarrow> bytes) \<Rightarrow> AlertPayload \<Rightarrow> string" where
  "feedback_id sha256 p = alertkey_ID sha256 p"

definition alertHash :: "(bytes \<Rightarrow> bytes) \<Rightarrow> string \<Rightarrow> string" where
  "alertHash sha256 name = take 12 (hex_encode (sha256 name))"

definition pending_key :: "string \<Rightarrow> string" where
  "pending_key i = ''fb:pending:'' @ i"

definition verdict_prefix :: "(bytes \<Rightarrow> bytes) \<Rightarrow> string \<Rightarrow> string" where
  "verdict_prefix sha256 name = ''fb:verdict:'' @ alertHash sha256 name @ '':''"

definition pending_of :: "AlertPayload \<Rightarrow> Analysis \<Rightarrow> pendingEntry" where
  "pending_of p a = \<lparr>pe_ClusterID = ClusterId p, pe_AlertName = AlertName p, pe_Namespace = Namespace p, pe_Analysis = Some a\<rparr>"

definition feedback_query :: "string \<Rightarrow> string \<Rightarrow> string" where
  "feedback_query i verdict = ''id='' @ i @ ''&verdict='' @ verdict"

definition Feedback_Record ::
  "(bytes \<Rightarrow> bytes) \<Rightarrow> 's store_ops \<Rightarrow> Manager \<Rightarrow> gotime \<Rightarrow> 's \<Rightarrow> AlertPayload \<Rightarrow> Analysis option \<Rightarrow> (string \<times> string) \<times> 's" where
  "Feedback_Record sha256 ops m now s p analysis =
     (case analysis of
        None \<Rightarrow> (([], []), s)
      | Some a \<Rightarrow>
          if \<not> LinksEnabled m then (([], []), s)
          else
            let i = feedback_id sha256 p
            in case Store_Set ops now s (pending_key i) (Marshal (pending_json (pending_of p a))) (pendingTTL m) of
                 (Some err, s') \<Rightarrow> (([], []), s')
               | (None, s') \<Rightarrow>
                   ((publicURL m @ ''/feedback?'' @ feedback_query i ''useful'',
                     publicURL m @ ''/feedback?'' @ feedback_query i ''wrong''), s'))"

text \<open>Neither the order of the listed values nor \<open>sort.Slice\<close> on equal time stamps is specified; a
  stable sort of values in an unspecified order covers both.\<close>

definition Feedback_Examples ::
  "(bytes \<Rightarrow> bytes) \<Rightarrow> 's store_ops \<Rightarrow> Manager \<Rightarrow> gotime \<Rightarrow> 's \<Rightarrow> AlertPayload \<Rightarrow> Example list" where
  "Feedback_Examples sha256 ops m now s p =
     (case Store_ListByPrefix ops now s (verdict_prefix sha256 (AlertName p)) of
        Inl _ \<Rightarrow> []
      | Inr vals \<Rightarrow>
          map (\<lambda>e. \<lparr>Ex_AlertName = vd_AlertName e, Verdict = vd_Verdict e, Ex_Analysis = vd_Analysis e\<rparr>)
            (take (nat (fewShot m)) (sort_key (\<lambda>e. - vd_TS e) (List.map_filter Unmarshal_verdict vals))))"

datatype page = Page int string

definition thanks_page :: "string \<Rightarrow> string \<Rightarrow> string" where
  "thanks_page verdict name =
     ''<html><body style='' @ [CHR 0x22] @ ''font-family:sans-serif'' @ [CHR 0x22] @ ''><h2>Thanks</h2><p>Recorded feedback <b>'' @
     verdict @ ''</b> for alert <b>'' @ name @ ''</b>. muthur will use this to improve future analyses.</p></body></html>''"

text \<open>The argument \<open>q\<close> is the raw query of the request; \<open>now\<close> is the clock of the lookup, \<open>stamp\<close> the time
  written into the verdict and \<open>now'\<close> the clock of the store when it is written.\<close>

definition Feedback_ServeHTTP ::
  "(bytes \<Rightarrow> bytes) \<Rightarrow> 's store_ops \<Rightarrow> Manager \<Rightarrow> gotime \<Rightarrow> gotime \<Rightarrow> gotime \<Rightarrow> 's \<Rightarrow> string \<Rightarrow> page \<times> metric list \<times> 's" where
  "Feedback_ServeHTTP sha256 ops m now stamp now' s q =
     (let i = Query_Get q ''id''; verdict = Query_Get q ''verdict''
      in if i = [] \<or> verdict \<noteq> ''useful'' \<and> verdict \<noteq> ''wrong'' then (Page 400 ''bad request'', [], s)
         else case Store_Get ops now s (pending_key i) of
                Inl _ \<Rightarrow> (Page 500 ''internal error'', [], s)
              | Inr None \<Rightarrow> (Page 404 ''feedback link expired or unknown'', [], s)
              | Inr (Some data) \<Rightarrow>
                  (case Unmarshal_pending data of
                     None \<Rightarrow> (Page 500 ''internal error'', [], s)
                   | Some pend \<Rightarrow>
                       (let entry = \<lparr>vd_AlertName = pe_AlertName pend, vd_Verdict = verdict, vd_Analysis = pe_Analysis pend,
                                     vd_TS = unix_of stamp\<rparr>;
                            key = verdict_prefix sha256 (pe_AlertName pend) @ i
                        in (Page 200 (thanks_page verdict (pe_AlertName pend)), [Feedback verdict],
                            snd (Store_Set ops now' s key (Marshal (verdict_json entry)) (verdictTTL m))))))"

section \<open>Entries survive the store\<close>

lemma decode_analysis_or_null: "decode_ptr decode_analysis zero_analysis None (analysis_or_null a) = Some a"
  using decode_analysis_ptr by (cases a) (simp_all add: analysis_or_null_def del: decode_ptr.simps(2))

lemma analysis_or_null_ok: "(case a of None \<Rightarrow> True | Some x \<Rightarrow> utf8_analysis x) \<Longrightarrow> 0 < d \<Longrightarrow> json_ok d (analysis_or_null a)"
  by (cases a) (simp_all add: analysis_or_null_def analysis_json_ok)

lemma Unmarshal_Marshal_pending:
  assumes "valid_utf8 (pe_ClusterID e)" "valid_utf8 (pe_AlertName e)" "valid_utf8 (pe_Namespace e)"
    and "case pe_Analysis e of None \<Rightarrow> True | Some a \<Rightarrow> utf8_analysis a"
  shows "Unmarshal_pending (Marshal (pending_json e)) = Some e"
proof -
  have "json_ok max_depth (pending_json e)"
    using assms by (auto simp: pending_json_def utf8_name byte_in_def analysis_or_null_ok max_depth_def)
  moreover have "decode_pending (pending_json e) = Some e"
    by (cases e) (simp add: decode_pending_def pending_json_def json_fold_lower byte_in_def decode_analysis_or_null
        del: json_fold.simps decode_ptr.simps)
  ultimately show ?thesis by (simp add: Unmarshal_pending_def json_roundtrip)
qed

lemma Unmarshal_Marshal_verdict:
  assumes "valid_utf8 (vd_AlertName e)" "valid_utf8 (vd_Verdict e)" "in_int64 (vd_TS e)"
    and "case vd_Analysis e of None \<Rightarrow> True | Some a \<Rightarrow> utf8_analysis a"
  shows "Unmarshal_verdict (Marshal (verdict_json e)) = Some e"
proof -
  have "json_ok max_depth (verdict_json e)"
    using assms by (auto simp: verdict_json_def utf8_name byte_in_def analysis_or_null_ok number_ok_show_int max_depth_def)
  moreover have "decode_verdict (verdict_json e) = Some e"
    using assms(3)
    by (cases e) (simp add: decode_verdict_def verdict_json_def json_fold_lower byte_in_def decode_analysis_or_null
        decode_int_show del: json_fold.simps decode_ptr.simps decode_int.simps)
  ultimately show ?thesis by (simp add: Unmarshal_verdict_def json_roundtrip)
qed

section \<open>The links carry the identifier\<close>

text \<open>Characters that stand for themselves in a query.\<close>

definition plain :: "char \<Rightarrow> bool" where
  "plain c \<longleftrightarrow> c \<notin> set ''%+&;=''"

lemma QueryUnescape_plain: "list_all plain s \<Longrightarrow> QueryUnescape s = Some s"
  by (induction s) (auto simp: plain_def)

lemma parse_param_plain:
  assumes "list_all plain k" "list_all plain v" "k \<noteq> []"
  shows "parse_param (k @ ''='' @ v) = Some (k, v)"
proof -
  have "takeWhile (\<lambda>c. c \<noteq> CHR ''='') (k @ CHR ''='' # v) = k"
    using assms(1) by (subst takeWhile_append2) (auto simp: list_all_iff plain_def)
  moreover have "CHR '';'' \<notin> set (k @ CHR ''='' # v)" using assms by (auto simp: list_all_iff plain_def)
  ultimately show ?thesis using assms by (simp add: parse_param_def QueryUnescape_plain)
qed

lemma feedback_query_params:
  assumes "list_all plain i" "list_all plain v"
  shows "Query_Get (feedback_query i v) ''id'' = i" "Query_Get (feedback_query i v) ''verdict'' = v"
proof -
  have "Split (feedback_query i v) CHR ''&'' = [''id'' @ ''='' @ i, ''verdict'' @ ''='' @ v]"
    using Split_append_two [of "CHR ''&''" "''id='' @ i" "''verdict='' @ v"] assms
    by (auto simp: feedback_query_def list_all_iff plain_def)
  then have "ParseQuery (feedback_query i v) = [(''id'', i), (''verdict'', v)]"
    using parse_param_plain [of "''id''" i] parse_param_plain [of "''verdict''" v] assms
    by (simp add: ParseQuery_def map_filter_simps plain_def)
  then show "Query_Get (feedback_query i v) ''id'' = i" "Query_Get (feedback_query i v) ''verdict'' = v"
    by (simp_all add: Query_Get_def)
qed

lemma feedback_id_plain: "list_all plain (feedback_id sha256 p)"
proof -
  have "list_all is_lower_hex (feedback_id sha256 p)"
    using hex_encode_lower_hex [of "sha256 (raw_episode_key p)"]
    by (auto simp: feedback_id_def alertkey_ID_def list_all_iff dest!: in_set_takeD)
  then show ?thesis by (auto simp: list_all_iff plain_def is_lower_hex_def is_digit_def)
qed

text \<open>An element that few others precede is among the first ones after sorting, whatever the order of equal ones.\<close>

lemma sort_key_take:
  fixes f :: "'a \<Rightarrow> int"
  assumes "x \<in> set xs" and "length (filter (\<lambda>y. f y \<le> f x) xs) \<le> n"
  shows "x \<in> set (take n (sort_key f xs))"
proof -
  let ?ys = "sort_key f xs"
  obtain i where i: "i < length ?ys" "?ys ! i = x" using assms(1) by (metis in_set_conv_nth set_sort)
  have "f (?ys ! j) \<le> f x" if "j \<le> i" for j
    using sorted_nth_mono [OF sorted_sort_key [of f xs], of j i] that i by (simp add: nth_map)
  then have "filter (\<lambda>y. f y \<le> f x) (take (Suc i) ?ys) = take (Suc i) ?ys"
    using i(1) by (auto simp: filter_id_conv in_set_conv_nth)
  then have "Suc i \<le> length (filter (\<lambda>y. f y \<le> f x) (take (Suc i) ?ys @ drop (Suc i) ?ys))"
    using i(1) unfolding filter_append by simp
  also have "\<dots> = length (filter (\<lambda>y. f y \<le> f x) xs)"
    by (metis append_take_drop_id filter_sort length_sort)
  finally have "i < n" using assms(2) by simp
  then show ?thesis using i by (auto simp: in_set_conv_nth intro!: exI [of _ i])
qed

section \<open>From a click to the next prompt\<close>

text \<open>The verdicts given for an alert name that are in the store.\<close>

definition verdicts_given :: "(bytes \<Rightarrow> bytes) \<Rightarrow> 's store_ops \<Rightarrow> gotime \<Rightarrow> 's \<Rightarrow> string \<Rightarrow> verdictEntry list" where
  "verdicts_given sha256 ops t s name =
     (case Store_ListByPrefix ops t s (verdict_prefix sha256 name) of Inl _ \<Rightarrow> [] | Inr vs \<Rightarrow> List.map_filter Unmarshal_verdict vs)"

definition example_of :: "verdictEntry \<Rightarrow> Example" where
  "example_of e = \<lparr>Ex_AlertName = vd_AlertName e, Verdict = vd_Verdict e, Ex_Analysis = vd_Analysis e\<rparr>"

lemma Examples_verdicts:
  "Feedback_Examples sha256 ops m t s p =
     map example_of (take (nat (fewShot m)) (sort_key (\<lambda>e. - vd_TS e) (verdicts_given sha256 ops t s (AlertName p))))"
  by (simp add: Feedback_Examples_def verdicts_given_def example_of_def [abs_def] map_filter_simps split: sum.split)

definition utf8_alert :: "AlertPayload \<Rightarrow> bool" where
  "utf8_alert p \<longleftrightarrow> valid_utf8 (ClusterId p) \<and> valid_utf8 (AlertName p) \<and> valid_utf8 (Namespace p)"

definition clicked :: "AlertPayload \<Rightarrow> Analysis \<Rightarrow> string \<Rightarrow> gotime \<Rightarrow> verdictEntry" where
  "clicked p a verdict stamp =
     \<lparr>vd_AlertName = AlertName p, vd_Verdict = verdict, vd_Analysis = Some a, vd_TS = unix_of stamp\<rparr>"

definition verdict_key :: "(bytes \<Rightarrow> bytes) \<Rightarrow> AlertPayload \<Rightarrow> string" where
  "verdict_key sha256 p = verdict_prefix sha256 (AlertName p) @ feedback_id sha256 p"

lemma plain_verdict_prefix: "plain_prefix (verdict_prefix sha256 name)"
proof -
  have "list_all is_lower_hex (alertHash sha256 name)"
    using hex_encode_lower_hex [of "sha256 name"] by (auto simp: alertHash_def list_all_iff dest!: in_set_takeD)
  then show ?thesis by (auto simp: plain_prefix_def verdict_prefix_def list_all_iff is_lower_hex_def is_digit_def)
qed

lemma clicked_roundtrip:
  assumes "utf8_alert p" "utf8_analysis a" "verdict = ''useful'' \<or> verdict = ''wrong''" "in_int64 (unix_of stamp)"
  shows "Unmarshal_verdict (Marshal (verdict_json (clicked p a verdict stamp))) = Some (clicked p a verdict stamp)"
  using assms by (intro Unmarshal_Marshal_verdict) (auto simp: clicked_def utf8_alert_def utf8_name byte_in_def)

context kv_store
begin

lemma feedback_recorded:
  assumes "inv s" and "0 \<le> now" and "LinksEnabled m"
  shows "\<exists>s1. Feedback_Record sha256 ops m now s p (Some a) =
       ((publicURL m @ ''/feedback?'' @ feedback_query (feedback_id sha256 p) ''useful'',
         publicURL m @ ''/feedback?'' @ feedback_query (feedback_id sha256 p) ''wrong''), s1) \<and> inv s1 \<and>
     (held now (pendingTTL m) t \<longrightarrow>
        live t s1 (pending_key (feedback_id sha256 p)) = Some (Marshal (pending_json (pending_of p a))))"
proof -
  let ?set = "Store_Set ops now s (pending_key (feedback_id sha256 p)) (Marshal (pending_json (pending_of p a))) (pendingTTL m)"
  have "fst ?set = None" using assms(1) by (rule set_ok)
  then obtain s1 where s1: "?set = (None, s1)" by (cases ?set) auto
  have "Feedback_Record sha256 ops m now s p (Some a) =
       ((publicURL m @ ''/feedback?'' @ feedback_query (feedback_id sha256 p) ''useful'',
         publicURL m @ ''/feedback?'' @ feedback_query (feedback_id sha256 p) ''wrong''), s1)"
    using s1 assms(3) by (simp add: Feedback_Record_def Let_def)
  moreover have "inv (snd ?set)" using assms(1) by (rule set_inv)
  moreover have "held now (pendingTTL m) t \<longrightarrow>
      live t (snd ?set) (pending_key (feedback_id sha256 p)) = Some (Marshal (pending_json (pending_of p a)))"
    using assms(1,2) by (simp add: set_live)
  ultimately show ?thesis unfolding s1 by auto
qed

lemma click_recorded:
  assumes "inv s" and ok: "utf8_alert p" "utf8_analysis a" and v: "verdict = ''useful'' \<or> verdict = ''wrong''"
    and "feedback_id sha256 p \<noteq> []"
    and "live t s (pending_key (feedback_id sha256 p)) = Some (Marshal (pending_json (pending_of p a)))"
  shows "Feedback_ServeHTTP sha256 ops m t stamp now' s (feedback_query (feedback_id sha256 p) verdict) =
       (Page 200 (thanks_page verdict (AlertName p)), [Feedback verdict],
        snd (Store_Set ops now' s (verdict_key sha256 p) (Marshal (verdict_json (clicked p a verdict stamp))) (verdictTTL m)))"
proof -
  have dec: "Unmarshal_pending (Marshal (pending_json (pending_of p a))) = Some (pending_of p a)"
    using ok by (intro Unmarshal_Marshal_pending) (auto simp: pending_of_def utf8_alert_def)
  have "list_all plain verdict" using v by (auto simp: plain_def)
  note q = feedback_query_params [OF feedback_id_plain this, of sha256 p]
  show ?thesis
    using assms q dec
    by (auto simp: Feedback_ServeHTTP_def Let_def get_live pending_of_def clicked_def verdict_key_def)
qed

lemma clicked_is_given:
  assumes inv: "inv s" and ok: "utf8_alert p" "utf8_analysis a" "verdict = ''useful'' \<or> verdict = ''wrong''" "in_int64 (unix_of stamp)"
    and live: "live t s (verdict_key sha256 p) = Some (Marshal (verdict_json (clicked p a verdict stamp)))"
  shows "clicked p a verdict stamp \<in> set (verdicts_given sha256 ops t s (AlertName p))"
proof -
  obtain vs where vs: "Store_ListByPrefix ops t s (verdict_prefix sha256 (AlertName p)) = Inr vs"
    "set vs = {v. \<exists>k. HasPrefix k (verdict_prefix sha256 (AlertName p)) \<and> live t s k = Some v}"
    using list_live [OF inv plain_verdict_prefix] by blast
  have "HasPrefix (verdict_key sha256 p) (verdict_prefix sha256 (AlertName p))"
    by (simp add: verdict_key_def HasPrefix_def)
  with live vs(2) have "Marshal (verdict_json (clicked p a verdict stamp)) \<in> set vs" by blast
  then show ?thesis using vs(1) clicked_roundtrip [OF ok] by (force simp: verdicts_given_def List.map_filter_def)
qed

lemma feedback_loop:
  assumes "inv s" and "0 \<le> now" and "0 \<le> now'" and "LinksEnabled m"
    and ok: "utf8_alert p" "utf8_analysis a" "verdict = ''useful'' \<or> verdict = ''wrong''" "in_int64 (unix_of stamp)"
    and id: "feedback_id sha256 p \<noteq> []"
    and t: "list_all (spares t (pending_key (feedback_id sha256 p))) evs" "held now (pendingTTL m) t"
    and t': "list_all (spares t' (verdict_key sha256 p)) evs'" "held now' (verdictTTL m) t'"
    and rec: "Feedback_Record sha256 ops m now s p (Some a) = ((up, down), s1)"
    and click: "Feedback_ServeHTTP sha256 ops m t stamp now' (store_run ops background evs s1)
        (feedback_query (feedback_id sha256 p) verdict) = (pg, ms, s2)"
    and name: "AlertName p' = AlertName p"
    and few: "length (filter (\<lambda>e. unix_of stamp \<le> vd_TS e)
        (verdicts_given sha256 ops t' (store_run ops background evs' s2) (AlertName p))) \<le> nat (fewShot m)"
  shows "up = publicURL m @ ''/feedback?'' @ feedback_query (feedback_id sha256 p) ''useful'' \<and>
     down = publicURL m @ ''/feedback?'' @ feedback_query (feedback_id sha256 p) ''wrong'' \<and>
     pg = Page 200 (thanks_page verdict (AlertName p)) \<and>
     \<lparr>Ex_AlertName = AlertName p, Verdict = verdict, Ex_Analysis = Some a\<rparr> \<in>
       set (Feedback_Examples sha256 ops m t' (store_run ops background evs' s2) p')"
proof -
  from feedback_recorded [OF assms(1,2,4), of sha256 p a t] rec t(2)
  have links: "up = publicURL m @ ''/feedback?'' @ feedback_query (feedback_id sha256 p) ''useful''"
      "down = publicURL m @ ''/feedback?'' @ feedback_query (feedback_id sha256 p) ''wrong''"
    and s1: "inv s1" "live t s1 (pending_key (feedback_id sha256 p)) = Some (Marshal (pending_json (pending_of p a)))"
    by auto
  have run1: "inv (store_run ops background evs s1)"
    "live t (store_run ops background evs s1) (pending_key (feedback_id sha256 p)) = Some (Marshal (pending_json (pending_of p a)))"
    using s1 t(1) by (auto intro: run_inv run_frame)
  let ?e = "clicked p a verdict stamp"
  let ?set = "Store_Set ops now' (store_run ops background evs s1) (verdict_key sha256 p) (Marshal (verdict_json ?e)) (verdictTTL m)"
  have pg: "pg = Page 200 (thanks_page verdict (AlertName p))" and "s2 = snd ?set"
    using click_recorded [OF run1(1) ok(1,2,3) id run1(2), of m stamp now'] click by auto
  then have s2: "inv s2" "live t' s2 (verdict_key sha256 p) = Some (Marshal (verdict_json ?e))"
    using run1(1) assms(3) t'(2) by (simp_all add: set_inv set_live)
  let ?s = "store_run ops background evs' s2"
  have run2: "inv ?s" "live t' ?s (verdict_key sha256 p) = Some (Marshal (verdict_json ?e))"
    using s2 t'(1) by (auto intro: run_inv run_frame)
  have "?e \<in> set (take (nat (fewShot m)) (sort_key (\<lambda>e. - vd_TS e) (verdicts_given sha256 ops t' ?s (AlertName p))))"
    using few by (intro sort_key_take clicked_is_given [OF run2(1) ok run2(2)]) (simp add: clicked_def)
  then have "example_of ?e \<in> set (Feedback_Examples sha256 ops m t' ?s p')"
    unfolding Examples_verdicts name by simp
  with links pg show ?thesis by (simp add: example_of_def clicked_def)
qed

end

text \<open>C29: Operator feedback reaches the next prompts. After an analysis was recorded, either link can be opened
  while the pending entry lives (seven days): the page confirms the verdict, and for as long as the verdict itself lives (thirty
  days) it is among the examples offered for every alert of that name, unless as many other live verdicts as there are examples
  are as new or newer. Nobody else touches the two keys meanwhile (a second click on a link of the same alert replaces the
  verdict). The examples do not depend on the cluster, so a verdict given for one cluster steers the evaluations of all of them.\<close>

theorem feedback_reaches_prompt:
  assumes "memory_inv s" and "0 \<le> now" and "0 \<le> now'" and "LinksEnabled m"
    and "utf8_alert p" "utf8_analysis a" "verdict = ''useful'' \<or> verdict = ''wrong''" "in_int64 (unix_of stamp)"
    and "feedback_id sha256 p \<noteq> []"
    and "list_all (spares t (pending_key (feedback_id sha256 p))) evs" "held now (pendingTTL m) t"
    and "list_all (spares t' (verdict_key sha256 p)) evs'" "held now' (verdictTTL m) t'"
    and "Feedback_Record sha256 memory_ops m now s p (Some a) = ((up, down), s1)"
    and "Feedback_ServeHTTP sha256 memory_ops m t stamp now' (store_run memory_ops Memory_background evs s1)
        (feedback_query (feedback_id sha256 p) verdict) = (pg, ms, s2)"
    and "AlertName p' = AlertName p"
    and "length (filter (\<lambda>e. unix_of stamp \<le> vd_TS e)
        (verdicts_given sha256 memory_ops t' (store_run memory_ops Memory_background evs' s2) (AlertName p))) \<le> nat (fewShot m)"
  shows "up = publicURL m @ ''/feedback?'' @ feedback_query (feedback_id sha256 p) ''useful'' \<and>
     down = publicURL m @ ''/feedback?'' @ feedback_query (feedback_id sha256 p) ''wrong'' \<and>
     pg = Page 200 (thanks_page verdict (AlertName p)) \<and>
     \<lparr>Ex_AlertName = AlertName p, Verdict = verdict, Ex_Analysis = Some a\<rparr> \<in>
       set (Feedback_Examples sha256 memory_ops m t' (store_run memory_ops Memory_background evs' s2) p')"
  using assms by (rule mem.feedback_loop)

section \<open>One click\<close>

definition demo_manager :: Manager where
  "demo_manager = Feedback_New ''https://m/'' 0"

lemma demo_manager_facts: "LinksEnabled demo_manager" "0 < fewShot demo_manager"
  "held 0 (pendingTTL demo_manager) 1" "held 1 (verdictTTL demo_manager) 2"
  by (simp_all add: demo_manager_def Feedback_New_def LinksEnabled_def trimSlash_def TrimRight_def held_def)

lemma demo_feedback_ok: "utf8_alert demo_alert" "feedback_id pad32 demo_alert \<noteq> []"
proof -
  show "utf8_alert demo_alert"
    by (simp add: utf8_alert_def demo_alert_def zero_payload_def valid_utf8_ascii byte_in_def)
  have "length (feedback_id pad32 demo_alert) = 16" by (simp add: feedback_id_def alertkey_ID_def pad32_def)
  then show "feedback_id pad32 demo_alert \<noteq> []" by auto
qed

theorem feedback_reaches_prompt_witness:
  "\<exists>s1 s2 ms up down.
     Feedback_Record pad32 memory_ops demo_manager 0 NewMemory demo_alert (Some demo_verdict) = ((up, down), s1) \<and>
     Feedback_ServeHTTP pad32 memory_ops demo_manager 1 1 1 (store_run memory_ops Memory_background [] s1)
        (feedback_query (feedback_id pad32 demo_alert) ''useful'') = (Page 200 (thanks_page ''useful'' (AlertName demo_alert)), ms, s2) \<and>
     \<lparr>Ex_AlertName = AlertName demo_alert, Verdict = ''useful'', Ex_Analysis = Some demo_verdict\<rparr> \<in>
       set (Feedback_Examples pad32 memory_ops demo_manager 2 (store_run memory_ops Memory_background [] s2) (demo_alert\<lparr>ClusterId := ''other''\<rparr>))"
proof -
  have inv: "memory_inv NewMemory" by (simp add: memory_inv_def NewMemory_def)
  obtain up down s1 where rec:
    "Feedback_Record pad32 memory_ops demo_manager 0 NewMemory demo_alert (Some demo_verdict) = ((up, down), s1)"
    by (metis prod_cases3 prod.collapse)
  obtain pg ms s2 where click: "Feedback_ServeHTTP pad32 memory_ops demo_manager 1 1 1 (store_run memory_ops Memory_background [] s1)
      (feedback_query (feedback_id pad32 demo_alert) ''useful'') = (pg, ms, s2)"
    by (metis prod_cases3)
  have s1: "s1 = snd (Memory_Set 0 NewMemory (pending_key (feedback_id pad32 demo_alert))
      (Marshal (pending_json (pending_of demo_alert demo_verdict))) (pendingTTL demo_manager))"
    using rec demo_manager_facts(1)
    by (auto simp: Feedback_Record_def memory_ops_def Memory_Set_def Let_def)
  have l1: "memory_live 1 s1 (pending_key (feedback_id pad32 demo_alert)) = Some (Marshal (pending_json (pending_of demo_alert demo_verdict)))"
    and i1: "memory_inv s1"
    using mem.feedback_recorded [OF inv _ demo_manager_facts(1), of 0 pad32 demo_alert demo_verdict 1] rec demo_manager_facts by auto
  have s2: "s2 = snd (Store_Set memory_ops 1 s1 (verdict_key pad32 demo_alert)
      (Marshal (verdict_json (clicked demo_alert demo_verdict ''useful'' 1))) (verdictTTL demo_manager))"
    using mem.click_recorded [OF i1 demo_feedback_ok(1) utf8_demo_verdict _ demo_feedback_ok(2) l1, of "''useful''" demo_manager 1 1]
      click by (simp add: store_run_def)
  have stamp: "in_int64 (unix_of 1)" by (simp add: in_int64_def unix_of_def)
  have "length (verdicts_given pad32 memory_ops 2 (store_run memory_ops Memory_background [] s2) (AlertName demo_alert)) \<le> nat (fewShot demo_manager)"
  proof -
    have shorter: "length (List.map_filter f xs) \<le> length xs" for f :: "bytes \<Rightarrow> verdictEntry option" and xs
      by (simp add: List.map_filter_def)
    have "length (items s2) \<le> 3"
      by (simp add: s2 s1 memory_ops_def Memory_Set_def NewMemory_def)
    moreover have "nat (fewShot demo_manager) = 3" by (simp add: demo_manager_def Feedback_New_def)
    moreover have "length (verdicts_given pad32 memory_ops 2 s2 (AlertName demo_alert)) \<le> length (items s2)"
      by (auto simp: verdicts_given_def memory_ops_def Memory_ListByPrefix_def intro!: order_trans [OF shorter] length_filter_le)
    ultimately show ?thesis by (simp add: store_run_def)
  qed
  then have few: "length (filter (\<lambda>e. unix_of 1 \<le> vd_TS e)
      (verdicts_given pad32 memory_ops 2 (store_run memory_ops Memory_background [] s2) (AlertName demo_alert))) \<le> nat (fewShot demo_manager)"
    using length_filter_le le_trans by blast
  have "up = publicURL demo_manager @ ''/feedback?'' @ feedback_query (feedback_id pad32 demo_alert) ''useful'' \<and>
     down = publicURL demo_manager @ ''/feedback?'' @ feedback_query (feedback_id pad32 demo_alert) ''wrong'' \<and>
     pg = Page 200 (thanks_page ''useful'' (AlertName demo_alert)) \<and>
     \<lparr>Ex_AlertName = AlertName demo_alert, Verdict = ''useful'', Ex_Analysis = Some demo_verdict\<rparr> \<in>
       set (Feedback_Examples pad32 memory_ops demo_manager 2 (store_run memory_ops Memory_background [] s2) (demo_alert\<lparr>ClusterId := ''other''\<rparr>))"
    by (rule feedback_reaches_prompt [OF inv _ _ demo_manager_facts(1) demo_feedback_ok(1) utf8_demo_verdict _ stamp
          demo_feedback_ok(2) _ demo_manager_facts(3) _ demo_manager_facts(4) rec click _ few]) simp_all
  with rec click show ?thesis by blast
qed

end
