(* ===== verification/Evaluator.thy ===== *)
theory Evaluator
  imports Prompt Identity
begin

text \<open>
  \<open>internal/evaluator/analyzer.go\<close>: the validate-retry-degrade loop around a language model. The
  backend is the Go interface \<open>provider\<close>: a record of functions over a state \<open>'p\<close> that carries
  whatever the backend and the network keep. The result of a run comes with the counters it
  increments and the audit records it writes; call durations are not modelled.
\<close>

section \<open>Providers\<close>

record usage =
  u_input :: int
  u_output :: int

record 'p provider =
  pr_name :: string
  pr_model :: string
  pr_structured :: "'p \<Rightarrow> bool"
  pr_complete :: "'p \<Rightarrow> Prompt \<Rightarrow> (string + bytes \<times> usage) \<times> 'p"

datatype AuditMode = AuditOff | AuditHash | AuditFull

definition parseAuditMode :: "string \<Rightarrow> AuditMode" where
  "parseAuditMode s =
     (let m = ToLower (TrimSpace s)
      in if m = ''hash'' then AuditHash else if m = ''full'' then AuditFull else AuditOff)"

record 'p Evaluator =
  ev_provider :: "'p provider"
  maxRetries :: int
  auditMode :: AuditMode

datatype llm_error = Err_Call string string | ErrDegraded string

section \<open>The audit log\<close>

record audit_record =
  au_phase :: string
  au_id :: string
  au_provider :: string
  au_model :: string
  au_sums :: "string list"
  au_sizes :: "nat list"
  au_tokens :: "usage option"
  au_bodies :: "string list"
  au_identity :: "(string \<times> string \<times> string) option"

text \<open>The empty identifier stands for no record.\<close>

definition auditInput ::
  "(bytes \<Rightarrow> bytes) \<Rightarrow> 'p Evaluator \<Rightarrow> Identity option \<Rightarrow> Prompt \<Rightarrow> string \<times> audit_record list" where
  "auditInput sha256 e ident prompt =
     (if auditMode e = AuditOff then ([], [])
      else
        let sysSum = sha256 (System prompt); usrSum = sha256 (User prompt);
            ident' = hex_encode (take 8 (sha256 (sysSum @ usrSum)))
        in (ident',
            [\<lparr>au_phase = ''llm_input'', au_id = ident', au_provider = pr_name (ev_provider e), au_model = pr_model (ev_provider e),
              au_sums = [hex_encode sysSum, hex_encode usrSum],
              au_sizes = [length (System prompt), length (User prompt)], au_tokens = None,
              au_bodies = (if auditMode e = AuditFull then [System prompt, User prompt] else []),
              au_identity = map_option (\<lambda>i. (TenantID i, ClusterID i, Id_Serial i)) ident\<rparr>]))"

definition auditOutput ::
  "(bytes \<Rightarrow> bytes) \<Rightarrow> 'p Evaluator \<Rightarrow> string \<Rightarrow> bytes \<Rightarrow> usage \<Rightarrow> audit_record list" where
  "auditOutput sha256 e auditID raw u =
     (if auditMode e = AuditOff \<or> auditID = [] then []
      else
        [\<lparr>au_phase = ''llm_output'', au_id = auditID, au_provider = pr_name (ev_provider e), au_model = pr_model (ev_provider e),
          au_sums = [hex_encode (sha256 raw)], au_sizes = [length raw], au_tokens = Some u,
          au_bodies = (if auditMode e = AuditFull then [raw] else []), au_identity = None\<rparr>])"

section \<open>The loop\<close>

definition correctiveSuffix :: "string \<Rightarrow> string" where
  "correctiveSuffix err =
     nl @ nl @ ''=== Correction required ==='' @ nl @ ''Your previous response was invalid: '' @ err @ ''.'' @ nl @
     ''Respond again with a complete, schema-valid analysis. Include every required field '' @
     ''(severity, root_cause, evidence, action, confidence, grounding, silence) and use only the allowed '' @
     ''enum values: severity one of '' @ show_strings severityEnum @ '', confidence one of '' @ show_strings confidenceEnum @
     '', grounding one of '' @ show_strings groundingEnum @ ''.''"

definition corrected :: "Prompt \<Rightarrow> string \<Rightarrow> Prompt" where
  "corrected prompt err = \<lparr>System = System prompt, User = User prompt @ correctiveSuffix err\<rparr>"

text \<open>What the loop needs besides the prompt: \<open>json_error\<close> and \<open>isPrint\<close> as in theory \<open>Verdict\<close>.\<close>

record llm_texts =
  lt_json_error :: "bytes \<Rightarrow> string"
  lt_isPrint :: "string \<Rightarrow> bool"

text \<open>\<open>left\<close> counts the retries that remain after this attempt, so the loop runs \<open>left + 1\<close> times at
  most. The result: the verdict or an error, the backend's state, counters and audit records.\<close>

fun run_loop ::
  "llm_texts \<Rightarrow> (bytes \<Rightarrow> bytes) \<Rightarrow> 'p Evaluator \<Rightarrow> string \<Rightarrow> string \<Rightarrow> Prompt \<Rightarrow> nat \<Rightarrow> Prompt \<Rightarrow> 'p \<Rightarrow>
   (llm_error + Analysis) \<times> 'p \<times> metric list \<times> audit_record list" where
  "run_loop lt sha256 e cid auditID prompt left instruction st =
     (let name = pr_name (ev_provider e); model = pr_model (ev_provider e)
      in case pr_complete (ev_provider e) st instruction of
           (Inl err, st1) \<Rightarrow> (Inl (Err_Call name err), st1, [LLMCalls ''error'' name model cid], [])
         | (Inr (raw, u), st1) \<Rightarrow>
             (let tokens = [LLMTokens ''input'' name model cid (u_input u), LLMTokens ''output'' name model cid (u_output u)]
              in case decodeAndValidate (lt_json_error lt) (lt_isPrint lt) raw of
                   Inr analysis \<Rightarrow>
                     (Inr analysis, st1, tokens @ [LLMCalls ''ok'' name model cid], auditOutput sha256 e auditID raw u)
                 | Inl verr \<Rightarrow>
                     (case left of
                        0 \<Rightarrow> (Inl (ErrDegraded verr), st1,
                              tokens @ [LLMValidationFailures name model cid, LLMDegraded name model cid,
                                        LLMCalls ''error'' name model cid], [])
                      | Suc n \<Rightarrow>
                          (case run_loop lt sha256 e cid auditID prompt n (corrected prompt verr) st1 of
                             (res, st2, ms, aud) \<Rightarrow>
                               (res, st2, tokens @ [LLMValidationFailures name model cid, LLMRetries name model cid] @ ms, aud)))))"

declare run_loop.simps [simp del]

text \<open>A negative bound (which \<open>New\<close> rules out) would skip the loop.\<close>

definition run ::
  "llm_texts \<Rightarrow> (bytes \<Rightarrow> bytes) \<Rightarrow> 'p Evaluator \<Rightarrow> Identity option \<Rightarrow> Prompt \<Rightarrow> 'p \<Rightarrow>
   (llm_error + Analysis) \<times> 'p \<times> metric list \<times> audit_record list" where
  "run lt sha256 e ident prompt st =
     (let cid = (case ident of None \<Rightarrow> [] | Some i \<Rightarrow> ClusterID i);
          (auditID, aud) = auditInput sha256 e ident prompt;
          name = pr_name (ev_provider e); model = pr_model (ev_provider e)
      in if maxRetries e < 0
         then (Inl (ErrDegraded ''<nil>''), st, [LLMDegraded name model cid, LLMCalls ''error'' name model cid], aud)
         else case run_loop lt sha256 e cid auditID prompt (nat (maxRetries e)) prompt st of
                (res, st', ms, aud') \<Rightarrow> (res, st', ms, aud @ aud'))"

definition Evaluate where
  "Evaluate lt sha256 e ident payload examples st = run lt sha256 e ident (buildPrompt (lt_isPrint lt) payload examples) st"

definition EvaluateIncident where
  "EvaluateIncident lt sha256 e ident payloads examples st =
     run lt sha256 e ident (buildIncidentPrompt (lt_isPrint lt) payloads examples) st"

definition Evaluator_Name :: "'p Evaluator \<Rightarrow> string" where
  "Evaluator_Name e = pr_name (ev_provider e)"

section \<open>What a run does\<close>

text \<open>The exchanges whose answers were rejected: from an instruction and a backend state, through the
  rejected answers with their reasons, to the instruction and the state of the next call.\<close>

inductive rejected_calls ::
  "llm_texts \<Rightarrow> 'p provider \<Rightarrow> Prompt \<Rightarrow> Prompt \<Rightarrow> 'p \<Rightarrow> string list \<Rightarrow> Prompt \<Rightarrow> 'p \<Rightarrow> bool"
  for lt pr prompt where
  none: "rejected_calls lt pr prompt instruction st [] instruction st"
| again: "rejected_calls lt pr prompt instruction st (verr # errs) instruction' st'"
  if "pr_complete pr st instruction = (Inr (raw, u), st1)"
    and "decodeAndValidate (lt_json_error lt) (lt_isPrint lt) raw = Inl verr"
    and "rejected_calls lt pr prompt (corrected prompt verr) st1 errs instruction' st'"

inductive_simps rejected_calls_Nil: "rejected_calls lt pr prompt instruction st [] instruction' st'"
inductive_simps rejected_calls_Cons: "rejected_calls lt pr prompt instruction st (e # errs) instruction' st'"

text \<open>How the last call of a run settles its result; \<open>rejections\<close> is the number of answers rejected before.\<close>

definition last_call ::
  "llm_texts \<Rightarrow> 'p Evaluator \<Rightarrow> nat \<Rightarrow> nat \<Rightarrow> Prompt \<Rightarrow> 'p \<Rightarrow> llm_error + Analysis \<Rightarrow> 'p \<Rightarrow> bool" where
  "last_call lt e rejections bound instruction st res st' \<longleftrightarrow>
     (case pr_complete (ev_provider e) st instruction of
        (Inl err, st1) \<Rightarrow> st' = st1 \<and> res = Inl (Err_Call (pr_name (ev_provider e)) err)
      | (Inr (raw, u), st1) \<Rightarrow> st' = st1 \<and>
          (case decodeAndValidate (lt_json_error lt) (lt_isPrint lt) raw of
             Inr a \<Rightarrow> res = Inr a
           | Inl verr \<Rightarrow> rejections = bound \<and> res = Inl (ErrDegraded verr)))"

lemma last_call_verdict:
  assumes "last_call lt e n bound instruction st (Inr a) st'"
  shows "valid_verdict a"
proof -
  obtain ans st1 where call: "pr_complete (ev_provider e) st instruction = (ans, st1)" by fastforce
  then obtain raw u where "ans = Inr (raw, u)"
    using assms by (cases ans) (auto simp: last_call_def)
  then have "decodeAndValidate (lt_json_error lt) (lt_isPrint lt) raw = Inr a"
    using assms call by (cases "decodeAndValidate (lt_json_error lt) (lt_isPrint lt) raw") (auto simp: last_call_def)
  then show ?thesis by (simp add: decodeAndValidate_iff)
qed

lemma run_loop_calls:
  assumes "run_loop lt sha256 e cid auditID prompt left instruction st = (res, st', ms, aud)"
  shows "\<exists>errs instruction' st1.
     rejected_calls lt (ev_provider e) prompt instruction st errs instruction' st1 \<and> length errs \<le> left \<and>
     last_call lt e (length errs) left instruction' st1 res st' \<and>
     length (filter (\<lambda>m. m = LLMRetries (pr_name (ev_provider e)) (pr_model (ev_provider e)) cid) ms) = length errs"
  using assms
proof (induction left arbitrary: instruction st res st' ms aud)
  case 0
  show ?case
  proof (intro exI conjI)
    show "rejected_calls lt (ev_provider e) prompt instruction st [] instruction st" by (rule rejected_calls.none)
    show "last_call lt e (length []) 0 instruction st res st'"
      using 0 by (auto simp: run_loop.simps [of _ _ _ _ _ _ 0] last_call_def Let_def split: prod.splits sum.splits)
  qed (use 0 in \<open>auto simp: run_loop.simps [of _ _ _ _ _ _ 0] Let_def split: prod.splits sum.splits\<close>)
next
  case (Suc n)
  obtain ans st1 where call: "pr_complete (ev_provider e) st instruction = (ans, st1)" by fastforce
  consider (settled) "\<And>raw u verr. ans = Inr (raw, u) \<Longrightarrow> decodeAndValidate (lt_json_error lt) (lt_isPrint lt) raw \<noteq> Inl verr"
    | (rejected) raw u verr where "ans = Inr (raw, u)" "decodeAndValidate (lt_json_error lt) (lt_isPrint lt) raw = Inl verr"
    by blast
  then show ?case
  proof cases
    case settled
    have "last_call lt e (length ([] :: string list)) (Suc n) instruction st res st'" and "filter (\<lambda>m. m = LLMRetries (pr_name (ev_provider e)) (pr_model (ev_provider e)) cid) ms = []"
      using Suc.prems settled call
      by (auto simp: run_loop.simps [of _ _ _ _ _ _ "Suc n"] last_call_def Let_def split: prod.splits sum.splits)
    then show ?thesis
      using rejected_calls.none [of lt "ev_provider e" prompt instruction st] by fastforce
  next
    case rejected
    obtain ms' aud' where rest: "run_loop lt sha256 e cid auditID prompt n (corrected prompt verr) st1 = (res, st', ms', aud')"
      and ms: "ms = [LLMTokens ''input'' (pr_name (ev_provider e)) (pr_model (ev_provider e)) cid (u_input u),
          LLMTokens ''output'' (pr_name (ev_provider e)) (pr_model (ev_provider e)) cid (u_output u),
          LLMValidationFailures (pr_name (ev_provider e)) (pr_model (ev_provider e)) cid,
          LLMRetries (pr_name (ev_provider e)) (pr_model (ev_provider e)) cid] @ ms'"
      using Suc.prems call rejected
      by (auto simp: run_loop.simps [of _ _ _ _ _ _ "Suc n"] Let_def split: prod.splits)
    from Suc.IH [OF rest] obtain errs instruction' st2 where ih:
      "rejected_calls lt (ev_provider e) prompt (corrected prompt verr) st1 errs instruction' st2"
      "length errs \<le> n" "last_call lt e (length errs) n instruction' st2 res st'"
      "length (filter (\<lambda>m. m = LLMRetries (pr_name (ev_provider e)) (pr_model (ev_provider e)) cid) ms') = length errs"
      by blast
    have "last_call lt e (length (verr # errs)) (Suc n) instruction' st2 res st'"
      using ih(3) by (auto simp: last_call_def split: prod.splits sum.splits)
    with ih rejected call show ?thesis
      by (intro exI [of _ "verr # errs"] exI [of _ instruction'] exI [of _ st2])
        (auto simp: ms rejected_calls_Cons)
  qed
qed

lemma rejected_calls_System:
  "rejected_calls lt pr prompt instruction st errs instruction' st' \<Longrightarrow> System instruction = System prompt \<Longrightarrow>
   System instruction' = System prompt"
  by (induction rule: rejected_calls.induct) (auto simp: corrected_def)

text \<open>C23: Structured-output guarantee. A run of the evaluator always ends, after at most
  \<open>maxRetries\<close> rejected answers: every answer before the last was rejected by the validator, every retry
  sends the corrective prompt built from the latest rejection with the system half of the prompt
  untouched, the result is settled by the last answer alone (a transport error is returned as it is, a
  verdict is returned only when it passes the schema, and the degraded error is returned exactly when the
  retries are used up), and the retry counter shows the number of rejected answers.\<close>

theorem run_settled:
  assumes "0 \<le> maxRetries e"
  shows "\<exists>res st' ms aud errs instruction st1.
     run lt sha256 e ident prompt st = (res, st', ms, aud) \<and>
     rejected_calls lt (ev_provider e) prompt prompt st errs instruction st1 \<and>
     length errs \<le> nat (maxRetries e) \<and> System instruction = System prompt \<and>
     last_call lt e (length errs) (nat (maxRetries e)) instruction st1 res st' \<and>
     (\<forall>a. res = Inr a \<longrightarrow> valid_verdict a) \<and>
     length (filter (\<lambda>m. m = LLMRetries (pr_name (ev_provider e)) (pr_model (ev_provider e))
                             (case ident of None \<Rightarrow> [] | Some i \<Rightarrow> ClusterID i)) ms) = length errs"
proof -
  obtain auditID aud0 where a: "auditInput sha256 e ident prompt = (auditID, aud0)" by fastforce
  let ?cid = "case ident of None \<Rightarrow> [] | Some i \<Rightarrow> ClusterID i"
  obtain res st' ms aud where r:
    "run_loop lt sha256 e ?cid auditID prompt (nat (maxRetries e)) prompt st = (res, st', ms, aud)"
    by (metis prod_cases4)
  have run: "run lt sha256 e ident prompt st = (res, st', ms, aud0 @ aud)"
    using assms a r by (simp add: run_def Let_def)
  from run_loop_calls [OF r] obtain errs instruction st1 where calls:
    "rejected_calls lt (ev_provider e) prompt prompt st errs instruction st1"
    "length errs \<le> nat (maxRetries e)" "last_call lt e (length errs) (nat (maxRetries e)) instruction st1 res st'"
    "length (filter (\<lambda>m. m = LLMRetries (pr_name (ev_provider e)) (pr_model (ev_provider e)) ?cid) ms) = length errs"
    by blast
  have "\<forall>a. res = Inr a \<longrightarrow> valid_verdict a"
    using calls(3) by (auto intro: last_call_verdict)
  with run calls rejected_calls_System [OF calls(1)] show ?thesis by blast
qed

text \<open>What every call of the backend keeps or bounds, a whole run keeps or bounds.\<close>

lemma run_loop_bound:
  fixes cost :: "'p \<Rightarrow> nat"
  assumes call: "\<And>s p r s'. I s \<Longrightarrow> pr_complete (ev_provider e) s p = (r, s') \<Longrightarrow> I s' \<and> cost s' \<le> cost s + k"
    and "I st" and "run_loop lt sha256 e cid auditID prompt left instruction st = (res, st', ms, aud)"
  shows "I st' \<and> cost st' \<le> cost st + k * (left + 1)"
  using assms(2,3)
proof (induction left arbitrary: instruction st res st' ms aud)
  case 0
  obtain ans st1 where c: "pr_complete (ev_provider e) st instruction = (ans, st1)" by fastforce
  with 0 have "st' = st1" by (auto simp: run_loop.simps [of _ _ _ _ _ _ 0] Let_def split: prod.split_asm sum.split_asm)
  with call [OF 0(1) c] show ?case by simp
next
  case (Suc n)
  obtain ans st1 where c: "pr_complete (ev_provider e) st instruction = (ans, st1)" by fastforce
  have step: "I st1" "cost st1 \<le> cost st + k" using call [OF Suc.prems(1) c] by auto
  have "st' = st1 \<or> (\<exists>i res ms aud. run_loop lt sha256 e cid auditID prompt n i st1 = (res, st', ms, aud))"
    using Suc.prems(2) c
    by (auto simp: run_loop.simps [of _ _ _ _ _ _ "Suc n"] Let_def split: prod.split_asm sum.split_asm)
  then show ?case
  proof
    assume "st' = st1"
    then show ?thesis using step by simp
  next
    assume "\<exists>i res ms aud. run_loop lt sha256 e cid auditID prompt n i st1 = (res, st', ms, aud)"
    then obtain i res' ms' aud' where "run_loop lt sha256 e cid auditID prompt n i st1 = (res', st', ms', aud')" by blast
    from Suc.IH [OF step(1) this] step show ?thesis by simp
  qed
qed

lemma run_bound:
  fixes cost :: "'p \<Rightarrow> nat"
  assumes "\<And>s p r s'. I s \<Longrightarrow> pr_complete (ev_provider e) s p = (r, s') \<Longrightarrow> I s' \<and> cost s' \<le> cost s + k"
    and "I st" and "run lt sha256 e ident prompt st = (res, st', ms, aud)"
  shows "I st' \<and> cost st' \<le> cost st + k * (nat (maxRetries e) + 1)"
proof (cases "maxRetries e < 0")
  case True
  with assms(2,3) show ?thesis by (auto simp: run_def Let_def split: prod.split_asm)
next
  case False
  obtain cid auditID aud' where "run_loop lt sha256 e cid auditID prompt (nat (maxRetries e)) prompt st = (res, st', ms, aud')"
    using assms(3) False by (auto simp: run_def Let_def split: prod.split_asm)
  from run_loop_bound [of I e cost k, OF assms(1,2) this] show ?thesis .
qed

section \<open>The audit trail\<close>

lemma run_loop_audit:
  assumes "run_loop lt sha256 e cid auditID prompt left instruction st = (res, st', ms, aud)"
  shows "\<exists>raw u. aud = (case res of Inr a \<Rightarrow> auditOutput sha256 e auditID raw u | Inl _ \<Rightarrow> []) \<and>
     (\<forall>a. res = Inr a \<longrightarrow> Unmarshal_Analysis raw = Some a)"
  using assms
proof (induction left arbitrary: instruction st res st' ms aud)
  case 0
  then show ?case
    by (fastforce simp: run_loop.simps [of _ _ _ _ _ _ 0] Let_def decodeAndValidate_iff split: prod.split_asm sum.split_asm)
next
  case (Suc n)
  obtain ans st1 where call: "pr_complete (ev_provider e) st instruction = (ans, st1)" by fastforce
  consider (failed) err where "ans = Inl err"
    | (accepted) raw u a where "ans = Inr (raw, u)" "decodeAndValidate (lt_json_error lt) (lt_isPrint lt) raw = Inr a"
    | (rejected) raw u verr where "ans = Inr (raw, u)" "decodeAndValidate (lt_json_error lt) (lt_isPrint lt) raw = Inl verr"
    by (metis old.sum.exhaust surj_pair)
  then show ?case
  proof cases
    case rejected
    then obtain ms' where "run_loop lt sha256 e cid auditID prompt n (corrected prompt verr) st1 = (res, st', ms', aud)"
      using Suc.prems call by (auto simp: run_loop.simps [of _ _ _ _ _ _ "Suc n"] Let_def split: prod.splits)
    then show ?thesis by (rule Suc.IH)
  next
    case accepted
    then have "res = Inr a" and "aud = auditOutput sha256 e auditID raw u"
      using Suc.prems call by (auto simp: run_loop.simps [of _ _ _ _ _ _ "Suc n"] Let_def)
    moreover have "Unmarshal_Analysis raw = Some a" using accepted by (simp add: decodeAndValidate_iff)
    ultimately show ?thesis by fastforce
  qed (use Suc.prems call in \<open>auto simp: run_loop.simps [of _ _ _ _ _ _ "Suc n"] Let_def\<close>)
qed

text \<open>Audit trail. With auditing off a run writes no audit record; in hash mode no record carries
  a prompt or an answer; in every mode a verdict that is returned has an output record with the identifier
  of its input record, and a run that returns an error has the input record only.\<close>

theorem run_audit:
  assumes "run lt sha256 e ident prompt st = (res, st', ms, aud)" and "\<And>bs. length (sha256 bs) = 32"
  shows "(auditMode e = AuditOff \<longrightarrow> aud = []) \<and>
     (auditMode e = AuditHash \<longrightarrow> list_all (\<lambda>r. au_bodies r = []) aud) \<and>
     (auditMode e \<noteq> AuditOff \<longrightarrow>
        (\<exists>i. au_phase i = ''llm_input'' \<and> au_sums i = [hex_encode (sha256 (System prompt)), hex_encode (sha256 (User prompt))] \<and>
           (case res of
              Inl _ \<Rightarrow> aud = [i]
            | Inr a \<Rightarrow> (\<exists>out raw. aud = [i, out] \<and> au_phase out = ''llm_output'' \<and> au_id out = au_id i \<and>
                au_sums out = [hex_encode (sha256 raw)] \<and> Unmarshal_Analysis raw = Some a))))"
proof -
  let ?cid = "case ident of None \<Rightarrow> [] | Some i \<Rightarrow> ClusterID i"
  obtain auditID aud0 where a: "auditInput sha256 e ident prompt = (auditID, aud0)" by fastforce
  have ne: "auditMode e \<noteq> AuditOff \<Longrightarrow> auditID \<noteq> []"
    using a assms(2) [of "sha256 (System prompt) @ sha256 (User prompt)"]
    by (cases "sha256 (sha256 (System prompt) @ sha256 (User prompt))") (auto simp: auditInput_def Let_def hex_encode_def)
  show ?thesis
  proof (cases "maxRetries e < 0")
    case True
    with assms(1) a show ?thesis by (auto simp: run_def Let_def auditInput_def split: if_splits)
  next
    case False
    obtain aud' where loop: "run_loop lt sha256 e ?cid auditID prompt (nat (maxRetries e)) prompt st = (res, st', ms, aud')"
      and aud: "aud = aud0 @ aud'"
      using assms(1) a False by (auto simp: run_def Let_def split: prod.splits)
    from run_loop_audit [OF loop] obtain raw u where aud': "aud' = (case res of Inr a \<Rightarrow> auditOutput sha256 e auditID raw u | Inl _ \<Rightarrow> [])"
      and raw: "\<forall>a. res = Inr a \<longrightarrow> Unmarshal_Analysis raw = Some a"
      by blast
    show ?thesis
      using a ne aud aud' raw
      by (cases res) (auto simp: auditInput_def auditOutput_def Let_def split: if_splits)
  qed
qed

section \<open>A backend that repairs its answer\<close>

text \<open>The backend answers from a list: first \<open>null\<close>, which the validator rejects, then a verdict.\<close>

definition scripted :: "bytes list provider" where
  "scripted = \<lparr>pr_name = ''scripted'', pr_model = ''m'', pr_structured = (\<lambda>_. True),
     pr_complete = (\<lambda>st _. case st of [] \<Rightarrow> (Inl ''no answer'', []) | a # rest \<Rightarrow> (Inr (a, \<lparr>u_input = 1, u_output = 2\<rparr>), rest))\<rparr>"

definition scripted_evaluator :: "bytes list Evaluator" where
  "scripted_evaluator = \<lparr>ev_provider = scripted, maxRetries = 1, auditMode = AuditHash\<rparr>"

definition demo_texts :: llm_texts where
  "demo_texts = \<lparr>lt_json_error = (\<lambda>_. ''invalid''), lt_isPrint = (\<lambda>_. True)\<rparr>"

definition demo_prompt :: Prompt where "demo_prompt = \<lparr>System = ''s'', User = ''u''\<rparr>"

lemma decode_scripted:
  "decodeAndValidate je ip (Marshal (analysis_json demo_verdict)) = Inr demo_verdict"
  "\<exists>verr. decodeAndValidate je ip (Marshal JNull) = Inl verr"
proof -
  show "decodeAndValidate je ip (Marshal (analysis_json demo_verdict)) = Inr demo_verdict"
    by (simp add: decodeAndValidate_iff Unmarshal_Marshal_Analysis utf8_demo_verdict valid_demo_verdict)
  have "Unmarshal_Analysis (Marshal JNull) = Some zero_analysis"
    using json_roundtrip [of JNull] by (simp add: Unmarshal_Analysis_def decode_analysis_def)
  moreover have "\<not> valid_verdict zero_analysis" by (simp add: valid_verdict_def zero_analysis_def)
  ultimately show "\<exists>verr. decodeAndValidate je ip (Marshal JNull) = Inl verr"
    using decodeAndValidate_iff [of je ip "Marshal JNull"] by (cases "decodeAndValidate je ip (Marshal JNull)") auto
qed

lemma scripted_run:
  "\<exists>ms aud. run demo_texts sha scripted_evaluator None demo_prompt [Marshal JNull, Marshal (analysis_json demo_verdict)] =
     (Inr demo_verdict, [], ms, aud)"
  using decode_scripted(2) [of "lt_json_error demo_texts" "lt_isPrint demo_texts"]
  by (auto simp: run_def run_loop.simps scripted_evaluator_def scripted_def decode_scripted(1) Let_def split: prod.split)

theorem run_settled_witness:
  "0 \<le> maxRetries scripted_evaluator \<and>
   (\<exists>res st' ms aud errs instruction st1.
     run demo_texts pad32 scripted_evaluator None demo_prompt [Marshal JNull, Marshal (analysis_json demo_verdict)] = (res, st', ms, aud) \<and>
     rejected_calls demo_texts scripted demo_prompt demo_prompt [Marshal JNull, Marshal (analysis_json demo_verdict)] errs instruction st1 \<and>
     length errs \<le> 1 \<and> res = Inr demo_verdict \<and> valid_verdict demo_verdict)"
proof -
  have bound: "0 \<le> maxRetries scripted_evaluator" by (simp add: scripted_evaluator_def)
  from run_settled [OF bound, of demo_texts pad32 None demo_prompt "[Marshal JNull, Marshal (analysis_json demo_verdict)]"]
    scripted_run [of pad32] bound
  show ?thesis unfolding scripted_evaluator_def by fastforce
qed

theorem run_audit_witness:
  "\<exists>ms i out raw. run demo_texts pad32 scripted_evaluator None demo_prompt
       [Marshal JNull, Marshal (analysis_json demo_verdict)] = (Inr demo_verdict, [], ms, [i, out]) \<and>
     au_bodies i = [] \<and> au_bodies out = [] \<and> au_id out = au_id i \<and> Unmarshal_Analysis raw = Some demo_verdict"
proof -
  obtain ms aud where r: "run demo_texts pad32 scripted_evaluator None demo_prompt
     [Marshal JNull, Marshal (analysis_json demo_verdict)] = (Inr demo_verdict, [], ms, aud)"
    using scripted_run by blast
  have "\<And>bs. length (pad32 bs) = 32" by (simp add: pad32_def)
  from run_audit [OF r this] r show ?thesis by (auto simp: scripted_evaluator_def)
qed

end
