(* ===== verification/Notify.thy ===== *)
theory Notify
  imports Messages FloatText UrlQuery
begin

text \<open>
  The core of \<open>internal/notify\<close>: the message handed to every channel (\<open>notifier.go\<close>), its construction
  (\<open>formatter.go\<close>) and the curated evidence (\<open>evidence.go\<close>). Pointer comparison of alerts is comparison of
  \<open>ptr\<close>; an index out of range is the panic \<open>None\<close>.
\<close>

section \<open>Messages\<close>

record Message =
  Payload :: "AlertPayload option"
  M_Analysis :: "Analysis option"
  GrafanaURL :: string
  M_Incident :: "AlertPayload list option"
  FeedbackUpURL :: string
  FeedbackDownURL :: string
  EvidenceLogs :: "string list"
  EvidenceMetrics :: "string list"

definition HasEvidence :: "Message \<Rightarrow> bool" where
  "HasEvidence m \<longleftrightarrow> EvidenceLogs m \<noteq> [] \<or> EvidenceMetrics m \<noteq> []"

definition IsIncident :: "Message \<Rightarrow> bool" where
  "IsIncident m \<longleftrightarrow> (case M_Incident m of None \<Rightarrow> False | Some alerts \<Rightarrow> length alerts > 1)"

definition same_alert :: "AlertPayload \<Rightarrow> AlertPayload option \<Rightarrow> bool" where
  "same_alert a p \<longleftrightarrow> (case p of None \<Rightarrow> False | Some q \<Rightarrow> ptr a = ptr q)"

text \<open>The alerts of an incident other than the representative.\<close>

definition related :: "Message \<Rightarrow> AlertPayload list" where
  "related m =
     (if IsIncident m then filter (\<lambda>a. \<not> same_alert a (Payload m)) (the (M_Incident m)) else [])"

definition RelatedSummaries :: "Message \<Rightarrow> string list" where
  "RelatedSummaries m =
     map (\<lambda>a. AlertName a @ (if Namespace a \<noteq> [] then '' (ns: '' @ Namespace a @ '')'' else [])) (related m)"

definition middot :: string where "middot = [CHR 0xC2, CHR 0xB7]"

definition ConfidenceLine :: "Message \<Rightarrow> string" where
  "ConfidenceLine m =
     (case M_Analysis m of
        None \<Rightarrow> []
      | Some a \<Rightarrow>
          if Confidence a \<noteq> [] \<and> Grounding a \<noteq> [] then Confidence a @ '' confidence '' @ middot @ '' '' @ Grounding a
          else if Confidence a \<noteq> [] then Confidence a @ '' confidence''
          else Grounding a)"

definition HasFeedback :: "Message \<Rightarrow> bool" where
  "HasFeedback m \<longleftrightarrow> FeedbackUpURL m \<noteq> [] \<and> FeedbackDownURL m \<noteq> []"

definition Resolved :: "Message \<Rightarrow> bool" where
  "Resolved m \<longleftrightarrow> (case Payload m of None \<Rightarrow> False | Some p \<Rightarrow> Status p = ''resolved'')"

definition Message_Severity :: "Message \<Rightarrow> string" where
  "Message_Severity m =
     (case Payload m of
        None \<Rightarrow> ''info''
      | Some p \<Rightarrow> if Severity p \<in> {''critical'', ''warning'', ''info''} then Severity p else ''info'')"

definition upper_byte :: "char \<Rightarrow> char" where
  "upper_byte c = (if 97 \<le> (of_char c :: nat) \<and> (of_char c :: nat) \<le> 122 then char_of ((of_char c :: nat) - 32) else c)"

definition upper :: "string \<Rightarrow> string" where
  "upper s = map upper_byte s"

definition Title :: "Message \<Rightarrow> string" where
  "Title m =
     (case Payload m of
        None \<Rightarrow> []
      | Some p \<Rightarrow>
          (if Resolved m then ''[RESOLVED]'' else ''['' @ upper (Message_Severity m) @ '']'') @
          '' '' @ ClusterId p @ '' / '' @ AlertName p)"

section \<open>Construction\<close>

definition dq :: string where "dq = [CHR 0x22]"
definition bs :: string where "bs = [CHR 0x5C]"

definition loki_query :: "AlertPayload \<Rightarrow> string" where
  "loki_query p =
     ''['' @ dq @ ''now-1h'' @ dq @ '','' @ dq @ ''now'' @ dq @ '','' @ dq @ ''Loki'' @ dq @ '',{'' @ dq @ ''expr'' @ dq @ '':'' @ dq @
     ''{namespace='' @ bs @ dq @ Namespace p @ bs @ dq @ '', pod='' @ bs @ dq @ PodName p @ bs @ dq @ ''}'' @ dq @ ''}]''"

definition buildGrafanaURL :: "AlertPayload option \<Rightarrow> string" where
  "buildGrafanaURL payload =
     (case payload of
        None \<Rightarrow> []
      | Some p \<Rightarrow>
          if GrafanaBaseUrl p = [] then []
          else TrimRight (GrafanaBaseUrl p) ''/'' @ ''/explore?'' @ Values_Encode [(''left'', loki_query p), (''orgId'', ''1'')])"

definition FormatMessage :: "AlertPayload \<Rightarrow> Analysis option \<Rightarrow> Message" where
  "FormatMessage p analysis =
     \<lparr>Payload = Some p, M_Analysis = analysis, GrafanaURL = buildGrafanaURL (Some p), M_Incident = None,
      FeedbackUpURL = [], FeedbackDownURL = [], EvidenceLogs = [], EvidenceMetrics = []\<rparr>"

definition FormatIncidentMessage :: "AlertPayload \<Rightarrow> AlertPayload list \<Rightarrow> Analysis option \<Rightarrow> Message" where
  "FormatIncidentMessage rep alerts analysis = (FormatMessage rep analysis)\<lparr>M_Incident := Some alerts\<rparr>"

definition targetLine :: "AlertPayload option \<Rightarrow> string" where
  "targetLine payload =
     (case payload of
        None \<Rightarrow> []
      | Some p \<Rightarrow>
          (case Target p of
             None \<Rightarrow> []
           | Some t \<Rightarrow>
               TargetType t @
               (if T_PodName t \<noteq> [] then '' / '' @ T_PodName t
                else if Deployment t \<noteq> [] then '' / '' @ Deployment t
                else if Daemonset t \<noteq> [] then '' / '' @ Daemonset t
                else if Node t \<noteq> [] then '' / '' @ Node t
                else if Pvc t \<noteq> [] then '' / '' @ Pvc t
                else [])))"

definition restartInfo :: "AlertPayload option \<Rightarrow> string" where
  "restartInfo payload =
     (case payload of
        None \<Rightarrow> []
      | Some p \<Rightarrow>
          (case find (\<lambda>pm. RestartCount pm > 0) (PodMetas p) of
             None \<Rightarrow> []
           | Some pm \<Rightarrow> show_int (RestartCount pm) @ '' restarts''))"

section \<open>Evidence\<close>

record EvidenceConfig =
  ec_Enabled :: bool
  LogLines :: int

definition maxEvidenceLogLineLen :: nat where "maxEvidenceLogLineLen = 200"

definition evidence_line :: "string \<Rightarrow> string option" where
  "evidence_line l =
     (let l' = TrimRight l [CHR 0x0A, CHR 0x0D, CHR 0x09, CHR '' '']
      in if l' = [] then None
         else if length l' > maxEvidenceLogLineLen
         then Some (take maxEvidenceLogLineLen l' @ [CHR 0xE2, CHR 0x80, CHR 0xA6]) else Some l')"

definition evidenceLogs :: "AlertPayload \<Rightarrow> int \<Rightarrow> string list" where
  "evidenceLogs p n =
     (if n \<le> 0 \<or> RedactedLogs p = [] then []
      else let lines = RedactedLogs p;
               tail = (if int (length lines) > n then drop (length lines - nat n) lines else lines)
           in List.map_filter evidence_line tail)"

definition shortMetricName :: "string \<Rightarrow> string" where
  "shortMetricName name =
     (case find (HasPrefix name) [''container_'', ''node_'', ''kube_'', ''kubelet_''] of
        None \<Rightarrow> name
      | Some pre \<Rightarrow> TrimPrefix name pre)"

text \<open>The loop of \<open>humanBytes\<close>: at most four divisions.\<close>

function human_loop :: "nat \<Rightarrow> rat \<Rightarrow> nat \<times> rat" where
  "human_loop e v = (if v \<ge> 1024 \<and> e < 4 then human_loop (Suc e) (round64 (v / 1024)) else (e, v))"
  by pat_completeness auto
termination by (relation "measure (\<lambda>(e, _). 4 - e)") auto

declare human_loop.simps [simp del]

text \<open>\<open>''KMGT''[exp-1]\<close> panics when no division was done, which for a value that is not less than 1024 means
  that it is not a number.\<close>

definition humanBytes :: "float64 \<Rightarrow> string option" where
  "humanBytes v =
     (case v of
        NaN \<Rightarrow> None
      | NegInf \<Rightarrow> Some ''-InfB''
      | PosInf \<Rightarrow> Some ''+InfTiB''
      | Finite r \<Rightarrow>
          if r < 1024 then Some (FormatFixed 0 v @ ''B'')
          else case human_loop 0 r of
                 (e, x) \<Rightarrow> if e = 0 then None else Some (fixed_rat 1 x @ [''KMGT'' ! (e - 1)] @ ''iB''))"

text \<open>Converting a \<open>float64\<close> to \<open>int64\<close> truncates; out of range the result is never equal to the value, which is so on
  amd64 (Go leaves it to the platform). The sign of a zero is not kept.\<close>

definition fmtMetricValue :: "string \<Rightarrow> float64 \<Rightarrow> string option" where
  "fmtMetricValue unit v =
     (if unit = ''bytes'' then humanBytes v
      else if unit = ''percent'' then Some (FormatFixed 1 v @ ''%'')
      else if unit = ''seconds'' then Some (FormatFixed 2 v @ ''s'')
      else case v of
             Finite r \<Rightarrow>
               (if r = of_int \<lfloor>r\<rfloor> \<and> in_int64 \<lfloor>r\<rfloor> then Some (show_int \<lfloor>r\<rfloor>) else Some (FormatFixed 2 v))
           | _ \<Rightarrow> Some (FormatFixed 2 v))"

text \<open>The first loop of \<open>evidenceMetrics\<close>; \<open>k\<close> facts are still allowed.\<close>

fun series_facts :: "nat \<Rightarrow> MetricSeries list \<Rightarrow> string list option" where
  "series_facts 0 ss = Some []"
| "series_facts (Suc k) [] = Some []"
| "series_facts (Suc k) (s # ss) =
     (if Points s = [] then series_facts (Suc k) ss
      else case fmtMetricValue (Unit s) (Value (last (Points s))) of
             None \<Rightarrow> None
           | Some x \<Rightarrow> map_option ((#) (shortMetricName (MetricName s) @ '': '' @ x)) (series_facts k ss))"

definition pod_facts :: "PodMeta list \<Rightarrow> string list" where
  "pod_facts pms =
     (case pms of
        [] \<Rightarrow> []
      | pm # _ \<Rightarrow>
          (if RestartCount pm > 0 then [''restarts: '' @ show_int (RestartCount pm)] else []) @
          (if MemoryLimit pm \<noteq> [] then [''memory limit: '' @ MemoryLimit pm] else []) @
          (if Phase pm \<noteq> [] \<and> Phase pm \<noteq> ''Running'' then [''phase: '' @ Phase pm] else []))"

definition evidenceMetrics :: "AlertPayload \<Rightarrow> string list option" where
  "evidenceMetrics p = map_option (\<lambda>fs. fs @ pod_facts (PodMetas p)) (series_facts 4 (Metrics p))"

definition AttachEvidence :: "Message \<Rightarrow> AlertPayload \<Rightarrow> EvidenceConfig \<Rightarrow> Message option" where
  "AttachEvidence msg p cfg =
     (if \<not> ec_Enabled cfg then Some msg
      else case evidenceMetrics p of
             None \<Rightarrow> None
           | Some ms \<Rightarrow> Some (msg\<lparr>EvidenceLogs := evidenceLogs p (LogLines cfg), EvidenceMetrics := ms\<rparr>))"

section \<open>When the evidence can be built\<close>

text \<open>The series of which a fact is shown: the first four that have points.\<close>

definition shown_series :: "AlertPayload \<Rightarrow> MetricSeries list" where
  "shown_series p = take 4 (filter (\<lambda>s. Points s \<noteq> []) (Metrics p))"

definition nan_bytes :: "MetricSeries \<Rightarrow> bool" where
  "nan_bytes s \<longleftrightarrow> Unit s = ''bytes'' \<and> Value (last (Points s)) = NaN"

lemma human_loop_grows: "e \<le> fst (human_loop e v)"
proof (induction e v rule: human_loop.induct)
  case (1 e v)
  then show ?case
    by (cases "v \<ge> 1024 \<and> e < 4") (auto simp: human_loop.simps [of e v] dest: Suc_leD)
qed

lemma humanBytes_None: "humanBytes v = None \<longleftrightarrow> v = NaN"
proof (cases v)
  case (Finite r)
  show ?thesis
  proof (cases "r < 1024")
    case False
    then have "human_loop 0 r = human_loop 1 (round64 (r / 1024))" by (simp add: human_loop.simps [of 0 r])
    then have "1 \<le> fst (human_loop 0 r)" using human_loop_grows [of 1 "round64 (r / 1024)"] by simp
    with False Finite show ?thesis by (auto simp: humanBytes_def split: prod.split)
  qed (simp add: Finite humanBytes_def)
qed (auto simp: humanBytes_def)

lemma fmtMetricValue_None: "fmtMetricValue unit v = None \<longleftrightarrow> unit = ''bytes'' \<and> v = NaN"
  by (auto simp: fmtMetricValue_def humanBytes_None split: float64.split)

lemma fmtMetricValue_nan: "fmtMetricValue ''bytes'' NaN = None"
  by (simp add: fmtMetricValue_None)

lemma series_facts_None:
  "series_facts k ss = None \<longleftrightarrow> list_ex nan_bytes (take k (filter (\<lambda>s. Points s \<noteq> []) ss))"
  by (induction k ss rule: series_facts.induct)
    (auto simp: nan_bytes_def fmtMetricValue_None fmtMetricValue_nan split: option.split)

lemma AttachEvidence_None:
  "AttachEvidence msg p cfg = None \<longleftrightarrow> ec_Enabled cfg \<and> list_ex nan_bytes (shown_series p)"
  using series_facts_None [of 4 "Metrics p"]
  by (auto simp: AttachEvidence_def evidenceMetrics_def shown_series_def split: option.split)

end
