(* ===== verification/Channels.thy ===== *)
theory Channels
  imports Notify "HOL-Library.AList"
begin

text \<open>
  The channels of \<open>internal/notify\<close> and the receivers built from configuration (\<open>receiver.go\<close>). Each channel
  builds its own representation of a message and sends it; the HTTP transport, the mail transport and the file
  system are parameters.
\<close>

section \<open>Shared helpers\<close>

type_synonym config_map = "(string \<times> string) list"

text \<open>Indexing a Go map gives the empty string for a missing key.\<close>

definition cfg_get :: "config_map \<Rightarrow> string \<Rightarrow> string" where
  "cfg_get cfg k = (case map_of cfg k of None \<Rightarrow> [] | Some v \<Rightarrow> v)"

definition truncate_text :: "string \<Rightarrow> nat \<Rightarrow> string" where
  "truncate_text s n = (if length s \<le> n then s else if n \<le> 3 then take n s else take (n - 3) s @ ''...'')"

definition safe :: "string \<Rightarrow> string" where
  "safe s = (if s = [] then ''-'' else s)"

definition lf :: string where "lf = [CHR 0x0A]"
definition crlf :: string where "crlf = [CHR 0x0D, CHR 0x0A]"
definition fence :: string where "fence = [CHR 0x60, CHR 0x60, CHR 0x60]"
definition bullet :: string where "bullet = [CHR 0xE2, CHR 0x80, CHR 0xA2]"
definition chart :: string where "chart = [CHR 0xF0, CHR 0x9F, CHR 0x93, CHR 0x8A]"
definition thumbs_up :: string where "thumbs_up = [CHR 0xF0, CHR 0x9F, CHR 0x91, CHR 0x8D]"
definition thumbs_down :: string where "thumbs_down = [CHR 0xF0, CHR 0x9F, CHR 0x91, CHR 0x8E]"

definition fact_sep :: string where "fact_sep = ''  '' @ middot @ ''  ''"

text \<open>\<open>time.Unix(p.FiredAt, 0).UTC().Format(time.RFC3339)\<close>\<close>

definition fired_text :: "AlertPayload \<Rightarrow> string" where
  "fired_text p = rfc3339 (time_unix (FiredAt p))"

definition if_str :: "string \<Rightarrow> (string \<Rightarrow> 'a) \<Rightarrow> 'a list" where
  "if_str s f = (if s = [] then [] else [f s])"

text \<open>The context's deadline is the first argument of a transport.\<close>

datatype mail_outcome = Mail_Cancelled string | Mail_Done "string option"

record 'w transport =
  tr_url_ok :: "string \<Rightarrow> bool"
  tr_do :: "gotime option \<Rightarrow> duration \<Rightarrow> http_request \<Rightarrow> 'w \<Rightarrow> (string + http_response) \<times> 'w"
  tr_sendmail :: "gotime option \<Rightarrow> string \<Rightarrow> (string \<times> string) option \<Rightarrow> string \<Rightarrow> string list \<Rightarrow> bytes \<Rightarrow> 'w \<Rightarrow> mail_outcome \<times> 'w"
  tr_now :: "'w \<Rightarrow> gotime"

datatype send_error = SendRequest | SendCall string | SendStatus int bytes | SendCancelled string | SendMail string

text \<open>The common part of the HTTP channels: a JSON body is posted and the answer judged by \<open>accept\<close>. The values
  encoded contain strings, integers and booleans only, so that \<open>json.Marshal\<close> cannot fail.\<close>

definition post_json ::
  "'w transport \<Rightarrow> gotime option \<Rightarrow> string \<Rightarrow> json \<Rightarrow> (http_response \<Rightarrow> bool) \<Rightarrow> 'w \<Rightarrow> send_error option \<times> 'w" where
  "post_json tr c url body accept w =
     (if \<not> tr_url_ok tr url then (Some SendRequest, w)
      else case tr_do tr c (10 * second)
             \<lparr>Method = ''POST'', Req_URL = url, Headers = [(''Content-Type'', ''application/json'')], Body = Marshal body\<rparr> w of
             (Inl e, w1) \<Rightarrow> (Some (SendCall e), w1)
           | (Inr resp, w1) \<Rightarrow>
               (if accept resp then None else Some (SendStatus (StatusCode resp) (Resp_Body resp)), w1))"

section \<open>Discord\<close>

record Discord =
  dc_name :: string
  dc_webhookURL :: string

definition newDiscord :: "string \<Rightarrow> config_map \<Rightarrow> Discord option" where
  "newDiscord name cfg =
     (if cfg_get cfg ''webhook_url'' = [] then None
      else Some \<lparr>dc_name = name, dc_webhookURL = cfg_get cfg ''webhook_url''\<rparr>)"

record discordEmbedField =
  df_Name :: string
  df_Value :: string
  df_Inline :: bool

record discordEmbed =
  de_Title :: string
  de_Description :: string
  de_URL :: string
  de_Color :: int
  de_Fields :: "discordEmbedField list"
  de_Footer :: "string option"
  de_Timestamp :: string

definition field_json :: "discordEmbedField \<Rightarrow> json" where
  "field_json f = JObj ([(''name'', JStr (df_Name f)), (''value'', JStr (df_Value f))] @
     (if df_Inline f then [(''inline'', JBool True)] else []))"

definition embed_json :: "discordEmbed \<Rightarrow> json" where
  "embed_json e = JObj (omitempty_str ''title'' (de_Title e) @ omitempty_str ''description'' (de_Description e) @
     omitempty_str ''url'' (de_URL e) @ [(''color'', JNum (show_int (de_Color e)))] @
     (if de_Fields e = [] then [] else [(''fields'', JArr (map field_json (de_Fields e)))]) @
     (case de_Footer e of None \<Rightarrow> [] | Some t \<Rightarrow> [(''footer'', JObj [(''text'', JStr t)])]) @
     omitempty_str ''timestamp'' (de_Timestamp e))"

definition discord_color :: "Message \<Rightarrow> int" where
  "discord_color m =
     (if Resolved m then 0x57F287
      else if Message_Severity m = ''critical'' then 0xED4245
      else if Message_Severity m = ''warning'' then 0xFAA61A
      else 0x5865F2)"

definition discord_description :: "Message \<Rightarrow> AlertPayload \<Rightarrow> string" where
  "discord_description m p =
     truncate_text
       (if Resolved m then ''Alert has cleared.''
        else case M_Analysis m of
               Some a \<Rightarrow> if RootCause a \<noteq> [] then RootCause a else Summary p
             | None \<Rightarrow> Summary p) 4000"

definition mk_field :: "string \<Rightarrow> bool \<Rightarrow> string \<Rightarrow> discordEmbedField" where
  "mk_field name inl v = \<lparr>df_Name = name, df_Value = v, df_Inline = inl\<rparr>"

definition discord_evidence :: "Message \<Rightarrow> string" where
  "discord_evidence m =
     (if EvidenceMetrics m \<noteq> [] then Join (EvidenceMetrics m) fact_sep @ lf else []) @
     (if EvidenceLogs m \<noteq> [] then fence @ lf @ Join (EvidenceLogs m) lf @ lf @ fence else [])"

definition discord_fields :: "Message \<Rightarrow> AlertPayload \<Rightarrow> discordEmbedField list" where
  "discord_fields m p =
     [mk_field ''Cluster'' True (safe (ClusterId p)), mk_field ''Severity'' True (safe (Message_Severity m))] @
     if_str (Namespace p) (mk_field ''Namespace'' True) @
     if_str (targetLine (Some p)) (mk_field ''Target'' False) @
     if_str (restartInfo (Some p)) (mk_field ''Pod state'' True) @
     (if Resolved m then []
      else case M_Analysis m of
             None \<Rightarrow> []
           | Some a \<Rightarrow>
               if_str (Evidence a) (\<lambda>s. mk_field ''Evidence'' False (truncate_text s 1024)) @
               if_str (Action a) (\<lambda>s. mk_field ''Recommended action'' False (truncate_text s 1024)) @
               if_str (ConfidenceLine m) (mk_field ''Confidence'' True)) @
     (if HasEvidence m then [mk_field (chart @ '' Evidence'') False (truncate_text (discord_evidence m) 1024)] else []) @
     (let rel = RelatedSummaries m
      in if rel = [] then []
         else [mk_field (''Related alerts ('' @ show_nat (length rel) @ '')'') False
                 (truncate_text (bullet @ '' '' @ Join rel (lf @ bullet @ '' '')) 1024)]) @
     (if HasFeedback m
      then [mk_field ''Was this analysis helpful?'' False
              (''['' @ thumbs_up @ '' Useful]('' @ FeedbackUpURL m @ '')  '' @ bullet @ ''  ['' @ thumbs_down @ '' Wrong]('' @
               FeedbackDownURL m @ '')'')]
      else [])"

definition buildDiscordEmbed :: "Message \<Rightarrow> discordEmbed" where
  "buildDiscordEmbed m =
     (let e = \<lparr>de_Title = Title m, de_Description = [], de_URL = GrafanaURL m, de_Color = discord_color m, de_Fields = [],
               de_Footer = None, de_Timestamp = []\<rparr>
      in case Payload m of
           None \<Rightarrow> e
         | Some p \<Rightarrow>
             e\<lparr>de_Description := discord_description m p, de_Fields := discord_fields m p,
               de_Timestamp := (if FiredAt p > 0 then fired_text p else []),
               de_Footer := (if GrafanaURL m \<noteq> [] then Some ''Click title to open in Grafana'' else None)\<rparr>)"

definition Discord_Send :: "'w transport \<Rightarrow> gotime option \<Rightarrow> Discord \<Rightarrow> Message \<Rightarrow> 'w \<Rightarrow> send_error option \<times> 'w" where
  "Discord_Send tr c d m w =
     post_json tr c (dc_webhookURL d) (JObj [(''embeds'', JArr [embed_json (buildDiscordEmbed m)])])
       (\<lambda>r. StatusCode r = 204 \<or> StatusCode r = 200) w"

section \<open>Slack\<close>

record Slack =
  sl_name :: string
  sl_webhookURL :: string

definition newSlack :: "string \<Rightarrow> config_map \<Rightarrow> Slack option" where
  "newSlack name cfg =
     (if cfg_get cfg ''webhook_url'' = [] then None
      else Some \<lparr>sl_name = name, sl_webhookURL = cfg_get cfg ''webhook_url''\<rparr>)"

record slackText =
  st_Type :: string
  st_Text :: string

record slackBlock =
  sb_Type :: string
  sb_Text :: "slackText option"
  sb_Fields :: "slackText list"
  sb_Elements :: "json list"

record slackAttachment =
  sa_Color :: string
  sa_Blocks :: "slackBlock list"

definition slackText_json :: "slackText \<Rightarrow> json" where
  "slackText_json t = JObj [(''type'', JStr (st_Type t)), (''text'', JStr (st_Text t))]"

definition slackBlock_json :: "slackBlock \<Rightarrow> json" where
  "slackBlock_json b = JObj ([(''type'', JStr (sb_Type b))] @
     (case sb_Text b of None \<Rightarrow> [] | Some t \<Rightarrow> [(''text'', slackText_json t)]) @
     (if sb_Fields b = [] then [] else [(''fields'', JArr (map slackText_json (sb_Fields b)))]) @
     (if sb_Elements b = [] then [] else [(''elements'', JArr (sb_Elements b))]))"

definition slackAttachment_json :: "slackAttachment \<Rightarrow> json" where
  "slackAttachment_json a = JObj [(''color'', JStr (sa_Color a)), (''blocks'', JArr (map slackBlock_json (sa_Blocks a)))]"

definition slack_color :: "Message \<Rightarrow> string" where
  "slack_color m =
     (if Resolved m then ''#2EB67D''
      else if Message_Severity m = ''critical'' then ''#E01E5A''
      else if Message_Severity m = ''warning'' then ''#ECB22E''
      else ''#36C5F0'')"

definition mrkdwn :: "string \<Rightarrow> slackText" where
  "mrkdwn s = \<lparr>st_Type = ''mrkdwn'', st_Text = s\<rparr>"

definition slack_section :: "string \<Rightarrow> slackBlock" where
  "slack_section s = \<lparr>sb_Type = ''section'', sb_Text = Some (mrkdwn s), sb_Fields = [], sb_Elements = []\<rparr>"

definition slack_fields :: "Message \<Rightarrow> AlertPayload \<Rightarrow> slackText list" where
  "slack_fields m p =
     [mrkdwn (''*Cluster*'' @ lf @ safe (ClusterId p)), mrkdwn (''*Severity*'' @ lf @ Message_Severity m)] @
     if_str (Namespace p) (\<lambda>s. mrkdwn (''*Namespace*'' @ lf @ s)) @
     if_str (targetLine (Some p)) (\<lambda>s. mrkdwn (''*Target*'' @ lf @ s)) @
     if_str (restartInfo (Some p)) (\<lambda>s. mrkdwn (''*Pod state*'' @ lf @ s))"

definition slack_verdict :: "Message \<Rightarrow> Analysis \<Rightarrow> string" where
  "slack_verdict m a =
     (if RootCause a \<noteq> [] then ''*Root cause:* '' @ RootCause a @ lf else []) @
     (if Evidence a \<noteq> [] then ''*Evidence:* '' @ Evidence a @ lf else []) @
     (if Action a \<noteq> [] then ''*Action:* '' @ Action a @ lf else []) @
     (if ConfidenceLine m \<noteq> [] then ''_'' @ ConfidenceLine m @ ''_'' else [])"

definition slack_evidence :: "Message \<Rightarrow> string" where
  "slack_evidence m =
     ''*'' @ chart @ '' Evidence*'' @
     (if EvidenceMetrics m \<noteq> [] then lf @ Join (EvidenceMetrics m) fact_sep else []) @
     (if EvidenceLogs m \<noteq> [] then lf @ fence @ lf @ Join (EvidenceLogs m) lf @ lf @ fence else [])"

definition slack_blocks :: "Message \<Rightarrow> AlertPayload \<Rightarrow> slackBlock list" where
  "slack_blocks m p =
     [\<lparr>sb_Type = ''section'', sb_Text = None, sb_Fields = slack_fields m p, sb_Elements = []\<rparr>] @
     (if Resolved m then [slack_section ''_Alert has cleared._'']
      else case M_Analysis m of
             Some a \<Rightarrow> if_str (slack_verdict m a) (\<lambda>s. slack_section (truncate_text s 3000))
           | None \<Rightarrow> if_str (Summary p) (\<lambda>s. slack_section (truncate_text s 3000))) @
     (if HasEvidence m then [slack_section (truncate_text (slack_evidence m) 3000)] else []) @
     (let rel = RelatedSummaries m
      in if rel = [] then []
         else [slack_section (truncate_text (''*Related alerts ('' @ show_nat (length rel) @ ''):*'' @ lf @ bullet @ '' '' @
                 Join rel (lf @ bullet @ '' '')) 3000)]) @
     if_str (GrafanaURL m) (\<lambda>u. slack_section (''<'' @ u @ ''|Open in Grafana>'')) @
     (if HasFeedback m
      then [slack_section (''Was this helpful? <'' @ FeedbackUpURL m @ ''|'' @ thumbs_up @ '' Useful> | <'' @ FeedbackDownURL m @
              ''|'' @ thumbs_down @ '' Wrong>'')]
      else []) @
     (if FiredAt p > 0
      then [\<lparr>sb_Type = ''context'', sb_Text = None, sb_Fields = [],
             sb_Elements = [slackText_json (mrkdwn (''Fired at '' @ fired_text p))]\<rparr>]
      else [])"

definition buildSlackAttachment :: "Message \<Rightarrow> slackAttachment" where
  "buildSlackAttachment m =
     \<lparr>sa_Color = slack_color m,
      sa_Blocks =
        [\<lparr>sb_Type = ''header'', sb_Text = Some \<lparr>st_Type = ''plain_text'', st_Text = truncate_text (Title m) 150\<rparr>, sb_Fields = [],
          sb_Elements = []\<rparr>] @
        (case Payload m of None \<Rightarrow> [] | Some p \<Rightarrow> slack_blocks m p)\<rparr>"

definition Slack_Send :: "'w transport \<Rightarrow> gotime option \<Rightarrow> Slack \<Rightarrow> Message \<Rightarrow> 'w \<Rightarrow> send_error option \<times> 'w" where
  "Slack_Send tr c s m w =
     post_json tr c (sl_webhookURL s) (JObj [(''attachments'', JArr [slackAttachment_json (buildSlackAttachment m)])])
       (\<lambda>r. StatusCode r = 200 \<and> Resp_Body r = ''ok'') w"

end
