(* ===== verification/Pagers.thy ===== *)
theory Pagers
  imports Channels
begin

text \<open>
  The other channels of \<open>internal/notify\<close>: PagerDuty, e-mail, Telegram and the generic webhook.
\<close>

section \<open>PagerDuty\<close>

definition pagerDutyDefaultURL :: string where
  "pagerDutyDefaultURL = ''https://events.pagerduty.com/v2/enqueue''"

record PagerDuty =
  pd_name :: string
  pd_routingKey :: string
  pd_url :: string

definition newPagerDuty :: "string \<Rightarrow> config_map \<Rightarrow> PagerDuty option" where
  "newPagerDuty name cfg =
     (if cfg_get cfg ''routing_key'' = [] then None
      else Some \<lparr>pd_name = name, pd_routingKey = cfg_get cfg ''routing_key'',
                 pd_url = (if cfg_get cfg ''url'' = [] then pagerDutyDefaultURL else cfg_get cfg ''url'')\<rparr>)"

text \<open>The four calls of \<open>safeField\<close>, by the getter used; the getters of a nil alert return the empty string.\<close>

definition safeField :: "(AlertPayload \<Rightarrow> string) \<Rightarrow> AlertPayload option \<Rightarrow> string" where
  "safeField get p =
     (case p of
        None \<Rightarrow> ''unknown''
      | Some a \<Rightarrow> if get a = [] then ''unknown'' else get a)"

definition pd_dedupKey :: "Message \<Rightarrow> string" where
  "pd_dedupKey m =
     ''muthur-'' @ safeField ClusterId (Payload m) @ ''-'' @ safeField AlertName (Payload m) @ ''-'' @ safeField Namespace (Payload m)"

definition pd_summary :: "Message \<Rightarrow> string" where
  "pd_summary m =
     truncate_text
       (case Payload m of
          None \<Rightarrow> []
        | Some p \<Rightarrow> if Summary p \<noteq> [] then AlertName p @ '': '' @ Summary p else AlertName p) 1024"

text \<open>Go maps are encoded in the order of their keys, in which the entries are written here.\<close>

definition customDetails :: "Message \<Rightarrow> (string \<times> json) list" where
  "customDetails m =
     (let an = (\<lambda>k f. case M_Analysis m of None \<Rightarrow> [] | Some a \<Rightarrow> [(k, JStr (f a))]);
          an_opt = (\<lambda>k f. case M_Analysis m of None \<Rightarrow> [] | Some a \<Rightarrow> omitempty_str k (f a));
          pl = (\<lambda>k f. case Payload m of None \<Rightarrow> [] | Some p \<Rightarrow> [(k, JStr (f p))]);
          fb = (\<lambda>k u. if HasFeedback m then [(k, JStr u)] else [])
      in an_opt ''confidence'' Confidence @
         (case Payload m of None \<Rightarrow> [] | Some p \<Rightarrow> omitempty_str ''description'' (Description p)) @
         an ''evidence'' Evidence @
         fb ''feedback_useful_url'' (FeedbackUpURL m) @ fb ''feedback_wrong_url'' (FeedbackDownURL m) @
         pl ''fired_at'' fired_text @
         omitempty_str ''grafana'' (GrafanaURL m) @
         an_opt ''grounding'' Grounding @
         (if EvidenceMetrics m = [] then [] else [(''key_metrics'', JArr (map JStr (EvidenceMetrics m)))]) @
         (if EvidenceLogs m = [] then [] else [(''log_excerpt'', JArr (map JStr (EvidenceLogs m)))]) @
         pl ''namespace'' Namespace @ pl ''pod'' PodName @
         an ''recommended_action'' Action @
         (if RelatedSummaries m = [] then [] else [(''related_alerts'', JArr (map JStr (RelatedSummaries m)))]) @
         an ''root_cause'' RootCause @
         pl ''target'' (\<lambda>p. targetLine (Some p)))"

definition buildPagerDutyEvent :: "string \<Rightarrow> Message \<Rightarrow> json" where
  "buildPagerDutyEvent routingKey m =
     (if Resolved m
      then JObj [(''dedup_key'', JStr (pd_dedupKey m)), (''event_action'', JStr ''resolve''), (''routing_key'', JStr routingKey)]
      else JObj ([(''dedup_key'', JStr (pd_dedupKey m)), (''event_action'', JStr ''trigger'')] @
        (if GrafanaURL m = [] then []
         else [(''links'', JArr [JObj [(''href'', JStr (GrafanaURL m)), (''text'', JStr ''Grafana'')]])]) @
        [(''payload'', JObj ([(''class'', JStr (safeField AlertName (Payload m))),
            (''component'', JStr (safeField PodName (Payload m))),
            (''custom_details'', JObj (customDetails m)),
            (''group'', JStr (safeField Namespace (Payload m))),
            (''severity'', JStr (Message_Severity m)),
            (''source'', JStr (safeField ClusterId (Payload m))),
            (''summary'', JStr (pd_summary m))] @
            (case Payload m of
               None \<Rightarrow> []
             | Some p \<Rightarrow> if FiredAt p > 0 then [(''timestamp'', JStr (fired_text p))] else []))),
         (''routing_key'', JStr routingKey)]))"

definition PagerDuty_Send :: "'w transport \<Rightarrow> gotime option \<Rightarrow> PagerDuty \<Rightarrow> Message \<Rightarrow> 'w \<Rightarrow> send_error option \<times> 'w" where
  "PagerDuty_Send tr c p m w =
     post_json tr c (pd_url p) (buildPagerDutyEvent (pd_routingKey p) m) (\<lambda>r. StatusCode r = 202) w"

section \<open>E-mail\<close>

record SMTP =
  sm_name :: string
  sm_host :: string
  sm_port :: string
  sm_from :: string
  sm_to :: "string list"
  sm_auth :: "(string \<times> string) option"

definition newSMTP :: "string \<Rightarrow> config_map \<Rightarrow> SMTP option" where
  "newSMTP name cfg =
     (let to = filter (\<lambda>a. a \<noteq> []) (map TrimSpace (Split (cfg_get cfg ''to'') CHR '',''))
      in if cfg_get cfg ''host'' = [] \<or> cfg_get cfg ''from'' = [] \<or> to = [] then None
         else Some \<lparr>sm_name = name, sm_host = cfg_get cfg ''host'',
                    sm_port = (if cfg_get cfg ''port'' = [] then ''587'' else cfg_get cfg ''port''),
                    sm_from = cfg_get cfg ''from'', sm_to = to,
                    sm_auth = (if cfg_get cfg ''username'' = [] then None
                               else Some (cfg_get cfg ''username'', cfg_get cfg ''password''))\<rparr>)"

definition weekdays :: "string list" where
  "weekdays = [''Thu'', ''Fri'', ''Sat'', ''Sun'', ''Mon'', ''Tue'', ''Wed'']"

definition months :: "string list" where
  "months = [''Jan'', ''Feb'', ''Mar'', ''Apr'', ''May'', ''Jun'', ''Jul'', ''Aug'', ''Sep'', ''Oct'', ''Nov'', ''Dec'']"

text \<open>\<open>t.UTC().Format(time.RFC1123Z)\<close>; 1 January 1970 was a Thursday.\<close>

definition rfc1123z :: "gotime \<Rightarrow> string" where
  "rfc1123z t =
     (let s = unix_of t; (y, m, d) = civil_from_days (s div 86400); r = s mod 86400
      in weekdays ! nat (s div 86400 mod 7) @ '', '' @ pad_int 2 d @ '' '' @ months ! nat (m - 1) @ '' '' @ pad_int 4 y @ '' '' @
         pad_int 2 (r div 3600) @ '':'' @ pad_int 2 (r div 60 mod 60) @ '':'' @ pad_int 2 (r mod 60) @ '' +0000'')"

definition mail_headers :: "gotime \<Rightarrow> string \<Rightarrow> string list \<Rightarrow> Message \<Rightarrow> string" where
  "mail_headers now from to m =
     ''From: '' @ from @ crlf @
     ''To: '' @ Join to '', '' @ crlf @
     ''Subject: '' @ Title m @ crlf @
     ''Date: '' @ rfc1123z now @ crlf @
     ''MIME-Version: 1.0'' @ crlf @
     ''Content-Type: text/plain; charset=utf-8'' @ crlf @
     crlf"

definition mail_alert :: "Message \<Rightarrow> string" where
  "mail_alert m =
     (case Payload m of
        None \<Rightarrow> []
      | Some p \<Rightarrow>
          ''Cluster:   '' @ ClusterId p @ crlf @
          ''Severity:  '' @ Message_Severity m @ crlf @
          (if Namespace p \<noteq> [] then ''Namespace: '' @ Namespace p @ crlf else []) @
          (if targetLine (Some p) \<noteq> [] then ''Target:    '' @ targetLine (Some p) @ crlf else []))"

definition mail_verdict :: "Message \<Rightarrow> string" where
  "mail_verdict m =
     (case M_Analysis m of
        Some a \<Rightarrow>
          crlf @
          (if RootCause a \<noteq> [] then ''Root cause: '' @ RootCause a @ crlf else []) @
          (if Evidence a \<noteq> [] then ''Evidence:   '' @ Evidence a @ crlf else []) @
          (if Action a \<noteq> [] then ''Action:     '' @ Action a @ crlf else []) @
          (if ConfidenceLine m \<noteq> [] then ''Confidence: '' @ ConfidenceLine m @ crlf else [])
      | None \<Rightarrow>
          (case Payload m of
             None \<Rightarrow> []
           | Some p \<Rightarrow> if Summary p \<noteq> [] then crlf @ Summary p @ crlf else []))"

definition buildEmail :: "gotime \<Rightarrow> string \<Rightarrow> string list \<Rightarrow> Message \<Rightarrow> string" where
  "buildEmail now from to m =
     mail_headers now from to m @ mail_alert m @
     (if Resolved m then crlf @ ''Alert has cleared.'' @ crlf
      else mail_verdict m @
        (if HasEvidence m
         then crlf @ ''--- Evidence ---'' @ crlf @
           (if EvidenceMetrics m \<noteq> [] then Join (EvidenceMetrics m) fact_sep @ crlf else []) @
           concat (map (\<lambda>l. ''  '' @ l @ crlf) (EvidenceLogs m))
         else []) @
        (let rel = RelatedSummaries m
         in if rel = [] then []
            else crlf @ ''Related alerts ('' @ show_nat (length rel) @ ''):'' @ crlf @
              concat (map (\<lambda>r. ''  - '' @ r @ crlf) rel)) @
        (if GrafanaURL m \<noteq> [] then crlf @ ''Grafana: '' @ GrafanaURL m @ crlf else []) @
        (if HasFeedback m then crlf @ ''Feedback: useful '' @ FeedbackUpURL m @ '' | wrong '' @ FeedbackDownURL m @ crlf else []))"

definition SMTP_Send :: "'w transport \<Rightarrow> gotime option \<Rightarrow> SMTP \<Rightarrow> Message \<Rightarrow> 'w \<Rightarrow> send_error option \<times> 'w" where
  "SMTP_Send tr c s m w =
     (case tr_sendmail tr c (sm_host s @ '':'' @ sm_port s) (sm_auth s) (sm_from s) (sm_to s)
             (buildEmail (tr_now tr w) (sm_from s) (sm_to s) m) w of
        (Mail_Cancelled e, w1) \<Rightarrow> (Some (SendCancelled e), w1)
      | (Mail_Done (Some e), w1) \<Rightarrow> (Some (SendMail e), w1)
      | (Mail_Done None, w1) \<Rightarrow> (None, w1))"

section \<open>Telegram\<close>

record Telegram =
  tg_name :: string
  tg_token :: string
  tg_chatID :: string

definition newTelegram :: "string \<Rightarrow> config_map \<Rightarrow> Telegram option" where
  "newTelegram name cfg =
     (if cfg_get cfg ''token'' = [] \<or> cfg_get cfg ''chat_id'' = [] then None
      else Some \<lparr>tg_name = name, tg_token = cfg_get cfg ''token'', tg_chatID = cfg_get cfg ''chat_id''\<rparr>)"

definition tg_char :: "char \<Rightarrow> string" where
  "tg_char c =
     (if c = CHR ''&'' then ''&amp;'' else if c = CHR ''<'' then ''&lt;'' else if c = CHR ''>'' then ''&gt;'' else [c])"

definition tgEscape :: "string \<Rightarrow> string" where
  "tgEscape s = concat (map tg_char s)"

definition tgEscapeAttr :: "string \<Rightarrow> string" where
  "tgEscapeAttr s = concat (map (\<lambda>c. if c = CHR 0x22 then ''&quot;'' else tg_char c) s)"

definition tg_link :: "string \<Rightarrow> string \<Rightarrow> string" where
  "tg_link u t = ''<a href='' @ dq @ tgEscapeAttr u @ dq @ ''>'' @ t @ ''</a>''"

definition tg_verdict :: "Message \<Rightarrow> AlertPayload \<Rightarrow> string" where
  "tg_verdict m p =
     (case (Resolved m, M_Analysis m) of
        (False, Some a) \<Rightarrow>
          (if RootCause a \<noteq> [] then lf @ ''<b>Root cause:</b> '' @ tgEscape (RootCause a) @ lf else []) @
          (if Evidence a \<noteq> [] then ''<b>Evidence:</b> '' @ tgEscape (Evidence a) @ lf else []) @
          (if Action a \<noteq> [] then ''<b>Action:</b> '' @ tgEscape (Action a) @ lf else []) @
          (if ConfidenceLine m \<noteq> [] then ''<i>'' @ tgEscape (ConfidenceLine m) @ ''</i>'' @ lf else [])
      | (True, _) \<Rightarrow> lf @ ''<i>Alert has cleared.</i>'' @ lf
      | (False, None) \<Rightarrow> if Summary p \<noteq> [] then lf @ tgEscape (Summary p) @ lf else [])"

definition tg_evidence :: "Message \<Rightarrow> string" where
  "tg_evidence m =
     (if \<not> Resolved m \<and> HasEvidence m
      then lf @ ''<b>'' @ chart @ '' Evidence</b>'' @ lf @
        (if EvidenceMetrics m \<noteq> [] then tgEscape (Join (EvidenceMetrics m) fact_sep) @ lf else []) @
        (if EvidenceLogs m \<noteq> [] then ''<pre>'' @ tgEscape (Join (EvidenceLogs m) lf) @ ''</pre>'' @ lf else [])
      else [])"

definition buildTelegramHTML :: "Message \<Rightarrow> string" where
  "buildTelegramHTML m =
     (case Payload m of
        None \<Rightarrow> []
      | Some p \<Rightarrow>
          ''<b>'' @ tgEscape (Title m) @ ''</b>'' @ lf @ lf @
          (if Namespace p \<noteq> [] then ''<b>Namespace:</b> <code>'' @ tgEscape (Namespace p) @ ''</code>'' @ lf else []) @
          (if targetLine (Some p) \<noteq> [] then ''<b>Target:</b> <code>'' @ tgEscape (targetLine (Some p)) @ ''</code>'' @ lf else []) @
          (if restartInfo (Some p) \<noteq> [] then ''<b>Pod state:</b> '' @ tgEscape (restartInfo (Some p)) @ lf else []) @
          tg_verdict m p @ tg_evidence m @
          (let rel = RelatedSummaries m
           in if rel = [] then []
              else lf @ ''<b>Related alerts ('' @ show_nat (length rel) @ ''):</b>'' @ lf @
                concat (map (\<lambda>r. bullet @ '' '' @ tgEscape r @ lf) rel)) @
          (if GrafanaURL m \<noteq> [] then lf @ tg_link (GrafanaURL m) ''Open in Grafana'' @ lf else []) @
          (if HasFeedback m
           then lf @ ''<b>Was this helpful?</b> '' @ tg_link (FeedbackUpURL m) (thumbs_up @ '' Useful'') @ '' | '' @
             tg_link (FeedbackDownURL m) (thumbs_down @ '' Wrong'')
           else []))"

definition Telegram_Send :: "'w transport \<Rightarrow> gotime option \<Rightarrow> Telegram \<Rightarrow> Message \<Rightarrow> 'w \<Rightarrow> send_error option \<times> 'w" where
  "Telegram_Send tr c t m w =
     post_json tr c (''https://api.telegram.org/bot'' @ tg_token t @ ''/sendMessage'')
       (JObj [(''chat_id'', JStr (tg_chatID t)), (''text'', JStr (buildTelegramHTML m)), (''parse_mode'', JStr ''HTML''),
              (''disable_web_page_preview'', JBool True)])
       (\<lambda>r. StatusCode r = 200) w"

section \<open>Webhook\<close>

record Webhook =
  wh_name :: string
  wh_url :: string

definition newWebhook :: "string \<Rightarrow> config_map \<Rightarrow> Webhook option" where
  "newWebhook name cfg = (if cfg_get cfg ''url'' = [] then None else Some \<lparr>wh_name = name, wh_url = cfg_get cfg ''url''\<rparr>)"

fun str_less :: "string \<Rightarrow> string \<Rightarrow> bool" where
  "str_less _ [] \<longleftrightarrow> False"
| "str_less [] (_ # _) \<longleftrightarrow> True"
| "str_less (x # xs) (y # ys) \<longleftrightarrow> (of_char x :: nat) < of_char y \<or> x = y \<and> str_less xs ys"

fun insert_entry :: "string \<times> json \<Rightarrow> (string \<times> json) list \<Rightarrow> (string \<times> json) list" where
  "insert_entry e [] = [e]"
| "insert_entry e (f # fs) = (if str_less (fst f) (fst e) then f # insert_entry e fs else e # f # fs)"

text \<open>A later label replaces an earlier one of the same name.\<close>

definition labels_json :: "Label list \<Rightarrow> json" where
  "labels_json ls =
     JObj (foldr insert_entry (map (\<lambda>(k, v). (k, JStr v)) (fold (\<lambda>l acc. AList.update (L_Name l) (L_Value l) acc) ls [])) [])"

definition webhook_ai :: "Analysis \<Rightarrow> json" where
  "webhook_ai a = JObj (omitempty_str ''root_cause'' (RootCause a) @ omitempty_str ''evidence'' (Evidence a) @
     omitempty_str ''action'' (Action a) @ omitempty_str ''confidence'' (Confidence a) @ omitempty_str ''grounding'' (Grounding a) @
     (if Silence a then [(''silence'', JBool True)] else []))"

definition webhook_related :: "AlertPayload \<Rightarrow> json" where
  "webhook_related a = JObj ([(''alert_name'', JStr (AlertName a))] @ omitempty_str ''namespace'' (Namespace a) @
     omitempty_str ''severity'' (Severity a))"

definition strings_field :: "string \<Rightarrow> string list \<Rightarrow> (string \<times> json) list" where
  "strings_field k xs = (if xs = [] then [] else [(k, JArr (map JStr xs))])"

definition buildWebhookPayload :: "Message \<Rightarrow> json" where
  "buildWebhookPayload m =
     (let of_p = (\<lambda>f. case Payload m of None \<Rightarrow> [] | Some p \<Rightarrow> f p)
      in JObj ([(''status'', JStr (if Resolved m then ''resolved'' else ''firing'')), (''severity'', JStr (Message_Severity m)),
         (''cluster_id'', JStr (of_p ClusterId)), (''alert_name'', JStr (of_p AlertName)), (''namespace'', JStr (of_p Namespace))] @
         omitempty_str ''pod'' (of_p PodName) @ omitempty_str ''target'' (of_p (\<lambda>p. targetLine (Some p))) @
         omitempty_str ''summary'' (of_p Summary) @ omitempty_str ''description'' (of_p Description) @
         omitempty_str ''fired_at'' (of_p (\<lambda>p. if FiredAt p > 0 then fired_text p else [])) @
         omitempty_str ''grafana_url'' (GrafanaURL m) @
         (case M_Analysis m of None \<Rightarrow> [] | Some a \<Rightarrow> [(''analysis'', webhook_ai a)]) @
         strings_field ''key_metrics'' (EvidenceMetrics m) @ strings_field ''log_excerpt'' (EvidenceLogs m) @
         (case Payload m of
            None \<Rightarrow> []
          | Some p \<Rightarrow> if Labels p = [] then [] else [(''labels'', labels_json (Labels p))]) @
         (if related m = [] then [] else [(''related_alerts'', JArr (map webhook_related (related m)))]) @
         (if HasFeedback m
          then [(''feedback'', JObj [(''useful_url'', JStr (FeedbackUpURL m)), (''wrong_url'', JStr (FeedbackDownURL m))])]
          else [])))"

definition Webhook_Send :: "'w transport \<Rightarrow> gotime option \<Rightarrow> Webhook \<Rightarrow> Message \<Rightarrow> 'w \<Rightarrow> send_error option \<times> 'w" where
  "Webhook_Send tr c h m w = post_json tr c (wh_url h) (buildWebhookPayload m) (\<lambda>r. StatusCode r < 400) w"

section \<open>What the channels guarantee, and what not\<close>

text \<open>How a client reads Telegram's HTML: text, start and end tags that match, links, and the four entities. Everything else,
  a stray angle bracket, an ampersand that starts no entity, a tag left open, is an error. The result is the text that
  is shown and the targets of the links.\<close>

datatype tg_mode = In_Text | In_Tag string | In_Attr string | After_Attr string | In_Entity string | In_Attr_Entity string string

definition tg_tags :: "string list" where
  "tg_tags = [''b'', ''i'', ''code'', ''pre'']"

definition tg_entity :: "string \<Rightarrow> char option" where
  "tg_entity n = map_of [(''amp'', CHR ''&''), (''lt'', CHR ''<''), (''gt'', CHR ''>''), (''quot'', CHR 0x22)] n"

fun tg_read :: "tg_mode \<Rightarrow> string list \<Rightarrow> string \<Rightarrow> (string \<times> string list) option" where
  "tg_read m st [] = (if m = In_Text \<and> st = [] then Some ([], []) else None)"
| "tg_read In_Text st (c # s) =
     (if c = CHR ''<'' then tg_read (In_Tag []) st s
      else if c = CHR ''>'' then None
      else if c = CHR ''&'' then tg_read (In_Entity []) st s
      else map_option (apfst (Cons c)) (tg_read In_Text st s))"
| "tg_read (In_Tag t) st (c # s) =
     (if c = CHR ''>'' then
        if t \<in> set tg_tags then tg_read In_Text (t # st) s
        else if st \<noteq> [] \<and> t = CHR ''/'' # hd st then tg_read In_Text (tl st) s
        else None
      else if t @ [c] = ''a href='' @ dq then tg_read (In_Attr []) st s
      else if c = CHR ''<'' \<or> c = CHR ''&'' then None
      else tg_read (In_Tag (t @ [c])) st s)"
| "tg_read (In_Attr u) st (c # s) =
     (if c = CHR 0x22 then tg_read (After_Attr u) st s
      else if c = CHR ''<'' \<or> c = CHR ''>'' then None
      else if c = CHR ''&'' then tg_read (In_Attr_Entity u []) st s
      else tg_read (In_Attr (u @ [c])) st s)"
| "tg_read (After_Attr u) st (c # s) =
     (if c = CHR ''>'' then map_option (apsnd (Cons u)) (tg_read In_Text (''a'' # st) s) else None)"
| "tg_read (In_Entity n) st (c # s) =
     (if c = CHR '';'' then
        (case tg_entity n of None \<Rightarrow> None | Some d \<Rightarrow> map_option (apfst (Cons d)) (tg_read In_Text st s))
      else tg_read (In_Entity (n @ [c])) st s)"
| "tg_read (In_Attr_Entity u n) st (c # s) =
     (if c = CHR '';'' then (case tg_entity n of None \<Rightarrow> None | Some d \<Rightarrow> tg_read (In_Attr (u @ [d])) st s)
      else tg_read (In_Attr_Entity u (n @ [c])) st s)"

text \<open>The message without markup, and its links.\<close>

definition tg_plain_verdict :: "Message \<Rightarrow> AlertPayload \<Rightarrow> string" where
  "tg_plain_verdict m p =
     (case (Resolved m, M_Analysis m) of
        (False, Some a) \<Rightarrow>
          (if RootCause a \<noteq> [] then lf @ ''Root cause: '' @ RootCause a @ lf else []) @
          (if Evidence a \<noteq> [] then ''Evidence: '' @ Evidence a @ lf else []) @
          (if Action a \<noteq> [] then ''Action: '' @ Action a @ lf else []) @
          (if ConfidenceLine m \<noteq> [] then ConfidenceLine m @ lf else [])
      | (True, _) \<Rightarrow> lf @ ''Alert has cleared.'' @ lf
      | (False, None) \<Rightarrow> if Summary p \<noteq> [] then lf @ Summary p @ lf else [])"

definition tg_plain_evidence :: "Message \<Rightarrow> string" where
  "tg_plain_evidence m =
     (if \<not> Resolved m \<and> HasEvidence m
      then lf @ chart @ '' Evidence'' @ lf @
        (if EvidenceMetrics m \<noteq> [] then Join (EvidenceMetrics m) fact_sep @ lf else []) @
        (if EvidenceLogs m \<noteq> [] then Join (EvidenceLogs m) lf @ lf else [])
      else [])"

definition tg_plain :: "Message \<Rightarrow> AlertPayload \<Rightarrow> string" where
  "tg_plain m p =
     Title m @ lf @ lf @
     (if Namespace p \<noteq> [] then ''Namespace: '' @ Namespace p @ lf else []) @
     (if targetLine (Some p) \<noteq> [] then ''Target: '' @ targetLine (Some p) @ lf else []) @
     (if restartInfo (Some p) \<noteq> [] then ''Pod state: '' @ restartInfo (Some p) @ lf else []) @
     tg_plain_verdict m p @ tg_plain_evidence m @
     (let rel = RelatedSummaries m
      in if rel = [] then []
         else lf @ ''Related alerts ('' @ show_nat (length rel) @ ''):'' @ lf @ concat (map (\<lambda>r. bullet @ '' '' @ r @ lf) rel)) @
     (if GrafanaURL m \<noteq> [] then lf @ ''Open in Grafana'' @ lf else []) @
     (if HasFeedback m then lf @ ''Was this helpful? '' @ thumbs_up @ '' Useful'' @ '' | '' @ thumbs_down @ '' Wrong'' else [])"

definition tg_links :: "Message \<Rightarrow> string list" where
  "tg_links m = (if GrafanaURL m \<noteq> [] then [GrafanaURL m] else []) @ (if HasFeedback m then [FeedbackUpURL m, FeedbackDownURL m] else [])"

text \<open>A piece of markup that reads as a text and links, whatever follows it.\<close>

definition tg_reads :: "string \<Rightarrow> string \<Rightarrow> string list \<Rightarrow> bool" where
  "tg_reads s text links \<longleftrightarrow>
     (\<forall>r. tg_read In_Text [] (s @ r) = map_option (\<lambda>(t, l). (text @ t, links @ l)) (tg_read In_Text [] r))"

lemma tg_reads_Nil: "tg_reads [] [] []"
  by (simp add: tg_reads_def option.map_id)

lemma tg_reads_append: "tg_reads s t l \<Longrightarrow> tg_reads s' t' l' \<Longrightarrow> tg_reads (s @ s') (t @ t') (l @ l')"
  by (simp add: tg_reads_def option.map_comp comp_def case_prod_unfold)

lemma tg_reads_if:
  "(b \<Longrightarrow> tg_reads s t l) \<Longrightarrow> (\<not> b \<Longrightarrow> tg_reads s' t' l') \<Longrightarrow> tg_reads (if b then s else s') (if b then t else t') (if b then l else l')"
  by simp

lemma tg_reads_concat: "(\<And>x. tg_reads (f x) (g x) []) \<Longrightarrow> tg_reads (concat (map f xs)) (concat (map g xs)) []"
  using tg_reads_append [of _ _ "[]" _ _ "[]"] by (induction xs) (auto simp: tg_reads_Nil)

lemma tg_read_char:
  "tg_read In_Text st (tg_char c @ r) = map_option (apfst (Cons c)) (tg_read In_Text st r)"
  by (simp add: tg_char_def tg_entity_def)

lemma tg_read_escaped [simp]:
  "tg_read In_Text st (tgEscape s @ r) = map_option (apfst ((@) s)) (tg_read In_Text st r)"
  by (induction s) (simp_all add: tgEscape_def tg_read_char option.map_comp comp_def apfst_def map_prod_def case_prod_unfold option.map_ident)

lemma tg_read_attr [simp]: "tg_read (In_Attr u) st (tgEscapeAttr s @ r) = tg_read (In_Attr (u @ s)) st r"
proof (induction s arbitrary: u)
  case (Cons c s)
  then show ?case by (simp add: tgEscapeAttr_def tg_char_def tg_entity_def)
qed (simp add: tgEscapeAttr_def)

lemma tg_read_plain:
  "CHR ''<'' \<notin> set s \<Longrightarrow> CHR ''>'' \<notin> set s \<Longrightarrow> CHR ''&'' \<notin> set s \<Longrightarrow>
     tg_read In_Text st (s @ r) = map_option (apfst ((@) s)) (tg_read In_Text st r)"
  by (induction s) (auto simp: option.map_comp comp_def apfst_def map_prod_def case_prod_unfold option.map_ident)

lemma tg_read_nat [simp]: "tg_read In_Text st (show_nat n @ r) = map_option (apfst ((@) (show_nat n))) (tg_read In_Text st r)"
  using show_nat_digits [of n] by (intro tg_read_plain) (auto simp: list_all_iff is_digit_def)

lemma tg_reads_read: "tg_reads s t l \<Longrightarrow> tg_read In_Text [] s = Some (t, l)"
  unfolding tg_reads_def by (drule spec [of _ "[]"]) simp

lemmas tg_evals = tg_reads_def tg_tags_def lf_def dq_def chart_def bullet_def thumbs_up_def thumbs_down_def option.map_comp comp_def apfst_def
  map_prod_def case_prod_unfold

lemma tg_reads_if_text: "(b \<Longrightarrow> tg_reads s t []) \<Longrightarrow> tg_reads (if b then s else []) (if b then t else []) []"
  using tg_reads_if [of b s t "[]" "[]" "[]" "[]"] by (simp add: tg_reads_Nil)

lemma tg_reads_link:
  assumes "CHR ''<'' \<notin> set t" "CHR ''>'' \<notin> set t" "CHR ''&'' \<notin> set t"
  shows "tg_reads (tg_link u t) t [u]"
  using assms by (simp add: tg_link_def tg_evals apsnd_def tg_read_plain)

lemma tg_reads_head:
  "tg_reads (''<b>'' @ tgEscape x @ ''</b>'' @ lf @ lf) (x @ lf @ lf) []"
  "tg_reads (''<b>Namespace:</b> <code>'' @ tgEscape x @ ''</code>'' @ lf) (''Namespace: '' @ x @ lf) []"
  "tg_reads (''<b>Target:</b> <code>'' @ tgEscape x @ ''</code>'' @ lf) (''Target: '' @ x @ lf) []"
  "tg_reads (''<b>Pod state:</b> '' @ tgEscape x @ lf) (''Pod state: '' @ x @ lf) []"
  by (simp_all add: tg_evals)

lemma tg_reads_verdict_parts:
  "tg_reads (lf @ ''<b>Root cause:</b> '' @ tgEscape x @ lf) (lf @ ''Root cause: '' @ x @ lf) []"
  "tg_reads (''<b>Evidence:</b> '' @ tgEscape x @ lf) (''Evidence: '' @ x @ lf) []"
  "tg_reads (''<b>Action:</b> '' @ tgEscape x @ lf) (''Action: '' @ x @ lf) []"
  "tg_reads (''<i>'' @ tgEscape x @ ''</i>'' @ lf) (x @ lf) []"
  "tg_reads (lf @ ''<i>Alert has cleared.</i>'' @ lf) (lf @ ''Alert has cleared.'' @ lf) []"
  "tg_reads (lf @ tgEscape x @ lf) (lf @ x @ lf) []"
  by (simp_all add: tg_evals)

lemma tg_reads_texts: "tg_reads s t [] \<Longrightarrow> tg_reads s' t' l \<Longrightarrow> tg_reads (s @ s') (t @ t') l"
  using tg_reads_append [of s t "[]" s' t' l] by simp

lemma tg_reads_verdict: "tg_reads (tg_verdict m p) (tg_plain_verdict m p) []"
proof (cases "Resolved m")
  case True
  then show ?thesis using tg_reads_verdict_parts(5) by (simp add: tg_verdict_def tg_plain_verdict_def)
next
  case False
  note parts = tg_reads_verdict_parts [THEN tg_reads_if_text]
  show ?thesis
  proof (cases "M_Analysis m")
    case None
    show ?thesis
      unfolding tg_verdict_def tg_plain_verdict_def None using False parts(6) by (simp only: prod.case bool.case option.case)
  next
    case (Some a)
    show ?thesis
      unfolding tg_verdict_def tg_plain_verdict_def Some using False
      by (simp only: prod.case bool.case option.case) (intro tg_reads_texts [OF parts(1) tg_reads_texts [OF parts(2) tg_reads_texts [OF parts(3) parts(4)]]])
  qed
qed

lemma tg_reads_evidence_parts:
  "tg_reads (lf @ ''<b>'' @ chart @ '' Evidence</b>'' @ lf) (lf @ chart @ '' Evidence'' @ lf) []"
  "tg_reads (tgEscape x @ lf) (x @ lf) []"
  "tg_reads (''<pre>'' @ tgEscape x @ ''</pre>'' @ lf) (x @ lf) []"
  by (simp_all add: tg_evals)

lemma tg_reads_evidence: "tg_reads (tg_evidence m) (tg_plain_evidence m) []"
  unfolding tg_evidence_def tg_plain_evidence_def
  using tg_reads_texts [OF tg_reads_evidence_parts(1) tg_reads_texts [OF tg_reads_if_text tg_reads_if_text, OF tg_reads_evidence_parts(2,3)]]
  by (intro tg_reads_if_text) (simp only: append_assoc)

lemma tg_reads_related_parts:
  "tg_reads (lf @ ''<b>Related alerts ('' @ show_nat n @ ''):</b>'' @ lf) (lf @ ''Related alerts ('' @ show_nat n @ ''):'' @ lf) []"
  "tg_reads (bullet @ '' '' @ tgEscape r @ lf) (bullet @ '' '' @ r @ lf) []"
  by (simp_all add: tg_evals)

lemma tg_reads_related:
  "tg_reads (let rel = rs in if rel = [] then []
       else lf @ ''<b>Related alerts ('' @ show_nat (length rel) @ ''):</b>'' @ lf @ concat (map (\<lambda>r. bullet @ '' '' @ tgEscape r @ lf) rel))
     (let rel = rs in if rel = [] then []
       else lf @ ''Related alerts ('' @ show_nat (length rel) @ ''):'' @ lf @ concat (map (\<lambda>r. bullet @ '' '' @ r @ lf) rel)) []"
proof (cases "rs = []")
  case False
  have "tg_reads (concat (map (\<lambda>r. bullet @ '' '' @ tgEscape r @ lf) rs)) (concat (map (\<lambda>r. bullet @ '' '' @ r @ lf) rs)) []"
    by (intro tg_reads_concat tg_reads_related_parts)
  from tg_reads_texts [OF tg_reads_related_parts(1) [of "length rs"] this] False show ?thesis
    by (simp only: Let_def append_assoc if_False)
qed (simp add: tg_reads_Nil)

lemma tg_reads_links:
  "tg_reads (lf @ tg_link u ''Open in Grafana'' @ lf) (lf @ ''Open in Grafana'' @ lf) [u]"
  "tg_reads (lf @ ''<b>Was this helpful?</b> '' @ tg_link u (thumbs_up @ '' Useful'') @ '' | '' @ tg_link v (thumbs_down @ '' Wrong''))
     (lf @ ''Was this helpful? '' @ thumbs_up @ '' Useful'' @ '' | '' @ thumbs_down @ '' Wrong'') [u, v]"
  by (simp_all add: tg_link_def tg_evals apsnd_def)

text \<open>C31: No markup injection into Telegram. Whatever an alert, its logs, its labels, the links or the model's answer contain, a
  client that knows only matching tags of the four kinds in use, links and entities reads the rendered message without an error:
  every tag is closed, no attribute ends early, no stray bracket or ampersand is left. What it shows is the message's plain text
  with every field as it was given, and the link targets are exactly the configured URLs.\<close>

theorem telegram_markup_safe:
  "tg_read In_Text [] (buildTelegramHTML m) = Some (case Payload m of None \<Rightarrow> ([], []) | Some p \<Rightarrow> (tg_plain m p, tg_links m))"
proof (cases "Payload m")
  case (Some p)
  note head = tg_reads_head(1) tg_reads_head(2-4) [THEN tg_reads_if_text]
  have grafana: "tg_reads (if GrafanaURL m \<noteq> [] then lf @ tg_link (GrafanaURL m) ''Open in Grafana'' @ lf else [])
      (if GrafanaURL m \<noteq> [] then lf @ ''Open in Grafana'' @ lf else []) (if GrafanaURL m \<noteq> [] then [GrafanaURL m] else [])"
    by (intro tg_reads_if tg_reads_links tg_reads_Nil)
  have fb: "tg_reads (if HasFeedback m then lf @ ''<b>Was this helpful?</b> '' @ tg_link (FeedbackUpURL m) (thumbs_up @ '' Useful'') @ '' | '' @
        tg_link (FeedbackDownURL m) (thumbs_down @ '' Wrong'') else [])
      (if HasFeedback m then lf @ ''Was this helpful? '' @ thumbs_up @ '' Useful'' @ '' | '' @ thumbs_down @ '' Wrong'' else [])
      (if HasFeedback m then [FeedbackUpURL m, FeedbackDownURL m] else [])"
    by (intro tg_reads_if tg_reads_links tg_reads_Nil)
  note tail = tg_reads_texts [OF tg_reads_verdict tg_reads_texts [OF tg_reads_evidence tg_reads_texts [OF tg_reads_related tg_reads_append [OF grafana fb]]]]
  have "tg_reads (buildTelegramHTML m) (tg_plain m p) (tg_links m)"
    unfolding buildTelegramHTML_def tg_plain_def tg_links_def Some option.case
    using tg_reads_texts [OF head(1) tg_reads_texts [OF head(2) tg_reads_texts [OF head(3) tg_reads_texts [OF head(4) tail]]]]
    by (simp only: append_assoc)
  then show ?thesis by (simp add: Some tg_reads_read)
qed (simp add: buildTelegramHTML_def)

text \<open>The subject of a mail is not protected. An alert name (or cluster name) that contains a line break
  continues the header section: what follows the break becomes a header line of its own.\<close>

theorem mail_header_injection:
  assumes "AlertName p = n @ crlf @ extra"
  shows "\<exists>subject. mail_headers now from to (FormatMessage p a) =
     ''From: '' @ from @ crlf @ ''To: '' @ Join to '', '' @ crlf @ ''Subject: '' @ subject @ crlf @ extra @ crlf @
     ''Date: '' @ rfc1123z now @ crlf @ ''MIME-Version: 1.0'' @ crlf @ ''Content-Type: text/plain; charset=utf-8'' @ crlf @ crlf"
  using assms
  by (intro exI [of _ "(if Resolved (FormatMessage p a) then ''[RESOLVED]'' else ''['' @ upper (Message_Severity (FormatMessage p a)) @ '']'') @
      '' '' @ ClusterId p @ '' / '' @ n"])
    (simp add: mail_headers_def Title_def FormatMessage_def)

text \<open>PagerDuty incidents are closed under the key they were opened with, but the key does not tell alerts
  apart. The resolve event of an alert carries the deduplication key of its trigger event; and since the parts of
  the key are joined with dashes, which all of them may contain, there are alerts of different clusters with the
  same key, so that resolving one closes the other's page.\<close>

theorem pagerduty_key:
  "(\<forall>p a p' a'. ClusterId p = ClusterId p' \<and> AlertName p = AlertName p' \<and> Namespace p = Namespace p' \<longrightarrow>
      pd_dedupKey (FormatMessage p a) = pd_dedupKey (FormatMessage p' a')) \<and>
   (\<exists>p p'. ClusterId p \<noteq> ClusterId p' \<and> AlertName p \<noteq> AlertName p' \<and> pd_dedupKey (FormatMessage p None) = pd_dedupKey (FormatMessage p' None))"
proof
  show "\<exists>p p'. ClusterId p \<noteq> ClusterId p' \<and> AlertName p \<noteq> AlertName p' \<and>
      pd_dedupKey (FormatMessage p None) = pd_dedupKey (FormatMessage p' None)"
    by (intro exI [of _ "zero_payload\<lparr>ClusterId := ''eu-west'', AlertName := ''Down''\<rparr>"]
        exI [of _ "zero_payload\<lparr>ClusterId := ''eu'', AlertName := ''west-Down''\<rparr>"])
      (simp add: pd_dedupKey_def safeField_def FormatMessage_def zero_payload_def)
qed (simp add: pd_dedupKey_def safeField_def FormatMessage_def)

text \<open>Witnesses.\<close>

theorem mail_header_injection_witness:
  "\<exists>subject. mail_headers 0 ''m@x'' [''ops@x''] (FormatMessage (demo_alert\<lparr>AlertName := ''Down'' @ crlf @ ''Reply-To: evil@x''\<rparr>) None) =
     ''From: '' @ ''m@x'' @ crlf @ ''To: '' @ Join [''ops@x''] '', '' @ crlf @ ''Subject: '' @ subject @ crlf @ ''Reply-To: evil@x'' @ crlf @
     ''Date: '' @ rfc1123z 0 @ crlf @ ''MIME-Version: 1.0'' @ crlf @ ''Content-Type: text/plain; charset=utf-8'' @ crlf @ crlf"
  by (rule mail_header_injection [where n = "''Down''"]) simp

theorem pagerduty_key_witness:
  "pd_dedupKey (FormatMessage demo_alert None) = pd_dedupKey (FormatMessage (demo_alert\<lparr>Status := ''resolved''\<rparr>) None) \<and>
   Resolved (FormatMessage (demo_alert\<lparr>Status := ''resolved''\<rparr>) None)"
  using pagerduty_key by (auto simp: Resolved_def FormatMessage_def)

text \<open>The comment of \<open>truncate\<close> promises a cut at runes; the cut is at bytes, and can leave half a rune.\<close>

theorem truncate_cuts_runes:
  "\<exists>s. valid_utf8 s \<and> length (truncate_text s 4) = 4 \<and> \<not> valid_utf8 (truncate_text s 4)"
  by (rule exI [of _ "[CHR 0xC3, CHR 0xA9, CHR 0xC3, CHR 0xA9, CHR 0xC3, CHR 0xA9]"])
    (simp add: truncate_text_def valid_utf8_def byte_in_def cont_byte_def numeral_eq_Suc)

end
