(* ===== verification/Receivers.thy ===== *)
theory Receivers
  imports Pagers
begin

text \<open>
  \<open>internal/notify/receiver.go\<close>: receivers built from the configuration file, and the \<open>Notifier\<close> interface
  they share. A Go map is an association list in its (unspecified) iteration order.
\<close>

section \<open>Notifiers\<close>

datatype Notifier =
    N_Telegram Telegram
  | N_Discord Discord
  | N_Slack Slack
  | N_PagerDuty PagerDuty
  | N_Webhook Webhook
  | N_SMTP SMTP

fun Notifier_Name :: "Notifier \<Rightarrow> string" where
  "Notifier_Name (N_Telegram t) = tg_name t"
| "Notifier_Name (N_Discord d) = dc_name d"
| "Notifier_Name (N_Slack s) = sl_name s"
| "Notifier_Name (N_PagerDuty p) = pd_name p"
| "Notifier_Name (N_Webhook h) = wh_name h"
| "Notifier_Name (N_SMTP s) = sm_name s"

fun Notifier_Send :: "'w transport \<Rightarrow> gotime option \<Rightarrow> Notifier \<Rightarrow> Message \<Rightarrow> 'w \<Rightarrow> send_error option \<times> 'w" where
  "Notifier_Send tr c (N_Telegram t) m w = Telegram_Send tr c t m w"
| "Notifier_Send tr c (N_Discord d) m w = Discord_Send tr c d m w"
| "Notifier_Send tr c (N_Slack s) m w = Slack_Send tr c s m w"
| "Notifier_Send tr c (N_PagerDuty p) m w = PagerDuty_Send tr c p m w"
| "Notifier_Send tr c (N_Webhook h) m w = Webhook_Send tr c h m w"
| "Notifier_Send tr c (N_SMTP s) m w = SMTP_Send tr c s m w"

section \<open>Building receivers\<close>

record ReceiverConfig =
  rc_Name :: string
  rc_Type :: string
  rc_Config :: config_map

text \<open>\<open>None\<close> for an unknown type; \<open>Some None\<close> when the factory refuses the configuration.\<close>

definition factories :: "string \<Rightarrow> (string \<Rightarrow> config_map \<Rightarrow> Notifier option) option" where
  "factories ty =
     (if ty = ''telegram'' then Some (\<lambda>n c. map_option N_Telegram (newTelegram n c))
      else if ty = ''discord'' then Some (\<lambda>n c. map_option N_Discord (newDiscord n c))
      else if ty = ''slack'' then Some (\<lambda>n c. map_option N_Slack (newSlack n c))
      else if ty = ''pagerduty'' then Some (\<lambda>n c. map_option N_PagerDuty (newPagerDuty n c))
      else if ty = ''webhook'' then Some (\<lambda>n c. map_option N_Webhook (newWebhook n c))
      else if ty = ''smtp'' \<or> ty = ''email'' then Some (\<lambda>n c. map_option N_SMTP (newSMTP n c))
      else None)"

fun resolve_loop :: "(string \<Rightarrow> string + bytes) \<Rightarrow> config_map \<Rightarrow> config_map \<Rightarrow> config_map option" where
  "resolve_loop readFile out [] = Some out"
| "resolve_loop readFile out ((k, v) # cfg) =
     (if HasSuffix k ''_file'' then
        (case readFile v of
           Inl e \<Rightarrow> None
         | Inr data \<Rightarrow>
             resolve_loop readFile (AList.update (TrimSuffix k ''_file'') (TrimRight data [CHR '' '', CHR 0x09, CHR 0x0D, CHR 0x0A]) out) cfg)
      else resolve_loop readFile (AList.update k v out) cfg)"

definition resolveConfig :: "(string \<Rightarrow> string + bytes) \<Rightarrow> config_map \<Rightarrow> config_map option" where
  "resolveConfig readFile cfg = resolve_loop readFile [] cfg"

text \<open>What one entry of the configuration contributes; \<open>None\<close> when it is skipped with a warning.\<close>

definition build_one :: "(string \<Rightarrow> string + bytes) \<Rightarrow> ReceiverConfig \<Rightarrow> Notifier option" where
  "build_one readFile rc =
     (case factories (rc_Type rc) of
        None \<Rightarrow> None
      | Some f \<Rightarrow>
          (case resolveConfig readFile (rc_Config rc) of
             None \<Rightarrow> None
           | Some cfg \<Rightarrow> f (rc_Name rc) cfg))"

text \<open>The error is the duplicate name.\<close>

fun build_loop ::
  "(string \<Rightarrow> string + bytes) \<Rightarrow> string list \<Rightarrow> (string \<times> Notifier) list \<Rightarrow> ReceiverConfig list \<Rightarrow>
   string + (string \<times> Notifier) list" where
  "build_loop readFile seen out [] = Inr out"
| "build_loop readFile seen out (rc # rcs) =
     (if rc_Name rc = [] then build_loop readFile seen out rcs
      else if rc_Name rc \<in> set seen then Inl (rc_Name rc)
      else build_loop readFile (rc_Name rc # seen)
             (case build_one readFile rc of None \<Rightarrow> out | Some n \<Rightarrow> AList.update (rc_Name rc) n out) rcs)"

definition BuildReceivers ::
  "(string \<Rightarrow> string + bytes) \<Rightarrow> ReceiverConfig list \<Rightarrow> string + (string \<times> Notifier) list" where
  "BuildReceivers readFile configs = build_loop readFile [] [] configs"

section \<open>What is built\<close>

text \<open>The first name that occurs for the second time.\<close>

fun first_repeated :: "string list \<Rightarrow> string list \<Rightarrow> string option" where
  "first_repeated seen [] = None"
| "first_repeated seen (x # xs) = (if x \<in> set seen then Some x else first_repeated (x # seen) xs)"

definition named :: "ReceiverConfig list \<Rightarrow> ReceiverConfig list" where
  "named cs = filter (\<lambda>rc. rc_Name rc \<noteq> []) cs"

definition built :: "(string \<Rightarrow> string + bytes) \<Rightarrow> ReceiverConfig list \<Rightarrow> (string \<times> Notifier) list" where
  "built readFile cs = List.map_filter (\<lambda>rc. map_option (Pair (rc_Name rc)) (build_one readFile rc)) (named cs)"

lemma AList_update_new: "k \<notin> fst ` set xs \<Longrightarrow> AList.update k v xs = xs @ [(k, v)]"
  by (induction xs) auto

lemma build_loop_spec:
  "fst ` set out \<subseteq> set seen \<Longrightarrow>
   build_loop readFile seen out cs =
     (case first_repeated seen (map rc_Name (named cs)) of Some d \<Rightarrow> Inl d | None \<Rightarrow> Inr (out @ built readFile cs))"
proof (induction cs arbitrary: seen out)
  case Nil
  then show ?case by (simp add: named_def built_def map_filter_simps)
next
  case (Cons rc cs)
  consider (skip) "rc_Name rc = []" | (dup) "rc_Name rc \<noteq> []" "rc_Name rc \<in> set seen"
    | (new) "rc_Name rc \<noteq> []" "rc_Name rc \<notin> set seen" by blast
  then show ?case
  proof cases
    case new
    let ?out = "case build_one readFile rc of None \<Rightarrow> out | Some n \<Rightarrow> AList.update (rc_Name rc) n out"
    have upd: "?out = out @ (case build_one readFile rc of None \<Rightarrow> [] | Some n \<Rightarrow> [(rc_Name rc, n)])"
    proof -
      have "rc_Name rc \<notin> fst ` set out" using new Cons.prems by blast
      then show ?thesis by (simp add: AList_update_new split: option.split)
    qed
    then have "fst ` set ?out \<subseteq> set (rc_Name rc # seen)" using Cons.prems by (auto split: option.split)
    from Cons.IH [OF this] new upd show ?thesis
      by (auto simp: named_def built_def map_filter_simps split: option.split)
  next
    case skip
    then have "named (rc # cs) = named cs" "built readFile (rc # cs) = built readFile cs"
      by (simp_all add: named_def built_def)
    with skip Cons show ?thesis by (simp split: option.split)
  qed (use Cons in \<open>simp add: named_def\<close>)
qed

lemma new_names:
  "newTelegram n c = Some t \<Longrightarrow> tg_name t = n" "newDiscord n c = Some d \<Longrightarrow> dc_name d = n"
  "newSlack n c = Some s \<Longrightarrow> sl_name s = n" "newPagerDuty n c = Some g \<Longrightarrow> pd_name g = n"
  "newWebhook n c = Some h \<Longrightarrow> wh_name h = n" "newSMTP n c = Some e \<Longrightarrow> sm_name e = n"
  by (auto simp: newTelegram_def newDiscord_def newSlack_def newPagerDuty_def newWebhook_def newSMTP_def Let_def split: if_split_asm)

lemma factory_name:
  assumes "factories ty = Some f" and "f n cfg = Some N" shows "Notifier_Name N = n"
proof -
  have "f \<in> {\<lambda>n c. map_option N_Telegram (newTelegram n c), \<lambda>n c. map_option N_Discord (newDiscord n c),
      \<lambda>n c. map_option N_Slack (newSlack n c), \<lambda>n c. map_option N_PagerDuty (newPagerDuty n c),
      \<lambda>n c. map_option N_Webhook (newWebhook n c), \<lambda>n c. map_option N_SMTP (newSMTP n c)}"
    using assms(1) unfolding factories_def by (simp split: if_split_asm)
  with assms(2) show ?thesis by (auto dest: new_names)
qed

lemma built_names: "(n, N) \<in> set (built readFile cs) \<Longrightarrow> Notifier_Name N = n"
  by (auto simp: built_def List.map_filter_def build_one_def factory_name split: option.split_asm)

text \<open>C30: Building receivers. The result is exactly this: a name that occurs twice makes the start fail, with the
  first such name as the error; otherwise there is one notifier for every named entry whose type is known, whose
  secret files can be read and whose required settings are there, in order, registered under its own name; every
  other entry is left out without affecting the rest.\<close>

theorem BuildReceivers_exact:
  "BuildReceivers readFile cs =
     (case first_repeated [] (map rc_Name (filter (\<lambda>rc. rc_Name rc \<noteq> []) cs)) of
        Some d \<Rightarrow> Inl d
      | None \<Rightarrow> Inr (List.map_filter (\<lambda>rc. map_option (Pair (rc_Name rc)) (build_one readFile rc))
          (filter (\<lambda>rc. rc_Name rc \<noteq> []) cs))) \<and>
   list_all (\<lambda>(n, N). Notifier_Name N = n) (built readFile cs)"
  using build_loop_spec [of "[]" "[]" readFile cs] built_names [of _ _ readFile cs]
  by (auto simp: BuildReceivers_def named_def built_def list_all_iff split: option.split)

end
