(* ===== verification/Pipeline.thy ===== *)
theory Pipeline
  imports Dedup Limiter Routing Silence Correlator Cache FeedbackLoop Evaluator Receivers
begin

text \<open>
  \<open>internal/pipeline/pipeline.go\<close>: from an ingested alert to the notifications. The components are the ones of
  the other theories; the collaborators that Go reaches through interfaces (the store, the analyzer, the
  transports) and the clock are the record \<open>env\<close>. The state of a run is threaded explicitly: the store, the
  limiter pool, the correlator, the outside world \<open>'w\<close>, and what was counted, sent and silenced. A panic, which no
  caller recovers, is \<open>None\<close>. The in-flight gauge and the logging are left out.
\<close>

section \<open>Collaborators and state\<close>

text \<open>The interface \<open>Analyzer\<close>; the context is its deadline.\<close>

record 'w Analyzer =
  an_Evaluate :: "gotime option \<Rightarrow> AlertPayload \<Rightarrow> Example list \<Rightarrow> 'w \<Rightarrow> (llm_error + Analysis) \<times> metric list \<times> 'w"
  an_EvaluateIncident :: "gotime option \<Rightarrow> AlertPayload list \<Rightarrow> Example list \<Rightarrow> 'w \<Rightarrow> (llm_error + Analysis) \<times> metric list \<times> 'w"

text \<open>\<open>e_tick\<close> reads the clock, \<open>e_alertmanager\<close> answers the silence requests.\<close>

record ('s, 'w) env =
  e_sha256 :: "bytes \<Rightarrow> bytes"
  e_ops :: "'s store_ops"
  e_tick :: "'w \<Rightarrow> gotime \<times> 'w"
  e_dedup :: Deduplicator
  e_analyzer :: "'w Analyzer"
  e_cache :: Cache
  e_router :: Router
  e_notifiers :: "(string \<times> Notifier) list"
  e_transport :: "'w transport"
  e_silence :: Silence_Client
  e_alertmanager :: "http_request \<Rightarrow> string + http_response"
  e_feedback :: Manager
  e_history :: "History_Store option"
  e_evidence :: EvidenceConfig

text \<open>\<open>p_sent\<close> lists the notifications that were attempted, with their outcome, and \<open>p_asked\<close> the alerts the
  analyzer was asked about.\<close>

record ('s, 'w) pipe =
  p_store :: 's
  p_pool :: "Pool option"
  p_cor :: Correlator
  p_world :: 'w
  p_metrics :: "metric list"
  p_sent :: "(string \<times> Message \<times> bool) list"
  p_silences :: "silenceRequest list"
  p_asked :: "AlertPayload list list"

definition now_of :: "('s, 'w) env \<Rightarrow> ('s, 'w) pipe \<Rightarrow> gotime \<times> ('s, 'w) pipe" where
  "now_of e st = (case e_tick e (p_world st) of (t, w) \<Rightarrow> (t, st\<lparr>p_world := w\<rparr>))"

definition count :: "metric list \<Rightarrow> ('s, 'w) pipe \<Rightarrow> ('s, 'w) pipe" where
  "count ms st = st\<lparr>p_metrics := p_metrics st @ ms\<rparr>"

text \<open>\<open>context.WithTimeout(context.Background(), d)\<close>\<close>

definition deadline :: "('s, 'w) env \<Rightarrow> duration \<Rightarrow> ('s, 'w) pipe \<Rightarrow> gotime option \<times> ('s, 'w) pipe" where
  "deadline e d st = (case now_of e st of (t, st1) \<Rightarrow> (Some (t + d), st1))"

definition statusLabel :: "AlertPayload \<Rightarrow> string" where
  "statusLabel p = (if Status p = ''resolved'' then ''resolved'' else ''firing'')"

section \<open>Steps\<close>

definition acquire :: "('s, 'w) env \<Rightarrow> string \<Rightarrow> ('s, 'w) pipe \<Rightarrow> (bool \<times> ('s, 'w) pipe) option" where
  "acquire e cluster st =
     (case now_of e st of (t1, st1) \<Rightarrow> case now_of e st1 of (t2, st2) \<Rightarrow>
        (case Pool_Acquire t1 t2 (p_pool st2) cluster of
           None \<Rightarrow> None
         | Some (ok, pool, ms) \<Rightarrow> Some (ok, count ms (st2\<lparr>p_pool := pool\<rparr>))))"

definition release :: "('s, 'w) env \<Rightarrow> string \<Rightarrow> ('s, 'w) pipe \<Rightarrow> ('s, 'w) pipe" where
  "release e cluster st =
     (case now_of e st of (t, st1) \<Rightarrow> st1\<lparr>p_pool := Pool_Release t (p_pool st1) cluster\<rparr>)"

definition examples_for :: "('s, 'w) env \<Rightarrow> AlertPayload \<Rightarrow> ('s, 'w) pipe \<Rightarrow> Example list \<times> ('s, 'w) pipe" where
  "examples_for e p st =
     (case now_of e st of (t, st1) \<Rightarrow>
        (Feedback_Examples (e_sha256 e) (e_ops e) (e_feedback e) t (p_store st1) p, st1))"

definition ask ::
  "(gotime option \<Rightarrow> Example list \<Rightarrow> 'w \<Rightarrow> (llm_error + Analysis) \<times> metric list \<times> 'w) \<Rightarrow> AlertPayload list \<Rightarrow>
   gotime option \<Rightarrow> Example list \<Rightarrow> ('s, 'w) pipe \<Rightarrow> Analysis option \<times> ('s, 'w) pipe" where
  "ask f alerts c examples st =
     (case f c examples (p_world st) of
        (r, ms, w) \<Rightarrow>
          (case r of Inl _ \<Rightarrow> None | Inr a \<Rightarrow> Some a,
           count ms (st\<lparr>p_world := w, p_asked := p_asked st @ [alerts]\<rparr>)))"

definition cache_get :: "('s, 'w) env \<Rightarrow> AlertPayload \<Rightarrow> ('s, 'w) pipe \<Rightarrow> Analysis option \<times> ('s, 'w) pipe" where
  "cache_get e p st =
     (case now_of e st of (t1, st1) \<Rightarrow> case now_of e st1 of (t2, st2) \<Rightarrow>
        (case Cache_Get (e_sha256 e) (e_ops e) (e_cache e) t1 t2 (p_store st2) p of
           (a, ms) \<Rightarrow> (a, count ms st2)))"

definition cache_set :: "('s, 'w) env \<Rightarrow> AlertPayload \<Rightarrow> Analysis option \<Rightarrow> ('s, 'w) pipe \<Rightarrow> ('s, 'w) pipe" where
  "cache_set e p a st =
     (case now_of e st of (t1, st1) \<Rightarrow> case now_of e st1 of (t2, st2) \<Rightarrow>
        st2\<lparr>p_store := Cache_Set (e_sha256 e) (e_ops e) (e_cache e) t1 t2 (p_store st2) p a\<rparr>)"

definition evaluate ::
  "('s, 'w) env \<Rightarrow> gotime option \<Rightarrow> AlertPayload \<Rightarrow> ('s, 'w) pipe \<Rightarrow> (Analysis option \<times> ('s, 'w) pipe) option" where
  "evaluate e c p st =
     (case cache_get e p st of
        (Some a, st1) \<Rightarrow> Some (Some a, st1)
      | (None, st1) \<Rightarrow>
          (case acquire e (ClusterId p) st1 of
             None \<Rightarrow> None
           | Some (False, st2) \<Rightarrow> Some (None, st2)
           | Some (True, st2) \<Rightarrow>
               (case examples_for e p st2 of (exs, st3) \<Rightarrow>
                  case ask (\<lambda>c. an_Evaluate (e_analyzer e) c p) [p] c exs st3 of
                    (None, st4) \<Rightarrow> Some (None, release e (ClusterId p) st4)
                  | (Some a, st4) \<Rightarrow> Some (Some a, release e (ClusterId p) (cache_set e p (Some a) st4)))))"

definition evaluateIncident ::
  "('s, 'w) env \<Rightarrow> gotime option \<Rightarrow> AlertPayload \<Rightarrow> AlertPayload list \<Rightarrow> ('s, 'w) pipe \<Rightarrow> (Analysis option \<times> ('s, 'w) pipe) option" where
  "evaluateIncident e c rep alerts st =
     (case acquire e (ClusterId rep) st of
        None \<Rightarrow> None
      | Some (False, st1) \<Rightarrow> Some (None, st1)
      | Some (True, st1) \<Rightarrow>
          (case examples_for e rep st1 of (exs, st2) \<Rightarrow>
             case ask (\<lambda>c. an_EvaluateIncident (e_analyzer e) c alerts) alerts c exs st2 of
               (a, st3) \<Rightarrow> Some (a, release e (ClusterId rep) st3)))"

definition maybeSilence :: "('s, 'w) env \<Rightarrow> AlertPayload \<Rightarrow> Analysis option \<Rightarrow> ('s, 'w) pipe \<Rightarrow> ('s, 'w) pipe" where
  "maybeSilence e p analysis st =
     (case analysis of
        None \<Rightarrow> st
      | Some a \<Rightarrow>
          if \<not> Messages.Silence a then st
          else if Confidence a = ''low'' then count [Silences ''low_confidence''] st
          else case now_of e st of (t, st1) \<Rightarrow>
                 (case CreateSilence (tr_url_ok (e_transport e)) (e_alertmanager e) (e_silence e) t p (SilenceReason a) of
                    (err, ms, reqs) \<Rightarrow> count ms (st1\<lparr>p_silences := p_silences st1 @ reqs\<rparr>)))"

definition record_history ::
  "('s, 'w) env \<Rightarrow> AlertPayload \<Rightarrow> Analysis option \<Rightarrow> AlertPayload list \<Rightarrow> ('s, 'w) pipe \<Rightarrow> ('s, 'w) pipe" where
  "record_history e rep analysis alerts st =
     (case now_of e st of (t1, st1) \<Rightarrow> case now_of e st1 of (t2, st2) \<Rightarrow>
        (case History_Record (e_sha256 e) (e_ops e) (e_history e) t1 t2 (p_store st2) (Some rep) analysis alerts of
           (s, ms) \<Rightarrow> count ms (st2\<lparr>p_store := s\<rparr>)))"

definition attachFeedback ::
  "('s, 'w) env \<Rightarrow> AlertPayload \<Rightarrow> Analysis option \<Rightarrow> Message \<Rightarrow> ('s, 'w) pipe \<Rightarrow> Message \<times> ('s, 'w) pipe" where
  "attachFeedback e p analysis msg st =
     (case analysis of
        None \<Rightarrow> (msg, st)
      | Some a \<Rightarrow>
          (case now_of e st of (t, st1) \<Rightarrow>
             (case Feedback_Record (e_sha256 e) (e_ops e) (e_feedback e) t (p_store st1) p (Some a) of
                ((up, down), s) \<Rightarrow> (msg\<lparr>FeedbackUpURL := up, FeedbackDownURL := down\<rparr>, st1\<lparr>p_store := s\<rparr>))))"

definition send_one ::
  "('s, 'w) env \<Rightarrow> gotime option \<Rightarrow> Message \<Rightarrow> string \<Rightarrow> ('s, 'w) pipe \<Rightarrow> ('s, 'w) pipe" where
  "send_one e c msg name st =
     (case map_of (e_notifiers e) name of
        None \<Rightarrow> st
      | Some n \<Rightarrow>
          (case Notifier_Send (e_transport e) c n msg (p_world st) of
             (err, w) \<Rightarrow>
               count [Notifications name (if err = None then ''ok'' else ''error'')]
                 (st\<lparr>p_world := w, p_sent := p_sent st @ [(name, msg, err = None)]\<rparr>)))"

definition deliver ::
  "('s, 'w) env \<Rightarrow> gotime option \<Rightarrow> AlertPayload \<Rightarrow> Message \<Rightarrow> ('s, 'w) pipe \<Rightarrow> ('s, 'w) pipe" where
  "deliver e c routeBy msg st = fold (send_one e c msg) (Route (e_router e) routeBy) st"

text \<open>The common tail of \<open>processSingle\<close> and both branches of \<open>processIncident\<close>: silence, history, message,
  evidence, feedback links, delivery.\<close>

definition finish ::
  "('s, 'w) env \<Rightarrow> gotime option \<Rightarrow> AlertPayload \<Rightarrow> AlertPayload list \<Rightarrow> Message \<Rightarrow> Analysis option \<Rightarrow> ('s, 'w) pipe \<Rightarrow>
   ('s, 'w) pipe option" where
  "finish e c p alerts msg analysis st =
     (let st1 = record_history e p analysis alerts (maybeSilence e p analysis st)
      in case AttachEvidence msg p (e_evidence e) of
           None \<Rightarrow> None
         | Some msg1 \<Rightarrow>
             (case attachFeedback e p analysis msg1 st1 of
                (msg2, st2) \<Rightarrow> Some (deliver e c p msg2 st2)))"

section \<open>Entry points\<close>

definition processSingle :: "('s, 'w) env \<Rightarrow> AlertPayload \<Rightarrow> ('s, 'w) pipe \<Rightarrow> ('s, 'w) pipe option" where
  "processSingle e p st =
     (case deadline e (60 * second) st of (c, st1) \<Rightarrow>
        case evaluate e c p st1 of
          None \<Rightarrow> None
        | Some (a, st2) \<Rightarrow> finish e c p [p] (FormatMessage p a) a st2)"

definition processIncident :: "('s, 'w) env \<Rightarrow> AlertPayload list \<Rightarrow> ('s, 'w) pipe \<Rightarrow> ('s, 'w) pipe option" where
  "processIncident e alerts st =
     (case deadline e (90 * second) st of (c, st1) \<Rightarrow>
        case Representative alerts of
          None \<Rightarrow> Some st1
        | Some rep \<Rightarrow>
            if length alerts = 1 then
              (case evaluate e c rep st1 of
                 None \<Rightarrow> None
               | Some (a, st2) \<Rightarrow>
                   map_option (count [Incidents (IncidentSizeBucket 1)]) (finish e c rep alerts (FormatMessage rep a) a st2))
            else
              (case evaluateIncident e c rep alerts st1 of
                 None \<Rightarrow> None
               | Some (a, st2) \<Rightarrow>
                   map_option (count [Incidents (IncidentSizeBucket (int (length alerts)))])
                     (finish e c rep alerts (FormatIncidentMessage rep alerts a) a st2)))"

definition processResolved :: "('s, 'w) env \<Rightarrow> AlertPayload \<Rightarrow> ('s, 'w) pipe \<Rightarrow> ('s, 'w) pipe" where
  "processResolved e p st =
     (case deadline e (30 * second) st of (c, st1) \<Rightarrow> deliver e c p (FormatMessage p None) st1)"

text \<open>The two duplicate checks, with the two clock readings of the store.\<close>

definition check_dup ::
  "('s, 'w) env \<Rightarrow>
   ((bytes \<Rightarrow> bytes) \<Rightarrow> 's store_ops \<Rightarrow> Deduplicator \<Rightarrow> gotime \<Rightarrow> gotime \<Rightarrow> 's \<Rightarrow> AlertPayload \<Rightarrow> bool \<times> 's \<times> metric list) \<Rightarrow>
   AlertPayload \<Rightarrow> ('s, 'w) pipe \<Rightarrow> bool \<times> ('s, 'w) pipe" where
  "check_dup e test p st =
     (case now_of e st of (t1, st1) \<Rightarrow> case now_of e st1 of (t2, st2) \<Rightarrow>
        (case test (e_sha256 e) (e_ops e) (e_dedup e) t1 t2 (p_store st2) p of
           (dup, s, ms) \<Rightarrow> (dup, count ms (st2\<lparr>p_store := s\<rparr>))))"

definition Process :: "('s, 'w) env \<Rightarrow> AlertPayload \<Rightarrow> ('s, 'w) pipe \<Rightarrow> ('s, 'w) pipe option" where
  "Process e p st =
     (let st0 = count [AlertsReceived (ClusterId p) (statusLabel p)] st
      in if Status p = ''resolved''
         then (case check_dup e IsDuplicateResolved p st0 of
                 (True, st1) \<Rightarrow> Some st1
               | (False, st1) \<Rightarrow> Some (processResolved e p st1))
         else (case check_dup e IsDuplicate p st0 of
                 (True, st1) \<Rightarrow> Some st1
               | (False, st1) \<Rightarrow>
                   if cor_enabled (p_cor st1) then Some (st1\<lparr>p_cor := Correlator_Add p (p_cor st1)\<rparr>)
                   else processSingle e p st1))"

text \<open>The correlator hands its groups to \<open>processIncident\<close>, when a timer fires and when it is drained.\<close>

fun process_groups :: "('s, 'w) env \<Rightarrow> AlertPayload list list \<Rightarrow> ('s, 'w) pipe \<Rightarrow> ('s, 'w) pipe option" where
  "process_groups e [] st = Some st"
| "process_groups e (g # gs) st =
     (case processIncident e g st of None \<Rightarrow> None | Some st1 \<Rightarrow> process_groups e gs st1)"

definition pipeline_timer :: "('s, 'w) env \<Rightarrow> nat \<times> string \<Rightarrow> ('s, 'w) pipe \<Rightarrow> ('s, 'w) pipe option" where
  "pipeline_timer e t st =
     (case timer_fires t (p_cor st) of (gs, cr) \<Rightarrow> process_groups e gs (st\<lparr>p_cor := cr\<rparr>))"

definition Pipeline_Drain :: "('s, 'w) env \<Rightarrow> ('s, 'w) pipe \<Rightarrow> ('s, 'w) pipe option" where
  "Pipeline_Drain e st =
     (case Correlator.Drain (p_cor st) of (gs, cr) \<Rightarrow> process_groups e gs (st\<lparr>p_cor := cr\<rparr>))"

record CorrelationConfig =
  cc_Enabled :: bool
  WindowSeconds :: int
  MaxGroup :: int

definition Pipeline_New :: "'s \<Rightarrow> 'w \<Rightarrow> Pool option \<Rightarrow> CorrelationConfig \<Rightarrow> ('s, 'w) pipe" where
  "Pipeline_New s w limiter corr =
     \<lparr>p_store = s, p_pool = limiter, p_cor = Correlator_New (cc_Enabled corr) (WindowSeconds corr) (MaxGroup corr), p_world = w,
      p_metrics = [], p_sent = [], p_silences = [], p_asked = []\<rparr>"

section \<open>Frames\<close>

text \<open>What the steps before the delivery leave alone.\<close>

definition quiet :: "('s, 'w) pipe \<Rightarrow> ('s, 'w) pipe \<Rightarrow> bool" where
  "quiet st st' \<longleftrightarrow> p_sent st' = p_sent st \<and> p_cor st' = p_cor st"

definition no_silence :: "('s, 'w) pipe \<Rightarrow> ('s, 'w) pipe \<Rightarrow> bool" where
  "no_silence st st' \<longleftrightarrow> p_silences st' = p_silences st"

lemmas pipe_simps = now_of_def count_def quiet_def no_silence_def

lemma quiet_refl [simp]: "quiet st st" by (simp add: quiet_def)
lemma quiet_trans: "quiet a b \<Longrightarrow> quiet b c \<Longrightarrow> quiet a c" by (simp add: quiet_def)
lemma no_silence_trans: "no_silence a b \<Longrightarrow> no_silence b c \<Longrightarrow> no_silence a c" by (simp add: no_silence_def)

lemma count_frame: "quiet st (count ms st)" "no_silence st (count ms st)"
  by (simp_all add: pipe_simps)

lemma deadline_frame: "deadline e d st = (c, st') \<Longrightarrow> quiet st st' \<and> no_silence st st' \<and> p_pool st' = p_pool st \<and> p_asked st' = p_asked st"
  by (auto simp: deadline_def pipe_simps split: prod.split_asm)

lemma acquire_frame: "acquire e cl st = Some (ok, st') \<Longrightarrow> quiet st st' \<and> no_silence st st' \<and> p_asked st' = p_asked st"
  by (auto simp: acquire_def pipe_simps split: prod.split_asm option.split_asm)

lemma release_frame: "quiet st (release e cl st) \<and> no_silence st (release e cl st) \<and> p_asked (release e cl st) = p_asked st"
  by (auto simp: release_def pipe_simps split: prod.split)

lemma examples_frame:
  "examples_for e p st = (xs, st') \<Longrightarrow> quiet st st' \<and> no_silence st st' \<and> p_pool st' = p_pool st \<and> p_asked st' = p_asked st"
  by (auto simp: examples_for_def pipe_simps split: prod.split_asm)

lemma ask_frame:
  "ask f alerts c xs st = (a, st') \<Longrightarrow> quiet st st' \<and> no_silence st st' \<and> p_pool st' = p_pool st \<and> p_asked st' = p_asked st @ [alerts]"
  by (auto simp: ask_def pipe_simps split: prod.split_asm)

lemma cache_get_frame:
  "cache_get e p st = (a, st') \<Longrightarrow> quiet st st' \<and> no_silence st st' \<and> p_pool st' = p_pool st \<and> p_asked st' = p_asked st"
  by (auto simp: cache_get_def pipe_simps split: prod.split_asm)

lemma cache_set_frame:
  "quiet st (cache_set e p a st) \<and> no_silence st (cache_set e p a st) \<and> p_pool (cache_set e p a st) = p_pool st \<and>
   p_asked (cache_set e p a st) = p_asked st"
  by (auto simp: cache_set_def pipe_simps split: prod.split)

lemma maybeSilence_frame:
  "quiet st (maybeSilence e p a st) \<and> p_pool (maybeSilence e p a st) = p_pool st \<and> p_asked (maybeSilence e p a st) = p_asked st"
  by (auto simp: maybeSilence_def pipe_simps split: prod.split option.split)

lemma history_frame:
  "quiet st (record_history e r a xs st) \<and> no_silence st (record_history e r a xs st) \<and>
   p_pool (record_history e r a xs st) = p_pool st \<and> p_asked (record_history e r a xs st) = p_asked st"
  by (auto simp: record_history_def pipe_simps split: prod.split)

lemma feedback_frame:
  "attachFeedback e p a msg st = (msg', st') \<Longrightarrow>
   quiet st st' \<and> no_silence st st' \<and> p_pool st' = p_pool st \<and> p_asked st' = p_asked st \<and> Payload msg' = Payload msg \<and>
   M_Incident msg' = M_Incident msg \<and> M_Analysis msg' = M_Analysis msg"
  by (auto simp: attachFeedback_def pipe_simps split: prod.split_asm option.split_asm)

lemma check_dup_frame:
  "check_dup e test p st = (d, st') \<Longrightarrow> quiet st st' \<and> no_silence st st' \<and> p_pool st' = p_pool st \<and> p_asked st' = p_asked st"
  by (auto simp: check_dup_def pipe_simps split: prod.split_asm)

lemma acquire_total: "\<exists>ok st'. acquire e cl st = Some (ok, st')"
proof -
  have acq: "\<exists>ok pool ms. Pool_Acquire t1 t2 pl cl = Some (ok, pool, ms)" for t1 t2 pl
  proof (cases pl)
    case (Some x)
    then show ?thesis using Pool_Acquire_eq [of t2 t1 x cl] by blast
  qed (auto simp: Pool_Acquire_def)
  obtain t1 st1 where 1: "now_of e st = (t1, st1)" by fastforce
  obtain t2 st2 where 2: "now_of e st1 = (t2, st2)" by fastforce
  from acq [of t1 t2 "p_pool st2"] 1 2 show ?thesis by (auto simp: acquire_def)
qed

text \<open>An evaluation always comes back, with or without a verdict.\<close>

lemma evaluate_total:
  "\<exists>a st'. evaluate e c p st = Some (a, st') \<and> quiet st st' \<and> no_silence st st' \<and> p_asked st' \<in> {p_asked st, p_asked st @ [[p]]}"
proof -
  obtain g st1 where g: "cache_get e p st = (g, st1)" by fastforce
  obtain ok st2 where aq: "acquire e (ClusterId p) st1 = Some (ok, st2)" using acquire_total by blast
  obtain xs st3 where xs: "examples_for e p st2 = (xs, st3)" by fastforce
  obtain a st4 where a: "ask (\<lambda>c. an_Evaluate (e_analyzer e) c p) [p] c xs st3 = (a, st4)" by fastforce
  show ?thesis
    using cache_get_frame [OF g] acquire_frame [OF aq] examples_frame [OF xs] ask_frame [OF a]
      release_frame [of st4 e "ClusterId p"] cache_set_frame [of st4 e p a] release_frame [of "cache_set e p a st4" e "ClusterId p"]
      g aq xs a
    by (cases g; cases ok; cases a) (simp_all add: evaluate_def quiet_def no_silence_def)
qed

lemma evaluateIncident_total:
  "\<exists>a st'. evaluateIncident e c rep alerts st = Some (a, st') \<and> quiet st st' \<and> no_silence st st' \<and>
     p_asked st' \<in> {p_asked st, p_asked st @ [alerts]}"
proof -
  obtain ok st2 where aq: "acquire e (ClusterId rep) st = Some (ok, st2)" using acquire_total by blast
  obtain xs st3 where xs: "examples_for e rep st2 = (xs, st3)" by fastforce
  obtain a st4 where a: "ask (\<lambda>c. an_EvaluateIncident (e_analyzer e) c alerts) alerts c xs st3 = (a, st4)" by fastforce
  show ?thesis
    using acquire_frame [OF aq] examples_frame [OF xs] ask_frame [OF a] release_frame [of st4 e "ClusterId rep"] aq xs a
    by (cases ok) (simp_all add: evaluateIncident_def quiet_def no_silence_def)
qed

section \<open>Delivery\<close>

definition sent_to :: "('s, 'w) pipe \<Rightarrow> (string \<times> Message) list" where
  "sent_to st = map (\<lambda>(n, m, ok). (n, m)) (p_sent st)"

text \<open>The registered receivers of the rule that matches an alert.\<close>

definition receivers_of :: "('s, 'w) env \<Rightarrow> AlertPayload \<Rightarrow> string list" where
  "receivers_of e p = filter (\<lambda>n. n \<in> fst ` set (e_notifiers e)) (Route (e_router e) p)"

lemma send_one_sent:
  "sent_to (send_one e c msg n st) = sent_to st @ (if n \<in> fst ` set (e_notifiers e) then [(n, msg)] else [])"
  by (auto simp: send_one_def sent_to_def count_def map_of_eq_None_iff [symmetric] split: option.split prod.split)

lemma deliver_sent: "sent_to (deliver e c p msg st) = sent_to st @ map (\<lambda>n. (n, msg)) (receivers_of e p)"
proof -
  have "sent_to (fold (send_one e c msg) ns st) =
      sent_to st @ map (\<lambda>n. (n, msg)) (filter (\<lambda>n. n \<in> fst ` set (e_notifiers e)) ns)" for ns
    by (induction ns arbitrary: st) (auto simp: send_one_sent)
  then show ?thesis by (simp add: deliver_def receivers_of_def)
qed

lemma send_one_frame: "p_silences (send_one e c msg n st) = p_silences st" "p_asked (send_one e c msg n st) = p_asked st"
  "p_pool (send_one e c msg n st) = p_pool st" "p_cor (send_one e c msg n st) = p_cor st"
  by (simp_all add: send_one_def count_def split: option.split prod.split)

lemma deliver_frame: "p_silences (deliver e c p msg st) = p_silences st" "p_asked (deliver e c p msg st) = p_asked st"
  "p_pool (deliver e c p msg st) = p_pool st" "p_cor (deliver e c p msg st) = p_cor st"
proof -
  have "p_silences (fold (send_one e c msg) ns st) = p_silences st \<and> p_asked (fold (send_one e c msg) ns st) = p_asked st \<and>
      p_pool (fold (send_one e c msg) ns st) = p_pool st \<and> p_cor (fold (send_one e c msg) ns st) = p_cor st" for ns
    by (induction ns arbitrary: st) (auto simp: send_one_frame)
  then show "p_silences (deliver e c p msg st) = p_silences st" "p_asked (deliver e c p msg st) = p_asked st"
    "p_pool (deliver e c p msg st) = p_pool st" "p_cor (deliver e c p msg st) = p_cor st"
    by (simp_all add: deliver_def)
qed

text \<open>Whether the evidence of an alert can be built.\<close>

definition evidence_ok :: "('s, 'w) env \<Rightarrow> AlertPayload \<Rightarrow> bool" where
  "evidence_ok e p \<longleftrightarrow> \<not> (ec_Enabled (e_evidence e) \<and> list_ex nan_bytes (shown_series p))"

lemma AttachEvidence_frame:
  "AttachEvidence msg p cfg = Some msg' \<Longrightarrow>
   Payload msg' = Payload msg \<and> M_Incident msg' = M_Incident msg \<and> M_Analysis msg' = M_Analysis msg"
  by (auto simp: AttachEvidence_def split: if_split_asm option.split_asm)

lemma finish_sent:
  assumes "evidence_ok e p"
  shows "\<exists>st' msg'. finish e c p alerts msg a st = Some st' \<and> Payload msg' = Payload msg \<and> M_Incident msg' = M_Incident msg \<and>
     M_Analysis msg' = M_Analysis msg \<and>
     sent_to st' = sent_to st @ map (\<lambda>n. (n, msg')) (receivers_of e p) \<and> p_cor st' = p_cor st \<and> p_asked st' = p_asked st \<and>
     p_pool st' = p_pool st \<and> p_silences st' = p_silences (maybeSilence e p a st)"
proof -
  obtain msg1 where m1: "AttachEvidence msg p (e_evidence e) = Some msg1"
    using assms AttachEvidence_None [of msg p "e_evidence e"] by (auto simp: evidence_ok_def)
  let ?st1 = "record_history e p a alerts (maybeSilence e p a st)"
  obtain msg2 st2 where fb: "attachFeedback e p a msg1 ?st1 = (msg2, st2)" by fastforce
  have "finish e c p alerts msg a st = Some (deliver e c p msg2 st2)"
    using m1 fb by (simp add: finish_def Let_def)
  moreover have "sent_to st2 = sent_to st" and "p_cor st2 = p_cor st"
    using feedback_frame [OF fb] history_frame [of "maybeSilence e p a st" e p a alerts] maybeSilence_frame [of st e p a]
    by (auto simp: quiet_def sent_to_def)
  moreover have "p_asked st2 = p_asked st" "p_pool st2 = p_pool st" "p_silences st2 = p_silences (maybeSilence e p a st)"
    using feedback_frame [OF fb] history_frame [of "maybeSilence e p a st" e p a alerts] maybeSilence_frame [of st e p a]
    by (auto simp: no_silence_def)
  ultimately show ?thesis
    using AttachEvidence_frame [OF m1] feedback_frame [OF fb]
    by (intro exI [of _ "deliver e c p msg2 st2"] exI [of _ msg2]) (simp add: deliver_sent deliver_frame)
qed

lemma finish_None: "finish e c p alerts msg a st = None \<longleftrightarrow> \<not> evidence_ok e p"
  using AttachEvidence_None [of msg p "e_evidence e"]
  by (auto simp: finish_def Let_def evidence_ok_def split: option.split prod.split)

end
