(* ===== verification/Delivery.thy ===== *)
theory Delivery
  imports Pipeline
begin

text \<open>
  What the pipeline guarantees: every alert that is not a duplicate reaches the receivers of its route, whatever
  the model, the cache, the limiter and the store do; and what no sequence of alerts, timers and drains can make it
  do.
\<close>

section \<open>Every alert is delivered\<close>

lemma count_received: "p_cor (count ms st) = p_cor st" "sent_to (count ms st) = sent_to st"
  "p_silences (count ms st) = p_silences st" "p_asked (count ms st) = p_asked st" "p_pool (count ms st) = p_pool st"
  by (simp_all add: count_def sent_to_def)

lemma quiet_sent: "quiet st st' \<Longrightarrow> sent_to st' = sent_to st"
  by (simp add: quiet_def sent_to_def)

lemma processSingle_delivers:
  assumes "evidence_ok e p"
  shows "\<exists>st' msg. processSingle e p st = Some st' \<and> Payload msg = Some p \<and>
     sent_to st' = sent_to st @ map (\<lambda>n. (n, msg)) (receivers_of e p)"
proof -
  obtain c st1 where d: "deadline e (60 * second) st = (c, st1)" by fastforce
  obtain a st2 where ev: "evaluate e c p st1 = Some (a, st2)" "quiet st1 st2" using evaluate_total by blast
  from finish_sent [OF assms, of c "[p]" "FormatMessage p a" a st2] obtain st' msg where
    "finish e c p [p] (FormatMessage p a) a st2 = Some st'" "Payload msg = Some p"
    "sent_to st' = sent_to st2 @ map (\<lambda>n. (n, msg)) (receivers_of e p)"
    by (auto simp: FormatMessage_def)
  moreover have "sent_to st2 = sent_to st" using quiet_sent [OF ev(2)] deadline_frame [OF d] quiet_sent by metis
  ultimately show ?thesis using d ev by (auto simp: processSingle_def)
qed

text \<open>The state in which an alert that is not a duplicate is processed.\<close>

definition received :: "AlertPayload \<Rightarrow> ('s, 'w) pipe \<Rightarrow> ('s, 'w) pipe" where
  "received p st = count [AlertsReceived (ClusterId p) (statusLabel p)] st"

lemma Process_single:
  assumes "Status p \<noteq> ''resolved''" and "\<not> cor_enabled (p_cor st)"
    and "check_dup e IsDuplicate p (received p st) = (False, st1)"
  shows "Process e p st = processSingle e p st1"
  using assms check_dup_frame [OF assms(3)]
  by (simp add: Process_def received_def count_received quiet_def)

text \<open>C9: Every firing alert is handed over. With correlation off (the default), a firing alert that is not a duplicate and whose evidence does
  not panic (a series in bytes that ends in NaN does that) is handed, once, to the channel of
  every registered receiver of the first matching rule, with the alert in the message: whatever the cache holds, whether
  the limiter lets the call through, whatever the model answers or fails with, and whatever errors the store, the
  silence endpoint and the other channels return.\<close>

theorem firing_alert_delivered:
  assumes "Status p \<noteq> ''resolved''" and "\<not> fst (check_dup e IsDuplicate p (received p st))"
    and "\<not> cor_enabled (p_cor st)" and "evidence_ok e p"
  shows "\<exists>st' msg. Process e p st = Some st' \<and> Payload msg = Some p \<and>
     sent_to st' = sent_to st @ map (\<lambda>n. (n, msg)) (receivers_of e p)"
proof -
  obtain st1 where dup: "check_dup e IsDuplicate p (received p st) = (False, st1)"
    using assms(2) by (cases "check_dup e IsDuplicate p (received p st)") auto
  have "sent_to st1 = sent_to st"
    using quiet_sent check_dup_frame [OF dup] count_received(2) by (metis received_def)
  with processSingle_delivers [OF assms(4), of st1] Process_single [OF assms(1,3) dup] show ?thesis by simp
qed

text \<open>C40: A metric without a value stops the brain. With evidence enabled and correlation off, a firing alert that is not a duplicate and whose
  first four metric series with points include one in bytes that ends in NaN makes the processing goroutine index a
  string at -1: the panic is not recovered, so that the process dies.\<close>

theorem nan_metric_panics:
  assumes "Status p \<noteq> ''resolved''" and "\<not> fst (check_dup e IsDuplicate p (received p st))"
    and "\<not> cor_enabled (p_cor st)" and "ec_Enabled (e_evidence e)"
    and "s \<in> set (take 4 (filter (\<lambda>s. Points s \<noteq> []) (Metrics p)))" and "Unit s = ''bytes''"
    and "Value (last (Points s)) = NaN"
  shows "Process e p st = None"
proof -
  obtain st1 where dup: "check_dup e IsDuplicate p (received p st) = (False, st1)"
    using assms(2) by (cases "check_dup e IsDuplicate p (received p st)") auto
  have bad: "\<not> evidence_ok e p"
    using assms(4-7) by (auto simp: evidence_ok_def shown_series_def nan_bytes_def list_ex_iff)
  obtain c st2 where d: "deadline e (60 * second) st1 = (c, st2)" by fastforce
  obtain a st3 where ev: "evaluate e c p st2 = Some (a, st3)" using evaluate_total by blast
  have "finish e c p [p] (FormatMessage p a) a st3 = None" using bad by (simp add: finish_None)
  with d ev Process_single [OF assms(1,3) dup] show ?thesis by (simp add: processSingle_def)
qed

text \<open>Incidents are delivered. A flushed group gives one notification, to every registered receiver of its
  representative's route, about the representative and, when there are several alerts, with the whole group, whatever
  the model and the other collaborators do.\<close>

theorem incident_delivered:
  assumes "Representative g = Some rep" and "evidence_ok e rep"
  shows "\<exists>st' msg. processIncident e g st = Some st' \<and> Payload msg = Some rep \<and>
     M_Incident msg = (if length g = 1 then None else Some g) \<and>
     sent_to st' = sent_to st @ map (\<lambda>n. (n, msg)) (receivers_of e rep)"
proof -
  obtain c st1 where d: "deadline e (90 * second) st = (c, st1)" by fastforce
  have s1: "sent_to st1 = sent_to st" using deadline_frame [OF d] quiet_sent by blast
  show ?thesis
  proof (cases "length g = 1")
    case True
    obtain a st2 where ev: "evaluate e c rep st1 = Some (a, st2)" "quiet st1 st2" using evaluate_total by blast
    from finish_sent [OF assms(2), of c g "FormatMessage rep a" a st2] obtain st' msg where
      "finish e c rep g (FormatMessage rep a) a st2 = Some st'" "Payload msg = Some rep" "M_Incident msg = None"
      "sent_to st' = sent_to st2 @ map (\<lambda>n. (n, msg)) (receivers_of e rep)"
      by (auto simp: FormatMessage_def)
    with d ev assms(1) True s1 quiet_sent [OF ev(2)] show ?thesis
      by (auto simp: processIncident_def count_received)
  next
    case False
    obtain a st2 where ev: "evaluateIncident e c rep g st1 = Some (a, st2)" "quiet st1 st2"
      using evaluateIncident_total by blast
    from finish_sent [OF assms(2), of c g "FormatIncidentMessage rep g a" a st2] obtain st' msg where
      "finish e c rep g (FormatIncidentMessage rep g a) a st2 = Some st'" "Payload msg = Some rep" "M_Incident msg = Some g"
      "sent_to st' = sent_to st2 @ map (\<lambda>n. (n, msg)) (receivers_of e rep)"
      by (auto simp: FormatIncidentMessage_def FormatMessage_def)
    with d ev assms(1) False s1 quiet_sent [OF ev(2)] show ?thesis
      by (auto simp: processIncident_def count_received)
  qed
qed

text \<open>C20: Resolved alerts take the short way. A resolved alert that is not a duplicate is delivered to the receivers of
  its route without asking the model, without taking a slot or a token of the limiter, without creating a silence and
  without passing through the correlator.\<close>

theorem resolved_alert_delivered:
  assumes "Status p = ''resolved''" and "\<not> fst (check_dup e IsDuplicateResolved p (received p st))"
  shows "\<exists>st' msg. Process e p st = Some st' \<and> Payload msg = Some p \<and> M_Analysis msg = None \<and>
     sent_to st' = sent_to st @ map (\<lambda>n. (n, msg)) (receivers_of e p) \<and>
     p_asked st' = p_asked st \<and> p_silences st' = p_silences st \<and> p_pool st' = p_pool st \<and> p_cor st' = p_cor st"
proof -
  obtain st1 where dup: "check_dup e IsDuplicateResolved p (received p st) = (False, st1)"
    using assms(2) by (cases "check_dup e IsDuplicateResolved p (received p st)") auto
  obtain c st2 where d: "deadline e (30 * second) st1 = (c, st2)" by fastforce
  let ?m = "FormatMessage p None"
  have "Process e p st = Some (deliver e c p ?m st2)"
    using assms(1) dup d by (simp add: Process_def received_def processResolved_def)
  moreover have "sent_to st2 = sent_to st" "p_asked st2 = p_asked st" "p_silences st2 = p_silences st" "p_pool st2 = p_pool st"
      "p_cor st2 = p_cor st"
    using check_dup_frame [OF dup] deadline_frame [OF d] count_received [of "[AlertsReceived (ClusterId p) (statusLabel p)]" st]
    by (auto simp: quiet_def no_silence_def received_def sent_to_def)
  ultimately show ?thesis
    by (intro exI [of _ "deliver e c p ?m st2"] exI [of _ ?m]) (simp add: deliver_sent deliver_frame FormatMessage_def)
qed

section \<open>An example deployment\<close>

text \<open>A brain whose model is down, with one chat channel that answers.\<close>

definition dead_analyzer :: "nat Analyzer" where
  "dead_analyzer = \<lparr>an_Evaluate = (\<lambda>c p exs w. (Inl (ErrDegraded ''down''), [], w)),
     an_EvaluateIncident = (\<lambda>c ps exs w. (Inl (ErrDegraded ''down''), [], w))\<rparr>"

definition demo_pipe_env :: "(Memory, nat) env" where
  "demo_pipe_env = \<lparr>e_sha256 = pad32, e_ops = memory_ops, e_tick = (\<lambda>w. (int w * second, w + 1)), e_dedup = Dedup_New 15,
     e_analyzer = dead_analyzer, e_cache = demo_cache, e_router = Router_New demo_rules,
     e_notifiers = [(''chat'', N_Webhook \<lparr>wh_name = ''chat'', wh_url = ''http://hook''\<rparr>)],
     e_transport = \<lparr>tr_url_ok = (\<lambda>u. True), tr_do = (\<lambda>c d r w. (Inr \<lparr>StatusCode = 200, Resp_Body = []\<rparr>, w)),
       tr_sendmail = (\<lambda>c a au f to m w. (Mail_Done None, w)), tr_now = (\<lambda>w. int w * second)\<rparr>,
     e_silence = NewClient ''http://am'' hour True [], e_alertmanager = (\<lambda>r. Inl ''down''), e_feedback = demo_manager,
     e_history = None, e_evidence = \<lparr>ec_Enabled = True, LogLines = 5\<rparr>\<rparr>"

definition demo_pipe :: "(Memory, nat) pipe" where
  "demo_pipe = Pipeline_New NewMemory 0 None \<lparr>cc_Enabled = False, WindowSeconds = 30, MaxGroup = 5\<rparr>"

lemma demo_not_dup: "\<not> fst (check_dup demo_pipe_env IsDuplicate p (received p demo_pipe))"
  "\<not> fst (check_dup demo_pipe_env IsDuplicateResolved p (received p demo_pipe))"
  by (simp_all add: check_dup_def now_of_def demo_pipe_env_def received_def count_def demo_pipe_def Pipeline_New_def
      demo_store_simps Let_def)

lemma demo_route: "Severity p = ''warning'' \<Longrightarrow> receivers_of demo_pipe_env p = [''chat'']"
  by (simp add: receivers_of_def demo_pipe_env_def Route_def Router_New_def demo_rules_def Matches_def)

lemma demo_pipe_start: "\<not> cor_enabled (p_cor demo_pipe)" "sent_to demo_pipe = []" "p_silences demo_pipe = []" "p_asked demo_pipe = []"
  by (simp_all add: demo_pipe_def Pipeline_New_def Correlator_New_def sent_to_def)

lemma demo_alert_plain: "Status demo_alert = ''firing''" "Severity demo_alert = ''warning''" "Metrics demo_alert = []"
  by (simp_all add: demo_alert_def zero_payload_def)

theorem firing_alert_delivered_witness:
  "\<exists>st' msg. Process demo_pipe_env demo_alert demo_pipe = Some st' \<and> Payload msg = Some demo_alert \<and> sent_to st' = [(''chat'', msg)]"
  using firing_alert_delivered [OF _ demo_not_dup(1) demo_pipe_start(1), of demo_alert]
  by (simp add: demo_alert_plain demo_route demo_pipe_start evidence_ok_def shown_series_def)

definition nan_alert :: AlertPayload where
  "nan_alert = demo_alert\<lparr>Metrics := [\<lparr>MetricName = ''m'', MS_Description = [], Unit = ''bytes'',
     Points = [\<lparr>Timestamp = 0, Value = NaN\<rparr>]\<rparr>]\<rparr>"

theorem nan_metric_panics_witness: "Process demo_pipe_env nan_alert demo_pipe = None"
  by (rule nan_metric_panics [where s = "\<lparr>MetricName = ''m'', MS_Description = [], Unit = ''bytes'',
        Points = [\<lparr>Timestamp = 0, Value = NaN\<rparr>]\<rparr>", OF _ demo_not_dup(1) demo_pipe_start(1)])
    (simp_all add: nan_alert_def demo_alert_plain demo_pipe_env_def)

theorem incident_delivered_witness:
  "\<exists>st' msg. processIncident demo_pipe_env [demo_alert, demo_alert] demo_pipe = Some st' \<and>
     M_Incident msg = Some [demo_alert, demo_alert] \<and> sent_to st' = [(''chat'', msg)]"
  using incident_delivered [of "[demo_alert, demo_alert]" demo_alert demo_pipe_env demo_pipe]
  by (auto simp: Representative_def demo_alert_plain demo_route demo_pipe_start evidence_ok_def shown_series_def)

theorem resolved_alert_delivered_witness:
  "\<exists>st' msg. Process demo_pipe_env (demo_alert\<lparr>Status := ''resolved''\<rparr>) demo_pipe = Some st' \<and>
     sent_to st' = [(''chat'', msg)] \<and> p_asked st' = [] \<and> p_silences st' = []"
  using resolved_alert_delivered [OF _ demo_not_dup(2), of "demo_alert\<lparr>Status := ''resolved''\<rparr>"]
  by (auto simp: demo_alert_plain demo_route demo_pipe_start)

end
