(* ===== verification/PipelineRuns.thy ===== *)
theory PipelineRuns
  imports Delivery
begin

text \<open>
  Runs of the pipeline: alerts come in, timers of the correlator fire, the correlator is drained, in any order. One
  step is one call of \<open>Process\<close>, one timer callback or one \<open>Drain\<close>; the goroutines of the program interleave at a
  finer grain, which \<open>Interleavings\<close> treats with the conditions defined here. What a run may do is stated as an invariant over the alerts received so far.
\<close>

section \<open>Steps\<close>

inductive pipe_step ::
  "('s, 'w) env \<Rightarrow> AlertPayload list \<times> ('s, 'w) pipe \<Rightarrow> AlertPayload list \<times> ('s, 'w) pipe \<Rightarrow> bool" for e where
  ingest: "Process e p st = Some st' \<Longrightarrow> pipe_step e (seen, st) (seen @ [p], st')"
| timer: "t \<in> set (armed (p_cor st)) \<Longrightarrow> pipeline_timer e t st = Some st' \<Longrightarrow> pipe_step e (seen, st) (seen, st')"
| drain: "Pipeline_Drain e st = Some st' \<Longrightarrow> pipe_step e (seen, st) (seen, st')"

inductive_cases pipe_step_cases: "pipe_step e s s'"

section \<open>The invariant\<close>

definition firing_in :: "AlertPayload list \<Rightarrow> AlertPayload \<Rightarrow> bool" where
  "firing_in seen p \<longleftrightarrow> p \<in> set seen \<and> Status p \<noteq> ''resolved''"

definition silence_ok :: "('s, 'w) env \<Rightarrow> AlertPayload list \<Rightarrow> silenceRequest \<Rightarrow> bool" where
  "silence_ok e seen r \<longleftrightarrow>
     (\<exists>p now reason. firing_in seen p \<and> may_silence (e_silence e) p \<and> r = silence_for (sil_duration (e_silence e)) now p reason)"

definition asked_ok :: "AlertPayload list \<Rightarrow> AlertPayload list \<Rightarrow> bool" where
  "asked_ok seen g \<longleftrightarrow> g \<noteq> [] \<and> list_all (firing_in seen) g"

definition sent_ok :: "('s, 'w) env \<Rightarrow> AlertPayload list \<Rightarrow> string \<times> Message \<Rightarrow> bool" where
  "sent_ok e seen nm \<longleftrightarrow>
     (\<exists>p. p \<in> set seen \<and> Payload (snd nm) = Some p \<and> fst nm \<in> set (receivers_of e p)) \<and>
     (case M_Incident (snd nm) of None \<Rightarrow> True | Some g \<Rightarrow> asked_ok seen g)"

definition pipe_inv :: "('s, 'w) env \<Rightarrow> AlertPayload list \<times> ('s, 'w) pipe \<Rightarrow> bool" where
  "pipe_inv e s \<longleftrightarrow>
     corr_inv (p_cor (snd s)) \<and> (\<forall>a\<in>#buffered (p_cor (snd s)). firing_in (fst s) a) \<and>
     list_all (silence_ok e (fst s)) (p_silences (snd s)) \<and> list_all (asked_ok (fst s)) (p_asked (snd s)) \<and>
     list_all (sent_ok e (fst s)) (sent_to (snd s))"

text \<open>What one handled group adds.\<close>

definition adds_ok :: "('s, 'w) env \<Rightarrow> AlertPayload list \<Rightarrow> ('s, 'w) pipe \<Rightarrow> ('s, 'w) pipe \<Rightarrow> bool" where
  "adds_ok e seen st st' \<longleftrightarrow> p_cor st' = p_cor st \<and>
     (list_all (silence_ok e seen) (p_silences st) \<longrightarrow> list_all (silence_ok e seen) (p_silences st')) \<and>
     (list_all (asked_ok seen) (p_asked st) \<longrightarrow> list_all (asked_ok seen) (p_asked st')) \<and>
     (list_all (sent_ok e seen) (sent_to st) \<longrightarrow> list_all (sent_ok e seen) (sent_to st'))"

lemma adds_ok_refl [simp]: "adds_ok e seen st st" by (simp add: adds_ok_def)

lemma adds_ok_trans: "adds_ok e seen a b \<Longrightarrow> adds_ok e seen b c \<Longrightarrow> adds_ok e seen a c" by (simp add: adds_ok_def)

lemma adds_ok_inv: "adds_ok e seen st st' \<Longrightarrow> pipe_inv e (seen, st) \<Longrightarrow> pipe_inv e (seen, st')"
  by (simp add: adds_ok_def pipe_inv_def)

lemma frame_adds_ok:
  "quiet st st' \<Longrightarrow> no_silence st st' \<Longrightarrow> p_asked st' = p_asked st \<Longrightarrow> adds_ok e seen st st'"
  by (simp add: adds_ok_def quiet_def no_silence_def sent_to_def)

lemma maybeSilence_adds:
  assumes "firing_in seen p" and "list_all (silence_ok e seen) (p_silences st)"
  shows "list_all (silence_ok e seen) (p_silences (maybeSilence e p a st))"
proof (cases "p_silences (maybeSilence e p a st) = p_silences st")
  case False
  then obtain x where x: "a = Some x" "Messages.Silence x" "Confidence x \<noteq> ''low''"
    by (auto simp: maybeSilence_def count_def split: option.split_asm if_split_asm)
  obtain t st1 where n: "now_of e st = (t, st1)" by fastforce
  have st1: "p_silences st1 = p_silences st" using n by (auto simp: now_of_def split: prod.split_asm)
  obtain err ms reqs where c:
    "CreateSilence (tr_url_ok (e_transport e)) (e_alertmanager e) (e_silence e) t p (SilenceReason x) = (err, ms, reqs)"
    by (metis prod_cases3)
  have "list_all (silence_ok e seen) reqs"
    using CreateSilence_sent [of "tr_url_ok (e_transport e)" "e_alertmanager e" "e_silence e" t p "SilenceReason x"] c assms(1)
    by (auto simp: silence_ok_def split: if_split_asm)
  then show ?thesis using x n c st1 assms(2) by (simp add: maybeSilence_def count_def)
qed (use assms in simp)

lemma finish_adds:
  assumes f: "finish e c p alerts msg a st = Some st'" and p: "firing_in seen p"
    and m: "Payload msg = Some p" "case M_Incident msg of None \<Rightarrow> True | Some g \<Rightarrow> asked_ok seen g"
  shows "adds_ok e seen st st'"
proof -
  have "evidence_ok e p" using f finish_None [of e c p alerts msg a st] by auto
  from finish_sent [OF this, of c alerts msg a st] f obtain msg' where
    s: "Payload msg' = Payload msg" "M_Incident msg' = M_Incident msg"
    "sent_to st' = sent_to st @ map (\<lambda>n. (n, msg')) (receivers_of e p)" "p_cor st' = p_cor st" "p_asked st' = p_asked st"
    "p_silences st' = p_silences (maybeSilence e p a st)"
    by auto
  have "list_all (sent_ok e seen) (map (\<lambda>n. (n, msg')) (receivers_of e p))"
    using s m p by (simp add: list_all_iff sent_ok_def firing_in_def)
  then show ?thesis using s maybeSilence_adds [OF p, of e st a] by (simp add: adds_ok_def)
qed

lemma evaluated_adds:
  assumes "quiet st st'" "no_silence st st'" "p_asked st' \<in> {p_asked st, p_asked st @ [g]}" and "asked_ok seen g"
  shows "adds_ok e seen st st'"
  using assms by (auto simp: adds_ok_def quiet_def no_silence_def sent_to_def)

lemma deadline_adds: "deadline e d st = (c, st') \<Longrightarrow> adds_ok e seen st st'"
  using deadline_frame by (blast intro: frame_adds_ok)

lemma count_adds: "adds_ok e seen st (count ms st)"
  by (rule frame_adds_ok) (simp_all add: count_frame count_received)

lemma processSingle_adds:
  assumes "firing_in seen p" and "processSingle e p st = Some st'"
  shows "adds_ok e seen st st'"
proof -
  obtain c st1 where d: "deadline e (60 * second) st = (c, st1)" by fastforce
  obtain a st2 where ev: "evaluate e c p st1 = Some (a, st2)" "quiet st1 st2" "no_silence st1 st2"
    "p_asked st2 \<in> {p_asked st1, p_asked st1 @ [[p]]}"
    using evaluate_total by blast
  have "finish e c p [p] (FormatMessage p a) a st2 = Some st'" using assms(2) d ev(1) by (simp add: processSingle_def)
  then have "adds_ok e seen st2 st'" using assms(1) by (rule finish_adds) (simp_all add: FormatMessage_def)
  moreover have "adds_ok e seen st1 st2"
    by (rule evaluated_adds [OF ev(2-4)]) (simp add: asked_ok_def assms(1))
  ultimately show ?thesis using deadline_adds [OF d] adds_ok_trans by blast
qed

lemma Representative_mem: "Representative g = Some r \<Longrightarrow> r \<in> set g"
  using representative_most_severe [of g r] by auto

lemma processIncident_adds:
  assumes g: "list_all (firing_in seen) g" and pi: "processIncident e g st = Some st'"
  shows "adds_ok e seen st st'"
proof -
  obtain c st1 where d: "deadline e (90 * second) st = (c, st1)" by fastforce
  note dl = deadline_adds [OF d, of seen]
  show ?thesis
  proof (cases "Representative g")
    case None
    then show ?thesis using pi d dl by (auto simp: processIncident_def)
  next
    case (Some rep)
    have rep: "firing_in seen rep" "asked_ok seen g" using Representative_mem [OF Some] g by (auto simp: asked_ok_def list_all_iff)
    have fin: "adds_ok e seen st st'"
      if f: "finish e c rep g msg a st2 = Some st3" and "st' = count ms st3" and "adds_ok e seen st1 st2"
        and "Payload msg = Some rep" "case M_Incident msg of None \<Rightarrow> True | Some h \<Rightarrow> asked_ok seen h" for msg a st2 st3 ms
      unfolding that(2)
      by (rule adds_ok_trans [OF dl adds_ok_trans [OF that(3) adds_ok_trans [OF finish_adds [OF f rep(1) that(4,5)] count_adds]]])
    show ?thesis
    proof (cases "length g = 1")
      case True
      obtain a st2 where ev: "evaluate e c rep st1 = Some (a, st2)" "quiet st1 st2" "no_silence st1 st2"
        "p_asked st2 \<in> {p_asked st1, p_asked st1 @ [[rep]]}"
        using evaluate_total by blast
      have ad: "adds_ok e seen st1 st2" by (rule evaluated_adds [OF ev(2-4)]) (simp add: asked_ok_def rep)
      obtain st3 where f: "finish e c rep g (FormatMessage rep a) a st2 = Some st3" and st3: "st' = count [Incidents (IncidentSizeBucket 1)] st3"
        using pi d Some True ev(1) by (auto simp: processIncident_def)
      show ?thesis by (rule fin [OF f st3 ad]) (simp_all add: FormatMessage_def)
    next
      case False
      obtain a st2 where ev: "evaluateIncident e c rep g st1 = Some (a, st2)" "quiet st1 st2" "no_silence st1 st2"
        "p_asked st2 \<in> {p_asked st1, p_asked st1 @ [g]}"
        using evaluateIncident_total by blast
      have ad: "adds_ok e seen st1 st2" by (rule evaluated_adds [OF ev(2-4) rep(2)])
      obtain st3 where f: "finish e c rep g (FormatIncidentMessage rep g a) a st2 = Some st3"
        and st3: "st' = count [Incidents (IncidentSizeBucket (int (length g)))] st3"
        using pi d Some False ev(1) by (auto simp: processIncident_def)
      show ?thesis by (rule fin [OF f st3 ad]) (simp_all add: FormatIncidentMessage_def FormatMessage_def rep)
    qed
  qed
qed

lemma process_groups_adds:
  "list_all (list_all (firing_in seen)) gs \<Longrightarrow> process_groups e gs st = Some st' \<Longrightarrow> adds_ok e seen st st'"
proof (induction gs arbitrary: st)
  case (Cons g gs)
  then obtain st1 where 1: "processIncident e g st = Some st1" "process_groups e gs st1 = Some st'"
    by (auto split: option.split_asm)
  have "adds_ok e seen st st1" using processIncident_adds [OF _ 1(1)] Cons.prems(1) by simp
  moreover have "adds_ok e seen st1 st'" using Cons.IH 1(2) Cons.prems(1) by simp
  ultimately show ?case by (rule adds_ok_trans)
qed simp

section \<open>Preservation\<close>

lemma firing_in_more: "firing_in seen p \<Longrightarrow> firing_in (seen @ extra) p"
  by (simp add: firing_in_def)

lemma pipe_inv_more:
  assumes "pipe_inv e (seen, st)"
  shows "pipe_inv e (seen @ extra, st)"
proof -
  have a: "asked_ok seen g \<Longrightarrow> asked_ok (seen @ extra) g" for g
    by (auto simp: asked_ok_def list_all_iff intro: firing_in_more)
  have "silence_ok e seen r \<Longrightarrow> silence_ok e (seen @ extra) r" for r
    unfolding silence_ok_def using firing_in_more by blast
  moreover have "sent_ok e seen nm \<Longrightarrow> sent_ok e (seen @ extra) nm" for nm
    using a by (auto simp: sent_ok_def split: option.split_asm option.split)
  ultimately show ?thesis
    using assms a unfolding pipe_inv_def list_all_iff fst_conv snd_conv by (meson firing_in_more)
qed

lemma Add_buffered: "corr_inv c \<Longrightarrow> a \<in># buffered (Correlator_Add p c) \<Longrightarrow> a \<in># buffered c \<or> a = p"
  using Add_account [of c p] by (metis add_mset_add_single insert_noteq_member mset_add union_iff)

lemma Process_inv:
  assumes inv: "pipe_inv e (seen, st)" and pr: "Process e p st = Some st'"
  shows "pipe_inv e (seen @ [p], st')"
proof -
  let ?seen = "seen @ [p]" and ?st0 = "received p st"
  have i0: "pipe_inv e (?seen, ?st0)"
    unfolding received_def by (rule adds_ok_inv [OF count_adds pipe_inv_more [OF inv]])
  have dup: "pipe_inv e (?seen, st1)" if "check_dup e test p ?st0 = (d, st1)" for test d st1
    using check_dup_frame [OF that] i0 by (blast intro: adds_ok_inv frame_adds_ok)
  show ?thesis
  proof (cases "Status p = ''resolved''")
    case True
    obtain d st1 where c: "check_dup e IsDuplicateResolved p ?st0 = (d, st1)" by fastforce
    obtain ctx st2 where dl: "deadline e (30 * second) st1 = (ctx, st2)" by fastforce
    have i2: "pipe_inv e (?seen, st2)" by (rule adds_ok_inv [OF deadline_adds [OF dl] dup [OF c]])
    have "adds_ok e ?seen st2 (deliver e ctx p (FormatMessage p None) st2)"
      by (auto simp: adds_ok_def deliver_frame deliver_sent list_all_iff sent_ok_def FormatMessage_def)
    then have "pipe_inv e (?seen, deliver e ctx p (FormatMessage p None) st2)" using i2 by (rule adds_ok_inv)
    then show ?thesis using pr True c dl dup [OF c]
      by (cases d) (simp_all add: Process_def received_def [symmetric] processResolved_def)
  next
    case False
    then have p: "firing_in ?seen p" by (simp add: firing_in_def)
    obtain d st1 where c: "check_dup e IsDuplicate p ?st0 = (d, st1)" by fastforce
    note i1 = dup [OF c]
    show ?thesis
    proof (cases "d \<or> cor_enabled (p_cor st1)")
      case True
      have "pipe_inv e (?seen, st1\<lparr>p_cor := Correlator_Add p (p_cor st1)\<rparr>)"
        using i1 p Add_buffered [of "p_cor st1" _ p] by (auto simp: pipe_inv_def Add_inv sent_to_def)
      then show ?thesis using pr False c i1 True
        by (cases d) (simp_all add: Process_def received_def [symmetric])
    next
      case single: False
      then have "processSingle e p st1 = Some st'"
        using pr False c by (simp add: Process_def received_def [symmetric])
      then show ?thesis using processSingle_adds [OF p] adds_ok_inv [OF _ i1] by blast
    qed
  qed
qed

lemma groups_inv:
  assumes inv: "pipe_inv e (seen, st)" and "corr_inv cr" and buf: "buffered (p_cor st) = mset (concat gs) + buffered cr"
    and pg: "process_groups e gs (st\<lparr>p_cor := cr\<rparr>) = Some st'"
  shows "pipe_inv e (seen, st')"
proof -
  have b: "\<forall>a\<in>#mset (concat gs) + buffered cr. firing_in seen a" using inv by (simp add: pipe_inv_def buf)
  then have "pipe_inv e (seen, st\<lparr>p_cor := cr\<rparr>)" using inv assms(2) by (simp add: pipe_inv_def sent_to_def)
  moreover have "list_all (list_all (firing_in seen)) gs" using b by (auto simp: list_all_iff)
  then have "adds_ok e seen (st\<lparr>p_cor := cr\<rparr>) st'" using pg by (rule process_groups_adds)
  ultimately show ?thesis using adds_ok_inv by blast
qed

lemma pipe_step_inv:
  assumes "pipe_step e s s'" and "pipe_inv e s"
  shows "pipe_inv e s'"
  using assms
proof (induction rule: pipe_step.induct)
  case (ingest p st st' seen)
  then show ?case by (blast intro: Process_inv)
next
  case (timer t st st' seen)
  obtain gs cr where f: "timer_fires t (p_cor st) = (gs, cr)" by fastforce
  have i: "corr_inv (p_cor st)" using timer.prems by (simp add: pipe_inv_def)
  show ?case
    using groups_inv [OF timer.prems remove_timer_inv [OF i timer.hyps(1) f] timer_fires_account [OF i f]] timer.hyps(2) f
    by (simp add: pipeline_timer_def)
next
  case (drain st st' seen)
  obtain gs cr where f: "Correlator.Drain (p_cor st) = (gs, cr)" by fastforce
  have i: "corr_inv (p_cor st)" using drain.prems by (simp add: pipe_inv_def)
  from Drain_spec [OF i f] have "corr_inv cr" "buffered (p_cor st) = mset (concat gs) + buffered cr"
    by (auto simp: buffered_def)
  with groups_inv [OF drain.prems] drain.hyps f show ?case by (simp add: Pipeline_Drain_def)
qed

interpretation piped: step_system "pipe_step e" "pipe_inv e" for e
  by unfold_locales (rule pipe_step_inv)

lemmas pipe_run_inv = piped.run_good

lemma Pipeline_New_inv: "pipe_inv e ([], Pipeline_New s w pool corr)"
  using Correlator_New_inv [of "cc_Enabled corr" "WindowSeconds corr" "MaxGroup corr"]
  by (simp add: pipe_inv_def Pipeline_New_def sent_to_def buffered_def Correlator_New_def)

section \<open>Safety\<close>

lemma logs_safe:
  assumes s: "list_all (silence_ok e seen) (p_silences st)" and a: "list_all (asked_ok seen) (p_asked st)"
    and m: "list_all (sent_ok e seen) (sent_to st)"
  shows "list_all (\<lambda>r. \<exists>p now reason. p \<in> set seen \<and> Status p \<noteq> ''resolved'' \<and> map lower_char (Severity p) \<noteq> ''critical'' \<and>
        may_silence (e_silence e) p \<and> r = silence_for (sil_duration (e_silence e)) now p reason) (p_silences st) \<and>
    list_all (\<lambda>g. g \<noteq> [] \<and> list_all (\<lambda>p. p \<in> set seen \<and> Status p \<noteq> ''resolved'') g) (p_asked st) \<and>
    list_all (\<lambda>(n, m, ok). (\<exists>p. p \<in> set seen \<and> Payload m = Some p \<and> n \<in> fst ` set (e_notifiers e) \<and> n \<in> set (Route (e_router e) p)) \<and>
        (case M_Incident m of None \<Rightarrow> True | Some g \<Rightarrow> list_all (\<lambda>p. p \<in> set seen \<and> Status p \<noteq> ''resolved'') g)) (p_sent st)"
proof -
  have crit: "may_silence c p \<Longrightarrow> map lower_char (Severity p) \<noteq> ''critical''" for c p
    by (simp add: may_silence_def EqualFold_critical)
  have "list_all (\<lambda>r. \<exists>p now reason. p \<in> set seen \<and> Status p \<noteq> ''resolved'' \<and> map lower_char (Severity p) \<noteq> ''critical'' \<and>
      may_silence (e_silence e) p \<and> r = silence_for (sil_duration (e_silence e)) now p reason) (p_silences st)"
    using s by (rule list.pred_mono_strong) (use crit in \<open>unfold silence_ok_def firing_in_def, blast\<close>)
  moreover have "list_all (\<lambda>g. g \<noteq> [] \<and> list_all (\<lambda>p. p \<in> set seen \<and> Status p \<noteq> ''resolved'') g) (p_asked st)"
    using a by (rule list.pred_mono_strong) (simp add: asked_ok_def firing_in_def [abs_def])
  moreover have "list_all (sent_ok e seen \<circ> (\<lambda>(n, m, ok). (n, m))) (p_sent st)"
    using m by (simp add: sent_to_def list.pred_map)
  then have "list_all (\<lambda>(n, m, ok). (\<exists>p. p \<in> set seen \<and> Payload m = Some p \<and> n \<in> fst ` set (e_notifiers e) \<and> n \<in> set (Route (e_router e) p)) \<and>
      (case M_Incident m of None \<Rightarrow> True | Some g \<Rightarrow> list_all (\<lambda>p. p \<in> set seen \<and> Status p \<noteq> ''resolved'') g)) (p_sent st)"
    by (rule list.pred_mono_strong)
      (auto simp: sent_ok_def asked_ok_def receivers_of_def firing_in_def [abs_def] split: option.split_asm option.split; force)
  ultimately show ?thesis by blast
qed

text \<open>What the pipeline can be made to do. However alerts, correlation timers and drains follow one another,
  and whatever the model, the store and the network answer: every silence that was requested is for a received,
  firing alert, not critical and on the allowlist, and names that alert; the model was asked only about received
  firing alerts; every notification that was sent is about a received alert (and lists only received firing alerts
  as its incident) and went to a registered receiver of the rule that matches that alert.\<close>

theorem pipeline_safe:
  assumes "(pipe_step e)\<^sup>*\<^sup>* ([], Pipeline_New s w pool corr) (seen, st)"
  shows "list_all (\<lambda>r. \<exists>p now reason. p \<in> set seen \<and> Status p \<noteq> ''resolved'' \<and> map lower_char (Severity p) \<noteq> ''critical'' \<and>
        may_silence (e_silence e) p \<and> r = silence_for (sil_duration (e_silence e)) now p reason) (p_silences st) \<and>
    list_all (\<lambda>g. g \<noteq> [] \<and> list_all (\<lambda>p. p \<in> set seen \<and> Status p \<noteq> ''resolved'') g) (p_asked st) \<and>
    list_all (\<lambda>(n, m, ok). (\<exists>p. p \<in> set seen \<and> Payload m = Some p \<and> n \<in> fst ` set (e_notifiers e) \<and> n \<in> set (Route (e_router e) p)) \<and>
        (case M_Incident m of None \<Rightarrow> True | Some g \<Rightarrow> list_all (\<lambda>p. p \<in> set seen \<and> Status p \<noteq> ''resolved'') g)) (p_sent st)"
proof -
  have "pipe_inv e (seen, st)" using pipe_run_inv [OF assms Pipeline_New_inv] .
  then show ?thesis by (intro logs_safe) (simp_all add: pipe_inv_def)
qed

text \<open>One alert through the example deployment.\<close>

lemma demo_processed: "\<exists>st'. Process demo_pipe_env demo_alert demo_pipe = Some st'"
proof -
  obtain st1 where "check_dup demo_pipe_env IsDuplicate demo_alert (received demo_alert demo_pipe) = (False, st1)"
    using demo_not_dup(1) [of demo_alert] by (cases "check_dup demo_pipe_env IsDuplicate demo_alert (received demo_alert demo_pipe)") auto
  then have "Process demo_pipe_env demo_alert demo_pipe = processSingle demo_pipe_env demo_alert st1"
    by (intro Process_single) (simp_all add: demo_alert_plain demo_pipe_start)
  moreover have "evidence_ok demo_pipe_env demo_alert" by (simp add: evidence_ok_def shown_series_def demo_alert_plain)
  ultimately show ?thesis using processSingle_delivers [of demo_pipe_env demo_alert st1] by auto
qed

theorem pipeline_safe_witness:
  "\<exists>st'. (pipe_step demo_pipe_env)\<^sup>*\<^sup>* ([], demo_pipe) ([demo_alert], st') \<and>
     list_all (\<lambda>g. g \<noteq> [] \<and> list_all (\<lambda>p. p \<in> set [demo_alert] \<and> Status p \<noteq> ''resolved'') g) (p_asked st')"
proof -
  obtain st' where pr: "Process demo_pipe_env demo_alert demo_pipe = Some st'"
    using demo_processed by blast
  then have step: "(pipe_step demo_pipe_env)\<^sup>*\<^sup>* ([], demo_pipe) ([demo_alert], st')"
    using pipe_step.ingest [OF pr, of "[]"] by simp
  with pipeline_safe [OF step [unfolded demo_pipe_def]] show ?thesis by blast
qed

end
