(* ===== verification/Providers.thy ===== *)
theory Providers
  imports Evaluator FloatText
begin

text \<open>
  \<open>internal/evaluator/openai.go\<close>, \<open>internal/evaluator/anthropic.go\<close> and the selection of a backend in
  \<open>New\<close> of \<open>internal/evaluator/analyzer.go\<close>. The network, the clock and the Anthropic SDK are the record
  \<open>net\<close> of functions over a state \<open>'w\<close>. A context is its deadline. The mutex of the OpenAI backend guards
  single reads and writes of \<open>mode\<close> and \<open>downgraded\<close>; the model runs one call at a time.
\<close>

section \<open>The outside\<close>

type_synonym ctx = "gotime option"

record tool_param =
  t_Name :: string
  t_Description :: string
  t_Properties :: "(string \<times> json) list"
  t_Required :: "string list"

record anthropic_request =
  ar_APIKey :: string
  ar_Model :: string
  ar_MaxTokens :: int
  ar_System :: "string list"
  ar_Tools :: "tool_param list"
  ar_ToolChoice :: string
  ar_UserText :: string

datatype content_block = TextBlock string | ToolUseBlock string bytes

record anthropic_message =
  am_Content :: "content_block list"
  am_Usage :: usage

text \<open>\<open>net_do\<close> gets the client's own timeout, \<open>net_wait\<close> waits and tells whether the context ended first.\<close>

record 'w net =
  net_url_ok :: "string \<Rightarrow> bool"
  net_now :: "'w \<Rightarrow> gotime"
  net_do :: "ctx \<Rightarrow> duration \<Rightarrow> http_request \<Rightarrow> 'w \<Rightarrow> (string + http_response) \<times> 'w"
  net_wait :: "ctx \<Rightarrow> duration \<Rightarrow> 'w \<Rightarrow> string option \<times> 'w"
  net_messages_new :: "ctx \<Rightarrow> anthropic_request \<Rightarrow> 'w \<Rightarrow> (string + anthropic_message) \<times> 'w"

definition WithTimeout :: "gotime \<Rightarrow> ctx \<Rightarrow> duration \<Rightarrow> ctx" where
  "WithTimeout now c d = (case c of None \<Rightarrow> Some (now + d) | Some t \<Rightarrow> Some (min t (now + d)))"

section \<open>The OpenAI-compatible backend\<close>

datatype schemaMode = modeSchema | modeJSONObject | modeAuto

definition parseSchemaMode :: "string \<Rightarrow> schemaMode option" where
  "parseSchemaMode s =
     (let m = ToLower (TrimSpace s)
      in if m = [] \<or> m = ''auto'' then Some modeAuto
         else if m = ''schema'' then Some modeSchema
         else if m = ''json-object'' \<or> m = ''json_object'' \<or> m = ''json'' then Some modeJSONObject
         else None)"

record openAIProvider =
  oa_timeout :: duration
  oa_baseURL :: string
  oa_apiKey :: string
  oa_mdl :: string
  oa_temperature :: float64
  oa_mode :: schemaMode
  oa_downgraded :: bool

definition newOpenAIProvider ::
  "string \<Rightarrow> string \<Rightarrow> string \<Rightarrow> schemaMode \<Rightarrow> float64 \<Rightarrow> duration \<Rightarrow> openAIProvider" where
  "newOpenAIProvider url key model mode temperature timeout =
     \<lparr>oa_timeout = timeout, oa_baseURL = TrimRight url ''/'', oa_apiKey = key, oa_mdl = model,
      oa_temperature = temperature, oa_mode = mode, oa_downgraded = False\<rparr>"

definition structured :: "openAIProvider \<Rightarrow> bool" where
  "structured p \<longleftrightarrow> (oa_mode p = modeSchema \<or> oa_mode p = modeAuto) \<and> \<not> oa_downgraded p"

definition currentMode :: "openAIProvider \<Rightarrow> schemaMode" where
  "currentMode p = oa_mode p"

definition downgrade :: "openAIProvider \<Rightarrow> openAIProvider" where
  "downgrade p = (if oa_mode p = modeAuto \<and> \<not> oa_downgraded p then p\<lparr>oa_downgraded := True\<rparr> else p)"

definition effectiveMode :: "openAIProvider \<Rightarrow> schemaMode" where
  "effectiveMode p =
     (case oa_mode p of
        modeJSONObject \<Rightarrow> modeJSONObject
      | modeSchema \<Rightarrow> modeSchema
      | modeAuto \<Rightarrow> if oa_downgraded p then modeJSONObject else modeSchema)"

subsection \<open>Wire format\<close>

record chatMessage =
  Role :: string
  Content :: string

record chatRequest =
  Model :: string
  cr_Messages :: "chatMessage list"
  MaxTokens :: int
  Temperature :: float64
  ResponseFormat :: json

definition chatMessage_json :: "chatMessage \<Rightarrow> json" where
  "chatMessage_json m = JObj [(''role'', JStr (Role m)), (''content'', JStr (Content m))]"

text \<open>\<open>None\<close>: \<open>json.Marshal\<close> refuses a temperature that is not finite.\<close>

definition chatRequest_json :: "chatRequest \<Rightarrow> json option" where
  "chatRequest_json r =
     (case json_float64 (Temperature r) of
        None \<Rightarrow> None
      | Some t \<Rightarrow> Some (JObj ([(''model'', JStr (Model r)), (''messages'', JArr (map chatMessage_json (cr_Messages r)))] @
          (if MaxTokens r = 0 then [] else [(''max_tokens'', JNum (show_int (MaxTokens r)))]) @
          [(''temperature'', t), (''response_format'', ResponseFormat r)])))"

text \<open>The fields of \<open>chatResponse\<close>: the contents of the choices, the usage and the error, if any.\<close>

record chatResponse =
  Choices :: "string list"
  Usage :: usage
  Error :: "(string \<times> string) option"

definition decode_struct :: "((string \<times> json) list \<Rightarrow> 'a option) \<Rightarrow> 'a \<Rightarrow> json \<Rightarrow> 'a option" where
  "decode_struct f cur j = (case j of JNull \<Rightarrow> Some cur | JObj fs \<Rightarrow> f fs | _ \<Rightarrow> None)"

definition decode_choice :: "string \<Rightarrow> json \<Rightarrow> string option" where
  "decode_choice cur = decode_struct (\<lambda>fs. decode_field (\<lambda>c. decode_struct (\<lambda>gs. decode_field decode_string ''content'' c gs) c)
     ''message'' cur fs) cur"

definition decode_usage :: "usage \<Rightarrow> json \<Rightarrow> usage option" where
  "decode_usage cur = decode_struct (\<lambda>fs.
     case (decode_field decode_int ''prompt_tokens'' (u_input cur) fs, decode_field decode_int ''completion_tokens'' (u_output cur) fs) of
       (Some i, Some out) \<Rightarrow> Some \<lparr>u_input = i, u_output = out\<rparr>
     | _ \<Rightarrow> None) cur"

definition decode_api_error :: "string \<times> string \<Rightarrow> json \<Rightarrow> (string \<times> string) option" where
  "decode_api_error cur = decode_struct (\<lambda>fs.
     case (decode_field decode_string ''message'' (fst cur) fs, decode_field decode_string ''type'' (snd cur) fs) of
       (Some m, Some t) \<Rightarrow> Some (m, t)
     | _ \<Rightarrow> None) cur"

definition zero_chatResponse :: chatResponse where
  "zero_chatResponse = \<lparr>Choices = [], Usage = \<lparr>u_input = 0, u_output = 0\<rparr>, Error = None\<rparr>"

definition Unmarshal_chatResponse :: "bytes \<Rightarrow> chatResponse option" where
  "Unmarshal_chatResponse raw =
     (case json_parse raw of
        None \<Rightarrow> None
      | Some j \<Rightarrow> decode_struct (\<lambda>fs.
          case (decode_field (decode_slice decode_choice []) ''choices'' [] fs,
                decode_field decode_usage ''usage'' (Usage zero_chatResponse) fs,
                decode_field (decode_ptr decode_api_error ([], [])) ''error'' None fs) of
            (Some c, Some u, Some e) \<Rightarrow> Some \<lparr>Choices = c, Usage = u, Error = e\<rparr>
          | _ \<Rightarrow> None) zero_chatResponse j)"

definition jsonObjectInstruction :: string where
  "jsonObjectInstruction = nl @ nl @
     ''Respond with a single JSON object and nothing else (no markdown, no prose) with exactly these keys: '' @
     ''severity (one of critical, warning, info), root_cause (string), evidence (string), action (string), '' @
     ''confidence (one of high, medium, low), grounding (one of stated, inferred), silence (boolean), '' @
     ''silence_reason (string, only when silence is true).''"

definition responseFormat :: "schemaMode \<Rightarrow> json" where
  "responseFormat mode =
     (if mode = modeJSONObject then JObj [(''type'', JStr ''json_object'')]
      else JObj [(''json_schema'', JObj [(''name'', JStr ''analysis''), (''schema'', analysisJSONSchema), (''strict'', JBool True)]),
                 (''type'', JStr ''json_schema'')])"

definition schemaRejected :: "int \<Rightarrow> bytes \<Rightarrow> bool" where
  "schemaRejected status body \<longleftrightarrow>
     (status = 400 \<or> status = 404 \<or> status = 422 \<or> status = 501) \<and>
     (let b = ToLower body
      in list_ex (Contains b) [''response_format'', ''json_schema'', ''json schema'', ''schema'', ''not supported'', ''unsupported'', ''unrecognized''])"

subsection \<open>One request\<close>

definition chat_messages :: "Prompt \<Rightarrow> schemaMode \<Rightarrow> chatMessage list" where
  "chat_messages prompt mode =
     (if System prompt \<noteq> [] then [\<lparr>Role = ''system'', Content = System prompt\<rparr>] else []) @
     [\<lparr>Role = ''user'', Content = User prompt @ (if mode = modeJSONObject then jsonObjectInstruction else [])\<rparr>]"

definition chat_request :: "openAIProvider \<Rightarrow> Prompt \<Rightarrow> schemaMode \<Rightarrow> chatRequest" where
  "chat_request p prompt mode =
     \<lparr>Model = oa_mdl p, cr_Messages = chat_messages prompt mode, MaxTokens = 1024, Temperature = oa_temperature p,
      ResponseFormat = responseFormat mode\<rparr>"

definition chat_headers :: "openAIProvider \<Rightarrow> (string \<times> string) list" where
  "chat_headers p = (''Content-Type'', ''application/json'') #
     (if oa_apiKey p \<noteq> [] then [(''Authorization'', ''Bearer '' @ oa_apiKey p)] else [])"

text \<open>The part of \<open>do\<close> that reads the answer; the flag says that the schema was rejected.\<close>

definition read_answer :: "(bytes \<Rightarrow> string) \<Rightarrow> http_response \<Rightarrow> (string \<times> bool) + bytes \<times> usage" where
  "read_answer json_error resp =
     (if StatusCode resp < 200 \<or> StatusCode resp \<ge> 300
      then Inl (''status '' @ show_int (StatusCode resp) @ '': '' @ TrimSpace (Resp_Body resp),
                schemaRejected (StatusCode resp) (Resp_Body resp))
      else case Unmarshal_chatResponse (Resp_Body resp) of
             None \<Rightarrow> Inl (''decode response: '' @ json_error (Resp_Body resp), False)
           | Some cr \<Rightarrow>
               (case Error cr of
                  Some e \<Rightarrow> Inl (''api error: '' @ fst e, False)
                | None \<Rightarrow>
                    (case Choices cr of
                       [] \<Rightarrow> Inl (''response has no choices'', False)
                     | c # _ \<Rightarrow>
                         (let content = TrimSpace c
                          in if content = [] then Inl (''response content empty'', False)
                             else Inr (content, Usage cr)))))"

definition openai_do ::
  "'w net \<Rightarrow> (bytes \<Rightarrow> string) \<Rightarrow> ctx \<Rightarrow> openAIProvider \<Rightarrow> Prompt \<Rightarrow> schemaMode \<Rightarrow> 'w \<Rightarrow>
   ((string \<times> bool) + bytes \<times> usage) \<times> 'w" where
  "openai_do net json_error c p prompt mode w =
     (case chatRequest_json (chat_request p prompt mode) of
        None \<Rightarrow> (Inl (''marshal request: json: unsupported value'', False), w)
      | Some body \<Rightarrow>
          if \<not> net_url_ok net (oa_baseURL p @ ''/chat/completions'') then (Inl (''new request'', False), w)
          else case net_do net c (oa_timeout p)
                 \<lparr>Method = ''POST'', Req_URL = oa_baseURL p @ ''/chat/completions'', Headers = chat_headers p, Body = Marshal body\<rparr> w of
                 (Inl e, w1) \<Rightarrow> (Inl (''http do: '' @ e, False), w1)
               | (Inr resp, w1) \<Rightarrow> (read_answer json_error resp, w1))"

subsection \<open>Attempts\<close>

text \<open>Attempts number \<open>attempt\<close> to 2. Attempt \<open>n > 0\<close> waits \<open>2 ^ n\<close> seconds first.\<close>

function complete_loop ::
  "'w net \<Rightarrow> (bytes \<Rightarrow> string) \<Rightarrow> ctx \<Rightarrow> Prompt \<Rightarrow> nat \<Rightarrow> string \<Rightarrow> openAIProvider \<Rightarrow> 'w \<Rightarrow>
   (string + bytes \<times> usage) \<times> openAIProvider \<times> 'w" where
  "complete_loop net json_error c prompt attempt lastErr p w =
     (if attempt < 3 then
        (case (if attempt > 0 then net_wait net c (2 ^ attempt * second) w else (None, w)) of
           (Some e, w1) \<Rightarrow> (Inl e, p, w1)
         | (None, w1) \<Rightarrow>
             (case openai_do net json_error c p prompt (effectiveMode p) w1 of
                (Inr r, w2) \<Rightarrow> (Inr r, p, w2)
              | (Inl (e, schemaUnsupported), w2) \<Rightarrow>
                  complete_loop net json_error c prompt (Suc attempt) e
                    (if schemaUnsupported \<and> currentMode p = modeAuto then downgrade p else p) w2))
      else (Inl (''openai-compatible chat failed after 3 attempts: '' @ lastErr), p, w))"
  by pat_completeness auto
termination by (relation "measure (\<lambda>(_, _, _, _, attempt, _). 3 - attempt)") auto

declare complete_loop.simps [simp del]

definition openai_complete where
  "openai_complete net json_error c p prompt w = complete_loop net json_error c prompt 0 ''<nil>'' p w"

definition preflight_prompt :: Prompt where
  "preflight_prompt = \<lparr>System = [], User = ''preflight: respond with a minimal valid analysis object.''\<rparr>"

text \<open>The outcome of the preflight is only logged.\<close>

definition preflight :: "'w net \<Rightarrow> (bytes \<Rightarrow> string) \<Rightarrow> ctx \<Rightarrow> openAIProvider \<Rightarrow> 'w \<Rightarrow> openAIProvider \<times> 'w" where
  "preflight net json_error c p w =
     (let c' = WithTimeout (net_now net w) c (5 * second)
      in case openai_do net json_error c' p preflight_prompt (effectiveMode p) w of
           (Inl (e, unsupported), w1) \<Rightarrow>
             (if unsupported \<and> currentMode p = modeAuto
              then (let p' = downgrade p in (p', snd (openai_do net json_error c' p' preflight_prompt modeJSONObject w1)))
              else (p, w1))
         | (Inr _, w1) \<Rightarrow> (p, w1))"

section \<open>The Anthropic backend\<close>

record anthropicProvider =
  an_apiKey :: string
  an_mdl :: string
  an_timeout :: duration

definition newAnthropicProvider :: "string \<Rightarrow> string \<Rightarrow> duration \<Rightarrow> anthropicProvider" where
  "newAnthropicProvider key model timeout = \<lparr>an_apiKey = key, an_mdl = model, an_timeout = timeout\<rparr>"

definition analysisTool :: tool_param where
  "analysisTool = \<lparr>t_Name = ''report_analysis'',
     t_Description = ''Report the structured analysis of the Kubernetes alert or incident. Always call this exactly once.'',
     t_Properties = analysisProperties, t_Required = analysisRequired\<rparr>"

definition messages_request :: "anthropicProvider \<Rightarrow> Prompt \<Rightarrow> anthropic_request" where
  "messages_request p prompt =
     \<lparr>ar_APIKey = an_apiKey p, ar_Model = an_mdl p, ar_MaxTokens = 1024,
      ar_System = (if System prompt \<noteq> [] then [System prompt] else []), ar_Tools = [analysisTool],
      ar_ToolChoice = t_Name analysisTool, ar_UserText = User prompt\<rparr>"

fun first_tool_call :: "string \<Rightarrow> content_block list \<Rightarrow> bytes option" where
  "first_tool_call name [] = None"
| "first_tool_call name (TextBlock _ # bs) = first_tool_call name bs"
| "first_tool_call name (ToolUseBlock n inp # bs) = (if n = name then Some inp else first_tool_call name bs)"

function anthropic_loop ::
  "'w net \<Rightarrow> ctx \<Rightarrow> anthropicProvider \<Rightarrow> Prompt \<Rightarrow> nat \<Rightarrow> string \<Rightarrow> 'w \<Rightarrow> (string + bytes \<times> usage) \<times> 'w" where
  "anthropic_loop net c p prompt attempt lastErr w =
     (if attempt < 3 then
        (case (if attempt > 0 then net_wait net c (2 ^ attempt * second) w else (None, w)) of
           (Some e, w1) \<Rightarrow> (Inl e, w1)
         | (None, w1) \<Rightarrow>
             (case net_messages_new net c (messages_request p prompt) w1 of
                (Inl e, w2) \<Rightarrow> anthropic_loop net c p prompt (Suc attempt) (''messages.new: '' @ e) w2
              | (Inr m, w2) \<Rightarrow>
                  (case first_tool_call (t_Name analysisTool) (am_Content m) of
                     Some inp \<Rightarrow> (Inr (inp, am_Usage m), w2)
                   | None \<Rightarrow> (Inl (''Anthropic returned no '' @ t_Name analysisTool @ '' tool call''), w2))))
      else (Inl (''Anthropic API failed after 3 attempts: '' @ lastErr), w))"
  by pat_completeness auto
termination by (relation "measure (\<lambda>(_, _, _, _, attempt, _). 3 - attempt)") auto

declare anthropic_loop.simps [simp del]

definition anthropic_complete where
  "anthropic_complete net c p prompt w =
     anthropic_loop net (if an_timeout p > 0 then WithTimeout (net_now net w) c (an_timeout p) else c) p prompt 0 ''<nil>'' w"

section \<open>Choosing a backend\<close>

record Config =
  Cfg_Provider :: string
  Cfg_Model :: string
  Cfg_BaseURL :: string
  Cfg_APIKey :: string
  Cfg_SchemaMode :: string
  Cfg_Temperature :: float64
  Cfg_MaxRetries :: int
  Cfg_Timeout :: duration
  Cfg_AuditMode :: string
  Cfg_AirGapped :: bool

datatype backend = Anthropic anthropicProvider | OpenAI openAIProvider

text \<open>What the functions of the provider interface work on: the backend, the caller's context and the network.\<close>

record 'w llm_state =
  ls_backend :: backend
  ls_ctx :: ctx
  ls_world :: 'w

definition backend_structured :: "backend \<Rightarrow> bool" where
  "backend_structured b = (case b of Anthropic _ \<Rightarrow> True | OpenAI p \<Rightarrow> structured p)"

definition backend_complete ::
  "'w net \<Rightarrow> (bytes \<Rightarrow> string) \<Rightarrow> 'w llm_state \<Rightarrow> Prompt \<Rightarrow> (string + bytes \<times> usage) \<times> 'w llm_state" where
  "backend_complete net json_error s prompt =
     (case ls_backend s of
        Anthropic p \<Rightarrow>
          (case anthropic_complete net (ls_ctx s) p prompt (ls_world s) of (r, w) \<Rightarrow> (r, s\<lparr>ls_world := w\<rparr>))
      | OpenAI p \<Rightarrow>
          (case openai_complete net json_error (ls_ctx s) p prompt (ls_world s) of
             (r, p', w) \<Rightarrow> (r, s\<lparr>ls_backend := OpenAI p', ls_world := w\<rparr>)))"

definition provider_of :: "'w net \<Rightarrow> (bytes \<Rightarrow> string) \<Rightarrow> backend \<Rightarrow> 'w llm_state provider" where
  "provider_of net json_error b =
     \<lparr>pr_name = (case b of Anthropic _ \<Rightarrow> ''anthropic'' | OpenAI _ \<Rightarrow> ''openai-compatible''),
      pr_model = (case b of Anthropic p \<Rightarrow> an_mdl p | OpenAI p \<Rightarrow> oa_mdl p),
      pr_structured = (\<lambda>s. backend_structured (ls_backend s)),
      pr_complete = backend_complete net json_error\<rparr>"

datatype new_error = ErrAirGapped | ErrNoAPIKey | ErrNoBaseURL | ErrNoModel | ErrSchemaMode | ErrUnknownProvider string

definition defaultAnthropicModel :: string where "defaultAnthropicModel = ''claude-opus-4-5''"

definition new_backend ::
  "'w net \<Rightarrow> llm_texts \<Rightarrow> Config \<Rightarrow> 'w \<Rightarrow> (new_error + backend) \<times> 'w" where
  "new_backend net lt cfg w =
     (if Cfg_Provider cfg = [] \<or> Cfg_Provider cfg = ''anthropic'' then
        (if Cfg_AirGapped cfg then Inl ErrAirGapped
         else if Cfg_APIKey cfg = [] then Inl ErrNoAPIKey
         else Inr (Anthropic (newAnthropicProvider (Cfg_APIKey cfg)
                (if Cfg_Model cfg = [] then defaultAnthropicModel else Cfg_Model cfg) (Cfg_Timeout cfg))), w)
      else if Cfg_Provider cfg = ''openai-compatible'' then
        (if Cfg_BaseURL cfg = [] then (Inl ErrNoBaseURL, w)
         else if Cfg_Model cfg = [] then (Inl ErrNoModel, w)
         else case parseSchemaMode (Cfg_SchemaMode cfg) of
                None \<Rightarrow> (Inl ErrSchemaMode, w)
              | Some mode \<Rightarrow>
                  (case preflight net (lt_json_error lt) None
                     (newOpenAIProvider (Cfg_BaseURL cfg) (Cfg_APIKey cfg) (Cfg_Model cfg) mode (Cfg_Temperature cfg) (Cfg_Timeout cfg)) w of
                     (p, w1) \<Rightarrow> (Inr (OpenAI p), w1)))
      else (Inl (ErrUnknownProvider (Cfg_Provider cfg)), w))"

definition Evaluator_New ::
  "'w net \<Rightarrow> llm_texts \<Rightarrow> Config \<Rightarrow> 'w \<Rightarrow> (new_error + 'w llm_state Evaluator \<times> backend) \<times> 'w" where
  "Evaluator_New net lt cfg w =
     (case new_backend net lt cfg w of
        (Inl e, w1) \<Rightarrow> (Inl e, w1)
      | (Inr b, w1) \<Rightarrow>
          (Inr (\<lparr>ev_provider = provider_of net (lt_json_error lt) b, maxRetries = max 0 (Cfg_MaxRetries cfg),
                 auditMode = parseAuditMode (Cfg_AuditMode cfg)\<rparr>, b), w1))"

section \<open>Facts\<close>

text \<open>The configuration of an OpenAI backend never changes, but for the downgrade.\<close>

definition same_backend :: "openAIProvider \<Rightarrow> openAIProvider \<Rightarrow> bool" where
  "same_backend p p' \<longleftrightarrow> p' = p \<or> oa_mode p = modeAuto \<and> p' = p\<lparr>oa_downgraded := True\<rparr>"

lemma same_backend_downgrade: "same_backend p (if b \<and> currentMode p = modeAuto then downgrade p else p)"
  by (cases p) (auto simp: same_backend_def downgrade_def currentMode_def)

lemma same_backend_trans: "same_backend p q \<Longrightarrow> same_backend q r \<Longrightarrow> same_backend p r"
  by (auto simp: same_backend_def)

lemma same_backend_url: "same_backend p p' \<Longrightarrow> oa_baseURL p' = oa_baseURL p"
  by (auto simp: same_backend_def)

definition endpoint :: "string \<Rightarrow> string" where
  "endpoint url = url @ ''/chat/completions''"

text \<open>What the requests to the configured endpoint cost bounds what a call costs: nothing else is contacted.\<close>

lemma openai_do_cost:
  fixes cost :: "'w \<Rightarrow> nat"
  assumes "\<And>c d rq w r w'. Req_URL rq = endpoint (oa_baseURL p) \<Longrightarrow> net_do net c d rq w = (r, w') \<Longrightarrow> cost w' \<le> cost w + k"
    and "openai_do net je c p prompt mode w = (r, w')"
  shows "cost w' \<le> cost w + k"
  using assms(2) by (auto simp: openai_do_def endpoint_def split: option.split_asm prod.split_asm sum.split_asm if_split_asm dest: assms(1) [rotated])

lemma complete_loop_cost:
  fixes cost :: "'w \<Rightarrow> nat"
  assumes net: "\<And>c d rq w r w'. Req_URL rq = endpoint url \<Longrightarrow> net_do net c d rq w = (r, w') \<Longrightarrow> cost w' \<le> cost w + k"
    "\<And>c d w r w'. net_wait net c d w = (r, w') \<Longrightarrow> cost w' \<le> cost w"
    and "complete_loop net je c prompt attempt lastErr p w = (r, p', w')" and "oa_baseURL p = url"
  shows "same_backend p p' \<and> cost w' \<le> cost w + k * (3 - attempt)"
  using assms(3,4)
proof (induction "3 - attempt" arbitrary: attempt lastErr p w)
  case 0
  then show ?case by (simp add: complete_loop.simps [of _ _ _ _ attempt] same_backend_def)
next
  case (Suc n)
  obtain stop w1 where wait: "(if attempt > 0 then net_wait net c (2 ^ attempt * second) w else (None, w)) = (stop, w1)"
    by fastforce
  then have w1: "cost w1 \<le> cost w" using net(2) by (auto split: if_split_asm)
  have lt: "attempt < 3" and n: "n = 3 - Suc attempt" using Suc(2) by auto
  show ?case
  proof (cases stop)
    case (Some e)
    then show ?thesis
      using Suc.prems wait w1 lt by (simp add: complete_loop.simps [of _ _ _ _ attempt] same_backend_def)
  next
    case None
    obtain ans w2 where do: "openai_do net je c p prompt (effectiveMode p) w1 = (ans, w2)" by fastforce
    have w2: "cost w2 \<le> cost w1 + k" by (rule openai_do_cost [OF _ do]) (use net(1) Suc.prems(2) in blast)
    have more: "k * (3 - attempt) = k + k * n" unfolding Suc(2) [symmetric] by simp
    show ?thesis
    proof (cases ans)
      case (Inr res)
      then show ?thesis
        using Suc.prems wait do w1 w2 lt None more by (simp add: complete_loop.simps [of _ _ _ _ attempt] same_backend_def)
    next
      case (Inl eb)
      obtain e b where eb: "eb = (e, b)" by fastforce
      let ?p = "if b \<and> currentMode p = modeAuto then downgrade p else p"
      have "complete_loop net je c prompt (Suc attempt) e ?p w2 = (r, p', w')"
        using Suc.prems wait do lt None Inl eb by (simp add: complete_loop.simps [of _ _ _ _ attempt])
      moreover have "oa_baseURL ?p = url" using Suc.prems(2) same_backend_url [OF same_backend_downgrade [of p b]] by simp
      ultimately have ih: "same_backend ?p p'" "cost w' \<le> cost w2 + k * n" using Suc(1) [OF n] unfolding n by auto
      have "same_backend p p'" by (rule same_backend_trans [OF same_backend_downgrade ih(1)])
      moreover have "cost w' \<le> cost w + k * (3 - attempt)" unfolding more using ih(2) w1 w2 by linarith
      ultimately show ?thesis ..
    qed
  qed
qed

lemma anthropic_loop_cost:
  fixes cost :: "'w \<Rightarrow> nat"
  assumes net: "\<And>c rq w r w'. net_messages_new net c rq w = (r, w') \<Longrightarrow> cost w' \<le> cost w + k"
    "\<And>c d w r w'. net_wait net c d w = (r, w') \<Longrightarrow> cost w' \<le> cost w"
    and "anthropic_loop net c p prompt attempt lastErr w = (r, w')"
  shows "cost w' \<le> cost w + k * (3 - attempt)"
  using assms(3)
proof (induction "3 - attempt" arbitrary: attempt lastErr w)
  case 0
  then show ?case by (simp add: anthropic_loop.simps [of _ _ _ _ attempt])
next
  case (Suc n)
  obtain stop w1 where wait: "(if attempt > 0 then net_wait net c (2 ^ attempt * second) w else (None, w)) = (stop, w1)"
    by fastforce
  then have w1: "cost w1 \<le> cost w" using net(2) by (auto split: if_split_asm)
  obtain ans w2 where call: "net_messages_new net c (messages_request p prompt) w1 = (ans, w2)" by fastforce
  have w2: "cost w2 \<le> cost w1 + k" by (rule net(1) [OF call])
  have lt: "attempt < 3" and n: "n = 3 - Suc attempt" using Suc(2) by auto
  have more: "k * (3 - attempt) = k + k * n" unfolding Suc(2) [symmetric] by simp
  show ?case
  proof (cases "stop = None \<and> (\<exists>e. ans = Inl e)")
    case True
    then obtain e where "stop = None" "ans = Inl e" by blast
    then have "anthropic_loop net c p prompt (Suc attempt) (''messages.new: '' @ e) w2 = (r, w')"
      using Suc.prems wait call lt by (simp add: anthropic_loop.simps [of _ _ _ _ attempt])
    from Suc(1) [OF n this] have "cost w' \<le> cost w2 + k * n" unfolding n .
    with w1 w2 more show ?thesis by simp
  next
    case False
    then have "w' = w1 \<or> w' = w2"
      using Suc.prems wait call lt
      by (auto simp: anthropic_loop.simps [of _ _ _ _ attempt] split: option.split_asm sum.split_asm)
    with w1 w2 more show ?thesis by auto
  qed
qed

text \<open>The backend of a running evaluator is the configured one.\<close>

fun backend_stable :: "backend \<Rightarrow> backend \<Rightarrow> bool" where
  "backend_stable (Anthropic p) (Anthropic p') \<longleftrightarrow> p' = p"
| "backend_stable (OpenAI p) (OpenAI p') \<longleftrightarrow> same_backend p p'"
| "backend_stable _ _ \<longleftrightarrow> False"

lemma backend_stable_refl: "backend_stable b b"
  by (cases b) (auto simp: same_backend_def)

lemma provider_of_complete:
  "pr = provider_of net je b \<Longrightarrow> pr_complete pr s p = (r, s') \<Longrightarrow> backend_complete net je s p = (r, s')"
  by (simp add: provider_of_def)

lemma backend_complete_OpenAI:
  fixes cost :: "'w \<Rightarrow> nat"
  assumes net: "\<And>c d rq w r w'. Req_URL rq = endpoint (oa_baseURL p) \<Longrightarrow> net_do net c d rq w = (r, w') \<Longrightarrow> cost w' \<le> cost w + k"
    "\<And>c d w r w'. net_wait net c d w = (r, w') \<Longrightarrow> cost w' \<le> cost w"
    and b: "ls_backend s = OpenAI p"
    and call: "backend_complete net je s prompt = (r, s')"
  shows "\<exists>p'. ls_backend s' = OpenAI p' \<and> same_backend p p' \<and> ls_ctx s' = ls_ctx s \<and>
     cost (ls_world s') \<le> cost (ls_world s) + k * 3"
proof -
  obtain r1 p' w' where c: "complete_loop net je (ls_ctx s) prompt 0 ''<nil>'' p (ls_world s) = (r1, p', w')"
    by (metis prod_cases3)
  have "same_backend p p' \<and> cost w' \<le> cost (ls_world s) + k * (3 - 0)"
    by (rule complete_loop_cost [OF _ _ c refl]) (fact net)+
  with call b c show ?thesis by (auto simp: backend_complete_def openai_complete_def)
qed

lemma backend_complete_Anthropic:
  fixes cost :: "'w \<Rightarrow> nat"
  assumes net: "\<And>c rq w r w'. net_messages_new net c rq w = (r, w') \<Longrightarrow> cost w' \<le> cost w + k"
    "\<And>c d w r w'. net_wait net c d w = (r, w') \<Longrightarrow> cost w' \<le> cost w"
    and b: "ls_backend s = Anthropic p"
    and call: "backend_complete net je s prompt = (r, s')"
  shows "ls_backend s' = Anthropic p \<and> ls_ctx s' = ls_ctx s \<and> cost (ls_world s') \<le> cost (ls_world s) + k * 3"
proof -
  obtain r1 w' where c: "anthropic_complete net (ls_ctx s) p prompt (ls_world s) = (r1, w')" by fastforce
  have "cost w' \<le> cost (ls_world s) + k * (3 - 0)"
    using c unfolding anthropic_complete_def by (rule anthropic_loop_cost [rotated 2]) (fact net)+
  with call b c show ?thesis by (auto simp: backend_complete_def)
qed

text \<open>C25: Bounded use of the model endpoint. Let \<open>k\<close> bound the requests that one call of the HTTP client or of the
  Anthropic SDK sends (both may repeat a request on their own: the client follows redirects, the SDK retries twice unless it is
  told otherwise, which the code does not do). Then, whatever the endpoint answers, one evaluation sends at most \<open>3 * k\<close> requests
  for each of the \<open>maxRetries + 1\<close> attempts, for either backend, and leaves the backend's
  configuration as it was: model, key, address and mode are fixed, and only an OpenAI backend in automatic
  mode can change, once, by falling back to JSON-object answers.\<close>

theorem evaluation_request_bound:
  fixes requests :: "'w \<Rightarrow> nat"
  assumes "\<And>c d rq w r w'. net_do net c d rq w = (r, w') \<Longrightarrow> requests w' \<le> requests w + k"
    and "\<And>c rq w r w'. net_messages_new net c rq w = (r, w') \<Longrightarrow> requests w' \<le> requests w + k"
    and "\<And>c d w r w'. net_wait net c d w = (r, w') \<Longrightarrow> requests w' \<le> requests w"
    and "ev_provider e = provider_of net je b"
    and "run lt sha256 e ident prompt s = (res, s', ms, aud)"
  shows "requests (ls_world s') \<le> requests (ls_world s) + 3 * k * (nat (maxRetries e) + 1) \<and>
     ls_ctx s' = ls_ctx s \<and> backend_stable (ls_backend s) (ls_backend s')"
proof -
  let ?I = "\<lambda>x. ls_ctx x = ls_ctx s \<and> backend_stable (ls_backend s) (ls_backend x)"
  have call: "?I x' \<and> requests (ls_world x') \<le> requests (ls_world x) + 3 * k"
    if I: "?I x" and c: "pr_complete (ev_provider e) x p = (r, x')" for x p r x'
  proof (cases "ls_backend x")
    note c' = provider_of_complete [OF assms(4) c]
    case (Anthropic a)
    have "ls_backend x' = Anthropic a \<and> ls_ctx x' = ls_ctx x \<and> requests (ls_world x') \<le> requests (ls_world x) + k * 3"
      by (rule backend_complete_Anthropic [OF _ _ Anthropic c']) (fact assms(2), fact assms(3))
    with I Anthropic show ?thesis by auto
  next
    note c' = provider_of_complete [OF assms(4) c]
    case (OpenAI q)
    have "\<exists>q'. ls_backend x' = OpenAI q' \<and> same_backend q q' \<and> ls_ctx x' = ls_ctx x \<and>
        requests (ls_world x') \<le> requests (ls_world x) + k * 3"
      by (rule backend_complete_OpenAI [OF _ _ OpenAI c']) (use assms(1,3) in blast)+
    with I OpenAI show ?thesis by (cases "ls_backend s") (auto intro: same_backend_trans)
  qed
  have "?I s' \<and> requests (ls_world s') \<le> requests (ls_world s) + 3 * k * (nat (maxRetries e) + 1)"
    by (rule run_bound [where I = ?I and cost = "\<lambda>x. requests (ls_world x)" and k = "3 * k", OF call _ assms(5)])
      (auto simp: backend_stable_refl)
  then show ?thesis by blast
qed

text \<open>The backend's state after a sequence of evaluations.\<close>

fun run_many ::
  "llm_texts \<Rightarrow> (bytes \<Rightarrow> bytes) \<Rightarrow> 'p Evaluator \<Rightarrow> (Identity option \<times> Prompt) list \<Rightarrow> 'p \<Rightarrow> 'p" where
  "run_many lt sha256 e [] s = s"
| "run_many lt sha256 e ((ident, prompt) # calls) s =
     (case run lt sha256 e ident prompt s of (_, s', _, _) \<Rightarrow> run_many lt sha256 e calls s')"

lemma preflight_cost:
  fixes cost :: "'w \<Rightarrow> nat"
  assumes "\<And>c d rq w r w'. Req_URL rq = endpoint (oa_baseURL p) \<Longrightarrow> net_do net c d rq w = (r, w') \<Longrightarrow> cost w' \<le> cost w"
    and "preflight net je c p w = (p', w')"
  shows "cost w' \<le> cost w \<and> oa_baseURL p' = oa_baseURL p"
proof -
  let ?c = "WithTimeout (net_now net w) c (5 * second)"
  have url: "oa_baseURL (downgrade p) = oa_baseURL p" by (simp add: downgrade_def)
  obtain ans w1 where d: "openai_do net je ?c p preflight_prompt (effectiveMode p) w = (ans, w1)" by fastforce
  obtain ans' w2 where d': "openai_do net je ?c (downgrade p) preflight_prompt modeJSONObject w1 = (ans', w2)" by fastforce
  have "cost w1 \<le> cost w" using openai_do_cost [where k = 0, OF _ d] assms(1) by simp
  moreover have "cost w2 \<le> cost w1" using openai_do_cost [where k = 0, OF _ d'] assms(1) url by simp
  moreover have "(w' = w1 \<or> w' = w2) \<and> (p' = p \<or> p' = downgrade p)"
    using assms(2) d d' by (auto simp: preflight_def Let_def split: sum.split_asm if_split_asm)
  ultimately show ?thesis using url by auto
qed

lemma new_backend_air_gapped:
  fixes cost :: "'w \<Rightarrow> nat"
  assumes "Cfg_AirGapped cfg" and url: "url = TrimRight (Cfg_BaseURL cfg) ''/''"
    and net: "\<And>c d rq w r w'. Req_URL rq = endpoint url \<Longrightarrow> net_do net c d rq w = (r, w') \<Longrightarrow> cost w' \<le> cost w"
    and new: "new_backend net lt cfg w = (r, w')"
  shows "cost w' \<le> cost w \<and> (\<forall>b. r = Inr b \<longrightarrow> Cfg_Provider cfg = ''openai-compatible'' \<and> (\<exists>p. b = OpenAI p \<and> oa_baseURL p = url))"
proof -
  have pre: "cost w' \<le> cost w \<and> oa_baseURL p' = url" if "preflight net je c (newOpenAIProvider (Cfg_BaseURL cfg) key model mode temp timeout) w = (p', w')"
    for je c key model mode temp timeout w p' w'
    using preflight_cost [OF _ that, of cost] net url by (simp add: newOpenAIProvider_def)
  show ?thesis
    using assms(1) new by (auto simp: new_backend_def split: if_split_asm option.split_asm prod.split_asm dest: pre)
qed

lemma run_many_OpenAI:
  fixes cost :: "'w \<Rightarrow> nat"
  assumes net: "\<And>c d rq w r w'. Req_URL rq = endpoint url \<Longrightarrow> net_do net c d rq w = (r, w') \<Longrightarrow> cost w' \<le> cost w"
    "\<And>c d w r w'. net_wait net c d w = (r, w') \<Longrightarrow> cost w' \<le> cost w"
    and "ev_provider e = provider_of net je b" and "ls_backend s = OpenAI p" "oa_baseURL p = url"
  shows "cost (ls_world (run_many lt sha256 e calls s)) \<le> cost (ls_world s)"
  using assms(4,5)
proof (induction calls arbitrary: s p)
  case (Cons call calls)
  let ?I = "\<lambda>x. \<exists>p. ls_backend x = OpenAI p \<and> oa_baseURL p = url"
  obtain ident prompt where call: "call = (ident, prompt)" by fastforce
  obtain res s' ms aud where r: "run lt sha256 e ident prompt s = (res, s', ms, aud)" by (metis prod_cases4)
  have step: "?I x' \<and> cost (ls_world x') \<le> cost (ls_world x) + 0"
    if "?I x" and c: "pr_complete (ev_provider e) x pr = (ans, x')" for x pr ans x'
  proof -
    from that(1) obtain q where q: "ls_backend x = OpenAI q" "oa_baseURL q = url" by blast
    have "\<exists>q'. ls_backend x' = OpenAI q' \<and> same_backend q q' \<and> ls_ctx x' = ls_ctx x \<and>
        cost (ls_world x') \<le> cost (ls_world x) + 0 * 3"
      by (rule backend_complete_OpenAI [OF _ _ q(1) provider_of_complete [OF assms(3) c]]) (use net q(2) in simp_all)
    then show ?thesis using same_backend_url q(2) by auto
  qed
  have "?I s' \<and> cost (ls_world s') \<le> cost (ls_world s) + 0 * (nat (maxRetries e) + 1)"
    by (rule run_bound [where I = ?I and cost = "\<lambda>x. cost (ls_world x)" and k = 0, OF step _ r]) (use Cons.prems in auto)
  then obtain p' where "ls_backend s' = OpenAI p'" "oa_baseURL p' = url" "cost (ls_world s') \<le> cost (ls_world s)" by auto
  with Cons.IH [of s' p'] call r show ?case by simp
qed simp

text \<open>C24: Air-gapped mode. Count every contact of the evaluator that is not a request to \<open>/chat/completions\<close> under the configured base
  URL: a call of the cloud provider's SDK, or a request to any other address. An evaluator that starts with the air-gapped flag set
  makes no such contact, not while it starts and not in any sequence of evaluations, whatever the endpoint answers. With the
  cloud provider configured it refuses to start. Where the base URL points, and where a server there
  redirects to, is left to the operator, as the code says.\<close>

theorem air_gapped_only_endpoint:
  fixes outside :: "'w \<Rightarrow> nat"
  assumes "Cfg_AirGapped cfg"
    and "\<And>c d rq w r w'. Req_URL rq = endpoint (TrimRight (Cfg_BaseURL cfg) ''/'') \<Longrightarrow> net_do net c d rq w = (r, w') \<Longrightarrow> outside w' \<le> outside w"
    and "\<And>c d w r w'. net_wait net c d w = (r, w') \<Longrightarrow> outside w' \<le> outside w"
  shows "case Evaluator_New net lt cfg w of
      (Inl err, w1) \<Rightarrow> outside w1 \<le> outside w
    | (Inr (e, b), w1) \<Rightarrow> outside w1 \<le> outside w \<and> Cfg_Provider cfg = ''openai-compatible'' \<and>
        outside (ls_world (run_many lt sha256 e calls \<lparr>ls_backend = b, ls_ctx = c, ls_world = w1\<rparr>)) \<le> outside w"
proof -
  obtain r w1 where new: "new_backend net lt cfg w = (r, w1)" by fastforce
  have start: "outside w1 \<le> outside w \<and> (\<forall>b. r = Inr b \<longrightarrow> Cfg_Provider cfg = ''openai-compatible'' \<and>
      (\<exists>p. b = OpenAI p \<and> oa_baseURL p = TrimRight (Cfg_BaseURL cfg) ''/''))"
    by (rule new_backend_air_gapped [OF assms(1) refl assms(2) new])
  show ?thesis
  proof (cases r)
    case (Inl err)
    then show ?thesis using new start by (simp add: Evaluator_New_def)
  next
    case (Inr b)
    then obtain p where p: "b = OpenAI p" "oa_baseURL p = TrimRight (Cfg_BaseURL cfg) ''/''" using start by blast
    let ?e = "\<lparr>ev_provider = provider_of net (lt_json_error lt) b, maxRetries = max 0 (Cfg_MaxRetries cfg),
      auditMode = parseAuditMode (Cfg_AuditMode cfg)\<rparr>"
    have "outside (ls_world (run_many lt sha256 ?e calls \<lparr>ls_backend = b, ls_ctx = c, ls_world = w1\<rparr>)) \<le> outside w1"
      by (rule order_trans [OF run_many_OpenAI [where net = net and je = "lt_json_error lt" and b = b and p = p and url = "oa_baseURL p"]])
        (use p assms(2,3) in auto)
    with new Inr start show ?thesis by (auto simp: Evaluator_New_def)
  qed
qed

section \<open>An unreachable endpoint\<close>

text \<open>A network that counts the requests and answers none, with an SDK that tries three times; the second component counts the contacts
  outside the configured endpoint.\<close>

definition dead_net :: "(nat \<times> nat) net" where
  "dead_net = \<lparr>net_url_ok = (\<lambda>_. True), net_now = (\<lambda>_. 0),
     net_do = (\<lambda>_ _ rq (n, k). (Inl ''refused'', (n + 1, if Req_URL rq = ''http://llm/chat/completions'' then k else k + 1))), net_wait = (\<lambda>_ _ w. (None, w)),
     net_messages_new = (\<lambda>_ _ (n, k). (Inl ''refused'', (n + 3, k + 1)))\<rparr>"

definition local_config :: Config where
  "local_config = \<lparr>Cfg_Provider = ''openai-compatible'', Cfg_Model = ''m'', Cfg_BaseURL = ''http://llm'', Cfg_APIKey = [],
     Cfg_SchemaMode = [], Cfg_Temperature = Finite 0, Cfg_MaxRetries = 1, Cfg_Timeout = second, Cfg_AuditMode = [],
     Cfg_AirGapped = True\<rparr>"

definition dead_state :: "(nat \<times> nat) llm_state" where
  "dead_state = \<lparr>ls_backend = Anthropic (newAnthropicProvider ''k'' ''m'' 0), ls_ctx = None, ls_world = (0, 0)\<rparr>"

definition dead_evaluator :: "(nat \<times> nat) llm_state Evaluator" where
  "dead_evaluator = \<lparr>ev_provider = provider_of dead_net (lt_json_error demo_texts) (ls_backend dead_state), maxRetries = 1,
     auditMode = AuditOff\<rparr>"

text \<open>The three attempts fail in transport, so that no corrective attempt follows.\<close>

lemma dead_run: "fst (ls_world (fst (snd (run demo_texts pad32 dead_evaluator None demo_prompt dead_state)))) = 9"
  by (simp add: run_def run_loop.simps dead_evaluator_def dead_state_def provider_of_def backend_complete_def
      anthropic_complete_def anthropic_loop.simps dead_net_def newAnthropicProvider_def auditInput_def Let_def)

theorem evaluation_request_bound_witness:
  "case run demo_texts pad32 dead_evaluator None demo_prompt dead_state of (res, s', ms, aud) \<Rightarrow>
     fst (ls_world s') = 9 \<and> fst (ls_world s') \<le> 0 + 3 * 3 * 2 \<and> backend_stable (ls_backend dead_state) (ls_backend s')"
proof -
  obtain res s' ms aud where r: "run demo_texts pad32 dead_evaluator None demo_prompt dead_state = (res, s', ms, aud)"
    by (metis prod_cases4)
  have "fst (ls_world s') \<le> fst (ls_world dead_state) + 3 * 3 * (nat (maxRetries dead_evaluator) + 1) \<and>
     ls_ctx s' = ls_ctx dead_state \<and> backend_stable (ls_backend dead_state) (ls_backend s')"
    by (rule evaluation_request_bound [where net = dead_net and requests = fst, OF _ _ _ _ r])
      (auto simp: dead_net_def dead_evaluator_def)
  with dead_run r show ?thesis by (simp add: dead_state_def dead_evaluator_def)
qed

lemma local_config_starts: "\<exists>e p w. Evaluator_New dead_net demo_texts local_config (0, 0) = (Inr (e, OpenAI p), w)"
proof -
  have "parseSchemaMode [] = Some modeAuto"
    by (simp add: parseSchemaMode_def TrimSpace_def Let_def)
  then show ?thesis by (auto simp: Evaluator_New_def new_backend_def local_config_def split: prod.split)
qed

theorem air_gapped_only_endpoint_witness:
  "\<exists>e p w1. Evaluator_New dead_net demo_texts local_config (0, 0) = (Inr (e, OpenAI p), w1) \<and>
     snd (ls_world (run_many demo_texts pad32 e [(None, demo_prompt), (None, demo_prompt)]
       \<lparr>ls_backend = OpenAI p, ls_ctx = None, ls_world = w1\<rparr>)) = 0"
proof -
  obtain e p w1 where new: "Evaluator_New dead_net demo_texts local_config (0, 0) = (Inr (e, OpenAI p), w1)"
    using local_config_starts by blast
  have "case Evaluator_New dead_net demo_texts local_config (0, 0) of
      (Inl err, w1) \<Rightarrow> snd w1 \<le> snd (0 :: nat, 0 :: nat)
    | (Inr (e, b), w1) \<Rightarrow> snd w1 \<le> snd (0 :: nat, 0 :: nat) \<and> Cfg_Provider local_config = ''openai-compatible'' \<and>
        snd (ls_world (run_many demo_texts pad32 e [(None, demo_prompt), (None, demo_prompt)]
          \<lparr>ls_backend = b, ls_ctx = None, ls_world = w1\<rparr>)) \<le> snd (0 :: nat, 0 :: nat)"
    by (rule air_gapped_only_endpoint) (auto simp: local_config_def dead_net_def endpoint_def TrimRight_def)
  with new show ?thesis by auto
qed

end

