(* ===== verification/Deadlines.thy ===== *)
theory Deadlines
  imports PipelineRuns Providers
begin

text \<open>
  The pipeline with the evaluator of \<open>internal/evaluator\<close> as its analyzer, and what the deadline that
  \<open>processSingle\<close> puts on an alert leaves for the delivery. The world of the pipeline is the backend's state and the
  network; \<open>net_now\<close> reads its clock.
\<close>

section \<open>The evaluator as analyzer\<close>

text \<open>The pipeline calls it under \<open>context.Background()\<close>, which carries no identity.\<close>

definition model_analyzer ::
  "llm_texts \<Rightarrow> (bytes \<Rightarrow> bytes) \<Rightarrow> 'w llm_state Evaluator \<Rightarrow> (backend \<times> 'w) Analyzer" where
  "model_analyzer lt sha256 ev =
     \<lparr>an_Evaluate = (\<lambda>c p exs (b, w).
        case Evaluate lt sha256 ev None p exs \<lparr>ls_backend = b, ls_ctx = c, ls_world = w\<rparr> of
          (r, s, ms, aud) \<Rightarrow> (r, ms, (ls_backend s, ls_world s))),
      an_EvaluateIncident = (\<lambda>c ps exs (b, w).
        case EvaluateIncident lt sha256 ev None ps exs \<lparr>ls_backend = b, ls_ctx = c, ls_world = w\<rparr> of
          (r, s, ms, aud) \<Rightarrow> (r, ms, (ls_backend s, ls_world s)))\<rparr>"

section \<open>A backend that hangs\<close>

text \<open>An endpoint that accepts requests and never answers: a request ends when the client's timeout or the context's
  deadline is reached, and a wait ends early when the deadline comes first.\<close>

definition hangs :: "'w net \<Rightarrow> bool" where
  "hangs net \<longleftrightarrow>
     (\<forall>t d rq w. \<exists>err w'. net_do net (Some t) d rq w = (Inl err, w') \<and> net_now net w' = max (net_now net w) (min t (net_now net w + d))) \<and>
     (\<forall>t d w. \<exists>r w'. net_wait net (Some t) d w = (r, w') \<and> net_now net w' = max (net_now net w) (min t (net_now net w + d)) \<and>
        (r = None \<longleftrightarrow> net_now net w + d < t))"

lemma hangsD:
  assumes "hangs net"
  shows "\<exists>err w'. net_do net (Some t) d rq w = (Inl err, w') \<and> net_now net w' = max (net_now net w) (min t (net_now net w + d))"
    and "\<exists>r w'. net_wait net (Some t) d w = (r, w') \<and> net_now net w' = max (net_now net w) (min t (net_now net w + d)) \<and>
        (r = None \<longleftrightarrow> net_now net w + d < t)"
  using assms unfolding hangs_def by blast+

text \<open>The time the attempts from number \<open>n\<close> on take, back-offs included.\<close>

definition hang_left :: "duration \<Rightarrow> nat \<Rightarrow> duration" where
  "hang_left T n = (if n = 0 then 3 * T + 6 * second else if n = 1 then 2 * T + 6 * second else if n = 2 then T + 4 * second else 0)"

lemma hang_left_nonneg: "0 \<le> T \<Longrightarrow> 0 \<le> hang_left T n" by (simp add: hang_left_def)

definition sends_requests :: "'w net \<Rightarrow> openAIProvider \<Rightarrow> bool" where
  "sends_requests net p \<longleftrightarrow> net_url_ok net (oa_baseURL p @ ''/chat/completions'') \<and> (\<exists>t. json_float64 (oa_temperature p) = Some t)"

lemma hung_do:
  assumes "hangs net" and "sends_requests net p"
  shows "\<exists>err w'. openai_do net je (Some t) p prompt mode w = (Inl (err, False), w') \<and>
     net_now net w' = max (net_now net w) (min t (net_now net w + oa_timeout p))"
proof -
  obtain f where "json_float64 (oa_temperature p) = Some f" using assms(2) by (auto simp: sends_requests_def)
  then obtain body where b: "chatRequest_json (chat_request p prompt mode) = Some body"
    by (simp add: chatRequest_json_def chat_request_def)
  obtain err w' where "net_do net (Some t) (oa_timeout p) \<lparr>Method = ''POST'', Req_URL = oa_baseURL p @ ''/chat/completions'',
      Headers = chat_headers p, Body = Marshal body\<rparr> w = (Inl err, w')"
    "net_now net w' = max (net_now net w) (min t (net_now net w + oa_timeout p))"
    using hangsD(1) [OF assms(1)] by blast
  then show ?thesis using b assms(2) by (auto simp: openai_do_def sends_requests_def)
qed

lemma less_3: "(n :: nat) < 3 \<Longrightarrow> n = 0 \<or> n = 1 \<or> n = 2" by auto

lemma hung_loop:
  assumes net: "hangs net" "sends_requests net p" and T: "0 \<le> oa_timeout p"
  shows "\<exists>err w'. complete_loop net je (Some t) prompt n lastErr p w = (Inl err, p, w') \<and>
     min t (net_now net w + hang_left (oa_timeout p) n) \<le> net_now net w'"
proof (induction "3 - n" arbitrary: n lastErr w)
  case 0
  then show ?case by (simp add: complete_loop.simps [of _ _ _ _ n] hang_left_def)
next
  case (Suc k)
  then have n: "n < 3" by simp
  have step: "\<exists>err w'. complete_loop net je (Some t) prompt n lastErr p w = (Inl err, p, w') \<and>
      min t (net_now net w + hang_left (oa_timeout p) n) \<le> net_now net w'"
    if w1: "(if n > 0 then net_wait net (Some t) (2 ^ n * second) w else (None, w)) = (None, w1)"
      and now: "net_now net w + (if n > 0 then 2 ^ n * second else 0) \<le> net_now net w1" for w1
  proof -
    obtain err w2 where d: "openai_do net je (Some t) p prompt (effectiveMode p) w1 = (Inl (err, False), w2)"
      "net_now net w2 = max (net_now net w1) (min t (net_now net w1 + oa_timeout p))"
      using hung_do [OF net] by blast
    have "k = 3 - Suc n" using Suc.hyps(2) by simp
    from Suc.hyps(1) [OF this, of err w2] obtain err' w' where
      "complete_loop net je (Some t) prompt (Suc n) err p w2 = (Inl err', p, w')"
      and w': "min t (net_now net w2 + hang_left (oa_timeout p) (Suc n)) \<le> net_now net w'"
      by blast
    then have "complete_loop net je (Some t) prompt n lastErr p w = (Inl err', p, w')"
      using n w1 d by (simp add: complete_loop.simps [of _ _ _ _ n])
    moreover have "net_now net w + hang_left (oa_timeout p) n \<le> net_now net w1 + oa_timeout p + hang_left (oa_timeout p) (Suc n)"
      using now less_3 [OF n] by (elim disjE) (simp_all add: hang_left_def)
    with w' d(2) T hang_left_nonneg [OF T, of "Suc n"] have "min t (net_now net w + hang_left (oa_timeout p) n) \<le> net_now net w'" by linarith
    ultimately show ?thesis by blast
  qed
  show ?case
  proof (cases "n = 0")
    case True
    then show ?thesis by (intro step [of w]) simp_all
  next
    case False
    obtain r w1 where wt: "net_wait net (Some t) (2 ^ n * second) w = (r, w1)"
      "net_now net w1 = max (net_now net w) (min t (net_now net w + 2 ^ n * second))"
      "r = None \<longleftrightarrow> net_now net w + 2 ^ n * second < t"
      using hangsD(2) [OF net(1)] by blast
    show ?thesis
    proof (cases r)
      case None
      then show ?thesis using False wt by (intro step [of w1]) simp_all
    next
      case (Some err)
      then have "complete_loop net je (Some t) prompt n lastErr p w = (Inl err, p, w1)"
        using n False wt(1) by (simp add: complete_loop.simps [of _ _ _ _ n])
      moreover have "t \<le> net_now net w1" using wt(2,3) Some by simp
      ultimately show ?thesis by auto
    qed
  qed
qed

lemma hung_run:
  assumes net: "hangs net" "sends_requests net p" "0 \<le> oa_timeout p"
    and ev: "ev_provider ev = provider_of net (lt_json_error lt) (OpenAI p)" "0 \<le> maxRetries ev"
  shows "\<exists>err s ms aud. run lt sha ev None prompt \<lparr>ls_backend = OpenAI p, ls_ctx = Some t, ls_world = w\<rparr> = (Inl err, s, ms, aud) \<and>
     ls_backend s = OpenAI p \<and> min t (net_now net w + hang_left (oa_timeout p) 0) \<le> net_now net (ls_world s)"
proof -
  let ?s = "\<lparr>ls_backend = OpenAI p, ls_ctx = Some t, ls_world = w\<rparr>"
  have "\<exists>err w'. backend_complete net (lt_json_error lt) ?s prompt = (Inl err, ?s\<lparr>ls_world := w'\<rparr>) \<and>
      min t (net_now net w + hang_left (oa_timeout p) 0) \<le> net_now net w'"
    using hung_loop [OF net, of "lt_json_error lt" t prompt 0 "''<nil>''" w]
    by (auto simp: backend_complete_def openai_complete_def)
  then obtain err w' where c: "backend_complete net (lt_json_error lt) ?s prompt = (Inl err, ?s\<lparr>ls_world := w'\<rparr>)"
    "min t (net_now net w + hang_left (oa_timeout p) 0) \<le> net_now net w'"
    by blast
  then have "\<exists>err ms aud. run lt sha ev None prompt ?s = (Inl err, ?s\<lparr>ls_world := w'\<rparr>, ms, aud)"
    using ev by (simp add: run_def run_loop.simps provider_of_def Let_def split: prod.split)
  then show ?thesis using c(2) by fastforce
qed

section \<open>Nothing left for the delivery\<close>

text \<open>The clocks of the pipeline are the clock of the world, which never goes backwards; the HTTP transport fails
  when the deadline has passed.\<close>

definition one_clock :: "'w net \<Rightarrow> ('s, backend \<times> 'w) env \<Rightarrow> bool" where
  "one_clock net e \<longleftrightarrow>
     (\<forall>b w. \<exists>w'. e_tick e (b, w) = (net_now net w, (b, w')) \<and> net_now net w \<le> net_now net w') \<and>
     (\<forall>t d rq b w. t \<le> net_now net w \<longrightarrow>
        (\<exists>err b' w'. tr_do (e_transport e) (Some t) d rq (b, w) = (Inl err, (b', w')) \<and> net_now net w \<le> net_now net w')) \<and>
     (\<forall>c addr auth from to mail w r w'. tr_sendmail (e_transport e) c addr auth from to mail w = (r, w') \<longrightarrow>
        net_now net (snd w) \<le> net_now net (snd w'))"

definition is_mail :: "Notifier \<Rightarrow> bool" where
  "is_mail n = (case n of N_SMTP _ \<Rightarrow> True | _ \<Rightarrow> False)"

definition clk :: "'w net \<Rightarrow> ('s, backend \<times> 'w) pipe \<Rightarrow> gotime" where
  "clk net st = net_now net (snd (p_world st))"

lemma clk_count [simp]: "clk net (count ms st) = clk net st" by (simp add: clk_def count_def)

lemma now_of_clk:
  assumes "one_clock net e"
  shows "\<exists>w'. now_of e st = (clk net st, st\<lparr>p_world := (fst (p_world st), w')\<rparr>) \<and> clk net st \<le> net_now net w'"
proof -
  obtain b w where w: "p_world st = (b, w)" by fastforce
  obtain w' where "e_tick e (b, w) = (net_now net w, (b, w'))" "net_now net w \<le> net_now net w'"
    using assms unfolding one_clock_def by blast
  then show ?thesis using w by (auto simp: now_of_def clk_def)
qed

lemma late_post:
  assumes "one_clock net e" and "t \<le> net_now net w"
  shows "\<exists>err b' w'. post_json (e_transport e) (Some t) url body acc (b, w) = (Some err, (b', w')) \<and> net_now net w \<le> net_now net w'"
proof (cases "tr_url_ok (e_transport e) url")
  case True
  let ?rq = "\<lparr>Method = ''POST'', Req_URL = url, Headers = [(''Content-Type'', ''application/json'')], Body = Marshal body\<rparr>"
  obtain err b' w' where "tr_do (e_transport e) (Some t) (10 * second) ?rq (b, w) = (Inl err, (b', w'))" "net_now net w \<le> net_now net w'"
    using assms unfolding one_clock_def by blast
  then show ?thesis using True by (simp add: post_json_def)
qed (simp add: post_json_def)

lemma late_send:
  assumes "one_clock net e" and "t \<le> net_now net w" and "\<not> is_mail n"
  shows "\<exists>err b' w'. Notifier_Send (e_transport e) (Some t) n m (b, w) = (Some err, (b', w')) \<and> net_now net w \<le> net_now net w'"
  using late_post [OF assms(1,2)] assms(3)
  by (cases n) (simp_all add: is_mail_def Telegram_Send_def Discord_Send_def Slack_Send_def PagerDuty_Send_def Webhook_Send_def)

lemma mail_send:
  assumes "one_clock net e" and "is_mail n" and "Notifier_Send (e_transport e) c n m w = (err, w')"
  shows "net_now net (snd w) \<le> net_now net (snd w')"
proof -
  have mono: "net_now net (snd w) \<le> net_now net (snd w')" if "tr_sendmail (e_transport e) c addr auth from to mail w = (r, w')"
    for addr auth "from" to mail r
    using assms(1) that unfolding one_clock_def by blast
  show ?thesis
    using assms(2,3) by (cases n) (auto simp: is_mail_def SMTP_Send_def split: prod.split_asm mail_outcome.split_asm option.split_asm dest: mono)
qed

text \<open>A notification that is attempted after the deadline has failed, unless it is a mail.\<close>

definition too_late :: "('s, 'w) env \<Rightarrow> string \<times> Message \<times> bool \<Rightarrow> bool" where
  "too_late e x \<longleftrightarrow> (case x of (n, m, ok) \<Rightarrow> ok \<longrightarrow> (\<exists>s. map_of (e_notifiers e) n = Some (N_SMTP s)))"

lemma late_send_one:
  assumes "one_clock net e" and "t \<le> clk net st" and "map_of (e_notifiers e) n = Some x"
  shows "\<exists>ok. p_sent (send_one e (Some t) msg n st) = p_sent st @ [(n, msg, ok)] \<and> too_late e (n, msg, ok) \<and> t \<le> clk net (send_one e (Some t) msg n st)"
proof -
  obtain b w where w: "p_world st = (b, w)" by fastforce
  obtain err w' where s: "Notifier_Send (e_transport e) (Some t) x msg (b, w) = (err, w')"
    by (cases "Notifier_Send (e_transport e) (Some t) x msg (b, w)")
  have st: "p_sent (send_one e (Some t) msg n st) = p_sent st @ [(n, msg, err = None)]" "p_world (send_one e (Some t) msg n st) = w'"
    using assms(3) w s by (simp_all add: send_one_def count_def)
  show ?thesis
  proof (cases "is_mail x")
    case True
    have "net_now net w \<le> net_now net (snd w')" using mail_send [OF assms(1) True s] by simp
    then show ?thesis using st assms(2,3) True w by (auto simp: clk_def too_late_def is_mail_def split: Notifier.split_asm)
  next
    case False
    have "t \<le> net_now net w" using assms(2) w by (simp add: clk_def)
    with late_send [OF assms(1) _ False, of t w msg b] s have "err \<noteq> None" "net_now net w \<le> net_now net (snd w')" by auto
    then show ?thesis using st \<open>t \<le> net_now net w\<close> by (auto simp: clk_def too_late_def)
  qed
qed

lemma late_deliver:
  assumes "one_clock net e" and "t \<le> clk net st"
  shows "\<exists>sent. p_sent (deliver e (Some t) p msg st) = p_sent st @ sent \<and> list_all (too_late e) sent \<and>
     map (\<lambda>(n, m, ok). (n, m)) sent = map (\<lambda>n. (n, msg)) (receivers_of e p)"
proof -
  have "\<exists>sent. p_sent (fold (send_one e (Some t) msg) ns st) = p_sent st @ sent \<and> list_all (too_late e) sent \<and>
      map (\<lambda>(n, m, ok). (n, m)) sent = map (\<lambda>n. (n, msg)) (filter (\<lambda>n. n \<in> fst ` set (e_notifiers e)) ns)" if "t \<le> clk net st" for ns st
    using that
  proof (induction ns arbitrary: st)
    case (Cons n ns)
    show ?case
    proof (cases "map_of (e_notifiers e) n")
      case None
      then have "send_one e (Some t) msg n st = st" by (simp add: send_one_def)
      then show ?thesis using Cons None by (simp add: map_of_eq_None_iff)
    next
      case (Some x)
      from late_send_one [OF assms(1) Cons.prems Some, of msg] obtain ok where
        ok: "p_sent (send_one e (Some t) msg n st) = p_sent st @ [(n, msg, ok)]" "too_late e (n, msg, ok)" "t \<le> clk net (send_one e (Some t) msg n st)"
        by blast
      from Cons.IH [OF ok(3)] obtain sent where "p_sent (fold (send_one e (Some t) msg) ns (send_one e (Some t) msg n st)) =
          p_sent (send_one e (Some t) msg n st) @ sent" "list_all (too_late e) sent"
        "map (\<lambda>(n, m, ok). (n, m)) sent = map (\<lambda>n. (n, msg)) (filter (\<lambda>n. n \<in> fst ` set (e_notifiers e)) ns)" by blast
      moreover have "n \<in> fst ` set (e_notifiers e)" using Some map_of_SomeD by force
      ultimately show ?thesis using ok by (intro exI [of _ "(n, msg, ok) # sent"]) simp
    qed
  qed simp
  then show ?thesis using assms(2) by (simp add: deliver_def receivers_of_def)
qed

text \<open>Steps that only take time.\<close>

definition adv :: "'w net \<Rightarrow> ('s, backend \<times> 'w) pipe \<Rightarrow> ('s, backend \<times> 'w) pipe \<Rightarrow> bool" where
  "adv net st st' \<longleftrightarrow> fst (p_world st') = fst (p_world st) \<and> clk net st \<le> clk net st'"

lemma adv_trans: "adv net a b \<Longrightarrow> adv net b c \<Longrightarrow> adv net a c" by (simp add: adv_def)

lemma adv_count: "adv net st (count ms st)" by (simp add: adv_def count_def clk_def)

lemma adv_store: "adv net st st' \<Longrightarrow> adv net st (count ms (st'\<lparr>p_store := x\<rparr>))"
  by (simp add: adv_def count_def clk_def)

lemma now_of_adv:
  assumes "one_clock net e" "now_of e st = (t, st')"
  shows "t = clk net st \<and> adv net st st'"
  using now_of_clk [OF assms(1), of st] assms(2) by (auto simp: adv_def clk_def)

lemma twice_adv:
  assumes "one_clock net e" "now_of e st = (t1, st1)" "now_of e st1 = (t2, st2)"
  shows "adv net st st2"
  using now_of_adv [OF assms(1,2)] now_of_adv [OF assms(1,3)] adv_trans by blast

lemma deadline_adv:
  assumes "one_clock net e" "deadline e d st = (c, st')"
  shows "c = Some (clk net st + d) \<and> adv net st st'"
  using assms(2) now_of_adv [OF assms(1)] by (auto simp: deadline_def split: prod.split_asm)

lemma check_dup_adv:
  assumes "one_clock net e" "check_dup e test p st = (d, st')"
  shows "adv net st st'"
  using assms(2) twice_adv [OF assms(1)] by (auto simp: check_dup_def intro!: adv_store split: prod.split_asm)

lemma history_adv:
  assumes "one_clock net e"
  shows "adv net st (record_history e p a alerts st)"
  using twice_adv [OF assms] by (auto simp: record_history_def intro!: adv_store split: prod.split)

lemma cache_get_adv:
  assumes "one_clock net e" "cache_get e p st = (a, st')"
  shows "adv net st st'"
proof -
  obtain t1 st1 where 1: "now_of e st = (t1, st1)" by fastforce
  obtain t2 st2 where 2: "now_of e st1 = (t2, st2)" by fastforce
  have "\<exists>ms. st' = count ms st2" using assms(2) 1 2 by (auto simp: cache_get_def split: prod.split_asm)
  then show ?thesis using twice_adv [OF assms(1) 1 2] adv_count adv_trans by blast
qed

lemma acquire_adv:
  assumes "one_clock net e" "acquire e cl st = Some (ok, st')"
  shows "adv net st st'"
proof -
  obtain t1 st1 where 1: "now_of e st = (t1, st1)" by fastforce
  obtain t2 st2 where 2: "now_of e st1 = (t2, st2)" by fastforce
  have "\<exists>ms pool. st' = count ms (st2\<lparr>p_pool := pool\<rparr>)" using assms(2) 1 2 by (auto simp: acquire_def split: option.split_asm prod.split_asm)
  then show ?thesis using twice_adv [OF assms(1) 1 2] by (auto simp: adv_def clk_def count_def)
qed

lemma release_adv:
  assumes "one_clock net e"
  shows "adv net st (release e cl st)"
proof -
  obtain t st1 where 1: "now_of e st = (t, st1)" by fastforce
  then show ?thesis using now_of_adv [OF assms 1] by (simp add: release_def adv_def clk_def)
qed

lemma examples_adv:
  assumes "one_clock net e" "examples_for e p st = (xs, st')"
  shows "adv net st st'"
  using assms(2) now_of_adv [OF assms(1)] by (auto simp: examples_for_def split: prod.split_asm)

text \<open>With a hanging backend the evaluation comes back without a verdict and with its deadline reached.\<close>

lemma hung_evaluate:
  assumes oc: "one_clock net e" and 1: "cache_get e p st = (None, st1)" and 2: "acquire e (ClusterId p) st1 = Some (True, st2)"
    and an: "e_analyzer e = model_analyzer lt sha ev" "ev_provider ev = provider_of net (lt_json_error lt) (OpenAI b)"
      "0 \<le> maxRetries ev" "fst (p_world st) = OpenAI b"
    and net: "hangs net" "sends_requests net b" "0 \<le> oa_timeout b"
  shows "\<exists>st'. evaluate e (Some t) p st = Some (None, st') \<and> min t (clk net st + hang_left (oa_timeout b) 0) \<le> clk net st'"
proof -
  obtain xs st3 where 3: "examples_for e p st2 = (xs, st3)" by fastforce
  have a: "adv net st st3" using cache_get_adv [OF oc 1] acquire_adv [OF oc 2] examples_adv [OF oc 3] adv_trans by blast
  obtain w where w: "p_world st3 = (OpenAI b, w)" using a an(4) by (cases "p_world st3") (simp add: adv_def)
  obtain err s ms aud where r: "run lt sha ev None (buildPrompt (lt_isPrint lt) p xs)
      \<lparr>ls_backend = OpenAI b, ls_ctx = Some t, ls_world = w\<rparr> = (Inl err, s, ms, aud)"
    "min t (net_now net w + hang_left (oa_timeout b) 0) \<le> net_now net (ls_world s)"
    using hung_run [OF net an(2,3)] by blast
  define st4 where "st4 = count ms (st3\<lparr>p_world := (ls_backend s, ls_world s), p_asked := p_asked st3 @ [[p]]\<rparr>)"
  have k: "ask (\<lambda>c. an_Evaluate (e_analyzer e) c p) [p] (Some t) xs st3 = (None, st4)"
    using w r(1) by (simp add: ask_def an(1) model_analyzer_def Evaluate_def st4_def)
  have "clk net st4 \<le> clk net (release e (ClusterId p) st4)" using release_adv [OF oc] by (simp add: adv_def)
  moreover have "clk net st4 = net_now net (ls_world s)" by (simp add: st4_def clk_def count_def)
  moreover have "clk net st \<le> net_now net w" using a w by (simp add: adv_def clk_def)
  ultimately have "min t (clk net st + hang_left (oa_timeout b) 0) \<le> clk net (release e (ClusterId p) st4)"
    using r(2) by linarith
  moreover have "evaluate e (Some t) p st = Some (None, release e (ClusterId p) st4)"
    using 1 2 3 k by (simp add: evaluate_def)
  ultimately show ?thesis by blast
qed

lemma late_finish:
  assumes "one_clock net e" and "evidence_ok e p" and "t \<le> clk net st"
  shows "\<exists>st' msg sent. finish e (Some t) p alerts (FormatMessage p None) None st = Some st' \<and> Payload msg = Some p \<and>
     p_sent st' = p_sent st @ sent \<and> list_all (too_late e) sent \<and> map (\<lambda>(n, m, ok). (n, m)) sent = map (\<lambda>n. (n, msg)) (receivers_of e p)"
proof -
  obtain msg where m: "AttachEvidence (FormatMessage p None) p (e_evidence e) = Some msg"
    using assms(2) AttachEvidence_None [of "FormatMessage p None" p "e_evidence e"] by (auto simp: evidence_ok_def)
  let ?st1 = "record_history e p None alerts st"
  have "t \<le> clk net ?st1" using history_adv [OF assms(1), of st p None alerts] assms(3) by (simp add: adv_def)
  from late_deliver [OF assms(1) this, of p msg] obtain sent where
    "p_sent (deliver e (Some t) p msg ?st1) = p_sent st @ sent" "list_all (too_late e) sent"
    "map (\<lambda>(n, m, ok). (n, m)) sent = map (\<lambda>n. (n, msg)) (receivers_of e p)"
    using history_frame [of st e p None alerts] by (auto simp: quiet_def)
  moreover have "finish e (Some t) p alerts (FormatMessage p None) None st = Some (deliver e (Some t) p msg ?st1)"
    using m by (simp add: finish_def maybeSilence_def attachFeedback_def Let_def)
  moreover have "Payload msg = Some p" using AttachEvidence_frame [OF m] by (simp add: FormatMessage_def)
  ultimately show ?thesis by blast
qed

text \<open>C16: A model that hangs holds the page hostage. The deadline of one minute that \<open>processSingle\<close> sets covers the
  evaluation and the delivery. Take the OpenAI-compatible backend with a timeout of at least 18 seconds (the default is
  20), an endpoint that accepts requests and never answers, and correlation off (the default). When a firing alert passes the
  duplicate check, has no cached verdict, is let through by the limiter (if there is one) and its evidence does not panic, the three attempts and
  their back-offs use the whole minute: every notification of the alert is attempted after the deadline, and all but mails, which go
  through SMTP, fail.\<close>

theorem hung_model_starves_delivery:
  assumes "Status p \<noteq> ''resolved''" and "\<not> cor_enabled (p_cor st)" and "evidence_ok e p"
    and "check_dup e IsDuplicate p (received p st) = (False, st1)" and "deadline e (60 * second) st1 = (c, st2)"
    and "cache_get e p st2 = (None, st3)" and "acquire e (ClusterId p) st3 = Some (True, st4)"
    and "e_analyzer e = model_analyzer lt sha ev" and "ev_provider ev = provider_of net (lt_json_error lt) (OpenAI b)"
    and "0 \<le> maxRetries ev" and "fst (p_world st) = OpenAI b"
    and "hangs net" and "sends_requests net b" and "18 * second \<le> oa_timeout b" and "one_clock net e"
  shows "\<exists>st' msg sent. Process e p st = Some st' \<and> Payload msg = Some p \<and> p_sent st' = p_sent st @ sent \<and>
     list_all (\<lambda>(n, m, ok). ok \<longrightarrow> (\<exists>s. map_of (e_notifiers e) n = Some (N_SMTP s))) sent \<and>
     map (\<lambda>(n, m, ok). (n, m)) sent = map (\<lambda>n. (n, msg)) (receivers_of e p)"
proof -
  note oc = assms(15) and dup = assms(4) and d = assms(5)
  have a1: "adv net st st1"
    using check_dup_adv [OF oc dup] adv_count adv_trans unfolding received_def by blast
  have c: "c = Some (clk net st1 + 60 * second)" and a2: "adv net st1 st2" using deadline_adv [OF oc d] by auto
  have T: "0 \<le> oa_timeout b" using assms(14) by simp
  have "fst (p_world st2) = OpenAI b" using a1 a2 assms(11) by (simp add: adv_def)
  from hung_evaluate [OF oc assms(6-10) this assms(12,13) T]
  obtain st5 where ev: "evaluate e c p st2 = Some (None, st5)"
    "min (clk net st1 + 60 * second) (clk net st2 + hang_left (oa_timeout b) 0) \<le> clk net st5"
    unfolding c by blast
  have "clk net st1 + 60 * second \<le> clk net st5"
    using ev(2) a2 assms(14) by (simp add: hang_left_def adv_def)
  from late_finish [OF oc assms(3) this, of "[p]"] obtain st' msg sent where
    f: "finish e c p [p] (FormatMessage p None) None st5 = Some st'" "Payload msg = Some p" "p_sent st' = p_sent st5 @ sent"
    "list_all (too_late e) sent" "map (\<lambda>(n, m, ok). (n, m)) sent = map (\<lambda>n. (n, msg)) (receivers_of e p)"
    unfolding c by blast
  have "quiet st2 st5" using evaluate_total [of e c p st2] ev(1) by auto
  then have "p_sent st5 = p_sent st"
    using deadline_frame [OF d] check_dup_frame [OF dup] by (simp add: quiet_def received_def count_def)
  moreover have "Process e p st = Some st'"
    using Process_single [OF assms(1,2) dup] d ev(1) f(1) by (simp add: processSingle_def)
  ultimately show ?thesis using f unfolding too_late_def [abs_def] by auto
qed

text \<open>The example deployment with such an endpoint: the clock is the network's state.\<close>

definition hung_net :: "gotime net" where
  "hung_net = \<lparr>net_url_ok = (\<lambda>_. True), net_now = (\<lambda>w. w),
     net_do = (\<lambda>c d _ w. (Inl ''timeout'', case c of None \<Rightarrow> max w (w + d) | Some t \<Rightarrow> max w (min t (w + d)))),
     net_wait = (\<lambda>c d w. case c of None \<Rightarrow> (None, max w (w + d))
       | Some t \<Rightarrow> (if w + d < t then None else Some ''deadline'', max w (min t (w + d)))),
     net_messages_new = (\<lambda>_ _ w. (Inl ''unused'', w))\<rparr>"

definition local_model :: openAIProvider where
  "local_model = newOpenAIProvider ''http://llm'' [] ''m'' modeAuto (Finite 0) (20 * second)"

definition hung_evaluator :: "gotime llm_state Evaluator" where
  "hung_evaluator = \<lparr>ev_provider = provider_of hung_net (lt_json_error demo_texts) (OpenAI local_model), maxRetries = 1, auditMode = AuditOff\<rparr>"

definition hung_env :: "(Memory, backend \<times> gotime) env" where
  "hung_env = \<lparr>e_sha256 = pad32, e_ops = memory_ops, e_tick = (\<lambda>(b, w). (w, (b, w))), e_dedup = Dedup_New 15,
     e_analyzer = model_analyzer demo_texts pad32 hung_evaluator, e_cache = Cache_New True 30 None False (Finite 0),
     e_router = Router_New demo_rules, e_notifiers = [(''chat'', N_Webhook \<lparr>wh_name = ''chat'', wh_url = ''http://hook''\<rparr>)],
     e_transport = \<lparr>tr_url_ok = (\<lambda>u. True),
       tr_do = (\<lambda>c d r (b, w). (if c = None \<or> w < the c then Inr \<lparr>StatusCode = 200, Resp_Body = []\<rparr> else Inl ''deadline'', (b, w))),
       tr_sendmail = (\<lambda>c a au f to m w. (Mail_Done None, w)), tr_now = snd\<rparr>,
     e_silence = NewClient ''http://am'' hour True [], e_alertmanager = (\<lambda>r. Inl ''down''), e_feedback = demo_manager,
     e_history = None, e_evidence = \<lparr>ec_Enabled = False, LogLines = 0\<rparr>\<rparr>"

definition hung_pipe :: "(Memory, backend \<times> gotime) pipe" where
  "hung_pipe = Pipeline_New NewMemory (OpenAI local_model, 0) (Some demo_pool) \<lparr>cc_Enabled = False, WindowSeconds = 30, MaxGroup = 5\<rparr>"

lemma hung_net_hangs: "hangs hung_net" "one_clock hung_net hung_env" "sends_requests hung_net local_model"
  by (auto simp: hangs_def one_clock_def sends_requests_def hung_net_def hung_env_def local_model_def newOpenAIProvider_def json_float64_def)

lemma hung_pipe_start: "\<not> cor_enabled (p_cor hung_pipe)" "fst (p_world hung_pipe) = OpenAI local_model" "p_sent hung_pipe = []"
  by (simp_all add: hung_pipe_def Pipeline_New_def Correlator_New_def)

lemma hung_path:
  "\<exists>st1 c st2 st3 st4. check_dup hung_env IsDuplicate demo_alert (received demo_alert hung_pipe) = (False, st1) \<and>
     deadline hung_env (60 * second) st1 = (c, st2) \<and> cache_get hung_env demo_alert st2 = (None, st3) \<and>
     acquire hung_env (ClusterId demo_alert) st3 = Some (True, st4)"
  using demo_acquire [of "ClusterId demo_alert"]
  by (auto simp: check_dup_def now_of_def hung_env_def received_def count_def hung_pipe_def Pipeline_New_def Correlator_New_def
      demo_store_simps Let_def deadline_def cache_get_def Cache_Get_def Cache_New_def acquire_def firing_marker_def dedup_key_def memory_ops_def Memory_Get_def)

lemma hung_env_config: "evidence_ok hung_env p" "e_analyzer hung_env = model_analyzer demo_texts pad32 hung_evaluator"
  "map_of (e_notifiers hung_env) ''chat'' \<noteq> Some (N_SMTP x)"
  "Severity p = ''warning'' \<Longrightarrow> receivers_of hung_env p = [''chat'']"
  by (simp_all add: evidence_ok_def hung_env_def receivers_of_def Route_def Router_New_def demo_rules_def Matches_def)

theorem hung_model_starves_delivery_witness:
  "\<exists>st' msg. Process hung_env demo_alert hung_pipe = Some st' \<and> Payload msg = Some demo_alert \<and> p_sent st' = [(''chat'', msg, False)]"
proof -
  have firing: "Status demo_alert \<noteq> ''resolved''" by (simp add: demo_alert_plain)
  obtain st1 c st2 st3 st4 where path: "check_dup hung_env IsDuplicate demo_alert (received demo_alert hung_pipe) = (False, st1)"
    "deadline hung_env (60 * second) st1 = (c, st2)" "cache_get hung_env demo_alert st2 = (None, st3)"
    "acquire hung_env (ClusterId demo_alert) st3 = Some (True, st4)" using hung_path by blast
  have "\<exists>st' msg sent. Process hung_env demo_alert hung_pipe = Some st' \<and> Payload msg = Some demo_alert \<and> p_sent st' = p_sent hung_pipe @ sent \<and>
     list_all (\<lambda>(n, m, ok). ok \<longrightarrow> (\<exists>s. map_of (e_notifiers hung_env) n = Some (N_SMTP s))) sent \<and>
     map (\<lambda>(n, m, ok). (n, m)) sent = map (\<lambda>n. (n, msg)) (receivers_of hung_env demo_alert)"
    by (rule hung_model_starves_delivery [OF firing hung_pipe_start(1) hung_env_config(1) path hung_env_config(2) _ _
          hung_pipe_start(2) hung_net_hangs(1,3) _ hung_net_hangs(2)])
      (simp_all add: hung_evaluator_def local_model_def newOpenAIProvider_def)
  then obtain st' msg sent where sent: "Process hung_env demo_alert hung_pipe = Some st'" "Payload msg = Some demo_alert" "p_sent st' = sent"
    "list_all (\<lambda>(n, m, ok). ok \<longrightarrow> (\<exists>s. map_of (e_notifiers hung_env) n = Some (N_SMTP s))) sent"
    "map (\<lambda>(n, m, ok). (n, m)) sent = [(''chat'', msg)]"
    by (auto simp: hung_pipe_start hung_env_config demo_alert_plain)
  then obtain ok where "sent = [(''chat'', msg, ok)]" by (cases sent) auto
  with sent show ?thesis using hung_env_config(3) by auto
qed

end
