(* ===== verification/Settings.thy ===== *)
theory Settings
  imports Durations Messages
begin

text \<open>
  \<open>internal/config/config.go\<close>: the settings read from the environment. \<open>getenv\<close> is \<open>os.Getenv\<close> (an unset variable is
  the empty string) and \<open>readFile\<close> is \<open>os.ReadFile\<close>. The conversions of \<open>strconv\<close> are modelled as far as the code uses
  them: \<open>Atoi\<close> returns a value besides its error, which \<open>Load\<close> often ignores.
\<close>

section \<open>Conversions of the standard library\<close>

text \<open>The value and whether there was no error: 0 for text that is no number, the nearest bound for one out of range.\<close>

definition Atoi :: "string \<Rightarrow> int \<times> bool" where
  "Atoi s =
     (let (neg, body) = (case s of
          [] \<Rightarrow> (False, [])
        | c # cs \<Rightarrow> if c = CHR ''-'' then (True, cs)
                   else if c = CHR ''+'' then (False, cs) else (False, s))
      in case parse_digits body of
           None \<Rightarrow> (0, False)
         | Some n \<Rightarrow> (let v = (if neg then - int n else int n)
                     in if in_int64 v then (v, True) else (if neg then - (2 ^ 63) else max_int64, False)))"

definition ParseBool :: "string \<Rightarrow> bool option" where
  "ParseBool s =
     (if s \<in> set [''1'', ''t'', ''T'', ''true'', ''TRUE'', ''True''] then Some True
      else if s \<in> set [''0'', ''f'', ''F'', ''false'', ''FALSE'', ''False''] then Some False
      else None)"

subsection \<open>\<open>strconv.ParseFloat(s, 64)\<close>\<close>

text \<open>Underscores must stand between digits, or between the base prefix and a digit.\<close>

fun underscore_loop :: "bool \<Rightarrow> char \<Rightarrow> string \<Rightarrow> bool" where
  "underscore_loop hex saw [] \<longleftrightarrow> saw \<noteq> CHR ''_''"
| "underscore_loop hex saw (c # cs) \<longleftrightarrow>
     (if is_digit c \<or> hex \<and> is_hex c then underscore_loop hex CHR ''0'' cs
      else if c = CHR ''_'' then saw = CHR ''0'' \<and> underscore_loop hex c cs
      else saw \<noteq> CHR ''_'' \<and> underscore_loop hex CHR ''!'' cs)"

definition unsigned :: "string \<Rightarrow> string" where
  "unsigned s = (case s of c # cs \<Rightarrow> if c = CHR ''-'' \<or> c = CHR ''+'' then cs else s | [] \<Rightarrow> [])"

definition underscoreOK :: "string \<Rightarrow> bool" where
  "underscoreOK s =
     (let b = unsigned s
      in case b of
           z # x # cs \<Rightarrow>
             if z = CHR ''0'' \<and> lower_char x \<in> set ''box'' then underscore_loop (lower_char x = CHR ''x'') CHR ''0'' cs
             else underscore_loop False CHR ''^'' b
         | _ \<Rightarrow> underscore_loop False CHR ''^'' b)"

definition no_us :: "string \<Rightarrow> string" where "no_us s = filter (\<lambda>c. c \<noteq> CHR ''_'') s"

definition hex_val :: "char \<Rightarrow> nat" where
  "hex_val c = (if is_digit c then digit_val c else of_char (lower_char c) - 87)"

text \<open>The mantissa: digits with at most one dot and any underscores; its value, the number of digits after the dot, whether
  there was a digit, and the rest.\<close>

fun mantissa :: "nat \<Rightarrow> bool \<Rightarrow> nat \<times> nat \<times> bool \<Rightarrow> string \<Rightarrow> (nat \<times> nat \<times> bool) \<times> string" where
  "mantissa base sawdot acc [] = (acc, [])"
| "mantissa base sawdot (v, f, d) (c # cs) =
     (if c = CHR ''_'' then mantissa base sawdot (v, f, d) cs
      else if c = CHR ''.'' then (if sawdot then ((v, f, d), c # cs) else mantissa base True (v, f, d) cs)
      else if is_digit c \<or> base = 16 \<and> is_hex c
      then mantissa base sawdot (base * v + hex_val c, if sawdot then f + 1 else f, True) cs
      else ((v, f, d), c # cs))"

text \<open>The digits of an exponent beyond \<open>10000\<close> no longer count.\<close>

definition exp_digits :: "string \<Rightarrow> nat" where
  "exp_digits s = foldl (\<lambda>e c. if e < 10000 then 10 * e + digit_val c else e) 0 (no_us s)"

text \<open>An optional exponent up to the end of the text: \<open>None\<close> is a syntax error.\<close>

definition exponent :: "bool \<Rightarrow> string \<Rightarrow> int option" where
  "exponent hex s =
     (case s of
        [] \<Rightarrow> if hex then None else Some 0
      | c # cs \<Rightarrow>
          if lower_char c \<noteq> (if hex then CHR ''p'' else CHR ''e'') then None
          else let ds = unsigned cs
               in if ds = [] \<or> \<not> is_digit (hd ds) \<or> \<not> list_all (\<lambda>c. is_digit c \<or> c = CHR ''_'') ds then None
                  else Some (if HasPrefix cs ''-'' then - int (exp_digits ds) else int (exp_digits ds)))"

text \<open>Rounding to the nearest \<open>float64\<close>, with the subnormal and the overflow range.\<close>

definition to_float64 :: "rat \<Rightarrow> rat option" where
  "to_float64 x =
     (let r = (if \<bar>x\<bar> < 2 powi (- 1022) then of_int (round_even (x * 2 ^ 1074)) / 2 ^ 1074 else round64 x)
      in if \<bar>r\<bar> < 2 ^ 1024 then Some r else None)"

definition ParseFloat :: "string \<Rightarrow> float64 option" where
  "ParseFloat s =
     (let neg = HasPrefix s ''-''; b = unsigned s; l = map lower_char b
      in if l = ''inf'' \<or> l = ''infinity'' then Some (if neg then NegInf else PosInf)
         else if map lower_char s = ''nan'' then Some NaN
         else let hex = (2 < length b \<and> hd b = CHR ''0'' \<and> lower_char (b ! 1) = CHR ''x'');
                  (m, rest) = mantissa (if hex then 16 else 10) False (0, 0, False) (if hex then drop 2 b else b);
                  (v, f, d) = m
              in if \<not> d \<or> CHR ''_'' \<in> set s \<and> \<not> underscoreOK s then None
                 else case exponent hex rest of
                        None \<Rightarrow> None
                      | Some e \<Rightarrow>
                          (let x = of_nat v * (if hex then 2 powi (e - 4 * int f) else 10 powi (e - int f))
                           in map_option Finite (to_float64 (if neg then - x else x))))"

section \<open>The settings\<close>

record Settings =
  s_Port :: string
  s_PublicPort :: string
  s_LogLevel :: string
  s_LLMTimeout :: duration
  s_TLSServerCertFile :: string
  s_TLSServerKeyFile :: string
  s_TLSTrustRootFile :: string
  s_AuthModes :: "string list"
  s_SignedPort :: string
  s_HPKEKeyFile :: string
  s_IntermediateCAFile :: string
  s_IntermediateKeyFile :: string
  s_ReplayWindow :: duration
  s_TenantsReloadInterval :: duration
  s_LLMProvider :: string
  s_LLMModel :: string
  s_LLMBaseURL :: string
  s_LLMAPIKey :: string
  s_LLMSchemaMode :: string
  s_LLMTemperature :: float64
  s_LLMMaxRetries :: int
  s_LLMAuditMode :: string
  s_LLMAirGapped :: bool
  s_LLMMaxCallsPerMinute :: int
  s_LLMBurst :: int
  s_LLMMaxConcurrent :: int
  s_AlertManagerURL :: string
  s_AlertManagerSilenceOn :: bool
  s_AlertManagerSilenceDur :: duration
  s_AlertManagerSilenceAllow :: "string list"
  s_DedupWindowMinutes :: int
  s_LLMCacheEnabled :: bool
  s_LLMCacheTTLMinutes :: int
  s_ConfigFile :: string
  s_RedisURL :: string
  s_RedisPrefix :: string
  s_SemanticCacheEnabled :: bool
  s_SemanticThreshold :: float64
  s_EmbedDim :: int
  s_CorrelationEnabled :: bool
  s_CorrelationWindowSeconds :: int
  s_CorrelationMaxGroup :: int
  s_PublicURL :: string
  s_FeedbackFewShot :: int
  s_IncidentHistoryEnabled :: bool
  s_IncidentTTL :: duration
  s_EvidenceEnabled :: bool
  s_EvidenceLogLines :: int

datatype load_error =
    ErrReadKeyFile string
  | ErrAuthMode string
  | ErrNoAuthMode
  | ErrKeyRequired
  | ErrBaseURLRequired
  | ErrModelRequired
  | ErrProvider string
  | ErrTrustRootRequired
  | ErrIntermediateRequired
  | ErrServerCertRequired
  | ErrHPKERequired

section \<open>Loading\<close>

definition envOr :: "(string \<Rightarrow> string) \<Rightarrow> string \<Rightarrow> string \<Rightarrow> string" where
  "envOr getenv k fallback = (if getenv k \<noteq> [] then getenv k else fallback)"

definition boolEnv :: "(string \<Rightarrow> string) \<Rightarrow> string \<Rightarrow> bool \<Rightarrow> bool" where
  "boolEnv getenv k fallback =
     (let v = getenv k
      in if v = [] then fallback else case ParseBool v of None \<Rightarrow> fallback | Some b \<Rightarrow> b)"

definition resolveAPIKey :: "(string \<Rightarrow> string) \<Rightarrow> (string \<Rightarrow> string + bytes) \<Rightarrow> load_error + string" where
  "resolveAPIKey getenv readFile =
     (let path = getenv ''LLM_API_KEY_FILE''
      in if path \<noteq> [] then
           (case readFile path of
              Inl e \<Rightarrow> Inl (ErrReadKeyFile path)
            | Inr data \<Rightarrow> Inr (TrimRight data [CHR '' '', CHR 0x09, CHR 0x0D, CHR 0x0A]))
         else Inr (getenv ''ANTHROPIC_API_KEY''))"

definition AuthModeMTLS :: string where "AuthModeMTLS = ''mtls''"
definition AuthModeSigned :: string where "AuthModeSigned = ''signed''"

fun auth_modes_loop :: "string list \<Rightarrow> string list \<Rightarrow> load_error + string list" where
  "auth_modes_loop modes [] = Inr modes"
| "auth_modes_loop modes (m0 # ms) =
     (let m = ToLower (TrimSpace m0)
      in if m = [] then auth_modes_loop modes ms
         else if m \<noteq> AuthModeMTLS \<and> m \<noteq> AuthModeSigned then Inl (ErrAuthMode m)
         else auth_modes_loop (modes @ [m]) ms)"

definition parseAuthModes :: "string \<Rightarrow> load_error + string list" where
  "parseAuthModes raw =
     (case auth_modes_loop [] (Split raw CHR '','') of
        Inl e \<Rightarrow> Inl e
      | Inr modes \<Rightarrow> if modes = [] then Inl ErrNoAuthMode else Inr modes)"

definition AuthModeEnabled :: "Settings \<Rightarrow> string \<Rightarrow> bool" where
  "AuthModeEnabled c mode = list_ex (\<lambda>m. m = mode) (s_AuthModes c)"

text \<open>The three ways \<open>Load\<close> converts a variable: the value of a failed \<open>Atoi\<close> or \<open>ParseBool\<close> is used as it is, a failed
  \<open>ParseDuration\<close> or \<open>ParseFloat\<close> gives the default.\<close>

definition env_int :: "(string \<Rightarrow> string) \<Rightarrow> string \<Rightarrow> string \<Rightarrow> int" where
  "env_int getenv k fallback = fst (Atoi (envOr getenv k fallback))"

definition env_bool :: "(string \<Rightarrow> string) \<Rightarrow> string \<Rightarrow> string \<Rightarrow> bool" where
  "env_bool getenv k fallback = (case ParseBool (envOr getenv k fallback) of None \<Rightarrow> False | Some b \<Rightarrow> b)"

definition env_duration :: "(string \<Rightarrow> string) \<Rightarrow> string \<Rightarrow> string \<Rightarrow> duration \<Rightarrow> duration" where
  "env_duration getenv k fallback d = (case ParseDuration (envOr getenv k fallback) of None \<Rightarrow> d | Some x \<Rightarrow> x)"

definition env_float :: "(string \<Rightarrow> string) \<Rightarrow> string \<Rightarrow> string \<Rightarrow> rat \<Rightarrow> float64" where
  "env_float getenv k fallback d = (case ParseFloat (envOr getenv k fallback) of None \<Rightarrow> Finite d | Some x \<Rightarrow> x)"

definition silence_allow :: "string \<Rightarrow> string list" where
  "silence_allow raw = (if raw = [] then [] else filter (\<lambda>n. n \<noteq> []) (map TrimSpace (Split raw CHR '','')))"

definition max_retries :: "string \<Rightarrow> int" where
  "max_retries raw = (case Atoi raw of (n, ok) \<Rightarrow> if \<not> ok \<or> n < 0 then 1 else n)"

definition llm_model :: "(string \<Rightarrow> string) \<Rightarrow> string \<Rightarrow> string" where
  "llm_model getenv provider =
     (if getenv ''LLM_MODEL'' = [] \<and> (provider = ''anthropic'' \<or> provider = [])
      then envOr getenv ''ANTHROPIC_MODEL'' ''claude-opus-4-5'' else getenv ''LLM_MODEL'')"

definition read_settings :: "(string \<Rightarrow> string) \<Rightarrow> string \<Rightarrow> string list \<Rightarrow> Settings" where
  "read_settings getenv apiKey authModes =
     (let provider = ToLower (envOr getenv ''LLM_PROVIDER'' ''anthropic'');
          reload = env_duration getenv ''TENANTS_RELOAD_INTERVAL'' ''5s'' (5 * second)
      in \<lparr>s_Port = envOr getenv ''PORT'' ''8080'',
          s_PublicPort = envOr getenv ''PUBLIC_PORT'' ''8081'',
          s_LogLevel = envOr getenv ''LOG_LEVEL'' ''info'',
          s_LLMTimeout = env_duration getenv ''LLM_TIMEOUT'' ''20s'' (20 * second),
          s_TLSServerCertFile = getenv ''TLS_SERVER_CERT_FILE'',
          s_TLSServerKeyFile = getenv ''TLS_SERVER_KEY_FILE'',
          s_TLSTrustRootFile = getenv ''TLS_TRUST_ROOT_FILE'',
          s_AuthModes = authModes,
          s_SignedPort = envOr getenv ''SIGNED_PORT'' ''8082'',
          s_HPKEKeyFile = getenv ''HPKE_KEY_FILE'',
          s_IntermediateCAFile = getenv ''INTERMEDIATE_CA_FILE'',
          s_IntermediateKeyFile = getenv ''INTERMEDIATE_KEY_FILE'',
          s_ReplayWindow = env_duration getenv ''AUTH_REPLAY_WINDOW'' ''5m'' (5 * minute),
          s_TenantsReloadInterval = (if reload \<le> 0 then 5 * second else reload),
          s_LLMProvider = provider,
          s_LLMModel = llm_model getenv provider,
          s_LLMBaseURL = getenv ''LLM_BASE_URL'',
          s_LLMAPIKey = apiKey,
          s_LLMSchemaMode = envOr getenv ''LLM_SCHEMA_MODE'' ''auto'',
          s_LLMTemperature = env_float getenv ''LLM_TEMPERATURE'' ''0'' 0,
          s_LLMMaxRetries = max_retries (envOr getenv ''LLM_MAX_RETRIES'' ''1''),
          s_LLMAuditMode = ToLower (envOr getenv ''LLM_AUDIT_MODE'' ''off''),
          s_LLMAirGapped = boolEnv getenv ''LLM_AIR_GAPPED'' False,
          s_LLMMaxCallsPerMinute = env_int getenv ''LLM_MAX_CALLS_PER_MINUTE'' ''60'',
          s_LLMBurst = env_int getenv ''LLM_BURST'' ''15'',
          s_LLMMaxConcurrent = env_int getenv ''LLM_MAX_CONCURRENT'' ''8'',
          s_AlertManagerURL = envOr getenv ''ALERTMANAGER_URL'' ''http://alertmanager.monitoring.svc:9093'',
          s_AlertManagerSilenceOn = env_bool getenv ''ALERTMANAGER_SILENCE_ENABLED'' ''false'',
          s_AlertManagerSilenceDur = env_duration getenv ''ALERTMANAGER_SILENCE_DURATION'' ''2h'' (2 * hour),
          s_AlertManagerSilenceAllow = silence_allow (getenv ''ALERTMANAGER_SILENCE_ALLOWLIST''),
          s_DedupWindowMinutes = env_int getenv ''DEDUP_WINDOW_MINUTES'' ''15'',
          s_LLMCacheEnabled = env_bool getenv ''LLM_CACHE_ENABLED'' ''true'',
          s_LLMCacheTTLMinutes = env_int getenv ''LLM_CACHE_TTL_MINUTES'' ''30'',
          s_ConfigFile = envOr getenv ''MUTHUR_CONFIG_FILE'' ''/config/muthur.yaml'',
          s_RedisURL = getenv ''REDIS_URL'',
          s_RedisPrefix = envOr getenv ''REDIS_PREFIX'' ''muthur:'',
          s_SemanticCacheEnabled = env_bool getenv ''SEMANTIC_CACHE_ENABLED'' ''false'',
          s_SemanticThreshold = env_float getenv ''SEMANTIC_CACHE_THRESHOLD'' ''0.95'' (round64 (95 / 100)),
          s_EmbedDim = env_int getenv ''SEMANTIC_CACHE_EMBED_DIM'' ''256'',
          s_CorrelationEnabled = env_bool getenv ''CORRELATION_ENABLED'' ''false'',
          s_CorrelationWindowSeconds = env_int getenv ''CORRELATION_WINDOW_SECONDS'' ''30'',
          s_CorrelationMaxGroup = env_int getenv ''CORRELATION_MAX_GROUP'' ''25'',
          s_PublicURL = getenv ''MUTHUR_PUBLIC_URL'',
          s_FeedbackFewShot = env_int getenv ''FEEDBACK_FEW_SHOT'' ''3'',
          s_IncidentHistoryEnabled = env_bool getenv ''INCIDENT_HISTORY_ENABLED'' ''true'',
          s_IncidentTTL = env_duration getenv ''INCIDENT_TTL'' ''720h'' (720 * hour),
          s_EvidenceEnabled = env_bool getenv ''NOTIFY_EVIDENCE_ENABLED'' ''true'',
          s_EvidenceLogLines = env_int getenv ''NOTIFY_LOG_LINES'' ''8''\<rparr>)"

definition provider_check :: "Settings \<Rightarrow> load_error option" where
  "provider_check cfg =
     (if s_LLMProvider cfg = [] \<or> s_LLMProvider cfg = ''anthropic'' then
        (if s_LLMAPIKey cfg = [] then Some ErrKeyRequired else None)
      else if s_LLMProvider cfg = ''openai-compatible'' then
        (if s_LLMBaseURL cfg = [] then Some ErrBaseURLRequired
         else if s_LLMModel cfg = [] then Some ErrModelRequired else None)
      else Some (ErrProvider (s_LLMProvider cfg)))"

definition file_check :: "Settings \<Rightarrow> load_error option" where
  "file_check cfg =
     (if s_TLSTrustRootFile cfg = [] then Some ErrTrustRootRequired
      else if s_IntermediateCAFile cfg = [] \<or> s_IntermediateKeyFile cfg = [] then Some ErrIntermediateRequired
      else if AuthModeEnabled cfg AuthModeMTLS \<and> (s_TLSServerCertFile cfg = [] \<or> s_TLSServerKeyFile cfg = [])
      then Some ErrServerCertRequired
      else if AuthModeEnabled cfg AuthModeSigned \<and> s_HPKEKeyFile cfg = [] then Some ErrHPKERequired
      else None)"

definition Settings_Load :: "(string \<Rightarrow> string) \<Rightarrow> (string \<Rightarrow> string + bytes) \<Rightarrow> load_error + Settings" where
  "Settings_Load getenv readFile =
     (case resolveAPIKey getenv readFile of
        Inl e \<Rightarrow> Inl e
      | Inr apiKey \<Rightarrow>
          (case parseAuthModes (envOr getenv ''AUTH_MODES'' ''mtls'') of
             Inl e \<Rightarrow> Inl e
           | Inr authModes \<Rightarrow>
               (let cfg = read_settings getenv apiKey authModes
                in case provider_check cfg of
                     Some e \<Rightarrow> Inl e
                   | None \<Rightarrow> (case file_check cfg of Some e \<Rightarrow> Inl e | None \<Rightarrow> Inr cfg))))"

section \<open>What a loaded configuration is worth\<close>

lemma Atoi_bounds: "in_int64 (fst (Atoi s))"
  by (auto simp: Atoi_def Let_def in_int64_def split: option.split prod.split)

lemma max_retries_bounds: "0 \<le> max_retries s \<and> in_int64 (max_retries s)"
  using Atoi_bounds [of s] by (auto simp: max_retries_def in_int64_def split: prod.split)

lemma env_duration_bounds: "in_int64 d \<Longrightarrow> in_int64 (env_duration getenv k f d)"
  by (auto simp: env_duration_def dest: ParseDuration_bounds split: option.split)

lemma auth_modes_loop_known:
  "auth_modes_loop modes ms = Inr out \<Longrightarrow> set modes \<subseteq> {''mtls'', ''signed''} \<Longrightarrow> set out \<subseteq> {''mtls'', ''signed''}"
proof (induction modes ms rule: auth_modes_loop.induct)
  case (2 modes m0 ms)
  let ?m = "ToLower (TrimSpace m0)"
  consider "?m = []" | "?m \<noteq> []" "?m \<in> {''mtls'', ''signed''}" | "?m \<noteq> []" "?m \<notin> {''mtls'', ''signed''}" by blast
  then show ?case
  proof cases
    case 1
    then show ?thesis using 2 by simp
  next
    case two: 2
    then have "auth_modes_loop (modes @ [?m]) ms = Inr out" "set (modes @ [?m]) \<subseteq> {''mtls'', ''signed''}"
      using 2(3,4) by (auto simp: AuthModeMTLS_def AuthModeSigned_def Let_def)
    with 2(2) [OF refl two(1)] two(2) show ?thesis by (auto simp: AuthModeMTLS_def AuthModeSigned_def)
  next
    case 3
    then show ?thesis using 2(3) by (simp add: AuthModeMTLS_def AuthModeSigned_def Let_def)
  qed
qed simp

lemma parseAuthModes_known: "parseAuthModes raw = Inr modes \<Longrightarrow> modes \<noteq> [] \<and> set modes \<subseteq> {''mtls'', ''signed''}"
  using auth_modes_loop_known [of "[]" "Split raw CHR '',''" modes]
  by (auto simp: parseAuthModes_def split: sum.split_asm if_split_asm)

lemma Load_cases:
  assumes "Settings_Load getenv readFile = Inr cfg"
  obtains apiKey modes where "resolveAPIKey getenv readFile = Inr apiKey"
    "parseAuthModes (envOr getenv ''AUTH_MODES'' ''mtls'') = Inr modes" "cfg = read_settings getenv apiKey modes"
    "provider_check cfg = None" "file_check cfg = None"
  using assms by (auto simp: Settings_Load_def Let_def split: sum.split_asm option.split_asm)

lemma ToLower_nonempty: "s \<noteq> [] \<Longrightarrow> ToLower s \<noteq> []"
  by (cases s) auto

text \<open>A configuration the rest of the program can work with.\<close>

definition settings_wf :: "Settings \<Rightarrow> bool" where
  "settings_wf cfg \<longleftrightarrow>
     (if s_LLMProvider cfg = ''anthropic'' then s_LLMAPIKey cfg \<noteq> [] \<and> s_LLMModel cfg \<noteq> []
      else s_LLMProvider cfg = ''openai-compatible'' \<and> s_LLMBaseURL cfg \<noteq> [] \<and> s_LLMModel cfg \<noteq> []) \<and>
     s_AuthModes cfg \<noteq> [] \<and> list_all (\<lambda>m. m = AuthModeMTLS \<or> m = AuthModeSigned) (s_AuthModes cfg) \<and>
     s_TLSTrustRootFile cfg \<noteq> [] \<and> s_IntermediateCAFile cfg \<noteq> [] \<and> s_IntermediateKeyFile cfg \<noteq> [] \<and>
     (if AuthModeEnabled cfg AuthModeMTLS then s_TLSServerCertFile cfg \<noteq> [] \<and> s_TLSServerKeyFile cfg \<noteq> [] else True) \<and>
     (if AuthModeEnabled cfg AuthModeSigned then s_HPKEKeyFile cfg \<noteq> [] else True) \<and>
     0 \<le> s_LLMMaxRetries cfg \<and> 0 < s_TenantsReloadInterval cfg \<and> list_all (\<lambda>n. n \<noteq> []) (s_AlertManagerSilenceAllow cfg) \<and>
     list_all in_int64 [s_LLMMaxRetries cfg, s_LLMMaxCallsPerMinute cfg, s_LLMBurst cfg, s_LLMMaxConcurrent cfg,
       s_DedupWindowMinutes cfg, s_LLMCacheTTLMinutes cfg, s_EmbedDim cfg, s_CorrelationWindowSeconds cfg, s_CorrelationMaxGroup cfg,
       s_FeedbackFewShot cfg, s_EvidenceLogLines cfg, s_LLMTimeout cfg, s_ReplayWindow cfg, s_TenantsReloadInterval cfg,
       s_AlertManagerSilenceDur cfg, s_IncidentTTL cfg]"

lemma read_settings_provider:
  assumes "cfg = read_settings getenv apiKey modes" and "provider_check cfg = None"
  shows "if s_LLMProvider cfg = ''anthropic'' then s_LLMAPIKey cfg \<noteq> [] \<and> s_LLMModel cfg \<noteq> []
     else s_LLMProvider cfg = ''openai-compatible'' \<and> s_LLMBaseURL cfg \<noteq> [] \<and> s_LLMModel cfg \<noteq> []"
proof -
  have p: "s_LLMProvider cfg = ToLower (envOr getenv ''LLM_PROVIDER'' ''anthropic'')"
    and m: "s_LLMModel cfg = llm_model getenv (s_LLMProvider cfg)"
    using assms(1) by (simp_all add: read_settings_def Let_def)
  have "s_LLMProvider cfg \<noteq> []" unfolding p by (rule ToLower_nonempty) (simp add: envOr_def)
  moreover have "s_LLMProvider cfg = ''anthropic'' \<Longrightarrow> s_LLMModel cfg \<noteq> []" by (simp add: m llm_model_def envOr_def)
  ultimately show ?thesis using assms(2) by (auto simp: provider_check_def split: if_split_asm)
qed

lemma read_settings_numbers:
  assumes "cfg = read_settings getenv apiKey modes"
  shows "0 \<le> s_LLMMaxRetries cfg" "0 < s_TenantsReloadInterval cfg" "list_all (\<lambda>n. n \<noteq> []) (s_AlertManagerSilenceAllow cfg)"
    "list_all in_int64 [s_LLMMaxRetries cfg, s_LLMMaxCallsPerMinute cfg, s_LLMBurst cfg, s_LLMMaxConcurrent cfg,
       s_DedupWindowMinutes cfg, s_LLMCacheTTLMinutes cfg, s_EmbedDim cfg, s_CorrelationWindowSeconds cfg, s_CorrelationMaxGroup cfg,
       s_FeedbackFewShot cfg, s_EvidenceLogLines cfg, s_LLMTimeout cfg, s_ReplayWindow cfg, s_TenantsReloadInterval cfg,
       s_AlertManagerSilenceDur cfg, s_IncidentTTL cfg]"
proof -
  have small: "in_int64 (5 * second)" "in_int64 (20 * second)" "in_int64 (5 * minute)" "in_int64 (2 * hour)" "in_int64 (720 * hour)"
    by (simp_all add: in_int64_def)
  show "0 \<le> s_LLMMaxRetries cfg" "0 < s_TenantsReloadInterval cfg"
    using assms max_retries_bounds by (simp_all add: read_settings_def Let_def)
  show "list_all (\<lambda>n. n \<noteq> []) (s_AlertManagerSilenceAllow cfg)"
    using assms by (simp add: read_settings_def Let_def silence_allow_def list_all_iff)
  show "list_all in_int64 [s_LLMMaxRetries cfg, s_LLMMaxCallsPerMinute cfg, s_LLMBurst cfg, s_LLMMaxConcurrent cfg,
       s_DedupWindowMinutes cfg, s_LLMCacheTTLMinutes cfg, s_EmbedDim cfg, s_CorrelationWindowSeconds cfg, s_CorrelationMaxGroup cfg,
       s_FeedbackFewShot cfg, s_EvidenceLogLines cfg, s_LLMTimeout cfg, s_ReplayWindow cfg, s_TenantsReloadInterval cfg,
       s_AlertManagerSilenceDur cfg, s_IncidentTTL cfg]"
    unfolding assms read_settings_def Let_def
    using small by (simp add: env_int_def Atoi_bounds max_retries_bounds env_duration_bounds)
qed

lemma load_wf:
  assumes "Settings_Load getenv readFile = Inr cfg"
  shows "settings_wf cfg"
proof -
  from Load_cases [OF assms] obtain apiKey modes where
    modes: "parseAuthModes (envOr getenv ''AUTH_MODES'' ''mtls'') = Inr modes" and cfg: "cfg = read_settings getenv apiKey modes"
    and checks: "provider_check cfg = None" "file_check cfg = None" by blast
  have "s_AuthModes cfg = modes" unfolding cfg by (simp add: read_settings_def Let_def)
  then have "s_AuthModes cfg \<noteq> []" "list_all (\<lambda>m. m = AuthModeMTLS \<or> m = AuthModeSigned) (s_AuthModes cfg)"
    using parseAuthModes_known [OF modes] by (auto simp: list_all_iff AuthModeMTLS_def AuthModeSigned_def)
  then show ?thesis
    using read_settings_provider [OF cfg checks(1)] read_settings_numbers [OF cfg] checks(2)
    unfolding settings_wf_def file_check_def by (simp split: if_split_asm)
qed

text \<open>C12: Whatever the environment holds, a configuration that \<open>Load\<close> accepts is well formed: the provider is known and
  has the key, base URL and model it needs; at least one transport is enabled, each a known one and with the files it
  needs; the trust root and the signing pair are configured; retries are not negative, the reload interval is positive,
  no allowlist entry is blank, and every number is in the 64-bit range.\<close>

theorem loaded_settings_wf:
  assumes "Settings_Load getenv readFile = Inr cfg"
  shows "settings_wf cfg"
  using assms by (rule load_wf)


text \<open>The smallest working environment.\<close>

definition demo_environment :: "string \<Rightarrow> string" where
  "demo_environment k =
     (case map_of [(''ANTHROPIC_API_KEY'', ''key''), (''TLS_TRUST_ROOT_FILE'', ''ca.crt''), (''INTERMEDIATE_CA_FILE'', ''im.crt''),
        (''INTERMEDIATE_KEY_FILE'', ''im.key''), (''TLS_SERVER_CERT_FILE'', ''tls.crt''), (''TLS_SERVER_KEY_FILE'', ''tls.key'')] k of
        None \<Rightarrow> [] | Some v \<Rightarrow> v)"

lemma demo_auth_modes: "parseAuthModes ''mtls'' = Inr [''mtls'']"
  by (simp add: parseAuthModes_def Let_def AuthModeMTLS_def TrimSpace_def space_seqs_def HasPrefix_def lower_char_def)

lemma demo_load: "Settings_Load demo_environment readFile = Inr (read_settings demo_environment ''key'' [''mtls''])"
proof -
  let ?cfg = "read_settings demo_environment ''key'' [''mtls'']"
  have f: "s_LLMProvider ?cfg = ''anthropic''" "s_LLMAPIKey ?cfg = ''key''" "s_AuthModes ?cfg = [''mtls'']" "s_TLSTrustRootFile ?cfg = ''ca.crt''"
    "s_IntermediateCAFile ?cfg = ''im.crt''" "s_IntermediateKeyFile ?cfg = ''im.key''" "s_TLSServerCertFile ?cfg = ''tls.crt''"
    "s_TLSServerKeyFile ?cfg = ''tls.key''"
    unfolding read_settings_def Let_def by (simp_all add: envOr_def demo_environment_def lower_char_def)
  then have "provider_check ?cfg = None" "file_check ?cfg = None"
    by (simp_all add: provider_check_def file_check_def AuthModeEnabled_def AuthModeMTLS_def AuthModeSigned_def)
  moreover have "resolveAPIKey demo_environment readFile = Inr ''key''" by (simp add: resolveAPIKey_def demo_environment_def)
  moreover have "envOr demo_environment ''AUTH_MODES'' ''mtls'' = ''mtls''" by (simp add: envOr_def demo_environment_def)
  ultimately show ?thesis using demo_auth_modes by (simp add: Settings_Load_def Let_def)
qed

theorem loaded_settings_wf_witness:
  "\<exists>cfg. Settings_Load demo_environment (\<lambda>p. Inl ''no file'') = Inr cfg \<and> settings_wf cfg"
  using demo_load [of "\<lambda>p. Inl ''no file''"] loaded_settings_wf by blast

text \<open>Misspelled values fail open: an air-gap flag that is not one of the spellings of \<open>ParseBool\<close> is off, and a number
  of calls per minute that is not a number is 0.\<close>

theorem misspelled_settings_fail_open:
  assumes "Settings_Load getenv readFile = Inr cfg"
  shows "(if ParseBool (getenv ''LLM_AIR_GAPPED'') = None then \<not> s_LLMAirGapped cfg else True) \<and>
    (if getenv ''LLM_MAX_CALLS_PER_MINUTE'' = ''sixty'' then s_LLMMaxCallsPerMinute cfg = 0 else True)"
proof -
  from Load_cases [OF assms] obtain apiKey modes where cfg: "cfg = read_settings getenv apiKey modes" by blast
  have "Atoi ''sixty'' = (0, False)" by (simp add: Atoi_def parse_digits_def is_digit_def)
  then show ?thesis
    unfolding cfg read_settings_def Let_def by (simp add: boolEnv_def env_int_def envOr_def)
qed

end
