(* ===== verification/Startup.thy ===== *)
theory Startup
  imports Deadlines Settings RedisStore Bootstrap Sealed Trust Replay
begin

text \<open>
  \<open>cmd/muthur/main.go\<close> and \<open>internal/appconfig/loader.go\<close>: how the program is put together, which listeners it opens, and how
  it shuts down. Files, environment, YAML, PEM, the network and the Redis client are fields of the record \<open>host\<close>. The
  logger, the HTTP multiplexer of the public listener and the sockets are left out.
\<close>

section \<open>The configuration file\<close>

record FileConfig =
  fc_Receivers :: "ReceiverConfig list"
  fc_Routing :: "Rule list"
  fc_Tenants :: "Tenant list"

datatype file_error = ErrConfigRead string | ErrConfigParse string

definition FileConfig_Load :: "(string \<Rightarrow> string + bytes) \<Rightarrow> (bytes \<Rightarrow> string + FileConfig) \<Rightarrow> string \<Rightarrow> file_error + FileConfig" where
  "FileConfig_Load readFile yaml path =
     (case readFile path of
        Inl e \<Rightarrow> Inl (ErrConfigRead e)
      | Inr data \<Rightarrow> (case yaml data of Inl e \<Rightarrow> Inl (ErrConfigParse e) | Inr fc \<Rightarrow> Inr fc))"

section \<open>Starting\<close>

text \<open>\<open>h_tenants_file\<close> is the file system's answer to the first reload of the tenants, \<open>h_logger\<close> the error of building a
  logger for a level.\<close>

record ('s, 'w, 'c) host =
  h_getenv :: "string \<Rightarrow> string"
  h_readFile :: "string \<Rightarrow> string + bytes"
  h_logger :: "string \<Rightarrow> string option"
  h_yaml :: "bytes \<Rightarrow> string + FileConfig"
  h_yaml_tenants :: "bytes \<Rightarrow> string + Tenant list"
  h_tenants_file :: file_view
  h_parseURL :: "string \<Rightarrow> string + 's redis_client"
  h_redis :: 's
  h_net :: "'w net"
  h_texts :: llm_texts
  h_utables :: utables
  h_pem_certs :: "bytes \<Rightarrow> Certificate list"
  h_handshake :: handshake_view
  h_x509 :: x509_ops
  h_sha256 :: "bytes \<Rightarrow> bytes"
  h_hpke :: "'c hpke_ops"
  h_pkcs8 :: "bytes \<Rightarrow> string + hpke_key"
  h_pem_blocks :: "bytes \<Rightarrow> (string \<times> bytes) list"

text \<open>The warnings about receivers that routing rules name and that do not exist: the rule and the receiver.\<close>

definition receiver_warnings :: "Rule list \<Rightarrow> (string \<times> Notifier) list \<Rightarrow> (string \<times> string) list" where
  "receiver_warnings rs notifiers =
     concat (map (\<lambda>r. map (\<lambda>n. (R_Name r, n)) (filter (\<lambda>n. map_of notifiers n = None) (Receivers r))) rs)"

text \<open>The store: \<open>None\<close> is the one in memory.\<close>

definition newStore :: "('s, 'w, 'c) host \<Rightarrow> Settings \<Rightarrow> redis_new_error + 's Redis option" where
  "newStore h cfg =
     (if s_RedisURL cfg = [] then Inr None
      else case NewRedis (h_parseURL h) (h_redis h) (s_RedisURL cfg) (s_RedisPrefix cfg) of
             Inl e \<Rightarrow> Inl e
           | Inr r \<Rightarrow> Inr (Some r))"

definition evaluator_config :: "Settings \<Rightarrow> Config" where
  "evaluator_config cfg =
     \<lparr>Cfg_Provider = s_LLMProvider cfg, Cfg_Model = s_LLMModel cfg, Cfg_BaseURL = s_LLMBaseURL cfg, Cfg_APIKey = s_LLMAPIKey cfg,
      Cfg_SchemaMode = s_LLMSchemaMode cfg, Cfg_Temperature = s_LLMTemperature cfg, Cfg_MaxRetries = s_LLMMaxRetries cfg,
      Cfg_Timeout = s_LLMTimeout cfg, Cfg_AuditMode = s_LLMAuditMode cfg, Cfg_AirGapped = s_LLMAirGapped cfg\<rparr>"

definition tls_config :: "Settings \<Rightarrow> ServerTLSConfig" where
  "tls_config cfg =
     \<lparr>CertFile = s_TLSServerCertFile cfg, KeyFile = s_TLSServerKeyFile cfg, TrustRootFile = s_TLSTrustRootFile cfg,
      IntermediateCAFile = s_IntermediateCAFile cfg\<rparr>"

definition cache_of :: "utables \<Rightarrow> Settings \<Rightarrow> Cache" where
  "cache_of ut cfg =
     Cache_New (s_LLMCacheEnabled cfg) (s_LLMCacheTTLMinutes cfg)
       (if s_SemanticCacheEnabled cfg then Some (Embed ut (NewHashEmbedder (s_EmbedDim cfg))) else None)
       (s_SemanticCacheEnabled cfg) (s_SemanticThreshold cfg)"

text \<open>What \<open>run\<close> has built when it starts to serve.\<close>

record ('s, 'w) server =
  sv_settings :: Settings
  sv_notifiers :: "(string \<times> Notifier) list"
  sv_warnings :: "(string \<times> string) list"
  sv_store :: "'s Redis option"
  sv_evaluator :: "'w llm_state Evaluator"
  sv_backend :: backend
  sv_pool :: "Pool option"
  sv_dedup :: Deduplicator
  sv_cache :: Cache
  sv_history :: "History_Store option"
  sv_feedback :: Manager
  sv_router :: Router
  sv_silence :: Silence_Client
  sv_evidence :: EvidenceConfig
  sv_correlation :: CorrelationConfig
  sv_replay :: ReplayGuard
  sv_signer :: Signer
  sv_tenants :: TenantsReloader
  sv_bootstrap :: BootstrapHandler
  sv_grpc :: "tls_Config option"
  sv_signed :: "(HPKEKeySet \<times> TrustPools) option"

datatype run_error =
    RunConfig load_error
  | RunLogger string
  | RunFile file_error
  | RunReceivers string
  | RunStore redis_new_error
  | RunEvaluator new_error
  | RunTLS string
  | RunSigner string
  | RunTenants reload_error
  | RunHPKE string
  | RunTrust string

text \<open>The material of the two transports, loaded only for the ones that are enabled.\<close>

definition grpc_material :: "('s, 'w, 'c) host \<Rightarrow> Settings \<Rightarrow> run_error + tls_Config option" where
  "grpc_material h cfg =
     (if AuthModeEnabled cfg AuthModeMTLS then
        (case LoadServerTLS (h_readFile h) (h_pem_certs h) (h_handshake h) (tls_config cfg) of
           Inl e \<Rightarrow> Inl (RunTLS e)
         | Inr t \<Rightarrow> Inr (Some t))
      else Inr None)"

definition signed_material :: "('s, 'w, 'c) host \<Rightarrow> Settings \<Rightarrow> run_error + (HPKEKeySet \<times> TrustPools) option" where
  "signed_material h cfg =
     (if AuthModeEnabled cfg AuthModeSigned then
        (case LoadHPKEKeys (h_sha256 h) (h_hpke h) (h_pkcs8 h) (h_pem_blocks h) (h_readFile h) (s_HPKEKeyFile cfg) of
           Inl e \<Rightarrow> Inl (RunHPKE e)
         | Inr ks \<Rightarrow>
             (case LoadTrustPools (h_readFile h) (h_pem_certs h) (s_TLSTrustRootFile cfg) (s_IntermediateCAFile cfg) of
                Inl e \<Rightarrow> Inl (RunTrust e)
              | Inr trust \<Rightarrow> Inr (Some (ks, trust))))
      else Inr None)"

text \<open>From the backend on nothing but the transports and the tenants can fail.\<close>

definition assemble ::
  "('s, 'w, 'c) host \<Rightarrow> Settings \<Rightarrow> FileConfig \<Rightarrow> (string \<times> Notifier) list \<Rightarrow> 's Redis option \<Rightarrow>
   'w llm_state Evaluator \<times> backend \<Rightarrow> run_error + ('s, 'w) server" where
  "assemble h cfg fc notifiers st ev =
     (case grpc_material h cfg of
        Inl e \<Rightarrow> Inl e
      | Inr grpc \<Rightarrow>
     (case NewSignerFromFiles (h_x509 h) (h_readFile h) (s_IntermediateCAFile cfg) (s_IntermediateKeyFile cfg) of
        Inl e \<Rightarrow> Inl (RunSigner e)
      | Inr signer \<Rightarrow>
     (case NewTenantsReloader (h_yaml_tenants h) (h_tenants_file h) (s_TenantsReloadInterval cfg) of
        Inl e \<Rightarrow> Inl (RunTenants e)
      | Inr tenants \<Rightarrow>
     (case signed_material h cfg of
        Inl e \<Rightarrow> Inl e
      | Inr keys \<Rightarrow>
          Inr \<lparr>sv_settings = cfg, sv_notifiers = notifiers,
               sv_warnings = receiver_warnings (fc_Routing fc) notifiers, sv_store = st, sv_evaluator = fst ev, sv_backend = snd ev,
               sv_pool = NewPool (s_LLMMaxCallsPerMinute cfg) (s_LLMBurst cfg) (s_LLMMaxConcurrent cfg),
               sv_dedup = Dedup_New (s_DedupWindowMinutes cfg), sv_cache = cache_of (h_utables h) cfg,
               sv_history = (if s_IncidentHistoryEnabled cfg then Some (History_New (s_IncidentTTL cfg)) else None),
               sv_feedback = Feedback_New (s_PublicURL cfg) (s_FeedbackFewShot cfg), sv_router = Router_New (fc_Routing fc),
               sv_silence = NewClient (s_AlertManagerURL cfg) (s_AlertManagerSilenceDur cfg) (s_AlertManagerSilenceOn cfg)
                 (s_AlertManagerSilenceAllow cfg),
               sv_evidence = \<lparr>ec_Enabled = s_EvidenceEnabled cfg, LogLines = s_EvidenceLogLines cfg\<rparr>,
               sv_correlation = \<lparr>cc_Enabled = s_CorrelationEnabled cfg, WindowSeconds = s_CorrelationWindowSeconds cfg,
                 MaxGroup = s_CorrelationMaxGroup cfg\<rparr>,
               sv_replay = NewReplayGuard (s_ReplayWindow cfg) (s_RedisPrefix cfg), sv_signer = signer, sv_tenants = tenants,
               sv_bootstrap = \<lparr>bh_signer = signer, bh_prefix = s_RedisPrefix cfg\<rparr>, sv_grpc = grpc, sv_signed = keys\<rparr>))))"

definition run_start :: "('s, 'w, 'c) host \<Rightarrow> 'w \<Rightarrow> (run_error + ('s, 'w) server) \<times> 'w" where
  "run_start h w =
     (case Settings_Load (h_getenv h) (h_readFile h) of
        Inl e \<Rightarrow> (Inl (RunConfig e), w)
      | Inr cfg \<Rightarrow>
     (case h_logger h (s_LogLevel cfg) of
        Some e \<Rightarrow> (Inl (RunLogger e), w)
      | None \<Rightarrow>
     (case FileConfig_Load (h_readFile h) (h_yaml h) (s_ConfigFile cfg) of
        Inl e \<Rightarrow> (Inl (RunFile e), w)
      | Inr fc \<Rightarrow>
     (case BuildReceivers (h_readFile h) (fc_Receivers fc) of
        Inl e \<Rightarrow> (Inl (RunReceivers e), w)
      | Inr notifiers \<Rightarrow>
     (case newStore h cfg of
        Inl e \<Rightarrow> (Inl (RunStore e), w)
      | Inr st \<Rightarrow>
     (case Evaluator_New (h_net h) (h_texts h) (evaluator_config cfg) w of
        (Inl e, w1) \<Rightarrow> (Inl (RunEvaluator e), w1)
      | (Inr ev, w1) \<Rightarrow> (assemble h cfg fc notifiers st ev, w1)))))))"

text \<open>The pipeline of a server: the fields \<open>pipeline.New\<close> is given, over a store and the outside world.\<close>

definition server_env ::
  "('s, 'w, 'c) host \<Rightarrow> 't store_ops \<Rightarrow> (backend \<times> 'w \<Rightarrow> gotime \<times> (backend \<times> 'w)) \<Rightarrow> (backend \<times> 'w) transport \<Rightarrow>
   (http_request \<Rightarrow> string + http_response) \<Rightarrow> ('s, 'w) server \<Rightarrow> ('t, backend \<times> 'w) env" where
  "server_env h ops tick transport alertmanager sv =
     \<lparr>e_sha256 = h_sha256 h, e_ops = ops, e_tick = tick, e_dedup = sv_dedup sv,
      e_analyzer = model_analyzer (h_texts h) (h_sha256 h) (sv_evaluator sv), e_cache = sv_cache sv, e_router = sv_router sv,
      e_notifiers = sv_notifiers sv, e_transport = transport, e_silence = sv_silence sv, e_alertmanager = alertmanager,
      e_feedback = sv_feedback sv, e_history = sv_history sv, e_evidence = sv_evidence sv\<rparr>"

definition server_pipe :: "'t \<Rightarrow> 'w \<Rightarrow> ('s, 'w) server \<Rightarrow> ('t, backend \<times> 'w) pipe" where
  "server_pipe t w sv = Pipeline_New t (sv_backend sv, w) (sv_pool sv) (sv_correlation sv)"

section \<open>Shutting down\<close>

text \<open>After the listeners have stopped: the correlator is drained, then the goroutines of accepted alerts are waited
  for. Those that finish before the drain are ordinary steps of a run; \<open>inflight\<close> are the others.\<close>

fun process_all :: "('s, 'w) env \<Rightarrow> AlertPayload list \<Rightarrow> ('s, 'w) pipe \<Rightarrow> ('s, 'w) pipe option" where
  "process_all e [] st = Some st"
| "process_all e (p # ps) st = (case Process e p st of None \<Rightarrow> None | Some st1 \<Rightarrow> process_all e ps st1)"

definition shutdown :: "('s, 'w) env \<Rightarrow> AlertPayload list \<Rightarrow> ('s, 'w) pipe \<Rightarrow> ('s, 'w) pipe option" where
  "shutdown e inflight st = (case Pipeline_Drain e st of None \<Rightarrow> None | Some st1 \<Rightarrow> process_all e inflight st1)"

section \<open>What a started server is\<close>

lemma run_start_cases:
  assumes "run_start h w = (Inr sv, w')"
  obtains fc notifiers st ev where "Settings_Load (h_getenv h) (h_readFile h) = Inr (sv_settings sv)"
    "Evaluator_New (h_net h) (h_texts h) (evaluator_config (sv_settings sv)) w = (Inr ev, w')"
    "assemble h (sv_settings sv) fc notifiers st ev = Inr sv"
proof -
  obtain cfg fc notifiers st ev where c: "Settings_Load (h_getenv h) (h_readFile h) = Inr cfg"
    "Evaluator_New (h_net h) (h_texts h) (evaluator_config cfg) w = (Inr ev, w')"
    "assemble h cfg fc notifiers st ev = Inr sv"
    using assms by (auto simp: run_start_def split: sum.split_asm prod.split_asm option.split_asm)
  moreover have "sv_settings sv = cfg" using c(3) by (auto simp: assemble_def split: sum.split_asm)
  ultimately show ?thesis using that by blast
qed

lemma assemble_parts:
  assumes "assemble h cfg fc notifiers st ev = Inr sv"
  shows "grpc_material h cfg = Inr (sv_grpc sv)" "signed_material h cfg = Inr (sv_signed sv)" "sv_backend sv = snd ev"
    "NewSignerFromFiles (h_x509 h) (h_readFile h) (s_IntermediateCAFile cfg) (s_IntermediateKeyFile cfg) = Inr (sv_signer sv)"
    "NewTenantsReloader (h_yaml_tenants h) (h_tenants_file h) (s_TenantsReloadInterval cfg) = Inr (sv_tenants sv)"
    "sv_replay sv = NewReplayGuard (s_ReplayWindow cfg) (s_RedisPrefix cfg)" "bh_signer (sv_bootstrap sv) = sv_signer sv"
    "sv_pool sv = NewPool (s_LLMMaxCallsPerMinute cfg) (s_LLMBurst cfg) (s_LLMMaxConcurrent cfg)"
    "sv_notifiers sv = notifiers" "sv_warnings sv = receiver_warnings (fc_Routing fc) notifiers" "sv_router sv = Router_New (fc_Routing fc)"
    "bh_prefix (sv_bootstrap sv) = s_RedisPrefix cfg"
  using assms by (auto simp: assemble_def split: sum.split_asm)

lemma grpc_material_sound:
  assumes "grpc_material h cfg = Inr g"
  shows "if AuthModeEnabled cfg AuthModeMTLS
     then \<exists>t. g = Some t \<and> ClientCAs t \<noteq> [] \<and> ClientAuth t = VerifyClientCertIfGiven else g = None"
  using assms by (auto simp: grpc_material_def dest: server_tls_has_anchor split: sum.split_asm if_split_asm)

lemma signed_material_sound:
  assumes "signed_material h cfg = Inr g"
  shows "if AuthModeEnabled cfg AuthModeSigned then \<exists>ks tp. g = Some (ks, tp) \<and> Roots tp \<noteq> [] else g = None"
  using assms
  by (auto simp: signed_material_def LoadTrustPools_def loadCertPool_def appendCertsFromFile_def split: sum.split_asm if_split_asm)

lemma NewTenantsReloader_current: "NewTenantsReloader yaml fv d = Inr r \<Longrightarrow> Tenants_Current r \<noteq> None"
  by (auto simp: NewTenantsReloader_def reload_def Tenants_Current_def Let_def split: sum.split_asm if_split_asm)

lemma NewSigner_CA: "NewSignerFromFiles x rf cf kf = Inr s \<Longrightarrow> IsCA (caCert s)"
  by (auto simp: NewSignerFromFiles_def split: sum.split_asm if_split_asm)

lemma Evaluator_New_air_gapped:
  assumes "Evaluator_New net lt c w = (Inr (ev, b), w')" and "Cfg_AirGapped c"
  shows "\<exists>p. b = OpenAI p"
  using assms by (auto simp: Evaluator_New_def new_backend_def split: sum.split_asm prod.split_asm if_split_asm option.split_asm)

text \<open>C11: A server starts only complete. When start-up succeeds, the configuration is well formed; exactly the enabled
  transports are served, and at least one is; the gRPC listener verifies client certificates against a non-empty pool and
  the signed listener has trust roots; there is a tenants snapshot, a signing certificate that is a CA (the same for
  bootstrap and renewal) and a positive replay window; and an air-gapped server has no cloud backend.\<close>

theorem started_server_complete:
  assumes "run_start h w = (Inr sv, w')"
  shows "settings_wf (sv_settings sv) \<and>
    (if AuthModeEnabled (sv_settings sv) AuthModeMTLS
     then \<exists>t. sv_grpc sv = Some t \<and> ClientCAs t \<noteq> [] \<and> ClientAuth t = VerifyClientCertIfGiven else sv_grpc sv = None) \<and>
    (if AuthModeEnabled (sv_settings sv) AuthModeSigned then \<exists>ks tp. sv_signed sv = Some (ks, tp) \<and> Roots tp \<noteq> [] else sv_signed sv = None) \<and>
    (sv_grpc sv \<noteq> None \<or> sv_signed sv \<noteq> None) \<and>
    Tenants_Current (sv_tenants sv) \<noteq> None \<and> IsCA (caCert (sv_signer sv)) \<and> bh_signer (sv_bootstrap sv) = sv_signer sv \<and>
    0 < rg_window (sv_replay sv) \<and> (if s_LLMAirGapped (sv_settings sv) then \<exists>p. sv_backend sv = OpenAI p else True)"
proof -
  obtain fc notifiers st ev where
    load: "Settings_Load (h_getenv h) (h_readFile h) = Inr (sv_settings sv)" and
    new: "Evaluator_New (h_net h) (h_texts h) (evaluator_config (sv_settings sv)) w = (Inr ev, w')" and
    asm: "assemble h (sv_settings sv) fc notifiers st ev = Inr sv"
    using assms by (rule run_start_cases)
  note parts = assemble_parts [OF asm]
  note wf = load_wf [OF load]
  note g = grpc_material_sound [OF parts(1)] and s = signed_material_sound [OF parts(2)]
  have "s_AuthModes (sv_settings sv) \<noteq> [] \<and>
      list_all (\<lambda>m. m = AuthModeMTLS \<or> m = AuthModeSigned) (s_AuthModes (sv_settings sv))"
    using wf unfolding settings_wf_def by (elim conjE) (intro conjI)
  then have "AuthModeEnabled (sv_settings sv) AuthModeMTLS \<or> AuthModeEnabled (sv_settings sv) AuthModeSigned"
    unfolding AuthModeEnabled_def by (cases "s_AuthModes (sv_settings sv)") auto
  then have some: "sv_grpc sv \<noteq> None \<or> sv_signed sv \<noteq> None" using g s by (auto split: if_split_asm)
  have "0 < rg_window (sv_replay sv)" by (simp add: parts(6) NewReplayGuard_def Let_def)
  moreover have "\<exists>p. sv_backend sv = OpenAI p" if "s_LLMAirGapped (sv_settings sv)"
    using Evaluator_New_air_gapped [of _ _ _ _ "fst ev" "snd ev"] new that parts(3) by (simp add: evaluator_config_def)
  ultimately show ?thesis
    using wf g s some NewTenantsReloader_current [OF parts(5)] NewSigner_CA [OF parts(4)] parts(7) by simp
qed

text \<open>A host on which the program starts.\<close>

definition demo_host :: "(unit, nat \<times> nat, unit) host" where
  "demo_host =
     \<lparr>h_getenv = demo_environment,
      h_readFile = (\<lambda>p. Inr (if p = ''im.key'' then demo_pem ''PRIVATE KEY'' ''k'' else demo_pem ''CERTIFICATE'' ''c'')),
      h_logger = (\<lambda>l. None),
      h_yaml = (\<lambda>b. Inr \<lparr>fc_Receivers = [], fc_Routing = demo_rules, fc_Tenants = []\<rparr>), h_yaml_tenants = demo_yaml,
      h_tenants_file = \<lparr>fv_stat = Inr 1, fv_read = Inr ''ok''\<rparr>, h_parseURL = (\<lambda>u. Inl ''no redis''), h_redis = (),
      h_net = dead_net, h_texts = demo_texts, h_utables = \<lparr>ut_ToLower = (\<lambda>s. s), ut_IsLetter = (\<lambda>c. True), ut_IsNumber = (\<lambda>c. False)\<rparr>,
      h_pem_certs = (\<lambda>b. [demo_cert]), h_handshake = demo_handshake, h_x509 = demo_x509 demo_cert, h_sha256 = pad32,
      h_hpke = demo_hpke, h_pkcs8 = (\<lambda>b. Inr Other_Key), h_pem_blocks = (\<lambda>b. [])\<rparr>"

lemma demo_host_fields: "h_getenv demo_host = demo_environment" "h_net demo_host = dead_net" "h_texts demo_host = demo_texts"
  "h_logger demo_host l = None"
  "h_yaml demo_host = (\<lambda>b. Inr \<lparr>fc_Receivers = [], fc_Routing = demo_rules, fc_Tenants = []\<rparr>)" "\<exists>b. h_readFile demo_host p = Inr b"
  "h_x509 demo_host = demo_x509 demo_cert" "h_yaml_tenants demo_host = demo_yaml"
  "h_tenants_file demo_host = \<lparr>fv_stat = Inr 1, fv_read = Inr ''ok''\<rparr>"
  by (simp_all add: demo_host_def)

lemma demo_settings_fields:
  assumes "cfg = read_settings demo_environment ''key'' [''mtls'']"
  shows "s_LLMProvider cfg = ''anthropic''" "s_LLMAPIKey cfg = ''key''" "s_AuthModes cfg = [''mtls'']" "s_TLSTrustRootFile cfg = ''ca.crt''"
    "s_IntermediateCAFile cfg = ''im.crt''" "s_IntermediateKeyFile cfg = ''im.key''" "s_TLSServerCertFile cfg = ''tls.crt''"
    "s_TLSServerKeyFile cfg = ''tls.key''" "s_LLMAirGapped cfg = False" "s_RedisURL cfg = []"
  unfolding assms read_settings_def Let_def by (simp_all add: envOr_def demo_environment_def lower_char_def boolEnv_def)

lemma demo_host_starts: "\<exists>sv w'. run_start demo_host w = (Inr sv, w') \<and> s_AuthModes (sv_settings sv) = [''mtls'']"
proof -
  define cfg where "cfg = read_settings demo_environment ''key'' [''mtls'']"
  note f = demo_settings_fields [OF cfg_def]
  have load: "Settings_Load demo_environment rf = Inr cfg" for rf
    using demo_load [of rf] by (simp add: cfg_def)
  obtain ev where ev: "Evaluator_New dead_net demo_texts (evaluator_config cfg) w = (Inr ev, w)"
    by (simp add: Evaluator_New_def new_backend_def evaluator_config_def f)
  have "\<exists>t. grpc_material demo_host cfg = Inr (Some t)"
    by (simp add: grpc_material_def f AuthModeEnabled_def AuthModeMTLS_def LoadServerTLS_def tls_config_def demo_host_def
        newCertReloader_def cert_load_def demo_handshake_def loadCertPool_def appendCertsFromFile_def)
  moreover have "signed_material demo_host cfg = Inr None"
    by (simp add: signed_material_def f AuthModeEnabled_def AuthModeSigned_def)
  moreover have "\<exists>s. NewSignerFromFiles (demo_x509 demo_cert) (h_readFile demo_host) ''im.crt'' ''im.key'' = Inr s"
    by (simp add: NewSignerFromFiles_def demo_host_def parseCertPEM_def parseKeyPEM_def demo_x509_def demo_pem_inverse asSigner_def demo_cert_def)
  moreover have "\<exists>r. NewTenantsReloader demo_yaml \<lparr>fv_stat = Inr 1, fv_read = Inr ''ok''\<rparr> (s_TenantsReloadInterval cfg) = Inr r"
    by (simp add: NewTenantsReloader_def reload_def demo_yaml_def NewTenants_demo)
  ultimately obtain sv where "assemble demo_host cfg \<lparr>fc_Receivers = [], fc_Routing = demo_rules, fc_Tenants = []\<rparr> [] None ev = Inr sv"
    "sv_settings sv = cfg"
    using f(5,6) by (fastforce simp: assemble_def demo_host_fields)
  moreover obtain data where "h_readFile demo_host (s_ConfigFile cfg) = Inr data" using demo_host_fields(6) by blast
  ultimately have "run_start demo_host w = (Inr sv, w) \<and> s_AuthModes (sv_settings sv) = [''mtls'']"
    using ev f(3,10) by (simp add: run_start_def demo_host_fields(1-5) load FileConfig_Load_def BuildReceivers_def newStore_def)
  then show ?thesis by blast
qed

theorem started_server_complete_witness:
  "\<exists>sv w'. run_start demo_host (0, 0) = (Inr sv, w') \<and> (\<exists>t. sv_grpc sv = Some t \<and> ClientCAs t \<noteq> []) \<and> sv_signed sv = None"
proof -
  obtain sv w' where s: "run_start demo_host (0, 0) = (Inr sv, w')" "s_AuthModes (sv_settings sv) = [''mtls'']"
    using demo_host_starts by blast
  have "AuthModeEnabled (sv_settings sv) AuthModeMTLS" "\<not> AuthModeEnabled (sv_settings sv) AuthModeSigned"
    by (simp_all add: s(2) AuthModeEnabled_def AuthModeMTLS_def AuthModeSigned_def)
  with started_server_complete [OF s(1)] s(1) show ?thesis by auto
qed

section \<open>Errors and surprises at start-up\<close>

text \<open>The warnings are complete: a server that logs none drops no receiver of any route.\<close>

lemma route_loop_member: "n \<in> set (route_loop rs p) \<Longrightarrow> \<exists>r\<in>set rs. n \<in> set (Receivers r)"
  by (induction rs) (auto split: if_split_asm)

theorem unwarned_server_delivers_to_all:
  assumes "run_start h w = (Inr sv, w')" and "sv_warnings sv = []"
  shows "receivers_of (server_env h ops tick transport am sv) p = Route (sv_router sv) p"
proof -
  obtain fc notifiers st ev where asm: "assemble h (sv_settings sv) fc notifiers st ev = Inr sv"
    using assms(1) by (rule run_start_cases)
  note sv = assemble_parts(9-11) [OF asm]
  have "map_of notifiers n \<noteq> None" if "n \<in> set (Route (sv_router sv) p)" for n
    using that assms(2) route_loop_member [of n "fc_Routing fc" p]
    by (force simp: sv Route_def Router_New_def receiver_warnings_def filter_empty_conv)
  then show ?thesis by (simp add: receivers_of_def server_env_def sv(1) filter_id_conv map_of_eq_None_iff del: not_None_eq)
qed


text \<open>After \<open>Load\<close> the choice of a backend can fail in two ways only.\<close>

theorem backend_start_errors:
  assumes "Settings_Load getenv readFile = Inr cfg" and "Evaluator_New net lt (evaluator_config cfg) w = (Inl err, w')"
  shows "err = ErrAirGapped \<and> s_LLMAirGapped cfg \<and> s_LLMProvider cfg = ''anthropic'' \<or>
    err = ErrSchemaMode \<and> s_LLMProvider cfg = ''openai-compatible'' \<and> parseSchemaMode (s_LLMSchemaMode cfg) = None"
proof -
  have "if s_LLMProvider cfg = ''anthropic'' then s_LLMAPIKey cfg \<noteq> [] \<and> s_LLMModel cfg \<noteq> []
      else s_LLMProvider cfg = ''openai-compatible'' \<and> s_LLMBaseURL cfg \<noteq> [] \<and> s_LLMModel cfg \<noteq> []"
    using load_wf [OF assms(1)] unfolding settings_wf_def by (elim conjE)
  then show ?thesis
    using assms(2)
    by (auto simp: Evaluator_New_def new_backend_def evaluator_config_def split: sum.split_asm prod.split_asm if_split_asm option.split_asm)
qed

text \<open>A misspelled number of calls per minute switches the cost backstop off.\<close>

theorem misspelled_limit_disables_backstop:
  assumes "run_start h w = (Inr sv, w')" and "h_getenv h ''LLM_MAX_CALLS_PER_MINUTE'' = ''sixty''"
  shows "sv_pool sv = None"
proof -
  obtain fc notifiers st ev where
    load: "Settings_Load (h_getenv h) (h_readFile h) = Inr (sv_settings sv)" and
    asm: "assemble h (sv_settings sv) fc notifiers st ev = Inr sv"
    using assms(1) by (rule run_start_cases)
  have "s_LLMMaxCallsPerMinute (sv_settings sv) = 0" using misspelled_settings_fail_open [OF load] assms(2) by simp
  then show ?thesis by (simp add: assemble_parts(8) [OF asm] NewPool_def)
qed

section \<open>The order of the shutdown\<close>

lemma flush_all_enabled: "flush_all ks c = (out, c') \<Longrightarrow> cor_enabled c' = cor_enabled c"
  by (induction ks arbitrary: c out) (auto simp: flushKey_eq Let_def split: prod.split_asm)

lemma Drain_enabled: "Correlator.Drain c = (out, c') \<Longrightarrow> cor_enabled c' = cor_enabled c"
  using flush_all_enabled by (fastforce simp: Drain_def Let_def)

lemma Pipeline_Drain_empties:
  assumes inv: "pipe_inv e (seen, st)" and d: "Pipeline_Drain e st = Some st1"
  shows "cor_buckets (p_cor st1) = [] \<and> corr_inv (p_cor st1) \<and> cor_enabled (p_cor st1) = cor_enabled (p_cor st)"
proof -
  obtain gs cr where f: "Correlator.Drain (p_cor st) = (gs, cr)" by fastforce
  have i: "corr_inv (p_cor st)" using inv by (simp add: pipe_inv_def)
  note sp = Drain_spec [OF i f]
  have "\<forall>a\<in>#mset (concat gs). firing_in seen a" using inv sp by (simp add: pipe_inv_def)
  then have "list_all (list_all (firing_in seen)) gs" by (auto simp: list_all_iff)
  moreover have "process_groups e gs (st\<lparr>p_cor := cr\<rparr>) = Some st1" using d f by (simp add: Pipeline_Drain_def)
  ultimately have "adds_ok e seen (st\<lparr>p_cor := cr\<rparr>) st1" by (rule process_groups_adds)
  then have "p_cor st1 = cr" by (simp add: adds_ok_def)
  then show ?thesis using sp Drain_enabled [OF f] by simp
qed

text \<open>The shutdown drains too early. The correlator is drained before the goroutines of accepted alerts are waited
  for: with correlation enabled, an alert that was accepted and is processed after the drain ends up alone in a bucket,
  nothing is sent about it, and the process exits.\<close>

theorem shutdown_loses_accepted_alert:
  assumes "(pipe_step e)\<^sup>*\<^sup>* ([], Pipeline_New s w pool corr) (seen, st)" and "cor_enabled (p_cor st)"
    and "Pipeline_Drain e st = Some st1" and "Status p \<noteq> ''resolved''"
    and "\<not> fst (check_dup e IsDuplicate p (received p st1))"
  shows "\<exists>st'. shutdown e [p] st = Some st' \<and> p_sent st' = p_sent st1 \<and> buffered (p_cor st') = {#p#}"
proof -
  note inv = pipe_run_inv [OF assms(1) Pipeline_New_inv]
  note d = Pipeline_Drain_empties [OF inv assms(3)]
  obtain st2 where dup: "check_dup e IsDuplicate p (received p st1) = (False, st2)"
    using assms(5) by (cases "check_dup e IsDuplicate p (received p st1)") auto
  have q: "p_cor st2 = p_cor st1" "p_sent st2 = p_sent st1"
    using check_dup_frame [OF dup] by (simp_all add: quiet_def received_def count_def)
  let ?st' = "st2\<lparr>p_cor := Correlator_Add p (p_cor st1)\<rparr>"
  have "Process e p st1 = Some ?st'"
    using dup assms(2,4) d q by (simp add: Process_def received_def [symmetric])
  moreover have "buffered (Correlator_Add p (p_cor st1)) = {#p#}"
    using Add_account [of "p_cor st1" p] d by (simp add: overwritten_def buffered_def)
  ultimately show ?thesis using assms(3) q by (simp add: shutdown_def)
qed

text \<open>The example deployment with correlation, and one alert in flight.\<close>

definition corr_pipe :: "(Memory, nat) pipe" where
  "corr_pipe = Pipeline_New NewMemory 0 None \<lparr>cc_Enabled = True, WindowSeconds = 30, MaxGroup = 5\<rparr>"

lemma corr_pipe_start: "cor_enabled (p_cor corr_pipe)" "Pipeline_Drain demo_pipe_env corr_pipe = Some corr_pipe" "p_sent corr_pipe = []"
  "\<not> fst (check_dup demo_pipe_env IsDuplicate p (received p corr_pipe))"
  by (simp_all add: corr_pipe_def Pipeline_New_def Correlator_New_def Pipeline_Drain_def Drain_def check_dup_def now_of_def
      demo_pipe_env_def received_def count_def demo_store_simps Let_def)

theorem shutdown_loses_accepted_alert_witness:
  "\<exists>st'. shutdown demo_pipe_env [demo_alert] corr_pipe = Some st' \<and> p_sent st' = [] \<and> buffered (p_cor st') = {#demo_alert#}"
proof -
  have "(pipe_step demo_pipe_env)\<^sup>*\<^sup>* ([], Pipeline_New NewMemory 0 None \<lparr>cc_Enabled = True, WindowSeconds = 30, MaxGroup = 5\<rparr>) ([], corr_pipe)"
    by (simp add: corr_pipe_def)
  from shutdown_loses_accepted_alert [OF this corr_pipe_start(1,2) _ corr_pipe_start(4)]
  show ?thesis by (simp add: demo_alert_plain corr_pipe_start(3))
qed

end
