(* ===== verification/Goroutines.thy ===== *)
theory Goroutines
  imports PipelineRuns
begin

text \<open>
  The goroutines of \<open>internal/pipeline/pipeline.go\<close> at the grain at which they interleave. \<open>Ingest\<close> starts one
  goroutine per alert, every timer of the correlator runs in its own, and \<open>Drain\<close> runs in the main one. They share
  the store, the limiter, the correlator and the outside world. A goroutine is the list of the tasks it still has to
  do; one step does the first of them, which is one call of a component, and puts what follows in its place. Running
  a goroutine to its end without interruption is shown to be what \<open>Process\<close>, a timer and \<open>Drain\<close> compute.
\<close>

section \<open>Tasks\<close>

text \<open>What a goroutine evaluates: the alert it is about, the alerts of the group, whether they are judged and shown as
  an incident, and whether the correlator formed the group, so that it is counted.\<close>

record job =
  j_rep :: AlertPayload
  j_alerts :: "AlertPayload list"
  j_joint :: bool
  j_grouped :: bool

definition single_job :: "AlertPayload \<Rightarrow> job" where
  "single_job p = \<lparr>j_rep = p, j_alerts = [p], j_joint = False, j_grouped = False\<rparr>"

definition group_job :: "AlertPayload \<Rightarrow> AlertPayload list \<Rightarrow> job" where
  "group_job rep alerts = \<lparr>j_rep = rep, j_alerts = alerts, j_joint = (length alerts \<noteq> 1), j_grouped = True\<rparr>"

text \<open>Where a goroutine stands. The time is the deadline of its context; \<open>At_Sends\<close> has the size of the group to count
  and the receivers that are left, \<open>At_Flush\<close> the keys that are left.\<close>

datatype task =
    At_Start AlertPayload
  | At_Resolved AlertPayload
  | At_Correlator AlertPayload
  | At_Single AlertPayload
  | At_Group "AlertPayload list"
  | At_Lookup job "gotime option"
  | At_Limiter job "gotime option"
  | At_Examples job "gotime option"
  | At_Model job "gotime option" "Example list"
  | At_Store job "gotime option" Analysis
  | At_Release job "gotime option" "Analysis option"
  | At_Silence job "gotime option" "Analysis option"
  | At_History job "gotime option" "Analysis option"
  | At_Message job "gotime option" "Analysis option"
  | At_Sends "int option" "gotime option" Message "string list"
  | At_Drain
  | At_Flush "string list"

definition ask_job ::
  "('s, 'w) env \<Rightarrow> job \<Rightarrow> gotime option \<Rightarrow> Example list \<Rightarrow> ('s, 'w) pipe \<Rightarrow> Analysis option \<times> ('s, 'w) pipe" where
  "ask_job e j c exs st =
     (if j_joint j then ask (\<lambda>c. an_EvaluateIncident (e_analyzer e) c (j_alerts j)) (j_alerts j) c exs st
      else ask (\<lambda>c. an_Evaluate (e_analyzer e) c (j_rep j)) [j_rep j] c exs st)"

definition job_message :: "job \<Rightarrow> Analysis option \<Rightarrow> Message" where
  "job_message j a = (if j_joint j then FormatIncidentMessage (j_rep j) (j_alerts j) a else FormatMessage (j_rep j) a)"

text \<open>\<open>Drain\<close> stops the timers and notes the keys under one lock.\<close>

definition stop_timers :: "Correlator \<Rightarrow> Correlator" where
  "stop_timers c = c\<lparr>armed := filter (\<lambda>(t, k). t \<notin> set (map (\<lambda>(k, b). b_timer b) (cor_buckets c))) (armed c)\<rparr>"

text \<open>One task: what is to be done next, and the state; \<open>None\<close> is a panic.\<close>

fun task_step :: "('s, 'w) env \<Rightarrow> task \<Rightarrow> ('s, 'w) pipe \<Rightarrow> (task list \<times> ('s, 'w) pipe) option" where
  "task_step e (At_Start p) st =
     (if Status p = ''resolved''
      then (case check_dup e IsDuplicateResolved p (received p st) of
              (dup, st1) \<Rightarrow> Some (if dup then [] else [At_Resolved p], st1))
      else (case check_dup e IsDuplicate p (received p st) of
              (dup, st1) \<Rightarrow>
                Some (if dup then [] else if cor_enabled (p_cor st1) then [At_Correlator p] else [At_Single p], st1)))"
| "task_step e (At_Resolved p) st =
     (case deadline e (30 * second) st of
        (c, st1) \<Rightarrow> Some ([At_Sends None c (FormatMessage p None) (Route (e_router e) p)], st1))"
| "task_step e (At_Correlator p) st = Some ([], st\<lparr>p_cor := Correlator_Add p (p_cor st)\<rparr>)"
| "task_step e (At_Single p) st =
     (case deadline e (60 * second) st of (c, st1) \<Rightarrow> Some ([At_Lookup (single_job p) c], st1))"
| "task_step e (At_Group g) st =
     (case deadline e (90 * second) st of
        (c, st1) \<Rightarrow>
          (case Representative g of
             None \<Rightarrow> Some ([], st1)
           | Some rep \<Rightarrow> Some ([if length g = 1 then At_Lookup (group_job rep g) c else At_Limiter (group_job rep g) c], st1)))"
| "task_step e (At_Lookup j c) st =
     (case cache_get e (j_rep j) st of
        (Some a, st1) \<Rightarrow> Some ([At_Silence j c (Some a)], st1)
      | (None, st1) \<Rightarrow> Some ([At_Limiter j c], st1))"
| "task_step e (At_Limiter j c) st =
     (case acquire e (ClusterId (j_rep j)) st of
        None \<Rightarrow> None
      | Some (ok, st1) \<Rightarrow> Some ([if ok then At_Examples j c else At_Silence j c None], st1))"
| "task_step e (At_Examples j c) st =
     (case examples_for e (j_rep j) st of (exs, st1) \<Rightarrow> Some ([At_Model j c exs], st1))"
| "task_step e (At_Model j c exs) st =
     (case ask_job e j c exs st of
        (None, st1) \<Rightarrow> Some ([At_Release j c None], st1)
      | (Some a, st1) \<Rightarrow> Some ([if j_joint j then At_Release j c (Some a) else At_Store j c a], st1))"
| "task_step e (At_Store j c a) st = Some ([At_Release j c (Some a)], cache_set e (j_rep j) (Some a) st)"
| "task_step e (At_Release j c a) st = Some ([At_Silence j c a], release e (ClusterId (j_rep j)) st)"
| "task_step e (At_Silence j c a) st = Some ([At_History j c a], maybeSilence e (j_rep j) a st)"
| "task_step e (At_History j c a) st = Some ([At_Message j c a], record_history e (j_rep j) a (j_alerts j) st)"
| "task_step e (At_Message j c a) st =
     (case AttachEvidence (job_message j a) (j_rep j) (e_evidence e) of
        None \<Rightarrow> None
      | Some msg \<Rightarrow>
          (case attachFeedback e (j_rep j) a msg st of
             (msg', st1) \<Rightarrow>
               Some ([At_Sends (if j_grouped j then Some (int (length (j_alerts j))) else None) c msg' (Route (e_router e) (j_rep j))], st1)))"
| "task_step e (At_Sends k c msg (n # ns)) st = Some ([At_Sends k c msg ns], send_one e c msg n st)"
| "task_step e (At_Sends k c msg []) st =
     Some ([], case k of None \<Rightarrow> st | Some m \<Rightarrow> count [Incidents (IncidentSizeBucket m)] st)"
| "task_step e At_Drain st = Some ([At_Flush (map fst (cor_buckets (p_cor st)))], st\<lparr>p_cor := stop_timers (p_cor st)\<rparr>)"
| "task_step e (At_Flush (k # ks)) st =
     (case flushKey k (p_cor st) of (gs, cr) \<Rightarrow> Some (map At_Group gs @ [At_Flush ks], st\<lparr>p_cor := cr\<rparr>))"
| "task_step e (At_Flush []) st = Some ([], st)"

section \<open>Goroutines end\<close>

text \<open>The longest list of receivers a rule has, and how much a task still has to do. A drain flushes buckets that may
  yet be filled, so that drains are counted apart.\<close>

definition fan_out :: "('s, 'w) env \<Rightarrow> nat" where
  "fan_out e = sum_list (map (\<lambda>r. length (Receivers r)) (rules (e_router e)))"

fun work :: "('s, 'w) env \<Rightarrow> task \<Rightarrow> nat" where
  "work e (At_Start p) = fan_out e + 40"
| "work e (At_Resolved p) = fan_out e + 2"
| "work e (At_Correlator p) = fan_out e + 30"
| "work e (At_Single p) = fan_out e + 14"
| "work e (At_Group g) = fan_out e + 14"
| "work e (At_Lookup j c) = fan_out e + 12"
| "work e (At_Limiter j c) = fan_out e + 11"
| "work e (At_Examples j c) = fan_out e + 10"
| "work e (At_Model j c exs) = fan_out e + 9"
| "work e (At_Store j c a) = fan_out e + 8"
| "work e (At_Release j c a) = fan_out e + 7"
| "work e (At_Silence j c a) = fan_out e + 6"
| "work e (At_History j c a) = fan_out e + 5"
| "work e (At_Message j c a) = fan_out e + 4"
| "work e (At_Sends k c msg ns) = Suc (length ns)"
| "work e At_Drain = 0"
| "work e (At_Flush ks) = Suc (length ks * (fan_out e + 16))"

fun drains :: "task \<Rightarrow> nat" where
  "drains At_Drain = 1"
| "drains _ = 0"

definition work_left :: "('s, 'w) env \<Rightarrow> task list \<Rightarrow> nat" where
  "work_left e ts = sum_list (map (work e) ts)"

definition drains_left :: "task list \<Rightarrow> nat" where
  "drains_left ts = sum_list (map drains ts)"

lemma left_simps [simp]:
  "work_left e [] = 0" "work_left e (t # ts) = work e t + work_left e ts" "work_left e (ts @ us) = work_left e ts + work_left e us"
  "drains_left [] = 0" "drains_left (t # ts) = drains t + drains_left ts" "drains_left (ts @ us) = drains_left ts + drains_left us"
  by (simp_all add: work_left_def drains_left_def)

lemma Route_fan_out: "length (Route (e_router e) p) \<le> fan_out e"
proof -
  have "length (route_loop rs p) \<le> sum_list (map (\<lambda>r. length (Receivers r)) rs)" for rs
    by (induction rs) auto
  then show ?thesis by (simp add: Route_def fan_out_def)
qed

lemma flushKey_one: "flushKey k c = (gs, c') \<Longrightarrow> length gs \<le> 1 \<and> armed c' = armed c"
  by (auto simp: flushKey_eq split: option.split_asm)

lemma At_Group_left: "length gs \<le> 1 \<Longrightarrow> work_left e (map At_Group gs) \<le> fan_out e + 14 \<and> drains_left (map At_Group gs) = 0"
  by (cases gs) auto

text \<open>A task that is done leaves less to do.\<close>

lemma task_step_work:
  assumes "task_step e t st = Some (ts, st')"
  shows "drains_left ts = 0 \<and> (t \<noteq> At_Drain \<longrightarrow> work_left e ts < work e t)"
proof (cases "\<exists>k ks. t = At_Flush (k # ks)")
  case True
  then obtain k ks gs cr where "t = At_Flush (k # ks)" "flushKey k (p_cor st) = (gs, cr)" by fastforce
  with assms flushKey_one [of k "p_cor st" gs cr] At_Group_left [of gs e] show ?thesis by auto
next
  case False
  then show ?thesis
    using assms Route_fan_out [of e] le_less_trans [OF Route_fan_out [of e], of "3 + fan_out e"]
    by (cases "(e, t, st)" rule: task_step.cases)
      (auto split: prod.split_asm option.split_asm if_split_asm simp: less_Suc_eq_le)
qed

text \<open>A goroutine that is not interrupted.\<close>

function drive :: "('s, 'w) env \<Rightarrow> task list \<Rightarrow> ('s, 'w) pipe \<Rightarrow> ('s, 'w) pipe option" where
  "drive e [] st = Some st"
| "drive e (t # ts) st = (case task_step e t st of None \<Rightarrow> None | Some (ts', st') \<Rightarrow> drive e (ts' @ ts) st')"
  by pat_completeness auto
termination
proof (relation "measures [\<lambda>(e, ts, st). drains_left ts, \<lambda>(e, ts, st). work_left e ts]")
  show "((e, ts' @ ts, st'), (e, t # ts, st)) \<in> measures [\<lambda>(e, ts, st). drains_left ts, \<lambda>(e, ts, st). work_left e ts]"
    if "task_step e t st = Some x2" "(ts', st') = x2" for e :: "('s, 'w) env" and t ts st x2 ts' st'
    using task_step_work [of e t st ts' st'] that by (cases "t = At_Drain") auto
qed simp

declare drive.simps(2) [simp del]

lemma drive_append: "drive e (ts @ us) st = (case drive e ts st of None \<Rightarrow> None | Some st' \<Rightarrow> drive e us st')"
  by (induction e ts st rule: drive.induct) (auto simp: drive.simps(2) split: option.split prod.split)

lemma drive_one: "drive e [t] st = (case task_step e t st of None \<Rightarrow> None | Some (ts, st') \<Rightarrow> drive e ts st')"
  by (simp add: drive.simps(2) split: option.split)

section \<open>An uninterrupted goroutine computes the function\<close>

definition counted :: "job \<Rightarrow> ('s, 'w) pipe \<Rightarrow> ('s, 'w) pipe" where
  "counted j st = (if j_grouped j then count [Incidents (IncidentSizeBucket (int (length (j_alerts j))))] st else st)"

lemma drive_sends:
  "drive e [At_Sends k c msg ns] st =
     Some (case k of None \<Rightarrow> fold (send_one e c msg) ns st | Some m \<Rightarrow> count [Incidents (IncidentSizeBucket m)] (fold (send_one e c msg) ns st))"
  by (induction ns arbitrary: st) (auto simp: drive_one split: option.split)

lemmas drive_tail = drive_one [of _ "At_Silence j c a" for j c a] drive_one [of _ "At_History j c a" for j c a]
  drive_one [of _ "At_Message j c a" for j c a]

lemmas drive_call = drive_one [of _ "At_Limiter j c" for j c] drive_one [of _ "At_Examples j c" for j c]
  drive_one [of _ "At_Model j c exs" for j c exs] drive_one [of _ "At_Store j c a" for j c a] drive_one [of _ "At_Release j c a" for j c a]

lemma drive_finish:
  "drive e [At_Silence j c a] st = map_option (counted j) (finish e c (j_rep j) (j_alerts j) (job_message j a) a st)"
  by (simp add: finish_def Let_def drive_tail drive_sends deliver_def counted_def split: option.split prod.split)

lemma drive_evaluate:
  assumes "\<not> j_joint j"
  shows "drive e [At_Lookup j c] st =
    (case evaluate e c (j_rep j) st of None \<Rightarrow> None | Some (a, st') \<Rightarrow> drive e [At_Silence j c a] st')"
  using assms
  by (simp add: evaluate_def ask_job_def drive_one [of _ "At_Lookup j c"] drive_call split: option.split prod.split bool.split)

lemma drive_evaluateIncident:
  assumes "j_joint j"
  shows "drive e [At_Limiter j c] st =
    (case evaluateIncident e c (j_rep j) (j_alerts j) st of None \<Rightarrow> None | Some (a, st') \<Rightarrow> drive e [At_Silence j c a] st')"
  using assms
  by (simp add: evaluateIncident_def ask_job_def drive_call split: option.split prod.split bool.split)

lemma drive_single: "drive e [At_Single p] st = processSingle e p st"
  by (simp add: processSingle_def drive_one [of _ "At_Single p"] drive_evaluate drive_finish single_job_def counted_def [abs_def] job_message_def
      option.map_ident split: option.split prod.split)

lemma drive_group: "drive e [At_Group g] st = processIncident e g st"
  by (simp add: processIncident_def drive_one [of _ "At_Group g"] drive_evaluate drive_evaluateIncident drive_finish group_job_def
      counted_def [abs_def] job_message_def split: option.split prod.split)

lemma drive_resolved: "drive e [At_Resolved p] st = Some (processResolved e p st)"
  by (simp add: processResolved_def deliver_def drive_one [of _ "At_Resolved p"] drive_sends split: prod.split)

lemma drive_start: "drive e [At_Start p] st = Process e p st"
  by (simp add: Process_def Let_def received_def drive_one [of _ "At_Start p"] drive_one [of _ "At_Correlator p"] drive_single drive_resolved
      split: prod.split bool.split)

text \<open>The processing of a group does not look at the correlator, so that the groups of a drain may be flushed in
  between or beforehand.\<close>

definition with_cor :: "Correlator \<Rightarrow> ('s, 'w) pipe \<Rightarrow> ('s, 'w) pipe" where
  "with_cor c st = st\<lparr>p_cor := c\<rparr>"

lemma now_of_cor: "now_of e (with_cor cr st) = apsnd (with_cor cr) (now_of e st)"
  by (simp add: now_of_def with_cor_def split: prod.split)

lemma count_cor: "count ms (with_cor cr st) = with_cor cr (count ms st)"
  by (simp add: count_def with_cor_def)

lemma deadline_cor: "deadline e d (with_cor cr st) = apsnd (with_cor cr) (deadline e d st)"
  by (simp add: deadline_def now_of_cor split: prod.split)

lemma acquire_cor: "acquire e cl (with_cor cr st) = map_option (apsnd (with_cor cr)) (acquire e cl st)"
  by (simp add: acquire_def now_of_cor count_cor split: prod.split option.split) (simp add: with_cor_def count_def)

lemma release_cor: "release e cl (with_cor cr st) = with_cor cr (release e cl st)"
  by (simp add: release_def now_of_cor split: prod.split) (simp add: with_cor_def)

lemma examples_cor: "examples_for e p (with_cor cr st) = apsnd (with_cor cr) (examples_for e p st)"
  by (simp add: examples_for_def now_of_cor split: prod.split) (simp add: with_cor_def)

lemma ask_cor: "ask f alerts c exs (with_cor cr st) = apsnd (with_cor cr) (ask f alerts c exs st)"
  by (simp add: ask_def with_cor_def count_def split: prod.split)

lemma cache_get_cor: "cache_get e p (with_cor cr st) = apsnd (with_cor cr) (cache_get e p st)"
  by (simp add: cache_get_def now_of_cor count_cor split: prod.split) (simp add: with_cor_def)

lemma cache_set_cor: "cache_set e p a (with_cor cr st) = with_cor cr (cache_set e p a st)"
  by (simp add: cache_set_def now_of_cor split: prod.split) (simp add: with_cor_def)

lemma maybeSilence_cor: "maybeSilence e p a (with_cor cr st) = with_cor cr (maybeSilence e p a st)"
  by (simp add: maybeSilence_def now_of_cor count_cor split: prod.split option.split) (simp add: with_cor_def count_def)

lemma record_history_cor: "record_history e r a xs (with_cor cr st) = with_cor cr (record_history e r a xs st)"
  by (simp add: record_history_def now_of_cor split: prod.split) (simp add: with_cor_def count_def)

lemma attachFeedback_cor: "attachFeedback e p a msg (with_cor cr st) = apsnd (with_cor cr) (attachFeedback e p a msg st)"
  by (simp add: attachFeedback_def now_of_cor split: prod.split option.split) (simp add: with_cor_def)

lemma send_one_cor: "send_one e c msg n (with_cor cr st) = with_cor cr (send_one e c msg n st)"
  by (simp add: send_one_def with_cor_def count_def split: prod.split option.split)

lemma deliver_cor: "deliver e c p msg (with_cor cr st) = with_cor cr (deliver e c p msg st)"
proof -
  have "fold (send_one e c msg) ns (with_cor cr st) = with_cor cr (fold (send_one e c msg) ns st)" for ns
    by (induction ns arbitrary: st) (simp_all add: send_one_cor)
  then show ?thesis by (simp add: deliver_def)
qed

lemma evaluate_cor: "evaluate e c p (with_cor cr st) = map_option (apsnd (with_cor cr)) (evaluate e c p st)"
proof -
  obtain g st1 where g: "cache_get e p st = (g, st1)" by fastforce
  obtain ok st2 where aq: "acquire e (ClusterId p) st1 = Some (ok, st2)" using acquire_total by blast
  obtain xs st3 where xs: "examples_for e p st2 = (xs, st3)" by fastforce
  obtain a st4 where a: "ask (\<lambda>c. an_Evaluate (e_analyzer e) c p) [p] c xs st3 = (a, st4)" by fastforce
  show ?thesis
    by (cases g; cases ok; cases a)
      (simp_all add: evaluate_def g aq xs a cache_get_cor acquire_cor examples_cor ask_cor release_cor cache_set_cor)
qed

lemma evaluateIncident_cor:
  "evaluateIncident e c r g (with_cor cr st) = map_option (apsnd (with_cor cr)) (evaluateIncident e c r g st)"
  by (simp add: evaluateIncident_def acquire_cor examples_cor ask_cor release_cor split: prod.split option.split bool.split)

lemma finish_cor: "finish e c p xs msg a (with_cor cr st) = map_option (with_cor cr) (finish e c p xs msg a st)"
  by (simp add: finish_def Let_def maybeSilence_cor record_history_cor attachFeedback_cor deliver_cor split: prod.split option.split)

lemma processIncident_cor: "processIncident e g (with_cor cr st) = map_option (with_cor cr) (processIncident e g st)"
  by (simp add: processIncident_def deadline_cor evaluate_cor evaluateIncident_cor finish_cor option.map_comp comp_def count_cor
      split: prod.split option.split)

lemma process_groups_cor: "process_groups e gs (with_cor cr st) = map_option (with_cor cr) (process_groups e gs st)"
  by (induction gs arbitrary: st) (simp_all add: processIncident_cor split: option.split)

lemma process_groups_append:
  "process_groups e (gs @ hs) st = (case process_groups e gs st of None \<Rightarrow> None | Some st' \<Rightarrow> process_groups e hs st')"
  by (induction gs arbitrary: st) (simp_all split: option.split)

lemma process_groups_keeps_cor: "process_groups e gs st = Some st' \<Longrightarrow> p_cor st' = p_cor st"
  using process_groups_cor [of e gs "p_cor st" st] by (auto simp: with_cor_def dest: arg_cong [where f = p_cor])

lemma drive_groups: "drive e (map At_Group gs) st = process_groups e gs st"
proof (induction gs arbitrary: st)
  case (Cons g gs)
  have "drive e (map At_Group (g # gs)) st = drive e ([At_Group g] @ map At_Group gs) st" by simp
  also have "\<dots> = process_groups e (g # gs) st"
    unfolding drive_append drive_group using Cons.IH by (simp split: option.split)
  finally show ?case .
qed simp

lemma drive_flush: "drive e [At_Flush ks] st = (case flush_all ks (p_cor st) of (gs, cr) \<Rightarrow> process_groups e gs (with_cor cr st))"
proof (induction ks arbitrary: st)
  case (Cons k ks)
  obtain gs cr where k: "flushKey k (p_cor st) = (gs, cr)" by fastforce
  obtain hs cr' where ks: "flush_all ks cr = (hs, cr')" by fastforce
  have tail: "drive e [At_Flush ks] st' = process_groups e hs (with_cor cr' st')" if "p_cor st' = cr" for st' :: "('a, 'b) pipe"
    using Cons.IH [of st'] ks that by simp
  have "drive e [At_Flush (k # ks)] st = drive e (map At_Group gs @ [At_Flush ks]) (with_cor cr st)"
    by (simp add: drive_one k with_cor_def)
  also have "\<dots> = (case process_groups e gs (with_cor cr st) of None \<Rightarrow> None | Some st' \<Rightarrow> process_groups e hs (with_cor cr' st'))"
    unfolding drive_append drive_groups using tail process_groups_keeps_cor [of e gs "with_cor cr st"]
    by (auto simp: with_cor_def split: option.split)
  also have "\<dots> = process_groups e (gs @ hs) (with_cor cr' st)"
    using process_groups_cor [of e gs cr st] process_groups_cor [of e gs cr' st]
    by (auto simp: process_groups_append with_cor_def split: option.split)
  finally show ?case by (simp add: k ks)
qed (simp add: drive_one with_cor_def)

lemma drive_drain: "drive e [At_Drain] st = Pipeline_Drain e st"
  by (simp add: drive_one [of _ At_Drain] drive_flush Pipeline_Drain_def Correlator.Drain_def Let_def stop_timers_def with_cor_def
      split: prod.split)

lemma drive_timer:
  "drive e [At_Flush [snd t]] (st\<lparr>p_cor := (p_cor st)\<lparr>armed := remove1 t (armed (p_cor st))\<rparr>\<rparr>) = pipeline_timer e t st"
  by (simp add: drive_flush pipeline_timer_def timer_fires_def with_cor_def Let_def split: prod.split)

text \<open>The goroutines and the functions agree. A goroutine whose steps, each one call of the store, the limiter, the
  correlator, the model or a channel, are not interrupted ends, and computes what the pipeline's functions compute: the goroutine of an
  alert is \<open>Process\<close>, that of a correlation timer the flush of its group, and that of the shutdown is \<open>Drain\<close>, for
  every state and with the same panics.\<close>

theorem goroutines_compute_functions:
  "drive e [At_Start p] st = Process e p st \<and> drive e [At_Drain] st = Pipeline_Drain e st \<and>
   drive e [At_Flush [snd t]] (st\<lparr>p_cor := (p_cor st)\<lparr>armed := remove1 t (armed (p_cor st))\<rparr>\<rparr>) = pipeline_timer e t st"
  by (simp add: drive_start drive_drain drive_timer)

end
