(* ===== verification/Interleavings.thy ===== *)
theory Interleavings
  imports Goroutines
begin

text \<open>
  All interleavings of the goroutines. A state holds the goroutines that have not ended, the state they share, and a
  record of the run: the alerts that arrived, those that passed the duplicate check, those that a full bucket dropped and
  the groups whose delivery was completed. The theory shows what no interleaving can make the pipeline do, that the calls
  of the model stay within the limit of each cluster, that every accepted alert is delivered exactly once, and that
  the goroutines always come to an end.
\<close>

section \<open>Steps\<close>

text \<open>Who started a goroutine: \<open>Ingest\<close>, a timer of the correlator, or \<open>run\<close>, whose own drain counts as one.\<close>

datatype origin = From_Ingest AlertPayload | From_Timer | From_Main

fun is_ingest :: "origin \<Rightarrow> bool" where
  "is_ingest (From_Ingest p) = True"
| "is_ingest _ = False"

record ('s, 'w) go =
  g_seen :: "AlertPayload list"
  g_passed :: "AlertPayload list"
  g_lost :: "AlertPayload list"
  g_done :: "AlertPayload list list"
  g_work :: "(origin \<times> task list) list"
  g_pipe :: "('s, 'w) pipe"

definition go_start :: "('s, 'w) pipe \<Rightarrow> ('s, 'w) go" where
  "go_start st = \<lparr>g_seen = [], g_passed = [], g_lost = [], g_done = [], g_work = [], g_pipe = st\<rparr>"

lemma go_start_fields [simp]: "g_work (go_start st) = []" "g_seen (go_start st) = []" "g_pipe (go_start st) = st"
  by (simp_all add: go_start_def)

text \<open>The alerts a notification is about.\<close>

definition alerts_of :: "Message \<Rightarrow> AlertPayload list" where
  "alerts_of msg = (case M_Incident msg of Some g \<Rightarrow> g | None \<Rightarrow> (case Payload msg of None \<Rightarrow> [] | Some p \<Rightarrow> [p]))"

text \<open>What a step adds to the record.\<close>

fun passes :: "task \<Rightarrow> task list \<Rightarrow> AlertPayload list" where
  "passes (At_Start p) ts = (if ts = [] then [] else [p])"
| "passes _ ts = []"

fun loses :: "task \<Rightarrow> ('s, 'w) pipe \<Rightarrow> AlertPayload list" where
  "loses (At_Correlator p) st = overwritten p (p_cor st)"
| "loses _ st = []"

fun completes :: "task \<Rightarrow> AlertPayload list list" where
  "completes (At_Sends k c msg []) = [alerts_of msg]"
| "completes _ = []"

text \<open>The goroutine of an alert carries the alert. A goroutine does its next task, or returns; a timer that fires starts
  the goroutine that flushes its key.\<close>

definition go_spawn :: "AlertPayload list \<Rightarrow> ('s, 'w) go \<Rightarrow> ('s, 'w) go" where
  "go_spawn ps s = s\<lparr>g_seen := g_seen s @ ps, g_work := g_work s @ map (\<lambda>p. (From_Ingest p, [At_Start p])) ps\<rparr>"

definition go_drain :: "('s, 'w) go \<Rightarrow> ('s, 'w) go" where
  "go_drain s = s\<lparr>g_work := g_work s @ [(From_Main, [At_Drain])]\<rparr>"

definition disarm :: "nat \<times> string \<Rightarrow> ('s, 'w) pipe \<Rightarrow> ('s, 'w) pipe" where
  "disarm tm st = st\<lparr>p_cor := (p_cor st)\<lparr>armed := remove1 tm (armed (p_cor st))\<rparr>\<rparr>"

inductive go_move :: "('s, 'w) env \<Rightarrow> ('s, 'w) go \<Rightarrow> ('s, 'w) go \<Rightarrow> bool" for e where
  move: "g_work s = xs @ (r, t # ts) # ys \<Longrightarrow> task_step e t (g_pipe s) = Some (ts', st) \<Longrightarrow>
    go_move e s (s\<lparr>g_passed := g_passed s @ passes t ts', g_lost := g_lost s @ loses t (g_pipe s), g_done := g_done s @ completes t,
      g_work := xs @ (r, ts' @ ts) # ys, g_pipe := st\<rparr>)"
| return: "g_work s = xs @ (r, []) # ys \<Longrightarrow> go_move e s (s\<lparr>g_work := xs @ ys\<rparr>)"
| fire: "tm \<in> set (armed (p_cor (g_pipe s))) \<Longrightarrow>
    go_move e s (s\<lparr>g_work := g_work s @ [(From_Timer, [At_Flush [snd tm]])], g_pipe := disarm tm (g_pipe s)\<rparr>)"

text \<open>From outside come alerts and the drain of the shutdown.\<close>

inductive go_step :: "('s, 'w) env \<Rightarrow> ('s, 'w) go \<Rightarrow> ('s, 'w) go \<Rightarrow> bool" for e where
  spawn: "go_step e s (go_spawn ps s)"
| shut: "go_step e s (go_drain s)"
| inner: "go_move e s s' \<Longrightarrow> go_step e s s'"

inductive_cases go_move_cases: "go_move e s s'"
inductive_cases go_step_cases: "go_step e s s'"

definition tasks_of :: "('s, 'w) go \<Rightarrow> task list" where
  "tasks_of s = concat (map snd (g_work s))"

lemma tasks_spawn: "tasks_of (go_spawn ps s) = tasks_of s @ map At_Start ps"
proof -
  have "concat (map (snd \<circ> (\<lambda>p. (From_Ingest p, [At_Start p]))) ps) = map At_Start ps" by (induction ps) simp_all
  then show ?thesis by (simp add: tasks_of_def go_spawn_def)
qed

section \<open>Safety\<close>

definition pipe_ok :: "('s, 'w) env \<Rightarrow> AlertPayload list \<Rightarrow> ('s, 'w) pipe \<Rightarrow> bool" where
  "pipe_ok e seen st \<longleftrightarrow> corr_inv0 (p_cor st) \<and> (\<forall>a\<in>#buffered (p_cor st). firing_in seen a) \<and>
     list_all (silence_ok e seen) (p_silences st) \<and> list_all (asked_ok seen) (p_asked st) \<and> list_all (sent_ok e seen) (sent_to st)"

definition job_ok :: "AlertPayload list \<Rightarrow> job \<Rightarrow> bool" where
  "job_ok seen j \<longleftrightarrow> Representative (j_alerts j) = Some (j_rep j) \<and> list_all (firing_in seen) (j_alerts j) \<and>
     (j_joint j \<longleftrightarrow> length (j_alerts j) \<noteq> 1)"

fun task_ok :: "('s, 'w) env \<Rightarrow> AlertPayload list \<Rightarrow> task \<Rightarrow> bool" where
  "task_ok e seen (At_Start p) \<longleftrightarrow> p \<in> set seen"
| "task_ok e seen (At_Resolved p) \<longleftrightarrow> p \<in> set seen"
| "task_ok e seen (At_Correlator p) \<longleftrightarrow> firing_in seen p"
| "task_ok e seen (At_Single p) \<longleftrightarrow> firing_in seen p"
| "task_ok e seen (At_Group g) \<longleftrightarrow> asked_ok seen g"
| "task_ok e seen (At_Lookup j c) \<longleftrightarrow> job_ok seen j"
| "task_ok e seen (At_Limiter j c) \<longleftrightarrow> job_ok seen j"
| "task_ok e seen (At_Examples j c) \<longleftrightarrow> job_ok seen j"
| "task_ok e seen (At_Model j c exs) \<longleftrightarrow> job_ok seen j"
| "task_ok e seen (At_Store j c a) \<longleftrightarrow> job_ok seen j"
| "task_ok e seen (At_Release j c a) \<longleftrightarrow> job_ok seen j"
| "task_ok e seen (At_Silence j c a) \<longleftrightarrow> job_ok seen j"
| "task_ok e seen (At_History j c a) \<longleftrightarrow> job_ok seen j"
| "task_ok e seen (At_Message j c a) \<longleftrightarrow> job_ok seen j"
| "task_ok e seen (At_Sends k c msg ns) \<longleftrightarrow>
     (\<exists>p. p \<in> set seen \<and> Payload msg = Some p \<and> set ns \<subseteq> set (Route (e_router e) p)) \<and>
     (case M_Incident msg of None \<Rightarrow> True | Some g \<Rightarrow> asked_ok seen g)"
| "task_ok e seen At_Drain \<longleftrightarrow> True"
| "task_ok e seen (At_Flush ks) \<longleftrightarrow> True"

definition go_inv :: "('s, 'w) env \<Rightarrow> ('s, 'w) go \<Rightarrow> bool" where
  "go_inv e s \<longleftrightarrow> pipe_ok e (g_seen s) (g_pipe s) \<and> list_all (task_ok e (g_seen s)) (tasks_of s)"

lemma job_ok_alert: "job_ok seen j \<Longrightarrow> firing_in seen (j_rep j) \<and> asked_ok seen (j_alerts j)"
  using Representative_mem [of "j_alerts j" "j_rep j"] by (auto simp: job_ok_def asked_ok_def list_all_iff)

lemma Representative_single [simp]: "Representative [p] = Some p"
  by (simp add: Representative_def)

lemma single_job_ok: "firing_in seen p \<Longrightarrow> job_ok seen (single_job p)"
  by (simp add: job_ok_def single_job_def)

lemma group_job_ok: "asked_ok seen g \<Longrightarrow> Representative g = Some rep \<Longrightarrow> job_ok seen (group_job rep g)"
  by (simp add: job_ok_def group_job_def asked_ok_def)

text \<open>The message of a job is about its alerts.\<close>

lemma job_message_about:
  assumes "job_ok seen j"
  shows "Payload (job_message j a) = Some (j_rep j)" and "M_Incident (job_message j a) = (if j_joint j then Some (j_alerts j) else None)"
    and "alerts_of (job_message j a) = j_alerts j"
proof -
  have "\<not> j_joint j \<Longrightarrow> j_alerts j = [j_rep j]"
    using assms by (auto simp: job_ok_def length_Suc_conv)
  then show "Payload (job_message j a) = Some (j_rep j)" "M_Incident (job_message j a) = (if j_joint j then Some (j_alerts j) else None)"
    "alerts_of (job_message j a) = j_alerts j"
    by (simp_all add: job_message_def FormatIncidentMessage_def FormatMessage_def alerts_of_def)
qed

lemma adds_ok_pipe: "adds_ok e seen st st' \<Longrightarrow> pipe_ok e seen st \<Longrightarrow> pipe_ok e seen st'"
  by (simp add: adds_ok_def pipe_ok_def)

text \<open>Most tasks only read and write the store, the limiter and the counters.\<close>

lemma ask_job_frame:
  "ask_job e j c exs st = (a, st') \<Longrightarrow> quiet st st' \<and> no_silence st st' \<and> p_pool st' = p_pool st \<and>
     p_asked st' = p_asked st @ [if j_joint j then j_alerts j else [j_rep j]]"
  by (auto simp: ask_job_def dest: ask_frame split: if_split_asm)

fun inward :: "task \<Rightarrow> bool" where
  "inward (At_Correlator p) = False"
| "inward (At_Model j c exs) = False"
| "inward (At_Silence j c a) = False"
| "inward (At_Sends k c msg ns) = (ns = [])"
| "inward At_Drain = False"
| "inward (At_Flush ks) = False"
| "inward _ = True"

lemma received_frame: "quiet st (received p st) \<and> no_silence st (received p st) \<and> p_pool (received p st) = p_pool st \<and>
    p_asked (received p st) = p_asked st"
  by (simp add: received_def count_frame count_received)

lemma no_silence_refl: "no_silence st st" by (simp add: no_silence_def)

lemma inward_frame:
  assumes "inward t" and "task_step e t st = Some (ts, st')"
  shows "quiet st st' \<and> no_silence st st' \<and> p_asked st' = p_asked st"
proof (cases t)
  case (At_Start p)
  have "quiet st st1 \<and> no_silence st st1 \<and> p_asked st1 = p_asked st" if "check_dup e test p (received p st) = (d, st1)" for test d st1
    using check_dup_frame [OF that] received_frame [of st p] quiet_trans no_silence_trans by metis
  with assms show ?thesis by (auto simp: At_Start split: if_split_asm prod.split_asm)
qed (use assms in \<open>auto dest!: deadline_frame cache_get_frame acquire_frame examples_frame feedback_frame simp: cache_set_frame release_frame
      history_frame count_frame count_received no_silence_refl split: prod.split_asm option.split_asm\<close>)

text \<open>The correlator between a timer that has fired and its flush.\<close>

lemma Add_inv0:
  assumes "corr_inv0 c" shows "corr_inv0 (Correlator_Add p c)"
proof (cases "case map_of (cor_buckets c) (groupKey p) of None \<Rightarrow> True | Some b \<Rightarrow> int (length (b_alerts b)) \<ge> maxGroup c")
  case True
  with assms show ?thesis
    by (auto simp: Correlator_Add_def Let_def corr_inv0_def distinct_update update_conv' good_group_def split: option.splits if_splits)
next
  case False
  then obtain b where b: "map_of (cor_buckets c) (groupKey p) = Some b" "\<not> int (length (b_alerts b)) \<ge> maxGroup c"
    by (auto split: option.splits)
  with assms have "good_group (maxGroup c) (groupKey p) (b_alerts b @ [p])"
    by (intro good_group_snoc) (auto simp: corr_inv0_def)
  with assms b show ?thesis
    by (auto simp: Correlator_Add_def Let_def corr_inv0_def distinct_update update_conv')
qed

lemma Add_account0:
  assumes "corr_inv0 c"
  shows "buffered (Correlator_Add p c) + mset (overwritten p c) = buffered c + {#p#}"
proof -
  have d: "distinct (map fst (cor_buckets c))" using assms by (simp add: corr_inv0_def)
  show ?thesis
  proof (cases "map_of (cor_buckets c) (groupKey p)")
    case None
    with update_buffered [OF d, of "groupKey p" "\<lparr>b_alerts = [p], b_timer = next_timer c\<rparr>"] show ?thesis
      by (simp add: Correlator_Add_def overwritten_def buffered_def Let_def)
  next
    case (Some b)
    with update_buffered [OF d, of "groupKey p" "\<lparr>b_alerts = [p], b_timer = next_timer c\<rparr>"]
      update_buffered [OF d, of "groupKey p" "b\<lparr>b_alerts := b_alerts b @ [p]\<rparr>"]
    show ?thesis by (simp add: Correlator_Add_def overwritten_def buffered_def Let_def)
  qed
qed

lemma Add_buffered0: "corr_inv0 c \<Longrightarrow> a \<in># buffered (Correlator_Add p c) \<Longrightarrow> a \<in># buffered c \<or> a = p"
  using Add_account0 [of c p] by (metis add_mset_add_single insert_noteq_member mset_add union_iff)

lemma stop_timers_frame: "buffered (stop_timers c) = buffered c" "corr_inv0 (stop_timers c) = corr_inv0 c"
  by (simp_all add: stop_timers_def buffered_def corr_inv0_def)

lemma flushKey_ok:
  assumes "corr_inv0 c" and "flushKey k c = (gs, c')"
  shows "corr_inv0 c' \<and> buffered c = mset (concat gs) + buffered c'" and "\<And>g. g \<in> set gs \<Longrightarrow> g \<noteq> []"
  using flushKey_inv0 [OF assms] flushKey_account [OF _ assms(2)] flushKey_groups [OF assms] assms(1)
  by (auto simp: corr_inv0_def good_group_def)

lemma send_one_adds:
  assumes "p \<in> set seen" "Payload msg = Some p" "n \<in> set (Route (e_router e) p)"
    and "case M_Incident msg of None \<Rightarrow> True | Some g \<Rightarrow> asked_ok seen g"
  shows "adds_ok e seen st (send_one e c msg n st)"
  using assms by (auto simp: adds_ok_def send_one_frame send_one_sent sent_ok_def receivers_of_def)

lemma task_step_safe:
  assumes step: "task_step e t st = Some (ts, st')" and t: "task_ok e seen t" and st: "pipe_ok e seen st"
  shows "pipe_ok e seen st'"
proof (cases "inward t")
  case True
  from inward_frame [OF True step] st show ?thesis by (blast intro: adds_ok_pipe frame_adds_ok)
next
  case False
  show ?thesis
  proof (cases t)
    case (At_Correlator p)
    have b: "\<forall>a\<in>#buffered (Correlator_Add p (p_cor st)). firing_in seen a"
      using t st Add_buffered0 [of "p_cor st" _ p] by (fastforce simp: pipe_ok_def At_Correlator)
    show ?thesis using step st b Add_inv0 [of "p_cor st" p] by (auto simp: At_Correlator pipe_ok_def sent_to_def)
  next
    case (At_Model j c exs)
    obtain a where a: "ask_job e j c exs st = (a, st')"
      using step At_Model by (auto split: prod.split_asm option.split_asm)
    let ?g = "if j_joint j then j_alerts j else [j_rep j]"
    have g: "asked_ok seen ?g" using t job_ok_alert [of seen j] At_Model by (simp add: asked_ok_def)
    have f: "quiet st st'" "no_silence st st'" "p_asked st' \<in> {p_asked st, p_asked st @ [?g]}"
      using ask_job_frame [OF a] by simp_all
    show ?thesis by (rule adds_ok_pipe [OF evaluated_adds [OF f g] st])
  next
    case (At_Silence j c a)
    have "firing_in seen (j_rep j)" using t job_ok_alert At_Silence by simp
    from maybeSilence_adds [OF this, of e st a] step st maybeSilence_frame [of st e "j_rep j" a] show ?thesis
      by (auto simp: At_Silence pipe_ok_def quiet_def sent_to_def)
  next
    case (At_Sends k c msg ns)
    then obtain n ms where ns: "ns = n # ms" using False by (cases ns) auto
    have "adds_ok e seen st (send_one e c msg n st)"
      using t by (auto simp: At_Sends ns intro!: send_one_adds)
    then show ?thesis using step st by (auto simp: At_Sends ns intro: adds_ok_pipe)
  next
    case At_Drain
    then show ?thesis using step st by (auto simp: pipe_ok_def stop_timers_frame sent_to_def)
  next
    case (At_Flush ks)
    show ?thesis
    proof (cases ks)
      case Nil
      then show ?thesis using step st At_Flush by simp
    next
      case (Cons k ks')
      obtain gs cr where k: "flushKey k (p_cor st) = (gs, cr)" by fastforce
      have "corr_inv0 cr \<and> buffered (p_cor st) = mset (concat gs) + buffered cr"
        using flushKey_ok(1) [OF _ k] st by (simp add: pipe_ok_def)
      then show ?thesis using step st k by (auto simp: At_Flush Cons pipe_ok_def sent_to_def)
    qed
  qed (use False in simp_all)
qed

lemma sent_job_ok:
  assumes "job_ok seen j" and "AttachEvidence (job_message j a) p cfg = Some msg" and "attachFeedback e (j_rep j) a msg st = (msg', st')"
  shows "Payload msg' = Some (j_rep j) \<and> M_Incident msg' = (if j_joint j then Some (j_alerts j) else None) \<and> alerts_of msg' = j_alerts j"
proof -
  have "Payload msg' = Payload (job_message j a)" "M_Incident msg' = M_Incident (job_message j a)"
    using AttachEvidence_frame [OF assms(2)] feedback_frame [OF assms(3)] by simp_all
  moreover from this have "alerts_of msg' = alerts_of (job_message j a)" by (simp add: alerts_of_def split: option.split)
  ultimately show ?thesis using job_message_about [OF assms(1)] by simp
qed

lemma task_step_tasks:
  assumes step: "task_step e t st = Some (ts, st')" and t: "task_ok e seen t" and st: "pipe_ok e seen st"
  shows "list_all (task_ok e seen) ts"
proof (cases t)
  case (At_Group g)
  then show ?thesis using step t by (auto split: prod.split_asm option.split_asm simp: group_job_ok)
next
  case (At_Single p)
  then show ?thesis using step t by (auto split: prod.split_asm simp: single_job_ok)
next
  case (At_Message j c a)
  obtain msg msg' where m: "AttachEvidence (job_message j a) (j_rep j) (e_evidence e) = Some msg" "attachFeedback e (j_rep j) a msg st = (msg', st')"
    and ts: "ts = [At_Sends (if j_grouped j then Some (int (length (j_alerts j))) else None) c msg' (Route (e_router e) (j_rep j))]"
    using step At_Message by (auto split: prod.split_asm option.split_asm)
  have j: "job_ok seen j" using t At_Message by simp
  from sent_job_ok [OF j m] job_ok_alert [OF j] show ?thesis by (auto simp: ts firing_in_def)
next
  case (At_Flush ks)
  show ?thesis
  proof (cases ks)
    case (Cons k ks')
    obtain gs cr where k: "flushKey k (p_cor st) = (gs, cr)" by fastforce
    have c: "corr_inv0 (p_cor st)" and f: "\<forall>a\<in>#buffered (p_cor st). firing_in seen a" using st by (simp_all add: pipe_ok_def)
    have "asked_ok seen g" if "g \<in> set gs" for g
      using flushKey_ok [OF c k] f that by (auto simp: asked_ok_def list_all_iff)
    then show ?thesis using step k by (auto simp: At_Flush Cons list_all_iff)
  qed (use step At_Flush in simp)
next
  case (At_Sends k c msg ns)
  then show ?thesis using step t by (cases ns) auto
qed (use step t in \<open>auto simp: firing_in_def FormatMessage_def split: prod.split_asm option.split_asm if_split_asm\<close>)

lemma task_ok_more: "task_ok e seen t \<Longrightarrow> task_ok e (seen @ extra) t"
proof -
  have a: "asked_ok seen g \<Longrightarrow> asked_ok (seen @ extra) g" for g
    by (auto simp: asked_ok_def list_all_iff intro: firing_in_more)
  have j: "job_ok seen j \<Longrightarrow> job_ok (seen @ extra) j" for j
    by (auto simp: job_ok_def list_all_iff intro: firing_in_more)
  show "task_ok e seen t \<Longrightarrow> task_ok e (seen @ extra) t"
    using a j by (cases t) (auto intro: firing_in_more split: option.split_asm option.split)
qed

lemma pipe_ok_more: "pipe_ok e seen st \<Longrightarrow> pipe_ok e (seen @ extra) st"
proof -
  assume p: "pipe_ok e seen st"
  define st0 where "st0 = st\<lparr>p_cor := Correlator_New False 0 0\<rparr>"
  have "pipe_inv e (seen, st0)"
    using p Correlator_New_inv [of False 0 0] by (simp add: pipe_ok_def pipe_inv_def st0_def sent_to_def) (simp add: buffered_def Correlator_New_def)
  from pipe_inv_more [OF this, of extra] p show ?thesis
    by (auto simp: pipe_ok_def pipe_inv_def st0_def sent_to_def intro: firing_in_more)
qed

lemma go_spawn_inv: "go_inv e s \<Longrightarrow> go_inv e (go_spawn ps s)"
  by (auto simp: go_inv_def tasks_spawn list_all_iff task_ok_more pipe_ok_more) (auto simp: go_spawn_def task_ok_more pipe_ok_more)

lemma go_move_inv:
  assumes "go_move e s s'" and inv: "go_inv e s"
  shows "go_inv e s' \<and> g_seen s' = g_seen s"
  using assms(1)
proof cases
  case (move xs r t ts ys ts' st)
  have t: "task_ok e (g_seen s) t" and p: "pipe_ok e (g_seen s) (g_pipe s)" using inv by (auto simp: go_inv_def tasks_of_def move)
  show ?thesis
    using task_step_safe [OF move(3) t p] task_step_tasks [OF move(3) t p] inv by (auto simp: go_inv_def tasks_of_def move)
next
  case (return xs r ys)
  then show ?thesis using inv by (auto simp: go_inv_def tasks_of_def)
next
  case (fire tm)
  then show ?thesis
    using inv by (auto simp: go_inv_def tasks_of_def pipe_ok_def disarm_def buffered_def corr_inv0_def sent_to_def)
qed

lemma go_step_inv: "go_step e s s' \<Longrightarrow> go_inv e s \<Longrightarrow> go_inv e s'"
proof (induction rule: go_step.induct)
  case (spawn s ps)
  then show ?case by (rule go_spawn_inv)
next
  case (shut s)
  then show ?case by (simp add: go_inv_def tasks_of_def go_drain_def)
next
  case (inner s s')
  then show ?case using go_move_inv by blast
qed

interpretation going: step_system "go_step e" "go_inv e" for e
  by unfold_locales (rule go_step_inv)

lemma go_start_inv: "go_inv e (go_start (Pipeline_New s w pool corr))"
  using Pipeline_New_inv [of e s w pool corr]
  by (simp add: go_inv_def go_start_def tasks_of_def pipe_inv_def pipe_ok_def corr_inv_inv0)

section \<open>Exactly once\<close>

text \<open>The alerts a task answers for, and what is still to be sent of the notification it is sending.\<close>

fun carried :: "task \<Rightarrow> AlertPayload list" where
  "carried (At_Resolved p) = [p]"
| "carried (At_Correlator p) = [p]"
| "carried (At_Single p) = [p]"
| "carried (At_Group g) = g"
| "carried (At_Lookup j c) = j_alerts j"
| "carried (At_Limiter j c) = j_alerts j"
| "carried (At_Examples j c) = j_alerts j"
| "carried (At_Model j c exs) = j_alerts j"
| "carried (At_Store j c a) = j_alerts j"
| "carried (At_Release j c a) = j_alerts j"
| "carried (At_Silence j c a) = j_alerts j"
| "carried (At_History j c a) = j_alerts j"
| "carried (At_Message j c a) = j_alerts j"
| "carried (At_Sends k c msg ns) = alerts_of msg"
| "carried _ = []"

definition due :: "('s, 'w) env \<Rightarrow> AlertPayload list \<Rightarrow> (string \<times> AlertPayload list) list" where
  "due e g = (case Representative g of None \<Rightarrow> [] | Some rep \<Rightarrow> map (\<lambda>n. (n, g)) (receivers_of e rep))"

definition notified :: "('s, 'w) pipe \<Rightarrow> (string \<times> AlertPayload list) list" where
  "notified st = map (\<lambda>(n, msg). (n, alerts_of msg)) (sent_to st)"

fun unsent :: "('s, 'w) env \<Rightarrow> task \<Rightarrow> (string \<times> AlertPayload list) list" where
  "unsent e (At_Sends k c msg ns) = map (\<lambda>n. (n, alerts_of msg)) (filter (\<lambda>n. n \<in> fst ` set (e_notifiers e)) ns)"
| "unsent e _ = []"

fun begun :: "('s, 'w) env \<Rightarrow> task \<Rightarrow> (string \<times> AlertPayload list) list" where
  "begun e (At_Sends k c msg ns) = due e (alerts_of msg)"
| "begun e _ = []"

fun flush_keys :: "task \<Rightarrow> string list" where
  "flush_keys (At_Flush ks) = ks"
| "flush_keys _ = []"

text \<open>Every accepted alert is with the correlator, with a goroutine, delivered or dropped by a full bucket; every
  notification belongs to a delivery; and every bucket has a timer or a goroutine that will flush it.\<close>

definition accounted :: "('s, 'w) go \<Rightarrow> bool" where
  "accounted s \<longleftrightarrow> mset (g_passed s) =
     mset (concat (g_done s)) + mset (g_lost s) + buffered (p_cor (g_pipe s)) + mset (concat (map carried (tasks_of s)))"

definition delivered_once :: "('s, 'w) env \<Rightarrow> ('s, 'w) go \<Rightarrow> bool" where
  "delivered_once e s \<longleftrightarrow> mset (notified (g_pipe s)) + mset (concat (map (unsent e) (tasks_of s))) =
     mset (concat (map (due e) (g_done s))) + mset (concat (map (begun e) (tasks_of s)))"

definition watched :: "('s, 'w) go \<Rightarrow> bool" where
  "watched s \<longleftrightarrow> (\<forall>k b. map_of (cor_buckets (p_cor (g_pipe s))) k = Some b \<longrightarrow>
     (b_timer b, k) \<in> set (armed (p_cor (g_pipe s))) \<or> k \<in> set (concat (map flush_keys (tasks_of s))))"

lemma quiet_notified: "quiet st st' \<Longrightarrow> notified st' = notified st"
  by (simp add: notified_def quiet_sent)

lemma task_step_account:
  assumes step: "task_step e t st = Some (ts, st')" and t: "task_ok e seen t" and c: "corr_inv0 (p_cor st)"
  shows "mset (passes t ts) + mset (carried t) + buffered (p_cor st) =
    mset (concat (completes t)) + mset (loses t st) + buffered (p_cor st') + mset (concat (map carried ts))"
proof (cases t)
  case (At_Correlator p)
  then show ?thesis using step Add_account0 [OF c, of p] by (auto simp: add.commute)
next
  case (At_Message j c a)
  obtain msg msg' where m: "AttachEvidence (job_message j a) (j_rep j) (e_evidence e) = Some msg" "attachFeedback e (j_rep j) a msg st = (msg', st')"
    and ts: "ts = [At_Sends (if j_grouped j then Some (int (length (j_alerts j))) else None) c msg' (Route (e_router e) (j_rep j))]"
    using step At_Message by (auto split: prod.split_asm option.split_asm)
  have "job_ok seen j" using t At_Message by simp
  from sent_job_ok [OF this m] feedback_frame [OF m(2)] show ?thesis by (simp add: At_Message ts quiet_def)
next
  case (At_Flush ks)
  show ?thesis
  proof (cases ks)
    case (Cons k ks')
    obtain gs cr where k: "flushKey k (p_cor st) = (gs, cr)" by fastforce
    have "concat (map (carried \<circ> At_Group) gs) = concat gs" by (induction gs) simp_all
    then show ?thesis using step k flushKey_ok(1) [OF c k] by (auto simp: At_Flush Cons)
  qed (use step At_Flush in simp)
next
  case (At_Group g)
  obtain rep where "Representative g = Some rep" using t At_Group by (cases g) (auto simp: asked_ok_def Representative_def)
  then show ?thesis using step by (auto simp: At_Group group_job_def quiet_def split: prod.split_asm dest!: deadline_frame)
next
  case (At_Sends k c msg ns)
  then show ?thesis using step by (cases ns) (auto simp: send_one_frame count_received split: option.split)
next
  case At_Drain
  then show ?thesis using step by (auto simp: stop_timers_frame)
next
  case (At_Model j c exs)
  then show ?thesis using step by (auto split: prod.split_asm option.split_asm dest!: ask_job_frame simp: quiet_def)
next
  case (At_Silence j c a)
  then show ?thesis using step maybeSilence_frame [of st e "j_rep j" a] by (auto simp: quiet_def)
qed (use step inward_frame [OF _ step] in \<open>auto split: prod.split_asm option.split_asm if_split_asm simp: quiet_def single_job_def alerts_of_def FormatMessage_def\<close>)

lemma task_step_sent:
  assumes step: "task_step e t st = Some (ts, st')" and t: "task_ok e seen t"
  shows "mset (notified st') + mset (concat (map (unsent e) ts)) + mset (begun e t) =
    mset (notified st) + mset (unsent e t) + mset (concat (map (begun e) ts)) + mset (concat (map (due e) (completes t)))"
proof (cases t)
  case (At_Message j c a)
  obtain msg msg' where m: "AttachEvidence (job_message j a) (j_rep j) (e_evidence e) = Some msg" "attachFeedback e (j_rep j) a msg st = (msg', st')"
    and ts: "ts = [At_Sends (if j_grouped j then Some (int (length (j_alerts j))) else None) c msg' (Route (e_router e) (j_rep j))]"
    using step At_Message by (auto split: prod.split_asm option.split_asm)
  have j: "job_ok seen j" using t At_Message by simp
  then have "Representative (j_alerts j) = Some (j_rep j)" by (simp add: job_ok_def)
  moreover have "notified st' = notified st" using feedback_frame [OF m(2)] quiet_notified by blast
  ultimately show ?thesis using sent_job_ok [OF j m] by (simp add: At_Message ts due_def receivers_of_def)
next
  case (At_Resolved p)
  obtain c where d: "deadline e (30 * second) st = (c, st')" "ts = [At_Sends None c (FormatMessage p None) (Route (e_router e) p)]"
    using step At_Resolved by (auto split: prod.split_asm)
  have "alerts_of (FormatMessage p None) = [p]" by (simp add: alerts_of_def FormatMessage_def)
  moreover have "notified st' = notified st" using deadline_frame [OF d(1)] quiet_notified by blast
  ultimately show ?thesis by (simp add: At_Resolved d due_def receivers_of_def)
next
  case (At_Sends k c msg ns)
  show ?thesis
  proof (cases ns)
    case (Cons n ms)
    then show ?thesis using step [symmetric] by (simp add: At_Sends notified_def send_one_sent)
  qed (use step At_Sends in \<open>auto simp: notified_def count_received split: option.split\<close>)
next
  case (At_Flush ks)
  then show ?thesis using step by (cases ks) (auto split: prod.split_asm simp: notified_def sent_to_def comp_def)
next
  case (At_Model j c exs)
  then show ?thesis using step by (auto split: prod.split_asm option.split_asm dest!: ask_job_frame quiet_notified)
next
  case (At_Silence j c a)
  then show ?thesis using step maybeSilence_frame [of st e "j_rep j" a] by (auto dest!: quiet_notified)
qed (use step inward_frame [OF _ step] in \<open>auto split: prod.split_asm option.split_asm if_split_asm simp: notified_def sent_to_def quiet_def\<close>)

lemma Add_timers:
  "set (armed c) \<subseteq> set (armed (Correlator_Add p c)) \<and>
   (map_of (cor_buckets (Correlator_Add p c)) k = Some b \<longrightarrow>
      (b_timer b, k) \<in> set (armed (Correlator_Add p c)) \<or> (\<exists>b'. map_of (cor_buckets c) k = Some b' \<and> b_timer b' = b_timer b))"
  by (auto simp: Correlator_Add_def Let_def update_conv' split: option.splits if_splits)

text \<open>Every bucket after a task is one of before, or armed, or a key the task will flush.\<close>

lemma task_step_watched:
  assumes step: "task_step e t st = Some (ts, st')" and b: "map_of (cor_buckets (p_cor st')) k = Some b"
  shows "(b_timer b, k) \<in> set (armed (p_cor st')) \<or> k \<in> set (concat (map flush_keys ts)) \<or>
    (\<exists>b'. map_of (cor_buckets (p_cor st)) k = Some b' \<and> b_timer b' = b_timer b \<and> k \<notin> set (flush_keys t) \<and>
       set (armed (p_cor st)) \<subseteq> set (armed (p_cor st')))"
proof (cases t)
  case (At_Correlator p)
  then show ?thesis using step b Add_timers [of "p_cor st" p k b] by auto
next
  case At_Drain
  have "k \<in> dom (map_of (cor_buckets (p_cor st)))" using step b by (auto simp: At_Drain stop_timers_def)
  then have "k \<in> set (concat (map flush_keys ts))" using step [symmetric] by (simp add: At_Drain dom_map_of_conv_image_fst)
  then show ?thesis by blast
next
  case (At_Flush ks)
  show ?thesis
  proof (cases ks)
    case (Cons k' ks')
    obtain gs cr where k: "flushKey k' (p_cor st) = (gs, cr)" by fastforce
    show ?thesis using step b k flushKey_frame [OF k] by (auto simp: At_Flush Cons split: if_split_asm)
  qed (use step b At_Flush in auto)
next
  case (At_Model j c exs)
  then show ?thesis using step b by (auto split: prod.split_asm option.split_asm dest!: ask_job_frame simp: quiet_def)
next
  case (At_Silence j c a)
  then show ?thesis using step b maybeSilence_frame [of st e "j_rep j" a] by (auto simp: quiet_def)
next
  case (At_Sends k c msg ns)
  then show ?thesis using step b by (cases ns) (auto simp: send_one_frame count_received split: option.split_asm)
qed (use inward_frame [OF _ step] b in \<open>auto simp: quiet_def\<close>)

section \<open>The accounts are kept\<close>

definition go_accounts :: "('s, 'w) env \<Rightarrow> ('s, 'w) go \<Rightarrow> bool" where
  "go_accounts e s \<longleftrightarrow> go_inv e s \<and> accounted s \<and> delivered_once e s \<and> watched s"

lemma balance_step:
  fixes n :: "'a multiset"
  assumes "n' + u' + b = n + u + b' + d" and "n + (u + r) = q + (b + q')"
  shows "n' + (u' + r) = q + d + (b' + q')"
proof -
  have "n' + (u' + r) + b = (n' + u' + b) + r" by (simp add: ac_simps)
  also have "\<dots> = (n + (u + r)) + (b' + d)" unfolding assms(1) by (simp add: ac_simps)
  also have "\<dots> = q + d + (b' + q') + b" unfolding assms(2) by (simp add: ac_simps)
  finally show ?thesis by simp
qed

lemma move_accounts:
  assumes w: "g_work s = xs @ (r, t # ts) # ys" and step: "task_step e t (g_pipe s) = Some (ts', st)"
    and s': "s' = s\<lparr>g_passed := g_passed s @ passes t ts', g_lost := g_lost s @ loses t (g_pipe s), g_done := g_done s @ completes t,
      g_work := xs @ (r, ts' @ ts) # ys, g_pipe := st\<rparr>" and inv: "go_accounts e s"
  shows "accounted s'" and "delivered_once e s'" and "watched s'"
proof -
  have t: "task_ok e (g_seen s) t" and c: "corr_inv0 (p_cor (g_pipe s))"
    using inv w by (auto simp: go_accounts_def go_inv_def pipe_ok_def tasks_of_def)
  show "accounted s'"
    using task_step_account [OF step t c] inv by (simp add: go_accounts_def accounted_def tasks_of_def s' w) (simp add: ac_simps)
  show "delivered_once e s'"
  proof -
    let ?rest = "\<lambda>f. mset (concat (map (f e) (concat (map snd xs)))) + mset (concat (map (f e) ts)) + mset (concat (map (f e) (concat (map snd ys))))"
    have "mset (notified (g_pipe s)) + (mset (unsent e t) + ?rest unsent) = mset (concat (map (due e) (g_done s))) + (mset (begun e t) + ?rest begun)"
      using inv by (simp add: go_accounts_def delivered_once_def tasks_of_def w ac_simps)
    from balance_step [OF task_step_sent [OF step t] this] show ?thesis
      by (simp add: delivered_once_def tasks_of_def s' ac_simps)
  qed
  show "watched s'"
    unfolding watched_def
  proof (intro allI impI)
    fix k b
    assume "map_of (cor_buckets (p_cor (g_pipe s'))) k = Some b"
    then have b: "map_of (cor_buckets (p_cor st)) k = Some b" by (simp add: s')
    have old: "(b_timer b', k) \<in> set (armed (p_cor (g_pipe s))) \<or> k \<in> set (concat (map flush_keys (tasks_of s)))"
      if "map_of (cor_buckets (p_cor (g_pipe s))) k = Some b'" for b'
      using inv that by (auto simp: go_accounts_def watched_def)
    from task_step_watched [OF step b] show "(b_timer b, k) \<in> set (armed (p_cor (g_pipe s'))) \<or> k \<in> set (concat (map flush_keys (tasks_of s')))"
    proof (elim disjE exE conjE)
      fix b'
      assume "map_of (cor_buckets (p_cor (g_pipe s))) k = Some b'" "b_timer b' = b_timer b" "k \<notin> set (flush_keys t)"
        "set (armed (p_cor (g_pipe s))) \<subseteq> set (armed (p_cor st))"
      with old [of b'] show ?thesis by (auto simp: tasks_of_def s' w)
    qed (auto simp: tasks_of_def s')
  qed
qed

text \<open>Each arrival passes the duplicate check at most once.\<close>

fun starting :: "task \<Rightarrow> AlertPayload list" where
  "starting (At_Start p) = [p]"
| "starting _ = []"

definition arrivals :: "('s, 'w) go \<Rightarrow> bool" where
  "arrivals s \<longleftrightarrow> mset (g_passed s) + mset (concat (map starting (tasks_of s))) \<subseteq># mset (g_seen s)"

lemma task_step_arrivals:
  "task_step e t st = Some (ts, st') \<Longrightarrow> mset (passes t ts) + mset (concat (map starting ts)) \<subseteq># mset (starting t)"
  by (cases "(e, t, st)" rule: task_step.cases) (auto split: prod.split_asm option.split_asm if_split_asm simp: comp_def)

lemma move_arrivals:
  assumes "task_step e t st = Some (ts', st')" and "m + (mset (starting t) + r) \<subseteq># sn"
  shows "m + mset (passes t ts') + (mset (concat (map starting ts')) + r) \<subseteq># sn"
proof -
  have "mset (passes t ts') + mset (concat (map starting ts')) + (m + r) \<subseteq># mset (starting t) + (m + r)"
    by (rule subset_mset.add_right_mono [OF task_step_arrivals [OF assms(1)]])
  also have "\<dots> \<subseteq># sn" using assms(2) by (simp add: ac_simps)
  finally show ?thesis by (simp add: ac_simps)
qed

lemma go_spawn_accounts:
  assumes "go_accounts e s" shows "go_accounts e (go_spawn ps s)"
  using assms go_spawn_inv [of e s ps]
  by (simp add: go_accounts_def accounted_def delivered_once_def watched_def tasks_spawn comp_def) (simp add: go_spawn_def)

lemma go_move_accounts:
  assumes "go_move e s s'" and inv: "go_accounts e s"
  shows "go_accounts e s'"
proof -
  have i: "go_inv e s'" using go_move_inv [OF assms(1)] inv by (simp add: go_accounts_def)
  from assms(1) show ?thesis
  proof cases
    case (move xs r t ts ys ts' st)
    then show ?thesis using move_accounts [OF move(2,3,1) inv] i by (simp add: go_accounts_def)
  next
    case (return xs r ys)
    then have "tasks_of s' = tasks_of s" by (simp add: tasks_of_def)
    then show ?thesis using inv i return by (simp add: go_accounts_def accounted_def delivered_once_def watched_def)
  next
    case (fire tm)
    have w: "watched s'"
      unfolding watched_def
    proof (intro allI impI)
      fix k b
      assume "map_of (cor_buckets (p_cor (g_pipe s'))) k = Some b"
      then have "(b_timer b, k) \<in> set (armed (p_cor (g_pipe s))) \<or> k \<in> set (concat (map flush_keys (tasks_of s)))"
        using inv by (auto simp: go_accounts_def watched_def fire disarm_def)
      then show "(b_timer b, k) \<in> set (armed (p_cor (g_pipe s'))) \<or> k \<in> set (concat (map flush_keys (tasks_of s')))"
        by (cases "tm = (b_timer b, k)") (auto simp: fire disarm_def tasks_of_def)
    qed
    show ?thesis
      using inv i w by (auto simp: go_accounts_def accounted_def delivered_once_def fire disarm_def tasks_of_def buffered_def notified_def sent_to_def)
  qed
qed

lemma go_step_accounts: "go_step e s s' \<Longrightarrow> go_accounts e s \<Longrightarrow> go_accounts e s'"
proof (induction rule: go_step.induct)
  case (spawn s ps)
  then show ?case by (rule go_spawn_accounts)
next
  case (shut s)
  then show ?case
    using go_step_inv [OF go_step.shut, of e s] by (simp add: go_accounts_def accounted_def delivered_once_def watched_def tasks_of_def go_drain_def)
next
  case (inner s s')
  then show ?case by (rule go_move_accounts)
qed

interpretation accounting: step_system "go_step e" "go_accounts e" for e
  by unfold_locales (rule go_step_accounts)

lemma go_start_accounts: "go_accounts e (go_start (Pipeline_New s w pool corr))"
  using go_start_inv [of e s w pool corr]
  by (simp add: go_accounts_def accounted_def delivered_once_def watched_def go_start_def tasks_of_def Pipeline_New_def notified_def sent_to_def
      Correlator_New_def buffered_def)

lemma go_step_arrivals: "go_step e s s' \<Longrightarrow> arrivals s \<Longrightarrow> arrivals s'"
proof (induction rule: go_step.induct)
  case (spawn s ps)
  have "concat (map (starting \<circ> At_Start) ps) = ps" by (induction ps) simp_all
  then show ?case using spawn by (simp add: arrivals_def tasks_spawn) (simp add: go_spawn_def)
next
  case (shut s)
  then show ?case by (simp add: arrivals_def tasks_of_def go_drain_def)
next
  case (inner s s')
  from inner(1) show ?case
  proof cases
    case (move xs r t ts ys ts' st)
    let ?rest = "mset (concat (map starting (concat (map snd xs)))) + mset (concat (map starting ts)) + mset (concat (map starting (concat (map snd ys))))"
    have "mset (g_passed s) + (mset (starting t) + ?rest) \<subseteq># mset (g_seen s)"
      using inner(2) by (simp add: arrivals_def tasks_of_def move ac_simps)
    from move_arrivals [OF move(3) this] show ?thesis by (simp add: arrivals_def tasks_of_def move ac_simps)
  qed (use inner(2) in \<open>simp_all add: arrivals_def tasks_of_def\<close>)
qed

interpretation arriving: step_system "go_step e" arrivals for e
  by unfold_locales (rule go_step_arrivals)

text \<open>A request writes the store, which the accounts do not look at.\<close>

definition go_store :: "'s \<Rightarrow> ('s, 'w) go \<Rightarrow> ('s, 'w) go" where
  "go_store t s = s\<lparr>g_pipe := (g_pipe s)\<lparr>p_store := t\<rparr>\<rparr>"

lemma go_store_accounts [simp]:
  "go_accounts e (go_store t s) = go_accounts e s" "go_inv e (go_store t s) = go_inv e s" "arrivals (go_store t s) = arrivals s"
  "g_seen (go_store t s) = g_seen s" "g_work (go_store t s) = g_work s" "p_store (g_pipe (go_store t s)) = t"
  by (simp_all add: go_accounts_def go_inv_def accounted_def delivered_once_def watched_def arrivals_def tasks_of_def go_store_def pipe_ok_def
      notified_def sent_to_def)

section \<open>The goroutines come to rest\<close>

text \<open>What is left to do, with the timers that are still to fire and the returns.\<close>

definition effort :: "('s, 'w) env \<Rightarrow> ('s, 'w) go \<Rightarrow> nat" where
  "effort e s = work_left e (tasks_of s) + length (g_work s) + (fan_out e + 20) * length (armed (p_cor (g_pipe s)))"

lemma Add_armed: "length (armed (Correlator_Add p c)) \<le> Suc (length (armed c))"
  by (simp add: Correlator_Add_def Let_def split: option.split)

lemma task_step_effort:
  assumes step: "task_step e t st = Some (ts, st')" and "t \<noteq> At_Drain"
  shows "work_left e ts + (fan_out e + 20) * length (armed (p_cor st')) < work e t + (fan_out e + 20) * length (armed (p_cor st))"
proof (cases "\<exists>p. t = At_Correlator p")
  case True
  then obtain p where "t = At_Correlator p" "ts = []" "p_cor st' = Correlator_Add p (p_cor st)" using step by auto
  moreover have "(fan_out e + 20) * length (armed (Correlator_Add p (p_cor st))) \<le> (fan_out e + 20) * Suc (length (armed (p_cor st)))"
    using Add_armed by (rule mult_le_mono2)
  ultimately show ?thesis by simp
next
  case False
  have "armed (p_cor st') = armed (p_cor st)"
  proof (cases t)
    case (At_Flush ks)
    then show ?thesis using step flushKey_one by (cases ks) (auto split: prod.split_asm)
  next
    case (At_Model j c exs)
    then show ?thesis using step by (auto split: prod.split_asm option.split_asm dest!: ask_job_frame simp: quiet_def)
  next
    case (At_Silence j c a)
    then show ?thesis using step maybeSilence_frame [of st e "j_rep j" a] by (auto simp: quiet_def)
  next
    case (At_Sends k c msg ns)
    then show ?thesis using step by (cases ns) (auto simp: send_one_frame count_received split: option.split_asm)
  qed (use False assms(2) inward_frame [OF _ step] in \<open>auto simp: quiet_def\<close>)
  with task_step_work [OF step] assms(2) show ?thesis by simp
qed

lemma go_move_measure:
  assumes "go_move e s s'"
  shows "(s', s) \<in> measures [\<lambda>s. drains_left (tasks_of s), effort e]"
  using assms
proof cases
  case (move xs r t ts ys ts' st)
  have d: "drains_left ts' = 0" using task_step_work [OF move(3)] by simp
  show ?thesis
  proof (cases "t = At_Drain")
    case True
    then show ?thesis using d by (simp add: move tasks_of_def)
  next
    case False
    then show ?thesis using task_step_effort [OF move(3) False] d by (cases "drains t") (auto simp: move tasks_of_def effort_def)
  qed
next
  case (return xs r ys)
  then show ?thesis by (simp add: tasks_of_def effort_def)
next
  case (fire tm)
  then have "length (armed (p_cor (g_pipe s))) = Suc (length (remove1 tm (armed (p_cor (g_pipe s)))))"
    by (metis One_nat_def Suc_pred length_pos_if_in_set length_remove1)
  then show ?thesis using fire by (simp add: tasks_of_def effort_def disarm_def)
qed

lemma go_moves_end: "\<not> (\<exists>f. f 0 = s \<and> (\<forall>i. go_move e (f i) (f (Suc i))))"
proof
  assume "\<exists>f. f 0 = s \<and> (\<forall>i. go_move e (f i) (f (Suc i)))"
  then obtain f where "\<And>i. go_move e (f i) (f (Suc i))" by blast
  then have "\<And>i. (f (Suc i), f i) \<in> measures [\<lambda>s. drains_left (tasks_of s), effort e]" using go_move_measure by blast
  then show False using wf_measures wf_iff_no_infinite_down_chain by metis
qed

text \<open>The only thing that can stop a goroutine is the panic on a metric without a value.\<close>

lemma task_step_total:
  assumes "task_ok e seen t" and "\<forall>p\<in>set seen. evidence_ok e p"
  shows "\<exists>ts st'. task_step e t st = Some (ts, st')"
proof (cases t)
  case (At_Limiter j c)
  then show ?thesis using acquire_total [of e "ClusterId (j_rep j)" st] by auto
next
  case (At_Message j c a)
  then have "evidence_ok e (j_rep j)" using assms job_ok_alert [of seen j] by (auto simp: firing_in_def)
  then obtain msg where "AttachEvidence (job_message j a) (j_rep j) (e_evidence e) = Some msg"
    using AttachEvidence_None [of "job_message j a" "j_rep j" "e_evidence e"] by (auto simp: evidence_ok_def)
  then show ?thesis by (simp add: At_Message split: prod.split)
next
  case (At_Sends k c msg ns)
  then show ?thesis by (cases ns) auto
next
  case (At_Flush ks)
  then show ?thesis by (cases ks) (auto split: prod.split)
qed (auto split: prod.split option.split)

definition resting :: "('s, 'w) go \<Rightarrow> bool" where
  "resting s \<longleftrightarrow> g_work s = [] \<and> armed (p_cor (g_pipe s)) = []"

lemma go_progress:
  assumes "go_inv e s" and "\<forall>p\<in>set (g_seen s). evidence_ok e p" and "\<not> (\<exists>s'. go_move e s s')"
  shows "resting s"
proof -
  have "armed (p_cor (g_pipe s)) = []" using assms(3) go_move.fire [of _ s e] by (cases "armed (p_cor (g_pipe s))") auto
  moreover have "g_work s = []"
  proof (rule ccontr)
    assume "g_work s \<noteq> []"
    then obtain r ts ys where w: "g_work s = [] @ (r, ts) # ys" by (metis append_Nil neq_Nil_conv surj_pair)
    show False
    proof (cases ts)
      case Nil
      then show ?thesis using go_move.return [of s "[]" r ys] w assms(3) by blast
    next
      case (Cons t us)
      have "task_ok e (g_seen s) t" using assms(1) w Cons by (simp add: go_inv_def tasks_of_def)
      then obtain ts' st where "task_step e t (g_pipe s) = Some (ts', st)" using task_step_total [OF _ assms(2)] by blast
      then show ?thesis using go_move.move [of s "[]" r t us ys] w Cons assms(3) by blast
    qed
  qed
  ultimately show ?thesis by (simp add: resting_def)
qed

lemma resting_buckets:
  assumes "go_accounts e s" and "resting s"
  shows "cor_buckets (p_cor (g_pipe s)) = []"
proof -
  have t: "tasks_of s = []" "armed (p_cor (g_pipe s)) = []" using assms(2) by (simp_all add: resting_def tasks_of_def)
  have "map_of (cor_buckets (p_cor (g_pipe s))) k = None" for k
    using assms(1) t by (cases "map_of (cor_buckets (p_cor (g_pipe s))) k") (auto simp: go_accounts_def watched_def)
  then show ?thesis by (cases "cor_buckets (p_cor (g_pipe s))") (auto split: if_split_asm, metis option.distinct(1))
qed

lemma resting_accounts:
  assumes "go_accounts e s" and "resting s"
  shows "mset (g_passed s) = mset (concat (g_done s)) + mset (g_lost s) \<and>
    mset (notified (g_pipe s)) = mset (concat (map (due e) (g_done s)))"
  using assms(1) resting_buckets [OF assms] assms(2)
  by (simp add: go_accounts_def accounted_def delivered_once_def buffered_def resting_def tasks_of_def)

section \<open>Without correlation nothing is dropped\<close>

fun correlating :: "task \<Rightarrow> bool" where
  "correlating (At_Correlator p) = True"
| "correlating _ = False"

definition uncorrelated :: "('s, 'w) go \<Rightarrow> bool" where
  "uncorrelated s \<longleftrightarrow> \<not> cor_enabled (p_cor (g_pipe s)) \<and> armed (p_cor (g_pipe s)) = [] \<and> g_lost s = [] \<and> list_all (Not \<circ> correlating) (tasks_of s) \<and>
     list_all (\<lambda>(r, ts). r \<noteq> From_Timer) (g_work s)"

lemma task_step_uncorrelated:
  assumes step: "task_step e t st = Some (ts, st')" and "\<not> cor_enabled (p_cor st)" and "\<not> correlating t" and "armed (p_cor st) = []"
  shows "\<not> cor_enabled (p_cor st') \<and> armed (p_cor st') = [] \<and> list_all (Not \<circ> correlating) ts"
proof (cases t)
  case (At_Start p)
  have "\<not> cor_enabled (p_cor st1)" "armed (p_cor st1) = []" if "check_dup e test p (received p st) = (d, st1)" for test d st1
    using check_dup_frame [OF that] received_frame [of st p] assms(2,4) by (simp_all add: quiet_def)
  with step show ?thesis by (auto simp: At_Start split: if_split_asm prod.split_asm)
next
  case (At_Flush ks)
  then show ?thesis using assms by (cases ks) (auto split: prod.split_asm simp: flushKey_eq list_all_iff)
next
  case (At_Sends k c msg ns)
  then show ?thesis using assms by (cases ns) (auto simp: send_one_frame count_received split: option.split_asm)
next
  case (At_Silence j c a)
  then show ?thesis using assms maybeSilence_frame [of st e "j_rep j" a] by (auto simp: quiet_def)
next
  case (At_Model j c exs)
  then show ?thesis using assms by (auto split: prod.split_asm option.split_asm dest!: ask_job_frame simp: quiet_def)
qed (use assms inward_frame [OF _ step] in \<open>auto simp: quiet_def stop_timers_def split: prod.split_asm option.split_asm\<close>)

lemma go_move_uncorrelated: "go_move e s s' \<Longrightarrow> uncorrelated s \<Longrightarrow> uncorrelated s'"
proof (induction rule: go_move.induct)
  case (move s xs r t ts ys ts' st)
  moreover from this have "\<not> correlating t" by (simp add: uncorrelated_def tasks_of_def)
  moreover from this have "loses t (g_pipe s) = []" by (cases t) simp_all
  ultimately show ?case using task_step_uncorrelated [OF move(2)] by (simp add: uncorrelated_def tasks_of_def)
qed (simp_all add: uncorrelated_def tasks_of_def disarm_def)

lemma go_step_uncorrelated: "go_step e s s' \<Longrightarrow> uncorrelated s \<Longrightarrow> uncorrelated s'"
proof (induction rule: go_step.induct)
  case (spawn s ps)
  then show ?case by (simp add: uncorrelated_def tasks_spawn list_all_iff ball_Un) (auto simp: go_spawn_def)
next
  case (inner s s')
  then show ?case using go_move_uncorrelated by blast
qed (simp add: uncorrelated_def tasks_of_def go_drain_def)

interpretation uncorrelating: step_system "go_step e" uncorrelated for e
  by unfold_locales (rule go_step_uncorrelated)

section \<open>Theorems\<close>

lemma go_moves_seen: "(go_move e)\<^sup>*\<^sup>* s s' \<Longrightarrow> go_inv e s \<Longrightarrow> g_seen s' = g_seen s \<and> go_inv e s'"
  by (induction rule: rtranclp_induct) (use go_move_inv in \<open>auto\<close>)

lemma go_moves_step: "(go_move e)\<^sup>*\<^sup>* s s' \<Longrightarrow> (go_step e)\<^sup>*\<^sup>* s s'"
  by (induction rule: rtranclp_induct) (auto intro: go_step.inner rtranclp.rtrancl_into_rtrancl)

text \<open>C5: What the pipeline can be made to do. However the goroutines of alerts, correlation timers and drains interleave, call by call,
  and whatever the model, the store and the network answer: every silence that was requested is for a received,
  firing alert, not critical and on the allowlist, and names that alert; the model was asked only about received
  firing alerts; every notification that was sent is about a received alert (and lists only received firing alerts
  as its incident) and went to a registered receiver of the rule that matches that alert.\<close>

theorem interleavings_safe:
  assumes "(go_step e)\<^sup>*\<^sup>* (go_start (Pipeline_New s0 w pool corr)) s" and "seen = g_seen s" and "st = g_pipe s"
  shows "list_all (\<lambda>r. \<exists>p now reason. p \<in> set seen \<and> Status p \<noteq> ''resolved'' \<and> map lower_char (Severity p) \<noteq> ''critical'' \<and>
        may_silence (e_silence e) p \<and> r = silence_for (sil_duration (e_silence e)) now p reason) (p_silences st) \<and>
    list_all (\<lambda>g. g \<noteq> [] \<and> list_all (\<lambda>p. p \<in> set seen \<and> Status p \<noteq> ''resolved'') g) (p_asked st) \<and>
    list_all (\<lambda>(n, m, ok). (\<exists>p. p \<in> set seen \<and> Payload m = Some p \<and> n \<in> fst ` set (e_notifiers e) \<and> n \<in> set (Route (e_router e) p)) \<and>
        (case M_Incident m of None \<Rightarrow> True | Some g \<Rightarrow> list_all (\<lambda>p. p \<in> set seen \<and> Status p \<noteq> ''resolved'') g)) (p_sent st)"
proof -
  have "pipe_ok e seen st" using going.run_good [OF assms(1) go_start_inv] by (simp add: go_inv_def assms(2,3))
  then show ?thesis by (intro logs_safe) (simp_all add: pipe_ok_def)
qed

text \<open>C4: Every accepted alert is delivered exactly once, under every interleaving. Whatever has happened, if no received alert makes
  the evidence panic, the goroutines and timers cannot go on for ever without new input, and when nothing is left to do
  each alert that passed the duplicate check is in exactly one completed delivery, or was dropped with a full
  correlation bucket (never when correlation is off), and the notifications sent are one per completed delivery and registered receiver of
  its representative, no more and no less. Each arrival passes the duplicate check at most once.\<close>

theorem accepted_alerts_delivered_once:
  assumes "(go_step e)\<^sup>*\<^sup>* (go_start (Pipeline_New s0 w pool corr)) s" and "\<forall>p\<in>set (g_seen s). evidence_ok e p"
  shows "\<not> (\<exists>f. f 0 = s \<and> (\<forall>i. go_move e (f i) (f (Suc i)))) \<and>
    (\<forall>s'. (go_move e)\<^sup>*\<^sup>* s s' \<and> \<not> (\<exists>s''. go_move e s' s'') \<longrightarrow>
       resting s' \<and> mset (g_passed s') = mset (concat (g_done s')) + mset (g_lost s') \<and> (\<not> cc_Enabled corr \<longrightarrow> g_lost s' = []) \<and>
       mset (notified (g_pipe s')) = mset (concat (map (due e) (g_done s'))) \<and> mset (g_passed s') \<subseteq># mset (g_seen s'))"
proof -
  have inv: "go_inv e s" by (rule going.run_good [OF assms(1) go_start_inv])
  have "resting s' \<and> mset (g_passed s') = mset (concat (g_done s')) + mset (g_lost s') \<and> (\<not> cc_Enabled corr \<longrightarrow> g_lost s' = []) \<and>
      mset (notified (g_pipe s')) = mset (concat (map (due e) (g_done s'))) \<and> mset (g_passed s') \<subseteq># mset (g_seen s')"
    if moves: "(go_move e)\<^sup>*\<^sup>* s s'" and stuck: "\<not> (\<exists>s''. go_move e s' s'')" for s'
  proof -
    have rest: "resting s'" using go_moves_seen [OF moves inv] assms(2) stuck by (intro go_progress) auto
    have run: "(go_step e)\<^sup>*\<^sup>* (go_start (Pipeline_New s0 w pool corr)) s'" using assms(1) go_moves_step [OF moves] by simp
    note accounts = resting_accounts [OF accounting.run_good [OF run go_start_accounts] rest]
    have "arrivals (go_start (Pipeline_New s0 w pool corr))" by (simp add: arrivals_def go_start_def tasks_of_def)
    from arriving.run_good [OF run this] rest have "mset (g_passed s') \<subseteq># mset (g_seen s')"
      by (simp add: arrivals_def resting_def tasks_of_def)
    moreover have "uncorrelated (go_start (Pipeline_New s0 w pool corr))" if "\<not> cc_Enabled corr"
      using that by (simp add: uncorrelated_def go_start_def tasks_of_def Pipeline_New_def Correlator_New_def)
    then have "\<not> cc_Enabled corr \<longrightarrow> g_lost s' = []" using uncorrelating.run_good [OF run] by (auto simp: uncorrelated_def)
    ultimately show ?thesis using rest accounts by blast
  qed
  then show ?thesis using go_moves_end by blast
qed

section \<open>An example\<close>

text \<open>One goroutine may run to its end without the others.\<close>

lemma drive_moves:
  assumes "drive e ts (g_pipe s) = Some st'" and "g_work s = xs @ (r, ts) # ys"
  obtains s' where "(go_move e)\<^sup>*\<^sup>* s s'" "g_work s' = xs @ ys" "g_pipe s' = st'"
proof -
  have "\<exists>s'. (go_move e)\<^sup>*\<^sup>* s s' \<and> g_work s' = xs @ ys \<and> g_pipe s' = st'"
    if "drive e ts st = Some st'" "g_work s = xs @ (r, ts) # ys" "g_pipe s = st" for st s
    using that
  proof (induction e ts st arbitrary: s rule: drive.induct)
    case (1 e st)
    then show ?case using go_move.return [of s xs r ys e] by (intro exI [of _ "s\<lparr>g_work := xs @ ys\<rparr>"]) auto
  next
    case (2 e t ts st)
    obtain ts' st1 where step: "task_step e t st = Some (ts', st1)" and d: "drive e (ts' @ ts) st1 = Some st'"
      using 2(2) by (auto simp: drive.simps(2) split: option.split_asm)
    note move = go_move.move [OF 2(3) step [folded 2(4)]]
    from 2(1) [OF step refl d] obtain s' where "(go_move e)\<^sup>*\<^sup>* (s\<lparr>g_passed := g_passed s @ passes t ts', g_lost := g_lost s @ loses t (g_pipe s),
        g_done := g_done s @ completes t, g_work := xs @ (r, ts' @ ts) # ys, g_pipe := st1\<rparr>) s'" "g_work s' = xs @ ys" "g_pipe s' = st'"
      by (metis (no_types, lifting) go.select_convs(5,6) go.surjective go.update_convs(5,6))
    then show ?case using converse_rtranclp_into_rtranclp [of "go_move e", OF move] by blast
  qed
  then show ?thesis using assms that by blast
qed

lemma demo_goes:
  obtains s where "(go_move demo_pipe_env)\<^sup>*\<^sup>* (go_spawn [demo_alert] (go_start demo_pipe)) s" "g_work s = []"
    "Process demo_pipe_env demo_alert demo_pipe = Some (g_pipe s)"
proof -
  let ?s = "go_spawn [demo_alert] (go_start demo_pipe)"
  obtain st' where p: "Process demo_pipe_env demo_alert demo_pipe = Some st'" using demo_processed by blast
  have w: "g_work ?s = [] @ (From_Ingest demo_alert, [At_Start demo_alert]) # []" "g_pipe ?s = demo_pipe" by (simp_all add: go_spawn_def go_start_def)
  have "drive demo_pipe_env [At_Start demo_alert] (g_pipe ?s) = Some st'" by (simp add: drive_start w p)
  then obtain s where "(go_move demo_pipe_env)\<^sup>*\<^sup>* ?s s" "g_work s = [] @ []" "g_pipe s = st'" using w(1) by (rule drive_moves)
  with p that show ?thesis by simp
qed

lemma demo_spawned: "(go_step demo_pipe_env)\<^sup>*\<^sup>* (go_start demo_pipe) (go_spawn [demo_alert] (go_start demo_pipe))"
  using go_step.spawn by (rule r_into_rtranclp)

theorem interleavings_safe_witness:
  "\<exists>s. (go_step demo_pipe_env)\<^sup>*\<^sup>* (go_start demo_pipe) s \<and> g_work s = [] \<and>
     list_all (\<lambda>g. g \<noteq> [] \<and> list_all (\<lambda>p. p \<in> set (g_seen s) \<and> Status p \<noteq> ''resolved'') g) (p_asked (g_pipe s))"
proof -
  obtain s where s: "(go_move demo_pipe_env)\<^sup>*\<^sup>* (go_spawn [demo_alert] (go_start demo_pipe)) s" "g_work s = []" by (rule demo_goes)
  have run: "(go_step demo_pipe_env)\<^sup>*\<^sup>* (go_start demo_pipe) s" using demo_spawned go_moves_step [OF s(1)] by simp
  from interleavings_safe [OF run [unfolded demo_pipe_def] refl refl] show ?thesis using run s(2) by blast
qed

theorem accepted_alerts_delivered_once_witness:
  "\<exists>s. (go_move demo_pipe_env)\<^sup>*\<^sup>* (go_spawn [demo_alert] (go_start demo_pipe)) s \<and> map fst (notified (g_pipe s)) = [''chat''] \<and>
     resting s \<and> g_lost s = [] \<and> mset (notified (g_pipe s)) = mset (concat (map (due demo_pipe_env) (g_done s)))"
proof -
  obtain s where s: "(go_move demo_pipe_env)\<^sup>*\<^sup>* (go_spawn [demo_alert] (go_start demo_pipe)) s" "g_work s = []"
    "Process demo_pipe_env demo_alert demo_pipe = Some (g_pipe s)" by (rule demo_goes)
  have ev: "evidence_ok demo_pipe_env demo_alert" by (simp add: evidence_ok_def shown_series_def demo_alert_plain)
  obtain msg where "sent_to (g_pipe s) = [(''chat'', msg)]"
    using firing_alert_delivered [OF _ demo_not_dup(1) demo_pipe_start(1) ev] s(3) by (auto simp: demo_alert_plain demo_route demo_pipe_start)
  then have chat: "map fst (notified (g_pipe s)) = [''chat'']" by (simp add: notified_def)
  have run: "(go_step demo_pipe_env)\<^sup>*\<^sup>* (go_start demo_pipe) s" using demo_spawned go_moves_step [OF s(1)] by simp
  have "uncorrelated (go_start demo_pipe)"
    by (simp add: uncorrelated_def go_start_def tasks_of_def demo_pipe_def Pipeline_New_def Correlator_New_def)
  from uncorrelating.run_good [OF run this] have stuck: "\<not> (\<exists>s'. go_move demo_pipe_env s s')"
    using s(2) by (auto simp: uncorrelated_def elim: go_move_cases)
  have seen: "\<forall>p\<in>set (g_seen (go_spawn [demo_alert] (go_start demo_pipe))). evidence_ok demo_pipe_env p"
    by (simp add: go_spawn_def go_start_def ev)
  note once = accepted_alerts_delivered_once [OF demo_spawned [unfolded demo_pipe_def], folded demo_pipe_def, OF seen,
      THEN conjunct2, rule_format, OF conjI [OF s(1) stuck]]
  from once have "g_lost s = []" by simp
  with once show ?thesis using s(1) chat by (intro exI [of _ s] conjI) simp_all
qed

end
