(* ===== verification/ModelCalls.thy ===== *)
theory ModelCalls
  imports Interleavings
begin

text \<open>
  The limiter of \<open>internal/ratelimit\<close> under the interleaved goroutines of the pipeline: the slots that are taken are
  the calls of the model that are under way, so that no interleaving exceeds the limit of a cluster or leaks a slot.
\<close>

section \<open>Slots of the pool\<close>

definition slots_of :: "Pool \<Rightarrow> string \<Rightarrow> nat" where
  "slots_of p cluster = (case buckets p cluster of Some (Some l) \<Rightarrow> slots l | _ \<Rightarrow> 0)"

definition pool_good :: "Pool \<Rightarrow> bool" where
  "pool_good p \<longleftrightarrow> 0 < callsPerMinute p \<and> 0 < maxConcurrent p \<and>
     (\<forall>cluster b. buckets p cluster = Some b \<longrightarrow>
        (\<exists>l. b = Some l \<and> slots l \<le> capacity l \<and> capacity l = nat (maxConcurrent p)))"

lemma NewPool_good: "NewPool c b m = Some p \<Longrightarrow> pool_good p \<and> maxConcurrent p = m \<and> slots_of p cluster = 0"
  by (auto simp: NewPool_def pool_good_def slots_of_def split: if_split_asm)

lemma slots_bounded: "pool_good p \<Longrightarrow> int (slots_of p cluster) \<le> maxConcurrent p"
  by (cases "buckets p cluster") (force simp: pool_good_def slots_of_def)+

lemma Pool_bucket_good:
  assumes "pool_good p"
  obtains l where "Pool_bucket now p cluster = (Some l, p\<lparr>buckets := (buckets p)(cluster \<mapsto> Some l)\<rparr>)" "slots l \<le> capacity l"
    "capacity l = nat (maxConcurrent p)" "slots l = slots_of p cluster"
proof (cases "buckets p cluster")
  case None
  from assms obtain l where "Limiter_New now (callsPerMinute p) (burst p) (maxConcurrent p) = Some l" "slots l = 0" "capacity l = nat (maxConcurrent p)"
    by (auto simp: pool_good_def Limiter_New_def Let_def)
  with None that [of l] show ?thesis by (simp add: Pool_bucket_def slots_of_def Let_def)
next
  case (Some b)
  with assms obtain l where l: "b = Some l" "slots l \<le> capacity l" "capacity l = nat (maxConcurrent p)" unfolding pool_good_def by blast
  have "p\<lparr>buckets := (buckets p)(cluster \<mapsto> Some l)\<rparr> = p" using Some l by (simp add: fun_upd_idem)
  note same = this
  show ?thesis
  proof (rule that [of l])
    show "Pool_bucket now p cluster = (Some l, p\<lparr>buckets := (buckets p)(cluster \<mapsto> Some l)\<rparr>)"
      unfolding same using Some l by (simp add: Pool_bucket_def)
  qed (use Some l in \<open>simp_all add: slots_of_def\<close>)
qed

lemma pool_good_upd:
  "pool_good p \<Longrightarrow> slots l \<le> capacity l \<Longrightarrow> capacity l = nat (maxConcurrent p) \<Longrightarrow> pool_good (p\<lparr>buckets := (buckets p)(cluster \<mapsto> Some l)\<rparr>)"
  by (simp add: pool_good_def)

lemma Limiter_Acquire_slots:
  assumes "Limiter_Acquire now (Some l) c = Some (ok, b, ms)" and "slots l \<le> capacity l"
  shows "\<exists>l'. b = Some l' \<and> slots l' = slots l + of_bool ok \<and> slots l' \<le> capacity l' \<and> capacity l' = capacity l"
proof -
  obtain got l2 where t: "take_token now (l\<lparr>slots := slots l + 1\<rparr>) = (got, l2)" by fastforce
  then have "slots l2 = slots l + 1" "capacity l2 = capacity l"
    using take_token_frame(1,2) [of now "l\<lparr>slots := slots l + 1\<rparr>"] unfolding t by simp_all
  with assms t show ?thesis by (auto simp: Limiter_Acquire_some split: if_split_asm)
qed

lemma Pool_Acquire_slots:
  assumes "Pool_Acquire now now' (Some p) cluster = Some (ok, pool, ms)" and good: "pool_good p"
  shows "\<exists>p'. pool = Some p' \<and> pool_good p' \<and> maxConcurrent p' = maxConcurrent p \<and>
    (\<forall>c. slots_of p' c = slots_of p c + of_bool (ok \<and> c = cluster))"
proof -
  obtain l where b: "Pool_bucket now p cluster = (Some l, p\<lparr>buckets := (buckets p)(cluster \<mapsto> Some l)\<rparr>)" "slots l \<le> capacity l"
    "capacity l = nat (maxConcurrent p)" "slots l = slots_of p cluster" by (rule Pool_bucket_good [OF good])
  obtain b' where a: "Limiter_Acquire now' (Some l) cluster = Some (ok, b', ms)" "pool = Some (p\<lparr>buckets := (buckets p)(cluster \<mapsto> b')\<rparr>)"
    using assms(1) b(1) by (auto simp: Pool_Acquire_def split: option.split_asm)
  obtain l' where l': "b' = Some l'" "slots l' = slots l + of_bool ok" "slots l' \<le> capacity l'" "capacity l' = capacity l"
    using Limiter_Acquire_slots [OF a(1) b(2)] by blast
  have "slots_of (p\<lparr>buckets := (buckets p)(cluster \<mapsto> Some l')\<rparr>) c = slots_of p c + of_bool (ok \<and> c = cluster)" for c
    using b(4) l'(2) by (simp add: slots_of_def)
  with a l' b(3) pool_good_upd [OF good, of l' cluster] show ?thesis by simp
qed

lemma Pool_Release_slots:
  assumes good: "pool_good p" and "0 < slots_of p cluster"
  shows "\<exists>p'. Pool_Release now (Some p) cluster = Some p' \<and> pool_good p' \<and> maxConcurrent p' = maxConcurrent p \<and>
    (\<forall>c. slots_of p' c + of_bool (cluster = c) = slots_of p c)"
proof -
  obtain l where b: "Pool_bucket now p cluster = (Some l, p\<lparr>buckets := (buckets p)(cluster \<mapsto> Some l)\<rparr>)" "slots l \<le> capacity l"
    "capacity l = nat (maxConcurrent p)" "slots l = slots_of p cluster" by (rule Pool_bucket_good [OF good])
  let ?l = "l\<lparr>slots := slots l - 1\<rparr>"
  have "Pool_Release now (Some p) cluster = Some (p\<lparr>buckets := (buckets p)(cluster \<mapsto> Some ?l)\<rparr>)"
    using b assms(2) by (simp add: Pool_Release_def Limiter_Release_def give_back_def)
  moreover have "slots_of (p\<lparr>buckets := (buckets p)(cluster \<mapsto> Some ?l)\<rparr>) c + of_bool (cluster = c) = slots_of p c" for c
    using b(4) assms(2) by (simp add: slots_of_def)
  ultimately show ?thesis using b pool_good_upd [OF good, of ?l cluster] by simp
qed

section \<open>Calls under way\<close>

text \<open>The goroutines between \<open>Acquire\<close> and the deferred \<open>Release\<close>.\<close>

fun calling :: "string \<Rightarrow> task \<Rightarrow> bool" where
  "calling cluster (At_Examples j c) \<longleftrightarrow> ClusterId (j_rep j) = cluster"
| "calling cluster (At_Model j c exs) \<longleftrightarrow> ClusterId (j_rep j) = cluster"
| "calling cluster (At_Store j c a) \<longleftrightarrow> ClusterId (j_rep j) = cluster"
| "calling cluster (At_Release j c a) \<longleftrightarrow> ClusterId (j_rep j) = cluster"
| "calling cluster _ \<longleftrightarrow> False"

definition calls_of :: "string \<Rightarrow> task list \<Rightarrow> nat" where
  "calls_of cluster ts = length (filter (calling cluster) ts)"

lemma calls_simps [simp]:
  "calls_of cluster [] = 0" "calls_of cluster (t # ts) = of_bool (calling cluster t) + calls_of cluster ts"
  "calls_of cluster (ts @ us) = calls_of cluster ts + calls_of cluster us"
  by (simp_all add: calls_of_def)

text \<open>The other tasks leave the pool alone, and start no call.\<close>

lemma task_step_pool:
  assumes step: "task_step e t st = Some (ts, st')" and "\<not> (\<exists>j c a. t = At_Limiter j c \<or> t = At_Release j c a)"
  shows "p_pool st' = p_pool st"
proof (cases t)
  case (At_Start p)
  have "p_pool st1 = p_pool st" if "check_dup e test p (received p st) = (d, st1)" for test d st1
    using check_dup_frame [OF that] received_frame [of st p] by simp
  with step show ?thesis by (auto simp: At_Start split: if_split_asm prod.split_asm)
next
  case (At_Sends k c msg ns)
  then show ?thesis using step by (cases ns) (auto simp: send_one_frame count_received split: option.split_asm)
next
  case (At_Flush ks)
  then show ?thesis using step by (cases ks) (auto split: prod.split_asm)
next
  case (At_Silence j c a)
  then show ?thesis using step maybeSilence_frame [of st e "j_rep j" a] by auto
next
  case (At_Store j c a)
  then show ?thesis using step cache_set_frame [of st e "j_rep j" "Some a"] by auto
next
  case (At_History j c a)
  then show ?thesis using step history_frame [of st e "j_rep j" a "j_alerts j"] by auto
qed (use assms in \<open>auto split: prod.split_asm option.split_asm dest!: deadline_frame cache_get_frame examples_frame ask_job_frame feedback_frame\<close>)

lemma task_step_calls:
  assumes step: "task_step e t st = Some (ts, st')" and "\<not> (\<exists>j c a. t = At_Limiter j c \<or> t = At_Release j c a)"
  shows "calls_of cluster ts = of_bool (calling cluster t)"
proof (cases t)
  case (At_Flush ks)
  have "calls_of cluster (map At_Group gs) = 0" for gs by (induction gs) simp_all
  then show ?thesis using step by (cases ks) (auto simp: At_Flush split: prod.split_asm)
next
  case (At_Sends k c msg ns)
  then show ?thesis using step by (cases ns) auto
qed (use assms in \<open>auto split: prod.split_asm option.split_asm if_split_asm\<close>)

lemma task_step_slots:
  assumes step: "task_step e t st = Some (ts, st')" and p: "p_pool st = Some p" "pool_good p"
    and held: "\<And>cluster. calling cluster t \<Longrightarrow> 0 < slots_of p cluster"
  shows "\<exists>p'. p_pool st' = Some p' \<and> pool_good p' \<and> maxConcurrent p' = maxConcurrent p \<and>
    (\<forall>c. slots_of p' c + of_bool (calling c t) = slots_of p c + calls_of c ts)"
proof (cases "\<exists>j c a. t = At_Limiter j c \<or> t = At_Release j c a")
  case False
  then show ?thesis using task_step_pool [OF step False] task_step_calls [OF step False] p by auto
next
  case True
  then consider (take) j c where "t = At_Limiter j c" | (give) j c a where "t = At_Release j c a" by blast
  then show ?thesis
  proof cases
    case take
    let ?cl = "ClusterId (j_rep j)"
    obtain ok where a: "acquire e ?cl st = Some (ok, st')" and ts: "ts = [if ok then At_Examples j c else At_Silence j c None]"
      using step take by (auto split: option.split_asm)
    obtain t1 t2 pool ms where "Pool_Acquire t1 t2 (Some p) ?cl = Some (ok, pool, ms)" "p_pool st' = pool"
      using a p(1) by (auto simp: acquire_def now_of_def count_def split: prod.split_asm option.split_asm)
    with Pool_Acquire_slots [OF _ p(2)] ts show ?thesis by (fastforce simp: take)
  next
    case give
    let ?cl = "ClusterId (j_rep j)"
    obtain now where r: "p_pool st' = Pool_Release now (Some p) ?cl" and ts: "ts = [At_Silence j c a]"
      using step p(1) by (cases "e_tick e (p_world st)") (auto simp: give release_def now_of_def)
    have "0 < slots_of p ?cl" using held by (simp add: give)
    from Pool_Release_slots [OF p(2) this, of now] r ts show ?thesis by (auto simp: give)
  qed
qed

section \<open>Invariant\<close>

definition calls_match :: "int \<Rightarrow> ('s, 'w) go \<Rightarrow> bool" where
  "calls_match m s \<longleftrightarrow> (\<exists>p. p_pool (g_pipe s) = Some p \<and> pool_good p \<and> maxConcurrent p = m \<and>
     (\<forall>cluster. slots_of p cluster = calls_of cluster (tasks_of s)))"

lemma go_step_calls: "go_step e s s' \<Longrightarrow> calls_match m s \<Longrightarrow> calls_match m s'"
proof (induction rule: go_step.induct)
  case (spawn s ps)
  have "calls_of cluster (map At_Start ps) = 0" for cluster by (induction ps) simp_all
  then show ?case using spawn by (simp add: calls_match_def tasks_spawn) (simp add: go_spawn_def)
next
  case (shut s)
  then show ?case by (simp add: calls_match_def tasks_of_def go_drain_def)
next
  case (inner s s')
  from inner(1) show ?case
  proof cases
    case (move xs r t ts ys ts' st)
    obtain p where p: "p_pool (g_pipe s) = Some p" "pool_good p" "maxConcurrent p = m"
      "\<And>cluster. slots_of p cluster = calls_of cluster (tasks_of s)"
      using inner(2) by (auto simp: calls_match_def)
    have "0 < slots_of p cluster" if "calling cluster t" for cluster using that by (simp add: p tasks_of_def move)
    from task_step_slots [OF move(3) p(1,2) this] obtain p' where p': "p_pool st = Some p'" "pool_good p'" "maxConcurrent p' = m"
      and slots: "\<And>c. slots_of p' c + of_bool (calling c t) = slots_of p c + calls_of c ts'"
      using p(3) by auto
    have "slots_of p' c = calls_of c (tasks_of s')" for c
      using slots [of c] p(4) [of c] by (simp add: tasks_of_def move)
    with p' show ?thesis by (simp add: calls_match_def move)
  qed (use inner(2) in \<open>simp_all add: calls_match_def tasks_of_def disarm_def\<close>)
qed

interpretation calling: step_system "go_step e" "calls_match m" for e m
  by unfold_locales (rule go_step_calls)

text \<open>C6: The cost backstop holds for the whole pipeline. However the goroutines of alerts, incidents and drains interleave, the
  calls of the model that are under way for a cluster (from the limiter's consent to the deferred release, also when the
  call fails) never exceed the configured maximum, and they are exactly the slots taken: when no goroutine is left, every slot is free again.\<close>

theorem model_calls_bounded:
  assumes "NewPool c b m = Some pool" and "(go_step e)\<^sup>*\<^sup>* (go_start (Pipeline_New s0 w (Some pool) corr)) s"
  shows "int (calls_of cluster (tasks_of s)) \<le> m \<and>
    (\<exists>p. p_pool (g_pipe s) = Some p \<and> slots_of p cluster = calls_of cluster (tasks_of s) \<and> (g_work s = [] \<longrightarrow> slots_of p cluster = 0))"
proof -
  have "calls_match m (go_start (Pipeline_New s0 w (Some pool) corr))"
    using NewPool_good [OF assms(1)] by (simp add: calls_match_def go_start_def Pipeline_New_def tasks_of_def)
  from calling.run_good [OF assms(2) this] obtain p where p: "p_pool (g_pipe s) = Some p" "pool_good p" "maxConcurrent p = m"
    "slots_of p cluster = calls_of cluster (tasks_of s)"
    by (auto simp: calls_match_def)
  with slots_bounded [OF p(2), of cluster] show ?thesis by (simp add: tasks_of_def)
qed

section \<open>An example\<close>

text \<open>A deployment with a limiter and no cache, and a goroutine on its way to the model.\<close>

definition limited_env :: "(Memory, nat) env" where
  "limited_env = demo_pipe_env\<lparr>e_tick := (\<lambda>w. (0, w)), e_cache := Cache_New False 30 None False (Finite 1)\<rparr>"

abbreviation limited_pipe :: "(Memory, nat) pipe" where
  "limited_pipe \<equiv> Pipeline_New NewMemory 0 (Some demo_pool) \<lparr>cc_Enabled = False, WindowSeconds = 30, MaxGroup = 5\<rparr>"

lemma limited_steps:
  "\<exists>st. task_step limited_env (At_Start demo_alert) limited_pipe = Some ([At_Single demo_alert], st) \<and> p_pool st = Some demo_pool"
  "p_pool st = Some demo_pool \<Longrightarrow> \<exists>c st'. task_step limited_env (At_Single p) st = Some ([At_Lookup (single_job p) c], st') \<and> p_pool st' = Some demo_pool"
  "p_pool st = Some demo_pool \<Longrightarrow> \<exists>st'. task_step limited_env (At_Lookup j c) st = Some ([At_Limiter j c], st') \<and> p_pool st' = Some demo_pool"
  "p_pool st = Some demo_pool \<Longrightarrow> \<exists>st'. task_step limited_env (At_Limiter j c) st = Some ([At_Examples j c], st')"
  using demo_acquire [of "ClusterId (j_rep j)"]
  by (auto simp: limited_env_def demo_pipe_env_def check_dup_def received_def now_of_def count_def deadline_def cache_get_def Cache_Get_def
      Cache_New_def acquire_def demo_store_simps Pipeline_New_def Correlator_New_def demo_alert_plain)

lemma step_alone:
  assumes "(go_step e)\<^sup>*\<^sup>* s0 s" and "g_work s = [(r, t # ts)]" and "task_step e t (g_pipe s) = Some (ts', st)"
  shows "\<exists>s'. (go_step e)\<^sup>*\<^sup>* s0 s' \<and> g_work s' = [(r, ts' @ ts)] \<and> g_pipe s' = st"
  using rtranclp.rtrancl_into_rtrancl [OF assms(1) go_step.inner [OF go_move.move [of s "[]" r t ts "[]", OF _ assms(3)]]] assms(2)
  by fastforce

theorem model_calls_bounded_witness:
  "\<exists>s. (go_step limited_env)\<^sup>*\<^sup>* (go_start limited_pipe) s \<and> calls_of (ClusterId demo_alert) (tasks_of s) = 1 \<and>
     (\<exists>p. p_pool (g_pipe s) = Some p \<and> slots_of p (ClusterId demo_alert) = 1)"
proof -
  let ?s0 = "go_start limited_pipe"
  have s1: "(go_step limited_env)\<^sup>*\<^sup>* ?s0 (go_spawn [demo_alert] ?s0)" using go_step.spawn by (rule r_into_rtranclp)
  have w: "g_work (go_spawn [demo_alert] ?s0) = [(From_Ingest demo_alert, [At_Start demo_alert])]" "g_pipe (go_spawn [demo_alert] ?s0) = limited_pipe"
    by (simp_all add: go_spawn_def go_start_def)
  obtain st1 where st1: "task_step limited_env (At_Start demo_alert) limited_pipe = Some ([At_Single demo_alert], st1)" "p_pool st1 = Some demo_pool"
    using limited_steps(1) by blast
  from step_alone [OF s1 w(1)] st1 w(2) obtain s2 where s2: "(go_step limited_env)\<^sup>*\<^sup>* ?s0 s2"
    "g_work s2 = [(From_Ingest demo_alert, [At_Single demo_alert])]" "p_pool (g_pipe s2) = Some demo_pool" by fastforce
  from step_alone [OF s2(1,2)] limited_steps(2) [OF s2(3)] obtain c s3 where s3: "(go_step limited_env)\<^sup>*\<^sup>* ?s0 s3"
    "g_work s3 = [(From_Ingest demo_alert, [At_Lookup (single_job demo_alert) c])]" "p_pool (g_pipe s3) = Some demo_pool" by fastforce
  from step_alone [OF s3(1,2)] limited_steps(3) [OF s3(3)] obtain s4 where s4: "(go_step limited_env)\<^sup>*\<^sup>* ?s0 s4"
    "g_work s4 = [(From_Ingest demo_alert, [At_Limiter (single_job demo_alert) c])]" "p_pool (g_pipe s4) = Some demo_pool" by fastforce
  from step_alone [OF s4(1,2)] limited_steps(4) [OF s4(3)] obtain s where s: "(go_step limited_env)\<^sup>*\<^sup>* ?s0 s"
    "g_work s = [(From_Ingest demo_alert, [At_Examples (single_job demo_alert) c])]" by fastforce
  have calls: "calls_of (ClusterId demo_alert) (tasks_of s) = 1" by (simp add: tasks_of_def s(2) single_job_def)
  have "NewPool 60 2 2 = Some demo_pool" by (simp add: NewPool_def demo_pool_def)
  from model_calls_bounded [OF this s(1), of "ClusterId demo_alert"] calls show ?thesis using s(1) by auto
qed

end
