(* ===== verification/System.thy ===== *)
theory System
  imports Startup EndToEnd ModelCalls
begin

text \<open>
  The whole program: the transports of \<open>internal/grpcsrv\<close> and \<open>internal/signedsrv\<close> in front of the pipeline, as
  \<open>cmd/muthur/main.go\<close> connects them, over one store. A run interleaves requests, the calls of the goroutines that \<open>Ingest\<close> starts,
  timers of the correlator, drains and the activity of other replicas in the shared store.
\<close>

section \<open>Wiring\<close>

text \<open>The handlers share the signer, the replay guard and the store of the server. \<open>ext\<close> holds the functions of the
  standard library and of the protocol buffer code that the signed transport calls.\<close>

definition server_brain :: "('s, 'w, 'c) host \<Rightarrow> 't store_ops \<Rightarrow> ('s, 'w) server \<Rightarrow> 't Brain" where
  "server_brain h ops sv =
     \<lparr>B_x509 = h_x509 h, B_sha256 = h_sha256 h, B_store = ops, B_bootstrap = sv_bootstrap sv, B_renew = sv_signer sv,
      B_replay = sv_replay sv\<rparr>"

definition server_deps :: "('s, 'w, 'c) host \<Rightarrow> 't store_ops \<Rightarrow> ('t, 'c) Deps \<Rightarrow> ('s, 'w) server \<Rightarrow> ('t, 'c) Deps" where
  "server_deps h ops ext sv =
     (let D = ext\<lparr>D_Brain := server_brain h ops sv, D_Signer := sv_signer sv, D_hpke := h_hpke h\<rparr>
      in case sv_signed sv of None \<Rightarrow> D | Some (ks, trust) \<Rightarrow> D\<lparr>D_Keys := ks, D_Trust := trust\<rparr>)"

text \<open>The listeners that are open.\<close>

fun served :: "('s, 'w) server \<Rightarrow> brain_event \<Rightarrow> bool" where
  "served sv (Over_gRPC e req ctx) \<longleftrightarrow> sv_grpc sv \<noteq> None"
| "served sv (Over_HTTP e r) \<longleftrightarrow> sv_signed sv \<noteq> None"
| "served sv (Elsewhere ev) \<longleftrightarrow> True"

section \<open>Runs\<close>

text \<open>The polls of the tenants file are steps of their own; \<open>polls\<close> restricts what they find. \<open>sy_go\<close> are the goroutines and
  what they share; \<open>sy_log\<close> records the request that brought each alert. The pipeline and the transports see the same store.\<close>

record ('t, 'v) system =
  sy_brain :: "'t brain_state"
  sy_go :: "('t, 'v) go"
  sy_tenants :: TenantsReloader
  sy_log :: "(brain_event \<times> AlertPayload) list"

abbreviation sy_pipe :: "('t, 'v) system \<Rightarrow> ('t, 'v) pipe" where
  "sy_pipe s \<equiv> g_pipe (sy_go s)"

definition system_start :: "('s, 'w) server \<Rightarrow> 't \<Rightarrow> 'w \<Rightarrow> ('t, backend \<times> 'w) system" where
  "system_start sv t w =
     \<lparr>sy_brain = \<lparr>bs_store = t, bs_ingest = Ingest_NewHandler\<rparr>, sy_go = go_start (server_pipe t w sv), sy_tenants = sv_tenants sv,
      sy_log = []\<rparr>"

text \<open>What a request hands over; each alert gets a goroutine.\<close>

definition handed_over :: "'t brain_state \<Rightarrow> 't brain_state \<Rightarrow> AlertPayload list" where
  "handed_over b b' = drop (length (spawned (bs_ingest b))) (spawned (bs_ingest b'))"

definition after_request :: "brain_event \<Rightarrow> 't brain_state \<Rightarrow> ('t, 'v) system \<Rightarrow> ('t, 'v) system" where
  "after_request ev b s =
     s\<lparr>sy_brain := b, sy_go := go_spawn (handed_over (sy_brain s) b) (go_store (bs_store b) (sy_go s)),
       sy_log := sy_log s @ map (Pair ev) (handed_over (sy_brain s) b)\<rparr>"

text \<open>The goroutines of alerts that have not returned. The last thing each does is the deferred \<open>Done\<close>.\<close>

definition ingesting :: "('t, 'v) go \<Rightarrow> nat" where
  "ingesting g = length (filter (\<lambda>(r, ts). is_ingest r) (g_work g))"

definition after_go :: "('t, 'v) go \<Rightarrow> ('t, 'v) system \<Rightarrow> ('t, 'v) system" where
  "after_go g s =
     s\<lparr>sy_go := g, sy_brain := \<lparr>bs_store = p_store (g_pipe g),
       bs_ingest = (if ingesting g < ingesting (sy_go s) then Ingest_Done (bs_ingest (sy_brain s)) else bs_ingest (sy_brain s))\<rparr>\<rparr>"

text \<open>The revocation check of a request reads the current snapshot of the tenants.\<close>

definition gate_current :: "('t, 'v) system \<Rightarrow> brain_event \<Rightarrow> bool" where
  "gate_current s ev =
     (case ev_env ev of None \<Rightarrow> True | Some env \<Rightarrow> tenants_gate env = Tenants_Current (sy_tenants s))"

inductive sys_step ::
  "(gotime \<Rightarrow> 't \<Rightarrow> 't) \<Rightarrow> ('t, 'c) Deps \<Rightarrow> (bytes \<Rightarrow> string + Tenant list) \<Rightarrow> (brain_event \<Rightarrow> bool) \<Rightarrow> (file_view \<Rightarrow> bool) \<Rightarrow>
   ('t, 'v) env \<Rightarrow> ('t, 'v) system \<Rightarrow> ('t, 'v) system \<Rightarrow> bool"
  for bg D yaml serves polls e where
  request: "serves ev \<Longrightarrow> gate_current s ev \<Longrightarrow>
    sys_step bg D yaml serves polls e s (after_request ev (brain_step bg D ev (sy_brain s)) s)"
| work: "go_move e (sy_go s) g \<Longrightarrow> sys_step bg D yaml serves polls e s (after_go g s)"
| poll: "polls fv \<Longrightarrow> sys_step bg D yaml serves polls e s (s\<lparr>sy_tenants := poll_tick yaml fv (sy_tenants s)\<rparr>)"
| flush: "sys_step bg D yaml serves polls e s (s\<lparr>sy_go := go_drain (sy_go s)\<rparr>)"

section \<open>Where alerts come from\<close>

text \<open>A request authenticated a cluster: its caller's certificate names it, and the tenant was active when the request
  was checked.\<close>

definition authenticated :: "('t, 'c) Deps \<Rightarrow> brain_event \<Rightarrow> string \<Rightarrow> bool" where
  "authenticated D ev cluster \<longleftrightarrow>
     (\<exists>i ts nonce env. presents D ev i ts nonce \<and> ev_env ev = Some env \<and> tenant_active (tenants_gate env) i \<and>
        ClusterID i = cluster)"

lemma grpc_hands_over:
  assumes "b' = snd (grpc_call (D_Brain D) e req ctx b)"
  shows "spawned (bs_ingest b') = spawned (bs_ingest b) \<or>
    (\<exists>p. spawned (bs_ingest b') = spawned (bs_ingest b) @ [p] \<and> authenticated D (Over_gRPC e req ctx) (ClusterId p))"
proof -
  obtain res where call: "grpc_call (D_Brain D) e req ctx b = (res, b')"
    using assms by (cases "grpc_call (D_Brain D) e req ctx b") simp
  show ?thesis
  proof (cases "\<exists>p i. req = Ingest_Request p \<and> grpc_passes (D_Brain D) e ctx b i \<and> ClusterID i = ClusterId p")
    case True
    then obtain p i where p: "req = Ingest_Request p" "grpc_passes (D_Brain D) e ctx b i" "ClusterID i = ClusterId p" by blast
    then have "authenticated D (Over_gRPC e req ctx) (ClusterId p)" by (auto simp: authenticated_def grpc_passes_def)
    moreover have "spawned (bs_ingest b') = spawned (bs_ingest b) @ [p]" using grpc_spawns [OF call] True p(1) by auto
    ultimately show ?thesis by blast
  next
    case False
    then show ?thesis using grpc_spawns [OF call] by (simp only: if_False) simp
  qed
qed

lemma signed_hands_over:
  assumes "b' = snd (signed_serve D e r b)"
  shows "spawned (bs_ingest b') = spawned (bs_ingest b) \<or>
    (\<exists>p. spawned (bs_ingest b') = spawned (bs_ingest b) @ [p] \<and> authenticated D (Over_HTTP e r) (ClusterId p))"
proof (cases "q_path r = PathIngest \<and> q_method r = ''POST''")
  case True
  then have b': "b' = snd (signed_ingest D e r b)" using assms by (simp add: signed_serve_ingest)
  have auth: "authenticated D (Over_HTTP e r) (ClusterId p)" if "signed_delivers D e r t i p" for t i p
    using that True unfolding signed_delivers_def signed_passes_def authenticated_def
    by (auto simp: call_env.truncate_def)
  show ?thesis
    using signed_ingest_spawns(2) [of D e r b] signed_ingest_spawns(1) [of D e r b] auth unfolding b' by blast
next
  case False
  then show ?thesis
    using assms by (auto simp: signed_serve_ingest signed_signCSR_spawns signed_bootstrap_spawns)
qed

lemma brain_hands_over:
  "\<exists>new. spawned (bs_ingest (brain_step bg D ev b)) = spawned (bs_ingest b) @ new \<and>
     list_all (\<lambda>p. authenticated D ev (ClusterId p)) new"
proof (cases ev)
  case (Over_gRPC e req ctx)
  with grpc_hands_over [OF refl, of D e req ctx b] show ?thesis by (metis append_Nil2 brain_step.simps(1) list.pred_inject)
next
  case (Over_HTTP e r)
  with signed_hands_over [OF refl, of D e r b] show ?thesis by (metis append_Nil2 brain_step.simps(2) list.pred_inject)
next
  case (Elsewhere sev)
  then show ?thesis by (intro exI [of _ "[]"]) simp
qed

section \<open>The wait group\<close>

text \<open>Every alert that is handed over adds one to the wait group.\<close>

definition balanced :: "'t brain_state \<Rightarrow> 't brain_state \<Rightarrow> bool" where
  "balanced b b' \<longleftrightarrow> length (spawned (bs_ingest b')) + wg (bs_ingest b) = length (spawned (bs_ingest b)) + wg (bs_ingest b')"

lemma balanced_same: "bs_ingest b' = bs_ingest b \<Longrightarrow> balanced b b'"
  by (simp add: balanced_def)

lemma dispatch_balanced: "balanced b (snd (Brain_dispatch B e req ident b))"
  by (cases req) (auto simp: balanced_def Brain_dispatch_def Server_Ingest_def Ingest_def Server_BootstrapCert_def Server_SignCSR_def
      split: option.split sum.split prod.split)

lemma balanced_store: "balanced (b\<lparr>bs_store := s\<rparr>) b' = balanced b b'"
  by (simp add: balanced_def)

lemma grpc_balanced: "balanced b (snd (grpc_call B e req ctx b))"
  using dispatch_balanced [of b B e req] dispatch_balanced [of "b\<lparr>bs_store := s\<rparr>" B e req for s]
  by (auto simp: grpc_call_def AuthInterceptor_def RevocationInterceptor_def ReplayInterceptor_def balanced_store balanced_same Let_def
      split: option.split sum.split prod.split list.split)

lemma handle_balanced:
  assumes "\<And>ident inp b. balanced b (snd (call ident inp b))"
  shows "balanced b (snd (handle D e r path auth call b))"
proof -
  have a: "balanced b (snd (answer_sealed D e r path body (call ident) b))" for body ident b
    using assms by (simp add: answer_sealed_state balanced_same split: sum.split prod.split)
  then have "balanced b (snd (answer_sealed D e r path body (call ident) (b\<lparr>bs_store := s\<rparr>)))" for body ident s
    unfolding balanced_store [of s b, symmetric] .
  with a show ?thesis by (simp add: handle_def balanced_same split: sum.split prod.split)
qed

lemma brain_balanced: "balanced b (brain_step bg D ev b)"
proof (cases ev)
  case (Over_HTTP e r)
  have "balanced b (snd (signed_ingest D e r b))" "balanced b (snd (signed_signCSR D e r b))" "balanced b (snd (signed_bootstrap D e r b))"
    unfolding signed_ingest_def signed_signCSR_def signed_bootstrap_def
    by (rule handle_balanced; simp add: dispatch_balanced balanced_same split: option.split)+
  then show ?thesis by (simp add: Over_HTTP signed_serve_ingest balanced_same)
qed (simp_all add: grpc_balanced balanced_same)

lemma after_request_log:
  "\<exists>new. after_request ev (brain_step bg D ev (sy_brain s)) s =
     s\<lparr>sy_brain := brain_step bg D ev (sy_brain s), sy_go := go_spawn new (go_store (bs_store (brain_step bg D ev (sy_brain s))) (sy_go s)),
       sy_log := sy_log s @ map (Pair ev) new\<rparr> \<and>
     list_all (\<lambda>p. authenticated D ev (ClusterId p)) new \<and>
     wg (bs_ingest (brain_step bg D ev (sy_brain s))) = wg (bs_ingest (sy_brain s)) + length new"
  using brain_hands_over [of bg D ev "sy_brain s"] brain_balanced [of "sy_brain s" bg D ev]
  by (auto simp: after_request_def handed_over_def balanced_def)

lemma ingesting_spawn: "ingesting (go_spawn ps g) = ingesting g + length ps"
proof -
  have "filter (\<lambda>(r, ts). is_ingest r) (map (\<lambda>p. (From_Ingest p, [At_Start p])) ps) = map (\<lambda>p. (From_Ingest p, [At_Start p])) ps"
    by (induction ps) simp_all
  then show ?thesis by (simp add: ingesting_def go_spawn_def)
qed

lemma go_move_ingesting: "go_move e g g' \<Longrightarrow> ingesting g' = ingesting g \<or> ingesting g = Suc (ingesting g')"
  by (induction rule: go_move.induct) (auto simp: ingesting_def)

section \<open>The invariant\<close>

definition sys_inv :: "('t, 'c) Deps \<Rightarrow> (brain_event \<Rightarrow> bool) \<Rightarrow> ('t, 'v) env \<Rightarrow> ('t, 'v) system \<Rightarrow> bool" where
  "sys_inv D serves e s \<longleftrightarrow> go_inv e (sy_go s) \<and> arrivals (sy_go s) \<and> p_store (sy_pipe s) = bs_store (sy_brain s) \<and>
     g_seen (sy_go s) = map snd (sy_log s) \<and> wg (bs_ingest (sy_brain s)) = ingesting (sy_go s) \<and>
     list_all (\<lambda>(ev, p). serves ev \<and> authenticated D ev (ClusterId p)) (sy_log s)"

lemma sys_step_inv:
  assumes "sys_step bg D yaml serves polls e s s'" and "sys_inv D serves e s"
  shows "sys_inv D serves e s'"
  using assms
proof (induction rule: sys_step.induct)
  case (request ev s)
  let ?b = "brain_step bg D ev (sy_brain s)"
  obtain new where new: "after_request ev ?b s = s\<lparr>sy_brain := ?b, sy_go := go_spawn new (go_store (bs_store ?b) (sy_go s)),
       sy_log := sy_log s @ map (Pair ev) new\<rparr>"
    "list_all (\<lambda>p. authenticated D ev (ClusterId p)) new" "wg (bs_ingest ?b) = wg (bs_ingest (sy_brain s)) + length new"
    using after_request_log by blast
  have "go_inv e (go_spawn new (go_store (bs_store ?b) (sy_go s)))" "arrivals (go_spawn new (go_store (bs_store ?b) (sy_go s)))"
    using request.prems by (auto simp: sys_inv_def intro!: go_spawn_inv intro: go_step_arrivals [OF go_step.spawn])
  moreover have "ingesting (go_store (bs_store ?b) (sy_go s)) = ingesting (sy_go s)" by (simp add: ingesting_def)
  moreover have "g_seen (go_spawn new (go_store (bs_store ?b) (sy_go s))) = g_seen (sy_go s) @ new"
    "p_store (g_pipe (go_spawn new (go_store (bs_store ?b) (sy_go s)))) = bs_store ?b" by (simp_all add: go_spawn_def)
  ultimately show ?case
    using request new by (simp add: sys_inv_def list_all_iff ball_Un comp_def ingesting_spawn)
next
  case (work s g)
  have "go_inv e g" "g_seen g = g_seen (sy_go s)" "arrivals g"
    using go_move_inv [OF work.hyps] go_step_arrivals [OF go_step.inner [OF work.hyps]] work.prems by (auto simp: sys_inv_def)
  with work.prems go_move_ingesting [OF work.hyps] show ?case by (auto simp: sys_inv_def after_go_def Ingest_Done_def)
next
  case (poll fv s)
  then show ?case by (simp add: sys_inv_def)
next
  case (flush s)
  have "go_inv e (go_drain (sy_go s))" "arrivals (go_drain (sy_go s))"
    using go_step_inv [OF go_step.shut] go_step_arrivals [OF go_step.shut] flush by (auto simp: sys_inv_def)
  then show ?case using flush by (simp add: sys_inv_def) (simp add: go_drain_def ingesting_def)
qed

interpretation sys: step_system "sys_step bg D yaml serves polls e" "sys_inv D serves e" for bg D yaml serves polls e
  by unfold_locales (rule sys_step_inv)

lemma system_start_inv: "sys_inv D serves e (system_start sv t w)"
proof -
  have "arrivals (sy_go (system_start sv t w))" by (simp add: system_start_def arrivals_def tasks_of_def go_start_def)
  then show ?thesis
    using go_start_inv [of e t "(sv_backend sv, w)" "sv_pool sv" "sv_correlation sv"]
    by (simp add: sys_inv_def system_start_def server_pipe_def Ingest_NewHandler_def ingesting_def Pipeline_New_def)
qed

section \<open>Every action goes back to an authenticated collector\<close>

text \<open>An alert of the run that a request of a served listener brought, for the cluster it authenticated.\<close>

definition vouched :: "('t, 'c) Deps \<Rightarrow> (brain_event \<Rightarrow> bool) \<Rightarrow> ('t, 'v) system \<Rightarrow> AlertPayload \<Rightarrow> bool" where
  "vouched D serves s p \<longleftrightarrow> (\<exists>ev. (ev, p) \<in> set (sy_log s) \<and> serves ev \<and> authenticated D ev (ClusterId p))"

lemma sys_inv_vouched:
  assumes "sys_inv D serves e s" and "p \<in> set (g_seen (sy_go s))"
  shows "vouched D serves s p"
proof -
  from assms obtain ev where "(ev, p) \<in> set (sy_log s)" by (auto simp: sys_inv_def)
  then show ?thesis using assms(1) by (auto simp: sys_inv_def vouched_def list_all_iff)
qed

lemma sys_inv_actions:
  assumes inv: "sys_inv D serves e s"
  shows "list_all (\<lambda>(n, m, ok). (\<exists>p. Payload m = Some p \<and> vouched D serves s p \<and> n \<in> set (receivers_of e p)) \<and>
      (case M_Incident m of None \<Rightarrow> True | Some g \<Rightarrow> list_all (vouched D serves s) g)) (p_sent (sy_pipe s))"
    and "list_all (\<lambda>r. \<exists>p now reason. vouched D serves s p \<and> may_silence (e_silence e) p \<and>
      r = silence_for (sil_duration (e_silence e)) now p reason) (p_silences (sy_pipe s))"
    and "list_all (\<lambda>g. g \<noteq> [] \<and> list_all (vouched D serves s) g) (p_asked (sy_pipe s))"
proof -
  note v = sys_inv_vouched [OF inv]
  have s: "list_all (silence_ok e (g_seen (sy_go s))) (p_silences (sy_pipe s))" and a: "list_all (asked_ok (g_seen (sy_go s))) (p_asked (sy_pipe s))"
    and m: "list_all (sent_ok e (g_seen (sy_go s))) (sent_to (sy_pipe s))"
    using inv [unfolded sys_inv_def, THEN conjunct1] by (simp_all add: go_inv_def pipe_ok_def)
  have asked: "g \<noteq> [] \<and> list_all (vouched D serves s) g" if "asked_ok (g_seen (sy_go s)) g" for g
    using that v by (auto simp: asked_ok_def firing_in_def list_all_iff)
  have sent: "(\<exists>p. Payload (snd nm) = Some p \<and> vouched D serves s p \<and> fst nm \<in> set (receivers_of e p)) \<and>
      (case M_Incident (snd nm) of None \<Rightarrow> True | Some g \<Rightarrow> list_all (vouched D serves s) g)" if "sent_ok e (g_seen (sy_go s)) nm" for nm
    using that v asked by (cases "M_Incident (snd nm)") (auto simp: sent_ok_def)
  show "list_all (\<lambda>(n, m, ok). (\<exists>p. Payload m = Some p \<and> vouched D serves s p \<and> n \<in> set (receivers_of e p)) \<and>
      (case M_Incident m of None \<Rightarrow> True | Some g \<Rightarrow> list_all (vouched D serves s) g)) (p_sent (sy_pipe s))"
    using m sent by (fastforce simp: list_all_iff sent_to_def)
  show "list_all (\<lambda>r. \<exists>p now reason. vouched D serves s p \<and> may_silence (e_silence e) p \<and>
      r = silence_for (sil_duration (e_silence e)) now p reason) (p_silences (sy_pipe s))"
    using s by (rule list.pred_mono_strong) (use v in \<open>unfold silence_ok_def firing_in_def, blast\<close>)
  show "list_all (\<lambda>g. g \<noteq> [] \<and> list_all (vouched D serves s) g) (p_asked (sy_pipe s))"
    using a by (rule list.pred_mono_strong) (rule asked)
qed

text \<open>C2: Everything the program does goes back to an authenticated collector. In every run of a started server, whatever
  requests arrive over its listeners and however they interleave with the single calls of the processing, the timers and other replicas: each
  notification that was sent and each silence that was requested is about an alert which some request over an open
  listener brought, under a certificate that names the cluster of the alert, while that tenant was not revoked; the model
  was asked only about such alerts; every accepted alert gets one goroutine, which lets it pass the duplicate check at most once; and \<open>Wait\<close>
  returns exactly when the goroutines of all accepted alerts have returned.\<close>

theorem every_action_vouched:
  assumes "(sys_step bg (server_deps h ops ext sv) (h_yaml_tenants h) (served sv) polls
    (server_env h ops tick transport am sv))\<^sup>*\<^sup>* (system_start sv t w) s"
  shows "list_all (\<lambda>(n, m, ok). (\<exists>p. Payload m = Some p \<and> vouched (server_deps h ops ext sv) (served sv) s p \<and>
        n \<in> set (receivers_of (server_env h ops tick transport am sv) p)) \<and>
      (case M_Incident m of None \<Rightarrow> True | Some g \<Rightarrow> list_all (vouched (server_deps h ops ext sv) (served sv) s) g)) (p_sent (sy_pipe s)) \<and>
    list_all (\<lambda>r. \<exists>p now reason. vouched (server_deps h ops ext sv) (served sv) s p \<and> may_silence (sv_silence sv) p \<and>
      r = silence_for (sil_duration (sv_silence sv)) now p reason) (p_silences (sy_pipe s)) \<and>
    list_all (\<lambda>g. g \<noteq> [] \<and> list_all (vouched (server_deps h ops ext sv) (served sv) s) g) (p_asked (sy_pipe s)) \<and>
    g_seen (sy_go s) = map snd (sy_log s) \<and> mset (g_passed (sy_go s)) \<subseteq># mset (map snd (sy_log s)) \<and>
    (Ingest_Wait (bs_ingest (sy_brain s)) = list_all (\<lambda>(r, ts). \<not> is_ingest r) (g_work (sy_go s)))"
proof -
  note inv = sys.run_good [OF assms system_start_inv]
  moreover have "e_silence (server_env h ops tick transport am sv) = sv_silence sv" by (simp add: server_env_def)
  moreover have "mset (g_passed (sy_go s)) \<subseteq># mset (g_seen (sy_go s))"
    using inv by (auto simp: sys_inv_def arrivals_def intro: subset_mset.order_trans [OF mset_subset_eq_add_left])
  moreover have "ingesting (sy_go s) = 0 \<longleftrightarrow> list_all (\<lambda>(r, ts). \<not> is_ingest r) (g_work (sy_go s))"
    by (auto simp: ingesting_def filter_empty_conv list_all_iff)
  ultimately show ?thesis using sys_inv_actions [OF inv] by (simp add: sys_inv_def Ingest_Wait_def)
qed

section \<open>Revocation in a running program\<close>

text \<open>A snapshot in which a cluster is revoked or missing, and what a poll can find without letting it in.\<close>

definition shut_out :: "Tenants option \<Rightarrow> string \<Rightarrow> bool" where
  "shut_out ts c = (case Lookup ts c of None \<Rightarrow> True | Some t \<Rightarrow> Revoked t)"

definition excludes :: "(bytes \<Rightarrow> string + Tenant list) \<Rightarrow> string \<Rightarrow> file_view \<Rightarrow> bool" where
  "excludes yaml c fv =
     (case fv_read fv of
        Inl _ \<Rightarrow> True
      | Inr data \<Rightarrow>
          (case yaml data of
             Inl _ \<Rightarrow> True
           | Inr list \<Rightarrow> (case NewTenants list of Inl _ \<Rightarrow> True | Inr ts \<Rightarrow> shut_out (Some ts) c)))"

definition log_of :: "string \<Rightarrow> ('t, 'v) system \<Rightarrow> (brain_event \<times> AlertPayload) list" where
  "log_of c s = filter (\<lambda>(ev, p). ClusterId p = c) (sy_log s)"

lemma poll_shut_out:
  assumes "excludes yaml c fv" and "shut_out (Tenants_Current r) c"
  shows "shut_out (Tenants_Current (poll_tick yaml fv r)) c"
  using poll_tick_cases [of yaml fv r] assms by (auto simp: excludes_def)

lemma shut_out_refused:
  assumes "gate_current s ev" and "shut_out (Tenants_Current (sy_tenants s)) c"
  shows "\<not> authenticated D ev c"
  using assms by (auto simp: authenticated_def gate_current_def shut_out_def tenant_active_def)

definition excluded :: "string \<Rightarrow> (brain_event \<times> AlertPayload) list \<Rightarrow> ('t, 'v) system \<Rightarrow> bool" where
  "excluded c entries s \<longleftrightarrow> shut_out (Tenants_Current (sy_tenants s)) c \<and> log_of c s = entries"

lemma excluded_step:
  assumes "sys_step bg D yaml serves (excludes yaml c) e s s'" and "excluded c entries s"
  shows "excluded c entries s'"
  using assms
proof (induction rule: sys_step.induct)
  case (request ev s)
  obtain new where a: "after_request ev (brain_step bg D ev (sy_brain s)) s =
     s\<lparr>sy_brain := brain_step bg D ev (sy_brain s), sy_go := go_spawn new (go_store (bs_store (brain_step bg D ev (sy_brain s))) (sy_go s)),
       sy_log := sy_log s @ map (Pair ev) new\<rparr>"
    and new: "list_all (\<lambda>p. authenticated D ev (ClusterId p)) new"
    using after_request_log [of ev bg D s] by blast
  have "\<not> authenticated D ev c" using shut_out_refused request by (auto simp: excluded_def)
  then have "filter (\<lambda>(ev, p). ClusterId p = c) (map (Pair ev) new) = []"
    using new by (auto simp: filter_empty_conv list_all_iff)
  with request show ?case by (simp add: a excluded_def log_of_def)
next
  case (poll fv s)
  then show ?case using poll_shut_out by (simp add: excluded_def log_of_def)
qed (simp_all add: excluded_def log_of_def after_go_def)

interpretation exclusion: step_system "sys_step bg D yaml serves (excludes yaml c) e" "excluded c entries" for bg D yaml serves c e entries
  by unfold_locales (rule excluded_step)

text \<open>C3: Revoking a collector shuts it out. As soon as a poll has read a newer tenants file in which a cluster is revoked or
  missing, no request brings in an alert of that cluster any more, over either transport and whatever else happens, as
  long as the files that later polls read (those that can be read and decoded) do not list it as active again.\<close>

theorem revoked_cluster_shut_out:
  assumes "fv_stat fv = Inr m" and "fv_read fv = Inr data" and "yaml data = Inr list" and "NewTenants list = Inr ts"
    and "case Lookup (Some ts) c of None \<Rightarrow> True | Some t \<Rightarrow> Revoked t"
    and "\<not> tr_stopped (sy_tenants s)" and "case tr_cached (sy_tenants s) of None \<Rightarrow> True | Some old \<Rightarrow> ts_mtime old < m"
    and "(sys_step bg D yaml serves (excludes yaml c) e)\<^sup>*\<^sup>* (s\<lparr>sy_tenants := poll_tick yaml fv (sy_tenants s)\<rparr>) s'"
  shows "log_of c s' = log_of c s"
proof -
  have "Tenants_Current (poll_tick yaml fv (sy_tenants s)) = Some ts"
    using assms(1-4,6,7) by (auto simp: poll_tick_def reload_def Tenants_Current_def split: option.split_asm)
  then have "excluded c (log_of c s) (s\<lparr>sy_tenants := poll_tick yaml fv (sy_tenants s)\<rparr>)"
    using assms(5) by (simp add: excluded_def shut_out_def log_of_def)
  from exclusion.run_good [OF assms(8) this] show ?thesis by (simp add: excluded_def)
qed

section \<open>An example run\<close>

text \<open>A server with the gRPC listener and one chat channel, and an alert that arrives and is processed.\<close>

definition demo_server :: "(unit, nat \<times> nat) server" where
  "demo_server =
     \<lparr>sv_settings = read_settings demo_environment ''key'' [''mtls''],
      sv_notifiers = [(''chat'', N_Webhook \<lparr>wh_name = ''chat'', wh_url = ''http://hook''\<rparr>)], sv_warnings = [(''page'', ''oncall'')],
      sv_store = None, 
      sv_evaluator = \<lparr>ev_provider = provider_of dead_net (lt_json_error demo_texts) (OpenAI local_model), maxRetries = 1, auditMode = AuditOff\<rparr>,
      sv_backend = OpenAI local_model, sv_pool = None, sv_dedup = Dedup_New 15,
      sv_cache = demo_cache, sv_history = None, sv_feedback = demo_manager, sv_router = Router_New demo_rules,
      sv_silence = NewClient ''http://am'' hour True [], sv_evidence = \<lparr>ec_Enabled = True, LogLines = 5\<rparr>,
      sv_correlation = \<lparr>cc_Enabled = False, WindowSeconds = 30, MaxGroup = 5\<rparr>, sv_replay = demo_guard, sv_signer = demo_signer,
      sv_tenants = \<lparr>pollEvery = 5 * second, tr_cached = Some \<lparr>ts_tenants = \<lparr>byCluster = [(''c1'', demo_tenant)]\<rparr>, ts_mtime = 1\<rparr>,
        tr_stopped = False\<rparr>, sv_bootstrap = demo_handler,
      sv_grpc = Some \<lparr>MinVersion = 772, ClientAuth = VerifyClientCertIfGiven, ClientCAs = [demo_cert],
        tls_reloader = \<lparr>certFile = ''tls.crt'', keyFile = ''tls.key'', cr_cached = None\<rparr>\<rparr>,
      sv_signed = None\<rparr>"

abbreviation demo_wiring :: "(Memory, unit) Deps" where
  "demo_wiring \<equiv> server_deps demo_host memory_ops demo_deps demo_server"

definition demo_sys_env :: "(Memory, backend \<times> nat \<times> nat) env" where
  "demo_sys_env = server_env demo_host memory_ops (\<lambda>w. (401 * second, w))
     \<lparr>tr_url_ok = (\<lambda>u. True), tr_do = (\<lambda>c d r w. (Inr \<lparr>StatusCode = 200, Resp_Body = []\<rparr>, w)),
       tr_sendmail = (\<lambda>c a au f to m w. (Mail_Done None, w)), tr_now = (\<lambda>w. 401 * second)\<rparr>
     (\<lambda>r. Inl ''down'') demo_server"

lemma demo_wiring_brain: "D_Brain demo_wiring = server_brain demo_host memory_ops demo_server"
  by (simp add: server_deps_def demo_server_def Let_def)

lemma demo_server_accepts:
  "\<exists>st. Verify memory_ops demo_guard (400 * second) (400 * second) (400 * second) NewMemory (Some demo_id) ''700'' demo_nonce = (None, st) \<and>
     brain_step bg demo_wiring (demo_grpc_event (400 * second)) \<lparr>bs_store = NewMemory, bs_ingest = Ingest_NewHandler\<rparr> =
       \<lparr>bs_store = st, bs_ingest = \<lparr>spawned = [demo_alert], wg = 1\<rparr>\<rparr>"
proof -
  have p: "grpc_passes (server_brain demo_host memory_ops demo_server) (demo_env (400 * second)) demo_ctx
      \<lparr>bs_store = NewMemory, bs_ingest = Ingest_NewHandler\<rparr> demo_id"
    using demo_grpc_passes by (simp add: grpc_passes_def server_brain_def demo_server_def demo_brain_def demo_state_def)
  have c: "ClusterId demo_alert = ClusterID demo_id" by (simp add: demo_alert_def demo_id_def)
  have e: "r_t (demo_env t) = t" "r_now (demo_env t) = t" "r_now' (demo_env t) = t" for t by (simp_all add: demo_env_def)
  obtain st where v: "Verify memory_ops demo_guard (400 * second) (400 * second) (400 * second) NewMemory (Some demo_id) ''700'' demo_nonce
      = (None, st)"
    using demo_verify_fresh [of NewMemory "400 * second"] by (auto simp: NewMemory_def)
  have "brain_step bg demo_wiring (demo_grpc_event (400 * second)) \<lparr>bs_store = NewMemory, bs_ingest = Ingest_NewHandler\<rparr> =
      \<lparr>bs_store = st, bs_ingest = \<lparr>spawned = [demo_alert], wg = 1\<rparr>\<rparr>"
    unfolding demo_grpc_event_def brain_step.simps demo_wiring_brain grpc_call_passes [OF exempt_iff(2) p]
    using v c by (simp add: dispatch_ingest e demo_meta server_brain_def demo_server_def Ingest_NewHandler_def)
  with v show ?thesis by blast
qed

text \<open>The nonce of the request does not count as the alert's deduplication marker.\<close>

lemma demo_fresh_marker:
  assumes "Verify memory_ops demo_guard (400 * second) (400 * second) (400 * second) NewMemory (Some demo_id) ''700'' demo_nonce = (None, st)"
    and "p_store ps = st"
  shows "\<not> fst (check_dup demo_sys_env IsDuplicate demo_alert (received demo_alert ps))"
proof -
  have set: "Store_SetNX memory_ops (400 * second) (400 * second) NewMemory (nonceKey demo_guard demo_id demo_nonce) [CHR 0x01]
      (nonceTTL demo_guard) = (Inr True, st)"
    using assms(1) Verify_accepts_iff [of demo_guard memory_ops] by (simp add: demo_guard_simps)
  have "nonceKey demo_guard demo_id demo_nonce \<noteq> firing_marker pad32 demo_alert"
    by (simp add: nonceKey_def firing_marker_def demo_guard_def NewReplayGuard_def Let_def)
  then have "map_of (items st) (firing_marker pad32 demo_alert) = None"
    using set by (auto simp: memory_ops_def Memory_SetNX_def NewMemory_def split: if_splits)
  then show ?thesis
    by (simp add: check_dup_def now_of_def demo_sys_env_def server_env_def demo_server_def demo_host_def received_def count_def
        assms(2) IsDuplicate_def memory_ops_def Memory_SetNX_def Let_def)
qed

text \<open>The goroutines of a program may go on while nothing else happens.\<close>

lemma sys_moves:
  assumes "(go_move e)\<^sup>*\<^sup>* (sy_go s) g"
  shows "\<exists>s'. (sys_step bg D yaml serves polls e)\<^sup>*\<^sup>* s s' \<and> sy_go s' = g"
  using assms
proof (induction rule: rtranclp_induct)
  case (step g g')
  then obtain s' where s': "(sys_step bg D yaml serves polls e)\<^sup>*\<^sup>* s s'" "sy_go s' = g" by blast
  have "sys_step bg D yaml serves polls e s' (after_go g' s')" using step.hyps(2) s'(2) by (intro sys_step.work) simp
  with s'(1) show ?case by (intro exI [of _ "after_go g' s'"]) (simp add: after_go_def)
qed blast

text \<open>The first request, also for the same server with other settings of the correlator.\<close>

definition demo_requested :: "(gotime \<Rightarrow> Memory \<Rightarrow> Memory) \<Rightarrow> (unit, nat \<times> nat) server \<Rightarrow> (Memory, backend \<times> nat \<times> nat) system" where
  "demo_requested bg sv = after_request (demo_grpc_event (400 * second))
     (brain_step bg demo_wiring (demo_grpc_event (400 * second)) (sy_brain (system_start sv NewMemory (0, 0)))) (system_start sv NewMemory (0, 0))"

lemma demo_requested_state:
  assumes "sv = demo_server\<lparr>sv_correlation := corr\<rparr>"
  shows "g_work (sy_go (demo_requested bg sv)) = [] @ (From_Ingest demo_alert, [At_Start demo_alert]) # []"
    and "cor_enabled (p_cor (sy_pipe (demo_requested bg sv))) = cc_Enabled corr" and "cor_buckets (p_cor (sy_pipe (demo_requested bg sv))) = []"
    and "armed (p_cor (sy_pipe (demo_requested bg sv))) = []" and "maxGroup (p_cor (sy_pipe (demo_requested bg sv))) > 0"
    and "sent_to (sy_pipe (demo_requested bg sv)) = []"
    and "\<not> fst (check_dup demo_sys_env IsDuplicate demo_alert (received demo_alert (sy_pipe (demo_requested bg sv))))"
    and "served sv (demo_grpc_event (400 * second))" "gate_current (system_start sv NewMemory (0, 0)) (demo_grpc_event (400 * second))"
proof -
  obtain st where v: "Verify memory_ops demo_guard (400 * second) (400 * second) (400 * second) NewMemory (Some demo_id) ''700'' demo_nonce
      = (None, st)"
    and b: "brain_step bg demo_wiring (demo_grpc_event (400 * second)) \<lparr>bs_store = NewMemory, bs_ingest = Ingest_NewHandler\<rparr> =
      \<lparr>bs_store = st, bs_ingest = \<lparr>spawned = [demo_alert], wg = 1\<rparr>\<rparr>"
    using demo_server_accepts by blast
  have s0: "sy_brain (system_start sv NewMemory (0, 0)) = \<lparr>bs_store = NewMemory, bs_ingest = Ingest_NewHandler\<rparr>" by (simp add: system_start_def)
  have s: "demo_requested bg sv = after_request (demo_grpc_event (400 * second)) \<lparr>bs_store = st, bs_ingest = \<lparr>spawned = [demo_alert], wg = 1\<rparr>\<rparr>
      (system_start sv NewMemory (0, 0))"
    unfolding demo_requested_def s0 b ..
  have c: "sv_correlation sv = corr" by (simp add: assms)
  note defs = after_request_def system_start_def handed_over_def Ingest_NewHandler_def server_pipe_def go_spawn_def go_store_def go_start_def
    Pipeline_New_def Correlator_New_def sent_to_def
  show "g_work (sy_go (demo_requested bg sv)) = [] @ (From_Ingest demo_alert, [At_Start demo_alert]) # []"
    "cor_enabled (p_cor (sy_pipe (demo_requested bg sv))) = cc_Enabled corr" "cor_buckets (p_cor (sy_pipe (demo_requested bg sv))) = []"
    "armed (p_cor (sy_pipe (demo_requested bg sv))) = []" "maxGroup (p_cor (sy_pipe (demo_requested bg sv))) > 0"
    "sent_to (sy_pipe (demo_requested bg sv)) = []"
    by (simp_all add: s defs c)
  have "p_store (sy_pipe (demo_requested bg sv)) = st" by (simp add: s defs)
  with demo_fresh_marker [OF v] show "\<not> fst (check_dup demo_sys_env IsDuplicate demo_alert (received demo_alert (sy_pipe (demo_requested bg sv))))" .
  show "served sv (demo_grpc_event (400 * second))" "gate_current (system_start sv NewMemory (0, 0)) (demo_grpc_event (400 * second))"
    by (simp_all add: assms demo_grpc_event_def demo_server_def gate_current_def system_start_def demo_env_def Tenants_Current_def)
qed

lemma demo_processes:
  assumes "sv = demo_server\<lparr>sv_correlation := corr\<rparr>" and "\<not> cc_Enabled corr"
  obtains g where "(go_move demo_sys_env)\<^sup>*\<^sup>* (sy_go (demo_requested bg sv)) g" "g_work g = []" "map fst (sent_to (g_pipe g)) = [''chat'']"
proof -
  note s1 = demo_requested_state [OF assms(1)]
  have off: "\<not> cor_enabled (p_cor (sy_pipe (demo_requested bg sv)))" using s1(2) assms(2) by simp
  have ev: "evidence_ok demo_sys_env demo_alert" by (simp add: evidence_ok_def shown_series_def demo_alert_plain)
  have route: "receivers_of demo_sys_env demo_alert = [''chat'']"
    by (simp add: receivers_of_def demo_sys_env_def server_env_def demo_server_def Route_def Router_New_def demo_rules_def Matches_def
        demo_alert_plain)
  obtain st2 msg where p: "Process demo_sys_env demo_alert (sy_pipe (demo_requested bg sv)) = Some st2" "sent_to st2 = [(''chat'', msg)]"
    using firing_alert_delivered [OF _ s1(7) off ev] s1(6) route by (auto simp: demo_alert_plain)
  have "drive demo_sys_env [At_Start demo_alert] (sy_pipe (demo_requested bg sv)) = Some st2" by (simp add: drive_start p)
  then obtain g where "(go_move demo_sys_env)\<^sup>*\<^sup>* (sy_go (demo_requested bg sv)) g" "g_work g = [] @ []" "g_pipe g = st2" using s1(1) by (rule drive_moves)
  with p(2) that [of g] show ?thesis by simp
qed

lemma demo_server_same: "demo_server = demo_server\<lparr>sv_correlation := \<lparr>cc_Enabled = False, WindowSeconds = 30, MaxGroup = 5\<rparr>\<rparr>"
  by (simp add: demo_server_def)

lemma demo_run:
  obtains s where "(sys_step bg demo_wiring demo_yaml (served demo_server) (\<lambda>fv. True) demo_sys_env)\<^sup>*\<^sup>* (system_start demo_server NewMemory (0, 0)) s"
    "g_work (sy_go s) = []" "map fst (sent_to (sy_pipe s)) = [''chat'']"
proof -
  let ?s0 = "system_start demo_server NewMemory (0, 0)"
  note s1 = demo_requested_state [OF demo_server_same]
  have step1: "sys_step bg demo_wiring demo_yaml (served demo_server) (\<lambda>fv. True) demo_sys_env ?s0 (demo_requested bg demo_server)"
    unfolding demo_requested_def using s1(8,9) by (rule sys_step.request)
  obtain g where g: "(go_move demo_sys_env)\<^sup>*\<^sup>* (sy_go (demo_requested bg demo_server)) g" "g_work g = []" "map fst (sent_to (g_pipe g)) = [''chat'']"
    using demo_processes [OF demo_server_same] by auto
  from sys_moves [OF g(1), of bg demo_wiring demo_yaml "served demo_server" "\<lambda>fv. True"] obtain s2 where
    "(sys_step bg demo_wiring demo_yaml (served demo_server) (\<lambda>fv. True) demo_sys_env)\<^sup>*\<^sup>* (demo_requested bg demo_server) s2" "sy_go s2 = g" by blast
  with step1 g that [of s2] show ?thesis by (simp add: converse_rtranclp_into_rtranclp)
qed

theorem every_action_vouched_witness:
  "\<exists>s. (sys_step Memory_background demo_wiring demo_yaml (served demo_server) (\<lambda>fv. True) demo_sys_env)\<^sup>*\<^sup>* (system_start demo_server NewMemory (0, 0)) s \<and>
     g_work (sy_go s) = [] \<and> p_sent (sy_pipe s) \<noteq> [] \<and>
     list_all (\<lambda>(n, m, ok). \<exists>p. Payload m = Some p \<and> vouched demo_wiring (served demo_server) s p) (p_sent (sy_pipe s))"
proof -
  obtain s where s: "(sys_step Memory_background demo_wiring demo_yaml (served demo_server) (\<lambda>fv. True) demo_sys_env)\<^sup>*\<^sup>* (system_start demo_server NewMemory (0, 0)) s"
    "g_work (sy_go s) = []" "map fst (sent_to (sy_pipe s)) = [''chat'']" by (rule demo_run)
  have "p_sent (sy_pipe s) \<noteq> []" using s(3) by (auto simp: sent_to_def)
  moreover have "list_all (\<lambda>(n, m, ok). \<exists>p. Payload m = Some p \<and> vouched demo_wiring (served demo_server) s p) (p_sent (sy_pipe s))"
    using every_action_vouched [of Memory_background demo_host, unfolded demo_host_fields, OF s(1) [unfolded demo_sys_env_def], THEN conjunct1] by (rule list.pred_mono_strong) auto
  ultimately show ?thesis using s(1,2) by (intro exI [of _ s] conjI)
qed

text \<open>The same server after its tenants file came to revoke the cluster: the request brings nothing in.\<close>

definition demo_revoked_event :: brain_event where
  "demo_revoked_event = Over_gRPC ((demo_env (400 * second))\<lparr>tenants_gate := Some \<lparr>byCluster = [(''c1'', demo_tenant\<lparr>Revoked := True\<rparr>)]\<rparr>\<rparr>)
     (Ingest_Request demo_alert) demo_ctx"

theorem revoked_cluster_shut_out_witness:
  "\<exists>s1 s2. sy_tenants s1 = poll_tick demo_yaml \<lparr>fv_stat = Inr 2, fv_read = Inr ''revoked''\<rparr> (sv_tenants demo_server) \<and>
     s2 = after_request demo_revoked_event (brain_step Memory_background demo_wiring demo_revoked_event (sy_brain s1)) s1 \<and>
     sys_step Memory_background demo_wiring demo_yaml (served demo_server) (excludes demo_yaml ''c1'') demo_sys_env s1 s2 \<and>
     log_of ''c1'' s2 = []"
proof -
  let ?s = "system_start demo_server NewMemory (0, 0)" and ?fv = "\<lparr>fv_stat = Inr 2, fv_read = Inr ''revoked''\<rparr> :: file_view"
  define s1 where "s1 = ?s\<lparr>sy_tenants := poll_tick demo_yaml ?fv (sy_tenants ?s)\<rparr>"
  define s2 where "s2 = after_request demo_revoked_event (brain_step Memory_background demo_wiring demo_revoked_event (sy_brain s1)) s1"
  have t: "sy_tenants ?s = sv_tenants demo_server" "log_of ''c1'' ?s = []" by (simp_all add: system_start_def log_of_def)
  have d: "tr_cached (sv_tenants demo_server) = Some \<lparr>ts_tenants = \<lparr>byCluster = [(''c1'', demo_tenant)]\<rparr>, ts_mtime = 1\<rparr>"
    "\<not> tr_stopped (sv_tenants demo_server)" "sv_grpc demo_server \<noteq> None"
    by (simp_all add: demo_server_def)
  have "gate_current s1 demo_revoked_event"
    by (simp add: gate_current_def demo_revoked_event_def s1_def t d poll_tick_def reload_def demo_yaml_def NewTenants_def demo_tenant_def
        Tenants_Current_def)
  then have step: "sys_step Memory_background demo_wiring demo_yaml (served demo_server) (excludes demo_yaml ''c1'') demo_sys_env s1 s2"
    unfolding s2_def by (intro sys_step.request) (simp_all add: demo_revoked_event_def d)
  then have "(sys_step Memory_background demo_wiring demo_yaml (served demo_server) (excludes demo_yaml ''c1'') demo_sys_env)\<^sup>*\<^sup>* s1 s2"
    by (rule r_into_rtranclp)
  note run = this [unfolded s1_def]
  have "log_of ''c1'' s2 = log_of ''c1'' ?s"
    by (rule revoked_cluster_shut_out [OF _ _ _ _ _ _ _ run, where data = "''revoked''" and m = 2])
      (auto simp: demo_yaml_def NewTenants_def demo_tenant_def Lookup_def t d)
  with t step show ?thesis using s2_def by (intro exI [of _ s1] exI [of _ s2] conjI) (simp_all add: s1_def)
qed

end
