(* ===== verification/Replays.thy ===== *)
theory Replays
  imports System RedisStore
begin

text \<open>
  Replay protection of the whole program. The transports and the pipeline share one store; the theory shows that the
  keys of the pipeline's components (deduplication, cache, history, feedback) never meet the nonces of the replay guard,
  so that the guard's promise survives everything the program does between two requests.
\<close>

section \<open>Keys\<close>

text \<open>The keys that processing an alert writes.\<close>

definition pipeline_keys :: "(bytes \<Rightarrow> bytes) \<Rightarrow> string set" where
  "pipeline_keys sha256 =
     range (firing_marker sha256) \<union> range (resolved_marker sha256) \<union> range (\<lambda>p. ''cache:'' @ cache_key sha256 p) \<union>
     range (\<lambda>p. ''vec:'' @ cache_key sha256 p) \<union> range (\<lambda>p. incident_key (alertkey_ID sha256 p)) \<union>
     range (\<lambda>p. pending_key (feedback_id sha256 p))"

lemma hex_free: "list_all is_lower_hex s \<Longrightarrow> CHR ''n'' \<notin> set s \<and> CHR ''o'' \<notin> set s"
  by (auto simp: list_all_iff is_lower_hex_def is_digit_def)

text \<open>A nonce key holds the word nonce; the other keys are a fixed prefix and hexadecimal digits.\<close>

lemma nonceKey_foreign: "nonceKey g i nonce \<notin> pipeline_keys sha256"
proof -
  have k: "CHR ''n'' \<in> set (nonceKey g i nonce)" "CHR ''o'' \<in> set (nonceKey g i nonce)" by (simp_all add: nonceKey_def)
  have h: "CHR ''n'' \<notin> set (hex_encode b)" "CHR ''o'' \<notin> set (hex_encode b)" for b
    using hex_free [OF hex_encode_lower_hex] by blast+
  have t: "CHR ''o'' \<notin> set (take n (hex_encode b))" for n b using h(2) by (meson in_set_takeD)
  have "CHR ''o'' \<notin> set (firing_marker sha256 p)" "CHR ''n'' \<notin> set (resolved_marker sha256 p)"
    "CHR ''o'' \<notin> set (''cache:'' @ cache_key sha256 p)" "CHR ''o'' \<notin> set (''vec:'' @ cache_key sha256 p)"
    "CHR ''o'' \<notin> set (incident_key (alertkey_ID sha256 p))" "CHR ''o'' \<notin> set (pending_key (feedback_id sha256 p))" for p
    using h t by (simp_all add: firing_marker_def resolved_marker_def dedup_key_def dedup_resolvedKey_def cache_key_def incident_key_def
        alertkey_ID_def pending_key_def feedback_id_def)
  with k show ?thesis unfolding pipeline_keys_def by (metis (no_types, lifting) UnE imageE)
qed

section \<open>What the pipeline does to the store\<close>

text \<open>A clock after the epoch, and a key that belongs to nobody in the pipeline.\<close>

definition foreign_key :: "('s, 'w) env \<Rightarrow> string \<Rightarrow> bool" where
  "foreign_key e key \<longleftrightarrow> (\<forall>w. 0 \<le> fst (e_tick e w)) \<and> key \<notin> pipeline_keys (e_sha256 e)"

definition keeps :: "('s, 'w) env \<Rightarrow> (gotime \<Rightarrow> 's \<Rightarrow> 's) \<Rightarrow> gotime \<Rightarrow> string \<Rightarrow> ('s, 'w) pipe \<Rightarrow> ('s, 'w) pipe \<Rightarrow> bool" where
  "keeps e bg t key st st' \<longleftrightarrow> store_path (e_ops e) bg t key (p_store st) (p_store st')"

lemma keeps_same: "p_store st' = p_store st \<Longrightarrow> keeps e bg t key st st'"
  by (simp add: keeps_def)

lemma keeps_trans: "keeps e bg t key a b \<Longrightarrow> keeps e bg t key b c \<Longrightarrow> keeps e bg t key a c"
  unfolding keeps_def by (rule store_path_trans)

lemma now_of_store: "now_of e st = (t, st') \<Longrightarrow> p_store st' = p_store st"
  by (auto simp: now_of_def split: prod.split_asm)

lemma now_of_after_epoch: "foreign_key e key \<Longrightarrow> now_of e st = (t, st') \<Longrightarrow> 0 \<le> t"
  unfolding foreign_key_def now_of_def by (metis (no_types, lifting) case_prod_beta fst_conv)

lemma store_set_path:
  "k \<noteq> key \<Longrightarrow> 0 \<le> now \<Longrightarrow> store_path ops bg t key s (snd (Store_Set ops now s k v ttl))"
  using store_path_step [of t key "Ev_Set now k v ttl" ops bg s] by simp

lemma store_setnx_path:
  "k \<noteq> key \<Longrightarrow> 0 \<le> now' \<Longrightarrow> store_path ops bg t key s (snd (Store_SetNX ops now now' s k v ttl))"
  using store_path_step [of t key "Ev_SetNX now now' k v ttl" ops bg s] by simp

lemma Dedup_path:
  assumes "key \<notin> pipeline_keys sha256" and "0 \<le> now'"
  shows "store_path ops bg t key s (fst (snd (IsDuplicate sha256 ops d now now' s p)))"
    and "store_path ops bg t key s (fst (snd (IsDuplicateResolved sha256 ops d now now' s p)))"
proof -
  have "firing_marker sha256 p \<noteq> key" "resolved_marker sha256 p \<noteq> key" using assms(1) by (auto simp: pipeline_keys_def)
  note k = store_setnx_path [OF this(1) assms(2)] store_setnx_path [OF this(2) assms(2)]
  have eq: "fst (snd (IsDuplicate sha256 ops d now now' s p)) = snd (Store_SetNX ops now now' s (firing_marker sha256 p) ''1'' (window d))"
    "fst (snd (IsDuplicateResolved sha256 ops d now now' s p)) = snd (Store_SetNX ops now now' s (resolved_marker sha256 p) ''1'' (window d))"
    by (simp_all add: IsDuplicate_def IsDuplicateResolved_def Let_def split: prod.split sum.split)
  show "store_path ops bg t key s (fst (snd (IsDuplicate sha256 ops d now now' s p)))"
    "store_path ops bg t key s (fst (snd (IsDuplicateResolved sha256 ops d now now' s p)))"
    unfolding eq by (rule k(1), rule k(2))
qed

lemma Cache_Set_path:
  assumes "key \<notin> pipeline_keys sha256" and "0 \<le> now" and "0 \<le> now'"
  shows "store_path ops bg t key s (Cache_Set sha256 ops c now now' s p a)"
proof -
  have k: "''cache:'' @ cache_key sha256 p \<noteq> key" "''vec:'' @ cache_key sha256 p \<noteq> key" using assms(1) by (auto simp: pipeline_keys_def)
  note one = store_set_path [OF k(1) assms(2)] and two = store_path_trans [OF store_set_path [OF k(1) assms(2)] store_set_path [OF k(2) assms(3)]]
  show ?thesis
  proof (cases a)
    case (Some x)
    then show ?thesis by (cases "ca_embedder c") (simp_all add: Cache_Set_def Let_def one [simplified] two [simplified])
  qed (simp add: Cache_Set_def)
qed

lemma History_path:
  assumes "key \<notin> pipeline_keys sha256" and "0 \<le> now'"
  shows "store_path ops bg t key s (fst (History_Record sha256 ops h now now' s (Some r) a alerts))"
proof -
  have "incident_key (alertkey_ID sha256 r) \<noteq> key" using assms(1) by (auto simp: pipeline_keys_def)
  note k = store_set_path [OF this assms(2)]
  show ?thesis
  proof (cases h)
    case (Some hs)
    then have "fst (History_Record sha256 ops h now now' s (Some r) a alerts) = snd (Store_Set ops now' s (incident_key (alertkey_ID sha256 r))
        (Marshal (record_json (new_record sha256 now r a alerts))) (hs_ttl hs))"
      by (simp add: History_Record_def new_record_def Let_def split: prod.split option.split)
    then show ?thesis by (simp only: k)
  qed (simp add: History_Record_def)
qed

lemma Feedback_path:
  assumes "key \<notin> pipeline_keys sha256" and "0 \<le> now"
  shows "store_path ops bg t key s (snd (Feedback_Record sha256 ops m now s p a))"
proof -
  have "pending_key (feedback_id sha256 p) \<noteq> key" using assms(1) by (auto simp: pipeline_keys_def)
  note k = store_set_path [OF this assms(2)]
  show ?thesis
  proof (cases "a = None \<or> \<not> LinksEnabled m")
    case False
    then obtain x where "a = Some x" by auto
    with False have "snd (Feedback_Record sha256 ops m now s p a) =
        snd (Store_Set ops now s (pending_key (feedback_id sha256 p)) (Marshal (pending_json (pending_of p x))) (pendingTTL m))"
      by (simp add: Feedback_Record_def Let_def split: prod.split option.split)
    then show ?thesis by (simp only: k)
  qed (auto simp: Feedback_Record_def split: option.split)
qed

text \<open>The steps that leave the store alone.\<close>

lemma deadline_store: "deadline e d st = (c, st') \<Longrightarrow> p_store st' = p_store st"
  by (auto simp: deadline_def now_of_def split: prod.split_asm)

lemma acquire_store: "acquire e cl st = Some (ok, st') \<Longrightarrow> p_store st' = p_store st"
  by (auto simp: acquire_def pipe_simps split: prod.split_asm option.split_asm)

lemma release_store: "p_store (release e cl st) = p_store st"
  by (simp add: release_def pipe_simps split: prod.split)

lemma examples_store: "examples_for e p st = (xs, st') \<Longrightarrow> p_store st' = p_store st"
  by (auto simp: examples_for_def pipe_simps split: prod.split_asm)

lemma ask_store: "ask f alerts c xs st = (a, st') \<Longrightarrow> p_store st' = p_store st"
  by (auto simp: ask_def pipe_simps split: prod.split_asm)

lemma cache_get_store: "cache_get e p st = (a, st') \<Longrightarrow> p_store st' = p_store st"
  by (auto simp: cache_get_def pipe_simps split: prod.split_asm)

lemma maybeSilence_store: "p_store (maybeSilence e p a st) = p_store st"
  by (simp add: maybeSilence_def pipe_simps split: prod.split option.split)

lemma send_one_store: "p_store (send_one e c msg n st) = p_store st"
  by (simp add: send_one_def count_def split: option.split prod.split)

lemma count_store: "p_store (count ms st) = p_store st"
  by (simp add: count_def)

text \<open>The steps that write.\<close>

lemma check_dup_keeps:
  assumes f: "foreign_key e key" and "test = IsDuplicate \<or> test = IsDuplicateResolved" and "check_dup e test p st = (d, st')"
  shows "keeps e bg t key st st'"
proof -
  obtain t1 st1 where 1: "now_of e st = (t1, st1)" by fastforce
  obtain t2 st2 where 2: "now_of e st1 = (t2, st2)" by fastforce
  have key: "key \<notin> pipeline_keys (e_sha256 e)" using f by (simp add: foreign_key_def)
  have "p_store st' = fst (snd (test (e_sha256 e) (e_ops e) (e_dedup e) t1 t2 (p_store st) p))"
    using assms(3) 1 2 by (auto simp: check_dup_def count_def now_of_store split: prod.split_asm)
  then show ?thesis
    using Dedup_path [OF key now_of_after_epoch [OF f 2]] assms(2) unfolding keeps_def by (elim disjE) (simp_all only:)
qed

lemma cache_set_keeps:
  assumes f: "foreign_key e key"
  shows "keeps e bg t key st (cache_set e p a st)"
proof -
  obtain t1 st1 where 1: "now_of e st = (t1, st1)" by fastforce
  obtain t2 st2 where 2: "now_of e st1 = (t2, st2)" by fastforce
  have "key \<notin> pipeline_keys (e_sha256 e)" using f by (simp add: foreign_key_def)
  from Cache_Set_path [OF this now_of_after_epoch [OF f 1] now_of_after_epoch [OF f 2]] show ?thesis
    by (simp add: keeps_def cache_set_def 1 2 now_of_store [OF 1] now_of_store [OF 2])
qed

lemma record_history_keeps:
  assumes f: "foreign_key e key"
  shows "keeps e bg t key st (record_history e r a xs st)"
proof -
  obtain t1 st1 where 1: "now_of e st = (t1, st1)" by fastforce
  obtain t2 st2 where 2: "now_of e st1 = (t2, st2)" by fastforce
  have "key \<notin> pipeline_keys (e_sha256 e)" using f by (simp add: foreign_key_def)
  note h = History_path [OF this now_of_after_epoch [OF f 2]]
  have "p_store (record_history e r a xs st) =
      fst (History_Record (e_sha256 e) (e_ops e) (e_history e) t1 t2 (p_store st) (Some r) a xs)"
    by (simp add: record_history_def 1 2 count_def now_of_store [OF 1] now_of_store [OF 2] split: prod.split)
  then show ?thesis unfolding keeps_def by (simp only: h)
qed

lemma attachFeedback_keeps:
  assumes f: "foreign_key e key" and "attachFeedback e p a msg st = (msg', st')"
  shows "keeps e bg t key st st'"
proof (cases a)
  case None
  then show ?thesis using assms(2) by (simp add: attachFeedback_def keeps_same)
next
  case (Some x)
  obtain t1 st1 where 1: "now_of e st = (t1, st1)" by fastforce
  have "key \<notin> pipeline_keys (e_sha256 e)" using f by (simp add: foreign_key_def)
  note h = Feedback_path [OF this now_of_after_epoch [OF f 1]]
  have "p_store st' = snd (Feedback_Record (e_sha256 e) (e_ops e) (e_feedback e) t1 (p_store st) p (Some x))"
    using assms(2) by (auto simp: attachFeedback_def Some 1 now_of_store [OF 1] split: prod.split_asm)
  then show ?thesis unfolding keeps_def by (simp only: h)
qed

section \<open>Processing keeps foreign keys\<close>

lemma task_step_keeps:
  assumes f: "foreign_key e key" and step: "task_step e x st = Some (ts, st')"
  shows "keeps e bg t key st st'"
proof (cases x)
  case (At_Start p)
  have "keeps e bg t key st st1" if "check_dup e test p (received p st) = (d, st1)" "test = IsDuplicate \<or> test = IsDuplicateResolved" for test d st1
    using check_dup_keeps [OF f that(2,1), of bg t] by (simp add: keeps_def received_def count_store)
  with step show ?thesis by (auto simp: At_Start split: if_split_asm prod.split_asm)
next
  case (At_Store j c a)
  then show ?thesis using step cache_set_keeps [OF f] by auto
next
  case (At_History j c a)
  then show ?thesis using step record_history_keeps [OF f] by auto
next
  case (At_Message j c a)
  then show ?thesis using step attachFeedback_keeps [OF f] by (auto split: option.split_asm prod.split_asm)
next
  case (At_Model j c exs)
  have "ask_job e j c exs st = (a, st1) \<Longrightarrow> p_store st1 = p_store st" for a st1
    by (auto simp: ask_job_def dest: ask_store split: if_split_asm)
  then show ?thesis using step by (auto simp: At_Model intro!: keeps_same split: option.split_asm prod.split_asm)
next
  case (At_Sends k c msg ns)
  then show ?thesis using step by (cases ns) (auto simp: send_one_store count_store intro!: keeps_same split: option.split)
next
  case (At_Flush ks)
  then show ?thesis using step by (cases ks) (auto intro!: keeps_same split: prod.split_asm)
qed (use step in \<open>auto intro!: keeps_same simp: release_store maybeSilence_store
      dest!: deadline_store cache_get_store acquire_store examples_store split: option.split_asm prod.split_asm\<close>)

lemma go_move_keeps:
  assumes f: "foreign_key e key" and "go_move e g g'"
  shows "keeps e bg t key (g_pipe g) (g_pipe g')"
  using assms(2)
proof cases
  case (move xs r x ts ys ts' st)
  then show ?thesis using task_step_keeps [OF f move(3)] by simp
qed (simp_all add: keeps_same disarm_def)

section \<open>Replays in a running program\<close>

context kv_store
begin

lemma sys_step_path:
  assumes "sys_step background D yaml serves polls e s s'" and "\<And>ev. serves ev \<Longrightarrow> timely t (nonceKey g i nonce) ev"
    and ops: "e_ops e = ops" "B_store (D_Brain D) = ops" and pre: "bh_prefix (B_bootstrap (D_Brain D)) = rg_prefix g"
    and f: "foreign_key e (nonceKey g i nonce)" and sync: "p_store (sy_pipe s) = bs_store (sy_brain s)"
  shows "store_path ops background t (nonceKey g i nonce) (bs_store (sy_brain s)) (bs_store (sy_brain s')) \<and>
    p_store (sy_pipe s') = bs_store (sy_brain s')"
  using assms(1,2) sync
proof (induction rule: sys_step.induct)
  case (request ev s)
  then show ?case using brain_step_path [OF ops(2) pre, of t i nonce ev "sy_brain s"] by (simp add: after_request_def go_spawn_def)
next
  case (work s g)
  then show ?case using go_move_keeps [OF f work.hyps, of background t] by (simp add: after_go_def keeps_def ops)
qed (simp_all add: go_drain_def)

lemma sys_run_path:
  assumes "(sys_step background D yaml serves polls e)\<^sup>*\<^sup>* s s'" and "\<And>ev. serves ev \<Longrightarrow> timely t (nonceKey g i nonce) ev"
    and ops: "e_ops e = ops" "B_store (D_Brain D) = ops" and pre: "bh_prefix (B_bootstrap (D_Brain D)) = rg_prefix g"
    and f: "foreign_key e (nonceKey g i nonce)" and sync: "p_store (sy_pipe s) = bs_store (sy_brain s)"
  shows "store_path ops background t (nonceKey g i nonce) (bs_store (sy_brain s)) (bs_store (sy_brain s')) \<and>
    p_store (sy_pipe s') = bs_store (sy_brain s')"
  using assms(1)
proof (induction rule: rtranclp_induct)
  case (step a b)
  have "store_path ops background t (nonceKey g i nonce) (bs_store (sy_brain a)) (bs_store (sy_brain b)) \<and>
      p_store (sy_pipe b) = bs_store (sy_brain b)"
    by (rule sys_step_path [OF step.hyps(2) _ ops pre f]) (simp_all add: assms(2) step.IH)
  with store_path_trans [OF step.IH [THEN conjunct1] this [THEN conjunct1]] show ?case by simp
qed (simp add: sync)

text \<open>The argument for a store that keeps the contract.\<close>

lemma works_once:
  assumes "run_start h w0 = (Inr sv, w1)" and "s_ReplayWindow (sv_settings sv) < 2 ^ 62"
    and "D = server_deps h ops ext sv" and "e = server_env h ops tick transport am sv" and "\<forall>w. 0 \<le> fst (tick w)"
    and "inv (bs_store (sy_brain s))" and "p_store (sy_pipe s) = bs_store (sy_brain s)"
    and "presents D ev1 i ts nonce" "ev_env ev1 = Some e1" "effective D ev1 (sy_brain s)" "0 \<le> r_now' e1"
    and "(sys_step background D (h_yaml_tenants h) (\<lambda>ev. served sv ev \<and> timely (r_now e2) (nonceKey (sv_replay sv) i nonce) ev) polls e)\<^sup>*\<^sup>*
      (after_request ev1 (brain_step background D ev1 (sy_brain s)) s) s2"
    and "presents D ev2 j ts nonce" "ev_env ev2 = Some e2"
    and "r_now e2 - r_t e2 \<le> r_now' e1 - r_t e1" and "Identity_String j = Identity_String i"
  shows "\<not> effective D ev2 (sy_brain s2)"
proof -
  obtain fc notifiers st ev where asm: "assemble h (sv_settings sv) fc notifiers st ev = Inr sv"
    using assms(1) by (rule run_start_cases)
  have g: "sv_replay sv = NewReplayGuard (s_ReplayWindow (sv_settings sv)) (s_RedisPrefix (sv_settings sv))"
    "bh_prefix (sv_bootstrap sv) = s_RedisPrefix (sv_settings sv)"
    using assemble_parts(6,12) [OF asm] by simp_all
  have D: "D_Brain D = server_brain h ops sv"
    by (simp add: assms(3) server_deps_def Let_def split: option.split)
  have b: "B_store (D_Brain D) = ops" "B_replay (D_Brain D) = sv_replay sv"
    "bh_prefix (B_bootstrap (D_Brain D)) = rg_prefix (sv_replay sv)"
    by (simp_all add: D server_brain_def g NewReplayGuard_def Let_def)
  have f: "foreign_key e (nonceKey (sv_replay sv) i nonce)" "e_ops e = ops"
    using assms(5) nonceKey_foreign by (simp_all add: foreign_key_def assms(4) server_env_def)
  have "store_path ops background (r_now e2) (nonceKey (sv_replay sv) i nonce)
      (bs_store (brain_step background D ev1 (sy_brain s))) (bs_store (sy_brain s2))"
    using sys_run_path [OF assms(12) _ f(2) b(1,3) f(1)] by (simp add: after_request_def go_spawn_def)
  with replayed_after_path [OF assms(6) b(1) b(2) [symmetric] _ _ _ assms(8-11) _ assms(13-16)]
    NewReplayGuard_window [OF assms(2), of "s_RedisPrefix (sv_settings sv)"] show ?thesis by (simp add: g(1))
qed

end

text \<open>C1: A captured request works once, whatever the program does in between. Take a started server over the in-memory
  store, in any state, and a call over one of its transports that takes effect. However requests over both transports, the calls of the goroutines that process alerts,
  correlation timers, drains and the activity of others in the store follow, no later call over either transport with the
  same identity, timestamp and nonce takes effect: it neither succeeds nor delivers an alert. The replay window is below \<open>2 ^ 62\<close> nanoseconds, the clocks are after the
  epoch, those of the requests in between are not later than that of the second call, and the gap between the readings
  within the second call is not greater than within the first.\<close>

theorem request_works_once:
  assumes "run_start h w0 = (Inr sv, w1)" and "s_ReplayWindow (sv_settings sv) < 2 ^ 62"
    and "D = server_deps h memory_ops ext sv" and "e = server_env h memory_ops tick transport am sv" and "\<forall>w. 0 \<le> fst (tick w)"
    and "memory_inv (bs_store (sy_brain s))" and "p_store (sy_pipe s) = bs_store (sy_brain s)"
    and "presents D ev1 i ts nonce" "ev_env ev1 = Some e1" "effective D ev1 (sy_brain s)" "0 \<le> r_now' e1"
    and "(sys_step Memory_background D (h_yaml_tenants h) (\<lambda>ev. served sv ev \<and> timely (r_now e2) (nonceKey (sv_replay sv) i nonce) ev) polls e)\<^sup>*\<^sup>*
      (after_request ev1 (brain_step Memory_background D ev1 (sy_brain s)) s) s2"
    and "presents D ev2 j ts nonce" "ev_env ev2 = Some e2"
    and "r_now e2 - r_t e2 \<le> r_now' e1 - r_t e1" and "Identity_String j = Identity_String i"
  shows "\<not> effective D ev2 (sy_brain s2)"
  using mem.works_once [OF assms] .

text \<open>The same for the Redis store, with what the Redis server promises as the hypothesis.\<close>

theorem request_works_once_redis:
  assumes "redis_server client ok live background pre" and "ops = redis_ops \<lparr>rd_client = client, rd_prefix = pre\<rparr>"
    and "run_start h w0 = (Inr sv, w1)" and "s_ReplayWindow (sv_settings sv) < 2 ^ 62"
    and "D = server_deps h ops ext sv" and "e = server_env h ops tick transport am sv" and "\<forall>w. 0 \<le> fst (tick w)"
    and "ok (bs_store (sy_brain s))" and "p_store (sy_pipe s) = bs_store (sy_brain s)"
    and "presents D ev1 i ts nonce" "ev_env ev1 = Some e1" "effective D ev1 (sy_brain s)" "0 \<le> r_now' e1"
    and "(sys_step background D (h_yaml_tenants h) (\<lambda>ev. served sv ev \<and> timely (r_now e2) (nonceKey (sv_replay sv) i nonce) ev) polls e)\<^sup>*\<^sup>*
      (after_request ev1 (brain_step background D ev1 (sy_brain s)) s) s2"
    and "presents D ev2 j ts nonce" "ev_env ev2 = Some e2"
    and "r_now e2 - r_t e2 \<le> r_now' e1 - r_t e1" and "Identity_String j = Identity_String i"
  shows "\<not> effective D ev2 (sy_brain s2)"
  using kv_store.works_once [OF redis_server.as_store [OF assms(1)] assms(3-18) [unfolded assms(2)]] by (simp add: assms(2))

section \<open>An example\<close>

lemma ParseDuration_5m: "ParseDuration ''5m'' = Some (5 * minute)"
  by (simp add: ParseDuration_def duration_item_def leadingInt_def leadingInt_step_def duration_units_def num_char_def is_digit_def
      digit_val_def)

text \<open>On the example host a request is accepted, the store cleans up, and the request comes again.\<close>

lemma demo_host_replay:
  obtains sv w' where "run_start demo_host w = (Inr sv, w')" "s_ReplayWindow (sv_settings sv) = 5 * minute"
    "sv_replay sv = NewReplayGuard (5 * minute) (s_RedisPrefix (sv_settings sv))"
proof -
  obtain sv w' where s: "run_start demo_host w = (Inr sv, w')" using demo_host_starts by blast
  obtain fc notifiers st ev where load: "Settings_Load (h_getenv demo_host) (h_readFile demo_host) = Inr (sv_settings sv)" and
    asm: "assemble demo_host (sv_settings sv) fc notifiers st ev = Inr sv"
    using s by (rule run_start_cases)
  have "sv_settings sv = read_settings demo_environment ''key'' [''mtls'']"
    using load demo_load [of "h_readFile demo_host"] by (simp add: demo_host_fields)
  then have w: "s_ReplayWindow (sv_settings sv) = 5 * minute"
    by (simp add: read_settings_def Let_def env_duration_def envOr_def demo_environment_def ParseDuration_5m)
  with s assemble_parts(6) [OF asm] that show ?thesis by simp
qed

lemma demo_request_effective:
  assumes "B_store (D_Brain D) = memory_ops" and "B_replay (D_Brain D) = NewReplayGuard (5 * minute) pre"
  shows "effective D (demo_grpc_event (400 * second)) \<lparr>bs_store = NewMemory, bs_ingest = Ingest_NewHandler\<rparr>"
proof -
  have e: "r_t (demo_env t) = t" "r_now (demo_env t) = t" "r_now' (demo_env t) = t" for t by (simp_all add: demo_env_def)
  have w: "rg_window (NewReplayGuard (5 * minute) pre) = 300 * second" by (simp add: NewReplayGuard_def in_int64_def)
  have "\<exists>st. Verify memory_ops (NewReplayGuard (5 * minute) pre) (400 * second) (400 * second) (400 * second) NewMemory (Some demo_id) ''700'' demo_nonce
      = (None, st)"
    using demo_hex w
    by (simp add: Verify_accepts_iff fresh_request_def ParseInt_700 time_unix_700 memory_ops_def Memory_SetNX_def NewMemory_def)
  then have "grpc_passes (D_Brain D) (demo_env (400 * second)) demo_ctx \<lparr>bs_store = NewMemory, bs_ingest = Ingest_NewHandler\<rparr> demo_id"
    using demo_ids by (auto simp: grpc_passes_def assms demo_meta e)
  from grpc_call_passes [OF exempt_iff(2) this] have "\<exists>resp. fst (grpc_call (D_Brain D) (demo_env (400 * second)) (Ingest_Request demo_alert) demo_ctx
      \<lparr>bs_store = NewMemory, bs_ingest = Ingest_NewHandler\<rparr>) = Some (Inr resp)"
    by (simp add: dispatch_ingest demo_alert_def demo_id_def)
  then show ?thesis by (simp add: effective_def demo_grpc_event_def)
qed

theorem request_works_once_witness:
  "\<exists>sv s2. sys_step Memory_background (server_deps demo_host memory_ops demo_deps sv) (h_yaml_tenants demo_host)
       (\<lambda>ev. ev = Elsewhere (Ev_Background (500 * second))) (\<lambda>fv. True)
       (server_env demo_host memory_ops (\<lambda>w. (0, w)) (e_transport demo_sys_env) (\<lambda>r. Inl ''down'') sv)
       (after_request (demo_grpc_event (400 * second)) (brain_step Memory_background (server_deps demo_host memory_ops demo_deps sv)
          (demo_grpc_event (400 * second)) (sy_brain (system_start sv NewMemory (0, 0)))) (system_start sv NewMemory (0, 0))) s2 \<and>
     effective (server_deps demo_host memory_ops demo_deps sv) (demo_grpc_event (400 * second)) (sy_brain (system_start sv NewMemory (0, 0))) \<and>
     \<not> effective (server_deps demo_host memory_ops demo_deps sv) (demo_grpc_event (900 * second)) (sy_brain s2)"
proof -
  obtain sv w' where sv: "run_start demo_host (0, 0) = (Inr sv, w')" "s_ReplayWindow (sv_settings sv) = 5 * minute"
    "sv_replay sv = NewReplayGuard (5 * minute) (s_RedisPrefix (sv_settings sv))" by (rule demo_host_replay)
  let ?D = "server_deps demo_host memory_ops demo_deps sv" and ?s = "system_start sv NewMemory (0, 0)"
    and ?e = "server_env demo_host memory_ops (\<lambda>w. (0, w)) (e_transport demo_sys_env) (\<lambda>r. Inl ''down'') sv"
    and ?ev = "demo_grpc_event (400 * second)" and ?bg = "Elsewhere (Ev_Background (500 * second))"
  have D: "D_Brain ?D = server_brain demo_host memory_ops sv" by (simp add: server_deps_def Let_def split: option.split)
  have eff: "effective ?D ?ev (sy_brain ?s)"
    using demo_request_effective [of ?D "s_RedisPrefix (sv_settings sv)"] by (simp add: D server_brain_def sv(3) system_start_def)
  define s1 where "s1 = after_request ?ev (brain_step Memory_background ?D ?ev (sy_brain ?s)) ?s"
  define s2 where "s2 = after_request ?bg (brain_step Memory_background ?D ?bg (sy_brain s1)) s1"
  have "sys_step Memory_background ?D (h_yaml_tenants demo_host) serves (\<lambda>fv. True) ?e s1 s2" if "serves ?bg" for serves
    unfolding s2_def using that by (intro sys_step.request) (simp_all add: gate_current_def)
  note step = this
  have p: "presents ?D (demo_grpc_event t) demo_id ''700'' demo_nonce" "ev_env (demo_grpc_event t) = Some (demo_env t)" for t
    by (simp_all add: demo_grpc_event_def demo_ids demo_meta)
  have t: "r_t (demo_env t) = t" "r_now (demo_env t) = t" "r_now' (demo_env t) = t" for t by (simp_all add: demo_env_def)
  have "(sys_step Memory_background ?D (h_yaml_tenants demo_host) (\<lambda>ev. served sv ev \<and> timely (r_now (demo_env (900 * second))) (nonceKey (sv_replay sv) demo_id demo_nonce) ev) (\<lambda>fv. True) ?e)\<^sup>*\<^sup>* s1 s2"
    by (intro r_into_rtranclp step) (simp add: t)
  note run = this [unfolded s1_def]
  have "\<not> effective ?D (demo_grpc_event (900 * second)) (sy_brain s2)"
    by (rule request_works_once [OF sv(1) _ refl refl _ _ _ p(1) p(2) eff _ run p(1) p(2) _ refl])
      (simp_all add: sv(2) t system_start_def server_pipe_def Pipeline_New_def memory_inv_def NewMemory_def)
  moreover have "sys_step Memory_background ?D (h_yaml_tenants demo_host) (\<lambda>ev. ev = ?bg) (\<lambda>fv. True) ?e s1 s2" by (rule step) (rule refl)
  ultimately show ?thesis using eff unfolding s1_def by (intro exI conjI)
qed

end
