(* ===== verification/Serving.thy ===== *)
theory Serving
  imports System
begin

text \<open>
  The life of the process, after \<open>run\<close> of \<open>cmd/muthur/main.go\<close> has started: the public listener beside the two
  transports, and the shutdown, which stops the listeners one after the other, drains the correlator and waits
  for the goroutines of \<open>Ingest\<close>, with 30 seconds for all of it but the drain. Signals, failures of a listener and the end of the 30 seconds
  come at any time. Every step is shown to be one of \<open>System\<close>, so that what is shown there holds until the process ends.
\<close>

section \<open>The public listener\<close>

record public_request =
  pq_method :: string
  pq_path :: string
  pq_query :: string

text \<open>The routes of the public multiplexer; the answer of the metrics handler is a parameter. The text of an error page is the one handed to \<open>http.Error\<close>.\<close>

definition public_serve ::
  "(bytes \<Rightarrow> bytes) \<Rightarrow> 's store_ops \<Rightarrow> Manager \<Rightarrow> page \<Rightarrow> gotime \<Rightarrow> gotime \<Rightarrow> gotime \<Rightarrow> 's \<Rightarrow> public_request \<Rightarrow> page \<times> metric list \<times> 's" where
  "public_serve sha256 ops m metrics now stamp now' s r =
     (let get = (\<lambda>h. if pq_method r = ''GET'' then h else (Page 405 [], [], s))
      in if pq_path r = ''/feedback'' then get (Feedback_ServeHTTP sha256 ops m now stamp now' s (pq_query r))
         else if pq_path r = ''/metrics'' then (metrics, [], s)
         else if pq_path r = ''/healthz'' then get (Page 200 ''ok'', [], s)
         else (Page 404 ''404 page not found'', [], s))"

text \<open>A visitor without a pending link cannot write anything.\<close>

lemma public_writes:
  assumes "public_serve sha256 ops m metrics now stamp now' s r = (pg, ms, s')"
  shows "s' = s \<or> pq_method r = ''GET'' \<and> pq_path r = ''/feedback'' \<and>
    (\<exists>data. Store_Get ops now s (pending_key (Query_Get (pq_query r) ''id'')) = Inr (Some data)) \<and>
    (\<exists>k v. s' = snd (Store_Set ops now' s k v (verdictTTL m)))"
  using assms by (auto simp: public_serve_def Feedback_ServeHTTP_def Let_def split: if_split_asm sum.split_asm option.split_asm)

section \<open>Phases\<close>

datatype listener = L_Public | L_Signed | L_gRPC

datatype outcome = Drained | Timed_Out | Server_Error

text \<open>Where \<open>run\<close> stands: serving, stopping the listeners that are left, draining the correlator, waiting for \<open>Ingest\<close>, or over.\<close>

datatype phase = Serving | Stopping "listener list" | Flushing | Waiting | Exited outcome

record ('t, 'v) life =
  lf_sys :: "('t, 'v) system"
  lf_phase :: phase
  lf_closed :: "listener list"

definition life_start :: "('s, 'w) server \<Rightarrow> 't \<Rightarrow> 'w \<Rightarrow> ('t, backend \<times> 'w) life" where
  "life_start sv t w = \<lparr>lf_sys = system_start sv t w, lf_phase = Serving, lf_closed = []\<rparr>"

definition listeners :: "('s, 'w) server \<Rightarrow> listener list" where
  "listeners sv = [L_Public] @ (if sv_signed sv = None then [] else [L_Signed]) @ (if sv_grpc sv = None then [] else [L_gRPC])"

fun comes_in :: "('t, 'v) life \<Rightarrow> brain_event \<Rightarrow> bool" where
  "comes_in l (Over_gRPC e req ctx) \<longleftrightarrow> L_gRPC \<notin> set (lf_closed l)"
| "comes_in l (Over_HTTP e r) \<longleftrightarrow> L_Signed \<notin> set (lf_closed l)"
| "comes_in l (Elsewhere ev) \<longleftrightarrow> True"

fun over :: "phase \<Rightarrow> bool" where
  "over (Exited r) = True"
| "over _ = False"

definition after_visit :: "'t \<Rightarrow> ('t, 'v) system \<Rightarrow> ('t, 'v) system" where
  "after_visit t s = s\<lparr>sy_brain := (sy_brain s)\<lparr>bs_store := t\<rparr>, sy_go := go_store t (sy_go s)\<rparr>"

text \<open>\<open>Shutdown\<close> and \<open>GracefulStop\<close> return when no request is left (\<open>stop\<close>) or when the time is over (\<open>late\<close>): then
  requests that are under way may still come through. \<open>Drain\<close> is the goroutine of \<open>run\<close> itself.\<close>

inductive life_step ::
  "(gotime \<Rightarrow> 't \<Rightarrow> 't) \<Rightarrow> ('t, 'c) Deps \<Rightarrow> (bytes \<Rightarrow> string + Tenant list) \<Rightarrow> ('s, 'w) server \<Rightarrow> (file_view \<Rightarrow> bool) \<Rightarrow>
   ('t, 'v) env \<Rightarrow> ('t, 'v) life \<Rightarrow> ('t, 'v) life \<Rightarrow> bool"
  for bg D yaml sv polls e where
  request: "\<not> over (lf_phase l) \<Longrightarrow> served sv ev \<Longrightarrow> comes_in l ev \<Longrightarrow> gate_current (lf_sys l) ev \<Longrightarrow>
    life_step bg D yaml sv polls e l (l\<lparr>lf_sys := after_request ev (brain_step bg D ev (sy_brain (lf_sys l))) (lf_sys l)\<rparr>)"
| visit: "\<not> over (lf_phase l) \<Longrightarrow> L_Public \<notin> set (lf_closed l) \<Longrightarrow>
    public_serve (e_sha256 e) (e_ops e) (e_feedback e) metrics now stamp now' (bs_store (sy_brain (lf_sys l))) r = (pg, ms, t) \<Longrightarrow>
    life_step bg D yaml sv polls e l (l\<lparr>lf_sys := after_visit t (lf_sys l)\<rparr>)"
| work: "\<not> over (lf_phase l) \<Longrightarrow> go_move e (sy_go (lf_sys l)) g \<Longrightarrow> life_step bg D yaml sv polls e l (l\<lparr>lf_sys := after_go g (lf_sys l)\<rparr>)"
| poll: "\<not> over (lf_phase l) \<Longrightarrow> polls fv \<Longrightarrow>
    life_step bg D yaml sv polls e l (l\<lparr>lf_sys := (lf_sys l)\<lparr>sy_tenants := poll_tick yaml fv (sy_tenants (lf_sys l))\<rparr>\<rparr>)"
| fail: "lf_phase l = Serving \<Longrightarrow> life_step bg D yaml sv polls e l (l\<lparr>lf_phase := Exited Server_Error\<rparr>)"
| signal: "lf_phase l = Serving \<Longrightarrow> life_step bg D yaml sv polls e l (l\<lparr>lf_phase := Stopping (listeners sv)\<rparr>)"
| stop: "lf_phase l = Stopping (x # xs) \<Longrightarrow> life_step bg D yaml sv polls e l (l\<lparr>lf_phase := Stopping xs, lf_closed := x # lf_closed l\<rparr>)"
| late: "lf_phase l = Stopping (x # xs) \<Longrightarrow> life_step bg D yaml sv polls e l (l\<lparr>lf_phase := Stopping xs\<rparr>)"
| drain: "lf_phase l = Stopping [] \<Longrightarrow>
    life_step bg D yaml sv polls e l (l\<lparr>lf_phase := Flushing, lf_sys := (lf_sys l)\<lparr>sy_go := go_drain (sy_go (lf_sys l))\<rparr>\<rparr>)"
| flushed: "lf_phase l = Flushing \<Longrightarrow> list_all (\<lambda>(r, ts). r \<noteq> From_Main) (g_work (sy_go (lf_sys l))) \<Longrightarrow>
    life_step bg D yaml sv polls e l (l\<lparr>lf_phase := Waiting\<rparr>)"
| waited: "lf_phase l = Waiting \<Longrightarrow> Ingest_Wait (bs_ingest (sy_brain (lf_sys l))) \<Longrightarrow>
    life_step bg D yaml sv polls e l (l\<lparr>lf_phase := Exited Drained\<rparr>)"
| expired: "lf_phase l = Waiting \<Longrightarrow> life_step bg D yaml sv polls e l (l\<lparr>lf_phase := Exited Timed_Out\<rparr>)"

section \<open>The process is the system\<close>

lemma after_visit_sys:
  assumes "B_store (D_Brain D) = e_ops e" and "p_store (sy_pipe s) = bs_store (sy_brain s)"
    and "public_serve sha256 (e_ops e) m metrics now stamp now' (bs_store (sy_brain s)) r = (pg, ms, t)"
  shows "(sys_step bg D yaml (served sv) polls e)\<^sup>*\<^sup>* s (after_visit t s)"
proof (cases "t = bs_store (sy_brain s)")
  case True
  then have "after_visit t s = s" using assms(2) by (simp add: after_visit_def go_store_def)
  then show ?thesis by simp
next
  case False
  then obtain k v where t: "t = snd (Store_Set (e_ops e) now' (bs_store (sy_brain s)) k v (verdictTTL m))"
    using public_writes [OF assms(3)] by blast
  let ?ev = "Elsewhere (Ev_Set now' k v (verdictTTL m))"
  have "after_request ?ev (brain_step bg D ?ev (sy_brain s)) s = after_visit t s"
    by (simp add: after_request_def handed_over_def after_visit_def t assms(1) go_spawn_def)
  moreover have "sys_step bg D yaml (served sv) polls e s (after_request ?ev (brain_step bg D ?ev (sy_brain s)) s)"
    by (rule sys_step.request) (simp_all add: gate_current_def)
  ultimately show ?thesis by simp
qed

lemma life_step_sys:
  assumes "life_step bg D yaml sv polls e l l'" and ops: "B_store (D_Brain D) = e_ops e"
    and sync: "p_store (sy_pipe (lf_sys l)) = bs_store (sy_brain (lf_sys l))"
  shows "(sys_step bg D yaml (served sv) polls e)\<^sup>*\<^sup>* (lf_sys l) (lf_sys l')"
  using assms(1)
proof cases
  case (request ev)
  then show ?thesis by (auto intro!: r_into_rtranclp sys_step.request)
next
  case (visit metrics now stamp now' r pg ms t)
  then show ?thesis using after_visit_sys [OF ops sync visit(4)] by simp
next
  case (work g)
  then show ?thesis by (auto intro!: r_into_rtranclp sys_step.work)
next
  case (poll fv)
  then show ?thesis by (auto intro!: r_into_rtranclp sys_step.poll)
next
  case drain
  then show ?thesis by (auto intro!: r_into_rtranclp sys_step.flush)
qed simp_all

lemma life_run_sys:
  assumes "(life_step bg D yaml sv polls e)\<^sup>*\<^sup>* l l'" and ops: "B_store (D_Brain D) = e_ops e" and "sys_inv D (served sv) e (lf_sys l)"
  shows "(sys_step bg D yaml (served sv) polls e)\<^sup>*\<^sup>* (lf_sys l) (lf_sys l') \<and> sys_inv D (served sv) e (lf_sys l')"
  using assms(1)
proof (induction rule: rtranclp_induct)
  case (step l1 l2)
  have "(sys_step bg D yaml (served sv) polls e)\<^sup>*\<^sup>* (lf_sys l1) (lf_sys l2)"
    using step.IH by (intro life_step_sys [OF step.hyps(2) ops]) (simp add: sys_inv_def)
  with step.IH sys.run_good [OF this] show ?case by (meson rtranclp_trans)
qed (use assms(3) in simp)

text \<open>What the goroutines keep and does not depend on the store holds in the whole program.\<close>

lemma sys_run_go:
  assumes "(sys_step bg D yaml serves polls e)\<^sup>*\<^sup>* s s'" and keeps: "\<And>g g'. go_step e g g' \<Longrightarrow> P g \<Longrightarrow> P g'" "\<And>t g. P g \<Longrightarrow> P (go_store t g)"
    and "P (sy_go s)"
  shows "P (sy_go s')"
  using assms(1)
proof (induction rule: rtranclp_induct)
  case (step a b)
  from step.hyps(2) step.IH show ?case
  proof (induction rule: sys_step.induct)
    case (request ev s)
    then show ?case using keeps(1) [OF go_step.spawn keeps(2)] by (simp add: after_request_def)
  next
    case (work s g)
    then show ?case using keeps(1) [OF go_step.inner] by (simp add: after_go_def)
  next
    case (flush s)
    then show ?case using keeps(1) [OF go_step.shut] by simp
  qed simp
qed (use assms(4) in simp)

section \<open>The end of the process\<close>

text \<open>The drain is over when \<open>run\<close> waits, and a clean exit finds no goroutine of \<open>Ingest\<close>.\<close>

definition phase_inv :: "('t, 'v) life \<Rightarrow> bool" where
  "phase_inv l \<longleftrightarrow> (lf_phase l \<noteq> Flushing \<longrightarrow> list_all (\<lambda>(r, ts). r \<noteq> From_Main) (g_work (sy_go (lf_sys l)))) \<and>
     (lf_phase l = Exited Drained \<longrightarrow> Ingest_Wait (bs_ingest (sy_brain (lf_sys l))))"

lemma go_move_origins:
  "go_move e g g' \<Longrightarrow> list_all (\<lambda>(r, ts). r \<noteq> From_Main) (g_work g) \<Longrightarrow> list_all (\<lambda>(r, ts). r \<noteq> From_Main) (g_work g')"
  by (induction rule: go_move.induct) auto

lemma life_step_phase: "life_step bg D yaml sv polls e l l' \<Longrightarrow> phase_inv l \<Longrightarrow> phase_inv l'"
proof (induction rule: life_step.induct)
  case (request l ev)
  then show ?case by (auto simp: phase_inv_def after_request_def go_spawn_def list_all_iff)
next
  case (visit l metrics now stamp now' r pg ms t)
  then show ?case by (auto simp: phase_inv_def after_visit_def)
next
  case (work l g)
  then show ?case using go_move_origins [of e "sy_go (lf_sys l)" g] by (auto simp: phase_inv_def after_go_def)
qed (auto simp: phase_inv_def)

interpretation phases: step_system "life_step bg D yaml sv polls e" phase_inv for bg D yaml sv polls e
  by unfold_locales (rule life_step_phase)

lemma store_uncorrelated: "uncorrelated (go_store t g) = uncorrelated g"
  by (simp add: uncorrelated_def tasks_of_def go_store_def)

text \<open>C10: A clean exit leaves nothing behind when correlation is off. In every run of a started server, through all listeners and
  the shutdown: if the process ends after the wait was over in time, each accepted alert had its one goroutine, and that has returned;
  without correlation nothing else is running either, each accepted alert that is not a duplicate has been delivered
  exactly once, and the notifications sent are exactly one per such alert and registered receiver.\<close>

theorem clean_exit_delivers_all:
  assumes "(life_step bg (server_deps h ops ext sv) (h_yaml_tenants h) sv polls (server_env h ops tick transport am sv))\<^sup>*\<^sup>* (life_start sv t w) l"
    and "lf_phase l = Exited Drained" and "g = sy_go (lf_sys l)"
  shows "g_seen g = map snd (sy_log (lf_sys l)) \<and> list_all (\<lambda>(r, ts). \<not> is_ingest r) (g_work g) \<and>
    (\<not> cc_Enabled (sv_correlation sv) \<longrightarrow> resting g \<and> mset (g_passed g) = mset (concat (g_done g)) \<and>
       mset (notified (g_pipe g)) = mset (concat (map (due (server_env h ops tick transport am sv)) (g_done g))))"
proof -
  let ?D = "server_deps h ops ext sv" and ?e = "server_env h ops tick transport am sv"
  have "B_store (D_Brain ?D) = e_ops ?e"
    by (simp add: server_deps_def server_brain_def server_env_def Let_def split: option.split)
  from life_run_sys [OF assms(1) this] system_start_inv [of ?D "served sv" ?e sv t w]
  have run: "(sys_step bg ?D (h_yaml_tenants h) (served sv) polls ?e)\<^sup>*\<^sup>* (system_start sv t w) (lf_sys l)" and inv: "sys_inv ?D (served sv) ?e (lf_sys l)"
    by (auto simp: life_start_def)
  have "phase_inv (life_start sv t w)" by (simp add: phase_inv_def life_start_def system_start_def)
  from phases.run_good [OF assms(1) this] assms(2,3) have main: "list_all (\<lambda>(r, ts). r \<noteq> From_Main) (g_work g)"
    and wait: "Ingest_Wait (bs_ingest (sy_brain (lf_sys l)))" by (auto simp: phase_inv_def)
  have none: "list_all (\<lambda>(r, ts). \<not> is_ingest r) (g_work g)"
    using wait inv assms(3) by (auto simp: sys_inv_def Ingest_Wait_def ingesting_def filter_empty_conv list_all_iff)
  have start: "sy_go (system_start sv t w) = go_start (Pipeline_New t (sv_backend sv, w) (sv_pool sv) (sv_correlation sv))"
    by (simp add: system_start_def server_pipe_def)
  have accounts: "go_accounts ?e g"
    unfolding assms(3) by (rule sys_run_go [OF run]) (simp_all add: go_step_accounts start go_start_accounts)
  have "resting g \<and> g_lost g = []" if off: "\<not> cc_Enabled (sv_correlation sv)"
  proof -
    have "uncorrelated g"
      unfolding assms(3)
    proof (rule sys_run_go [OF run])
      show "uncorrelated (sy_go (system_start sv t w))"
        using off by (simp add: start uncorrelated_def go_start_def tasks_of_def Pipeline_New_def Correlator_New_def)
    qed (simp_all add: go_step_uncorrelated store_uncorrelated)
    then have off: "armed (p_cor (g_pipe g)) = []" "g_lost g = []" "list_all (\<lambda>(r, ts). r \<noteq> From_Timer) (g_work g)"
      by (simp_all add: uncorrelated_def)
    have "g_work g = []"
    proof (cases "g_work g")
      case (Cons x xs)
      then show ?thesis using off(3) main none by (cases x; cases "fst x") auto
    qed
    with off show ?thesis by (simp add: resting_def)
  qed
  then show ?thesis using resting_accounts [OF accounts] none inv assms(3) by (auto simp: sys_inv_def)
qed

text \<open>The steps of the shutdown when only goroutines of timers are left.\<close>

lemma stop_all:
  "\<exists>l'. (life_step bg D yaml sv polls e)\<^sup>*\<^sup>* (l\<lparr>lf_phase := Stopping xs\<rparr>) l' \<and> lf_phase l' = Stopping [] \<and> lf_sys l' = lf_sys l"
proof (induction xs arbitrary: l)
  case (Cons x xs)
  have "life_step bg D yaml sv polls e (l\<lparr>lf_phase := Stopping (x # xs)\<rparr>) (l\<lparr>lf_phase := Stopping xs, lf_closed := x # lf_closed l\<rparr>)"
    using life_step.stop [of "l\<lparr>lf_phase := Stopping (x # xs)\<rparr>" x xs] by simp
  moreover have swap: "l\<lparr>lf_closed := x # lf_closed l\<rparr>\<lparr>lf_phase := Stopping xs\<rparr> = l\<lparr>lf_phase := Stopping xs, lf_closed := x # lf_closed l\<rparr>"
    by (cases l) simp
  obtain l' where "(life_step bg D yaml sv polls e)\<^sup>*\<^sup>* (l\<lparr>lf_phase := Stopping xs, lf_closed := x # lf_closed l\<rparr>) l'"
    "lf_phase l' = Stopping []" "lf_sys l' = lf_sys l"
    using Cons.IH [of "l\<lparr>lf_closed := x # lf_closed l\<rparr>", unfolded swap] by auto
  ultimately show ?case by (meson converse_rtranclp_into_rtranclp)
qed auto

lemma go_drain_idle:
  assumes "cor_buckets (p_cor (g_pipe g)) = []"
  shows "(go_move e)\<^sup>*\<^sup>* (go_drain g) g"
proof -
  let ?g1 = "g\<lparr>g_work := g_work g @ [(From_Main, [At_Flush []])]\<rparr>" and ?g2 = "g\<lparr>g_work := g_work g @ [(From_Main, [])]\<rparr>"
  have idle: "stop_timers (p_cor (g_pipe g)) = p_cor (g_pipe g)" using assms by (simp add: stop_timers_def)
  have "go_move e (go_drain g) ?g1"
    using go_move.move [of "go_drain g" "g_work g" From_Main At_Drain "[]" "[]" e "[At_Flush []]" "g_pipe g"] assms
    by (simp add: go_drain_def idle)
  moreover have "go_move e ?g1 ?g2"
    using go_move.move [of ?g1 "g_work g" From_Main "At_Flush []" "[]" "[]" e "[]" "g_pipe g"] by simp
  moreover have "go_move e ?g2 g" using go_move.return [of ?g2 "g_work g" From_Main "[]" e] by simp
  ultimately show ?thesis by (meson converse_rtranclp_into_rtranclp rtranclp.rtrancl_refl)
qed

lemma life_moves:
  assumes "(go_move e)\<^sup>*\<^sup>* g g'" and "sy_go (lf_sys l) = g" and "\<not> over (lf_phase l)"
  shows "\<exists>l'. (life_step bg D yaml sv polls e)\<^sup>*\<^sup>* l l' \<and> sy_go (lf_sys l') = g' \<and> lf_phase l' = lf_phase l"
  using assms(1)
proof (induction rule: rtranclp_induct)
  case base
  then show ?case using assms(2) by blast
next
  case (step g1 g2)
  then obtain l1 where l1: "(life_step bg D yaml sv polls e)\<^sup>*\<^sup>* l l1" "sy_go (lf_sys l1) = g1" "lf_phase l1 = lf_phase l" by blast
  have "life_step bg D yaml sv polls e l1 (l1\<lparr>lf_sys := after_go g2 (lf_sys l1)\<rparr>)"
    using step.hyps(2) l1 assms(3) by (intro life_step.work) simp_all
  with l1 show ?case
    by (intro exI [of _ "l1\<lparr>lf_sys := after_go g2 (lf_sys l1)\<rparr>"]) (simp add: after_go_def)
qed

lemma exit_drained:
  assumes "lf_phase l = Serving" and "g = sy_go (lf_sys l)" and "list_all (\<lambda>(r, ts). r = From_Timer) (g_work g)"
    and "cor_buckets (p_cor (g_pipe g)) = []" and "B_store (D_Brain D) = e_ops e" and "sys_inv D (served sv) e (lf_sys l)"
  shows "\<exists>l'. (life_step bg D yaml sv polls e)\<^sup>*\<^sup>* l l' \<and> lf_phase l' = Exited Drained \<and> sy_go (lf_sys l') = g"
proof -
  let ?step = "life_step bg D yaml sv polls e"
  have 1: "?step l (l\<lparr>lf_phase := Stopping (listeners sv)\<rparr>)" using assms(1) by (rule life_step.signal)
  obtain l1 where 2: "?step\<^sup>*\<^sup>* (l\<lparr>lf_phase := Stopping (listeners sv)\<rparr>) l1" "lf_phase l1 = Stopping []" "lf_sys l1 = lf_sys l"
    using stop_all by blast
  define l2 where "l2 = l1\<lparr>lf_phase := Flushing, lf_sys := (lf_sys l1)\<lparr>sy_go := go_drain (sy_go (lf_sys l1))\<rparr>\<rparr>"
  have 3: "?step l1 l2" unfolding l2_def using 2(2) by (rule life_step.drain)
  have "sy_go (lf_sys l2) = go_drain g" "\<not> over (lf_phase l2)" by (simp_all add: l2_def 2 assms(2))
  from life_moves [OF go_drain_idle [OF assms(4)] this, of bg D yaml sv polls] obtain l3 where
    4: "?step\<^sup>*\<^sup>* l2 l3" "sy_go (lf_sys l3) = g" "lf_phase l3 = Flushing" by (auto simp: l2_def)
  have 5: "?step l3 (l3\<lparr>lf_phase := Waiting\<rparr>)"
    using 4 assms(3) by (intro life_step.flushed) (auto simp: list_all_iff)
  have run: "?step\<^sup>*\<^sup>* l l3"
    using 1 2(1) 3 4(1) by (meson converse_rtranclp_into_rtranclp rtranclp.rtrancl_into_rtrancl rtranclp_trans)
  have inv: "sys_inv D (served sv) e (lf_sys l3)" using life_run_sys [OF run assms(5,6)] by simp
  have "ingesting (sy_go (lf_sys l3)) = 0" using 4(2) assms(3) by (auto simp: ingesting_def filter_empty_conv list_all_iff)
  then have "Ingest_Wait (bs_ingest (sy_brain (lf_sys l3)))" using inv by (simp add: sys_inv_def Ingest_Wait_def)
  then have 6: "?step (l3\<lparr>lf_phase := Waiting\<rparr>) (l3\<lparr>lf_phase := Waiting, lf_phase := Exited Drained\<rparr>)"
    using life_step.waited [of "l3\<lparr>lf_phase := Waiting\<rparr>"] by simp
  from run 5 6 have "?step\<^sup>*\<^sup>* l (l3\<lparr>lf_phase := Waiting, lf_phase := Exited Drained\<rparr>)" by (meson rtranclp.rtrancl_into_rtrancl)
  then show ?thesis using 4(2) by (intro exI [of _ "l3\<lparr>lf_phase := Waiting, lf_phase := Exited Drained\<rparr>"]) simp
qed

text \<open>C17: The shutdown does not wait for incidents. The goroutines that the correlator's timers start are not in the wait group:
  whatever such goroutines are still doing, when no goroutine of \<open>Ingest\<close> is left and no group is buffered, a signal makes the process end as
  drained cleanly while they stand where they stood, with the alerts they carry; what they had not sent is not sent any more.\<close>

theorem shutdown_abandons_incidents:
  assumes "lf_phase l = Serving" and "g = sy_go (lf_sys l)" and "list_all (\<lambda>(r, ts). r = From_Timer) (g_work g)"
    and "cor_buckets (p_cor (g_pipe g)) = []" and "B_store (D_Brain D) = e_ops e" and "sys_inv D (served sv) e (lf_sys l)"
  shows "\<exists>l'. (life_step bg D yaml sv polls e)\<^sup>*\<^sup>* l l' \<and> lf_phase l' = Exited Drained \<and> sy_go (lf_sys l') = g"
  by (rule exit_drained [OF assms])

section \<open>Examples\<close>

text \<open>The example server after its first request, in a process.\<close>

definition demo_life :: "(unit, nat \<times> nat) server \<Rightarrow> (Memory, backend \<times> nat \<times> nat) life" where
  "demo_life sv = \<lparr>lf_sys = demo_requested Memory_background sv, lf_phase = Serving, lf_closed = []\<rparr>"

abbreviation demo_life_step ::
  "(unit, nat \<times> nat) server \<Rightarrow> (Memory, backend \<times> nat \<times> nat) life \<Rightarrow> (Memory, backend \<times> nat \<times> nat) life \<Rightarrow> bool" where
  "demo_life_step sv \<equiv> life_step Memory_background demo_wiring demo_yaml sv (\<lambda>fv. True) demo_sys_env"

lemma demo_life_first:
  assumes "sv = demo_server\<lparr>sv_correlation := corr\<rparr>"
  shows "demo_life_step sv (life_start sv NewMemory (0, 0)) (demo_life sv)"
proof -
  note s1 = demo_requested_state [OF assms]
  have "demo_life_step sv (life_start sv NewMemory (0, 0)) ((life_start sv NewMemory (0, 0))\<lparr>lf_sys := demo_requested Memory_background sv\<rparr>)"
    using life_step.request [of "life_start sv NewMemory (0, 0)" sv "demo_grpc_event (400 * second)" Memory_background demo_wiring demo_yaml "\<lambda>fv. True"
        demo_sys_env] s1(8,9)
    by (simp add: life_start_def demo_requested_def demo_grpc_event_def)
  then show ?thesis by (simp add: demo_life_def life_start_def)
qed

lemma demo_ops: "B_store (D_Brain demo_wiring) = e_ops demo_sys_env"
  by (simp add: demo_wiring_brain server_brain_def demo_sys_env_def server_env_def)

lemma demo_life_exit:
  assumes run: "(demo_life_step sv)\<^sup>*\<^sup>* (life_start sv NewMemory (0, 0)) l" and "lf_phase l = Serving"
    and "list_all (\<lambda>(r, ts). r = From_Timer) (g_work (sy_go (lf_sys l)))" "cor_buckets (p_cor (sy_pipe (lf_sys l))) = []"
  shows "\<exists>l'. (demo_life_step sv)\<^sup>*\<^sup>* (life_start sv NewMemory (0, 0)) l' \<and> lf_phase l' = Exited Drained \<and> sy_go (lf_sys l') = sy_go (lf_sys l)"
proof -
  have "sys_inv demo_wiring (served sv) demo_sys_env (lf_sys l)"
    using life_run_sys [OF run demo_ops] system_start_inv [of demo_wiring "served sv" demo_sys_env sv NewMemory "(0, 0)"] by (simp add: life_start_def)
  from exit_drained [OF assms(2) refl assms(3,4) demo_ops this, of Memory_background demo_yaml "\<lambda>fv. True"] run show ?thesis
    by (meson rtranclp_trans)
qed

theorem clean_exit_delivers_all_witness:
  "\<exists>l. (demo_life_step demo_server)\<^sup>*\<^sup>* (life_start demo_server NewMemory (0, 0)) l \<and> lf_phase l = Exited Drained \<and>
     p_sent (sy_pipe (lf_sys l)) \<noteq> [] \<and>
     mset (notified (sy_pipe (lf_sys l))) = mset (concat (map (due demo_sys_env) (g_done (sy_go (lf_sys l)))))"
proof -
  let ?l0 = "life_start demo_server NewMemory (0, 0)"
  have 1: "(demo_life_step demo_server)\<^sup>*\<^sup>* ?l0 (demo_life demo_server)" using demo_life_first [OF demo_server_same] by (rule r_into_rtranclp)
  obtain g where g: "(go_move demo_sys_env)\<^sup>*\<^sup>* (sy_go (demo_requested Memory_background demo_server)) g" "g_work g = []"
    "map fst (sent_to (g_pipe g)) = [''chat'']"
    using demo_processes [OF demo_server_same] by auto
  have d: "sy_go (lf_sys (demo_life demo_server)) = sy_go (demo_requested Memory_background demo_server)" "\<not> over (lf_phase (demo_life demo_server))"
    "lf_phase (demo_life demo_server) = Serving"
    by (simp_all add: demo_life_def)
  from life_moves [OF g(1) d(1,2), of Memory_background demo_wiring demo_yaml demo_server "\<lambda>fv. True"] obtain l1 where
    l1: "(demo_life_step demo_server)\<^sup>*\<^sup>* (demo_life demo_server) l1" "sy_go (lf_sys l1) = g" "lf_phase l1 = Serving" unfolding d(3) by blast
  have run: "(demo_life_step demo_server)\<^sup>*\<^sup>* ?l0 l1" using 1 l1(1) by (rule rtranclp_trans)
  have off: "\<not> cc_Enabled (sv_correlation demo_server)" by (simp add: demo_server_def)
  have sys: "(sys_step Memory_background demo_wiring demo_yaml (served demo_server) (\<lambda>fv. True) demo_sys_env)\<^sup>*\<^sup>* (system_start demo_server NewMemory (0, 0)) (lf_sys l1)"
    using life_run_sys [OF run demo_ops] system_start_inv [of demo_wiring "served demo_server" demo_sys_env demo_server NewMemory "(0, 0)"]
    by (simp add: life_start_def)
  have "go_accounts demo_sys_env (sy_go (lf_sys l1)) \<and> uncorrelated (sy_go (lf_sys l1))"
    by (rule sys_run_go [OF sys])
      (auto simp: go_step_accounts go_step_uncorrelated store_uncorrelated system_start_def server_pipe_def go_start_accounts,
       simp add: uncorrelated_def go_start_def tasks_of_def Pipeline_New_def Correlator_New_def off)
  then have "cor_buckets (p_cor (g_pipe g)) = []"
    using g(2) by (intro resting_buckets) (auto simp: l1(2) resting_def uncorrelated_def)
  from demo_life_exit [OF run l1(3)] this g(2) l1(2) obtain l where
    l: "(demo_life_step demo_server)\<^sup>*\<^sup>* ?l0 l" "lf_phase l = Exited Drained" "sy_go (lf_sys l) = g" by auto
  note all = clean_exit_delivers_all [of Memory_background demo_host, unfolded demo_host_fields, OF l(1) [unfolded demo_sys_env_def] l(2) refl,
      folded demo_sys_env_def]
  have "p_sent (g_pipe g) \<noteq> []" using g(3) by (auto simp: sent_to_def)
  with all off l show ?thesis by (intro exI [of _ l] conjI) simp_all
qed

text \<open>With correlation: the alert is buffered, its timer fires and takes the group, and the process is told to stop.\<close>

definition corr_server :: "(unit, nat \<times> nat) server" where
  "corr_server = demo_server\<lparr>sv_correlation := \<lparr>cc_Enabled = True, WindowSeconds = 30, MaxGroup = 5\<rparr>\<rparr>"

lemma buffered_then_taken:
  assumes "Status p \<noteq> ''resolved''" and "\<not> fst (check_dup e IsDuplicate p (received p (g_pipe g)))" and "cor_enabled (p_cor (g_pipe g))"
    and "cor_buckets (p_cor (g_pipe g)) = []" "armed (p_cor (g_pipe g)) = []" and "g_work g = [] @ (r, [At_Start p]) # []"
  obtains g' where "(go_move e)\<^sup>*\<^sup>* g g'" "g_work g' = [(From_Timer, [At_Group [p], At_Flush []])]" "cor_buckets (p_cor (g_pipe g')) = []"
    "p_sent (g_pipe g') = p_sent (g_pipe g)"
proof -
  obtain st1 where dup: "check_dup e IsDuplicate p (received p (g_pipe g)) = (False, st1)"
    using assms(2) by (cases "check_dup e IsDuplicate p (received p (g_pipe g))") auto
  have q: "p_cor st1 = p_cor (g_pipe g)" "p_sent st1 = p_sent (g_pipe g)"
    using check_dup_frame [OF dup] by (simp_all add: quiet_def received_def count_def)
  let ?c = "p_cor (g_pipe g)" and ?k = "groupKey p"
  let ?st = "st1\<lparr>p_cor := Correlator_Add p ?c\<rparr>"
  have add: "cor_buckets (Correlator_Add p ?c) = [(?k, \<lparr>b_alerts = [p], b_timer = next_timer ?c\<rparr>)]"
    "armed (Correlator_Add p ?c) = [(next_timer ?c, ?k)]"
    using assms(4,5) by (simp_all add: Correlator_Add_def Let_def)
  have "drive e [At_Start p] (g_pipe g) = Some ?st"
    using assms(1,3) dup q by (simp add: drive_start Process_def received_def [symmetric])
  then obtain g1 where g1: "(go_move e)\<^sup>*\<^sup>* g g1" "g_work g1 = [] @ []" "g_pipe g1 = ?st" using assms(6) by (rule drive_moves)
  define g2 where "g2 = g1\<lparr>g_work := g_work g1 @ [(From_Timer, [At_Flush [?k]])], g_pipe := disarm (next_timer ?c, ?k) (g_pipe g1)\<rparr>"
  have 2: "go_move e g1 g2"
    using go_move.fire [of "(next_timer ?c, ?k)" g1 e] by (simp add: g2_def g1(3) add)
  obtain st3 where 3: "task_step e (At_Flush [?k]) (g_pipe g2) = Some ([At_Group [p], At_Flush []], st3)" "cor_buckets (p_cor st3) = []"
    "p_sent st3 = p_sent (g_pipe g)"
    by (simp add: g2_def g1(3) disarm_def flushKey_eq add q(2))
  have "g_work g2 = [] @ (From_Timer, At_Flush [?k] # []) # []" by (simp add: g2_def g1(2))
  from go_move.move [OF this 3(1)] obtain g3 where g3: "go_move e g2 g3" "g_work g3 = [(From_Timer, [At_Group [p], At_Flush []])]" "g_pipe g3 = st3"
    by fastforce
  have "(go_move e)\<^sup>*\<^sup>* g g3" using g1(1) 2 g3(1) by (meson rtranclp.rtrancl_into_rtrancl)
  then show ?thesis using that [of g3] g3 3 by simp
qed

theorem shutdown_abandons_incidents_witness:
  "\<exists>l. (demo_life_step corr_server)\<^sup>*\<^sup>* (life_start corr_server NewMemory (0, 0)) l \<and> lf_phase l = Exited Drained \<and>
     g_work (sy_go (lf_sys l)) = [(From_Timer, [At_Group [demo_alert], At_Flush []])] \<and> p_sent (sy_pipe (lf_sys l)) = []"
proof -
  let ?l0 = "life_start corr_server NewMemory (0, 0)"
  note s1 = demo_requested_state [OF corr_server_def]
  have 1: "(demo_life_step corr_server)\<^sup>*\<^sup>* ?l0 (demo_life corr_server)" using demo_life_first [OF corr_server_def] by (rule r_into_rtranclp)
  have on: "cor_enabled (p_cor (sy_pipe (demo_requested Memory_background corr_server)))" using s1(2) by simp
  have sent: "p_sent (sy_pipe (demo_requested Memory_background corr_server)) = []" using s1(6) by (simp add: sent_to_def)
  obtain g where g: "(go_move demo_sys_env)\<^sup>*\<^sup>* (sy_go (demo_requested Memory_background corr_server)) g"
    "g_work g = [(From_Timer, [At_Group [demo_alert], At_Flush []])]" "cor_buckets (p_cor (g_pipe g)) = []" "p_sent (g_pipe g) = []"
    using buffered_then_taken [OF _ s1(7) on s1(3,4,1)] sent by (auto simp: demo_alert_plain)
  have d: "sy_go (lf_sys (demo_life corr_server)) = sy_go (demo_requested Memory_background corr_server)" "\<not> over (lf_phase (demo_life corr_server))"
    "lf_phase (demo_life corr_server) = Serving"
    by (simp_all add: demo_life_def)
  from life_moves [OF g(1) d(1,2), of Memory_background demo_wiring demo_yaml corr_server "\<lambda>fv. True"] obtain l1 where
    l1: "(demo_life_step corr_server)\<^sup>*\<^sup>* (demo_life corr_server) l1" "sy_go (lf_sys l1) = g" "lf_phase l1 = Serving" unfolding d(3) by blast
  have run: "(demo_life_step corr_server)\<^sup>*\<^sup>* ?l0 l1" using 1 l1(1) by (rule rtranclp_trans)
  have inv: "sys_inv demo_wiring (served corr_server) demo_sys_env (lf_sys l1)"
    using life_run_sys [OF run demo_ops] system_start_inv [of demo_wiring "served corr_server" demo_sys_env corr_server NewMemory "(0, 0)"]
    by (simp add: life_start_def)
  have timers: "list_all (\<lambda>(r, ts). r = From_Timer) (g_work (sy_go (lf_sys l1)))" "cor_buckets (p_cor (sy_pipe (lf_sys l1))) = []"
    by (simp_all add: l1(2) g)
  from shutdown_abandons_incidents [OF l1(3) refl timers demo_ops inv, of Memory_background demo_yaml "\<lambda>fv. True"] obtain l where
    "(demo_life_step corr_server)\<^sup>*\<^sup>* l1 l" "lf_phase l = Exited Drained" "sy_go (lf_sys l) = g" unfolding l1(2) by blast
  then show ?thesis using rtranclp_trans [OF run] g by (intro exI [of _ l] conjI) simp_all
qed

end
