(* ===== verification/Keygen.thy ===== *)
theory Keygen
  imports Sealed
begin

text \<open>
  The command \<open>hpke-keygen\<close> of \<open>cmd/muthur/main.go\<close> and the entry point of the program: a fresh key is printed in the
  format that the key file has, and an operator rotates by putting it in front of the file. Drawing the key, its
  PKCS#8 form and the PEM encoder are parameters.
\<close>

definition GenerateHPKEKeyPEM :: "string + bytes \<Rightarrow> (bytes \<Rightarrow> string + bytes) \<Rightarrow> (string \<Rightarrow> bytes \<Rightarrow> bytes) \<Rightarrow> string + bytes" where
  "GenerateHPKEKeyPEM draw marshal encode =
     (case draw of
        Inl e \<Rightarrow> Inl e
      | Inr priv \<Rightarrow>
          (case marshal priv of
             Inl e \<Rightarrow> Inl e
           | Inr der \<Rightarrow> Inr (encode ''PRIVATE KEY'' der)))"

text \<open>\<open>write\<close> is \<open>os.Stdout.Write\<close>, on the state of the outside.\<close>

definition hpkeKeygen ::
  "string + bytes \<Rightarrow> (bytes \<Rightarrow> string + bytes) \<Rightarrow> (string \<Rightarrow> bytes \<Rightarrow> bytes) \<Rightarrow> (bytes \<Rightarrow> 'w \<Rightarrow> string option \<times> 'w) \<Rightarrow> 'w \<Rightarrow> string option \<times> 'w" where
  "hpkeKeygen draw marshal encode write w =
     (case GenerateHPKEKeyPEM draw marshal encode of
        Inl e \<Rightarrow> (Some e, w)
      | Inr pemBytes \<Rightarrow> write pemBytes w)"

text \<open>\<open>main\<close>: the exit code and what is written to the standard error.\<close>

definition main_entry ::
  "string list \<Rightarrow> ('w \<Rightarrow> string option \<times> 'w) \<Rightarrow> ('w \<Rightarrow> string option \<times> 'w) \<Rightarrow> 'w \<Rightarrow> int \<times> string \<times> 'w" where
  "main_entry args keygen run w =
     (case (if 1 < length args \<and> args ! 1 = ''hpke-keygen'' then keygen w else run w) of
        (None, w') \<Rightarrow> (0, [], w')
      | (Some e, w') \<Rightarrow> (1, ''error: '' @ e @ [CHR 0x0A], w'))"

section \<open>Rotation\<close>

text \<open>Reading the rest of a file after a key: the key stays in front and hides nothing but its own identifier.\<close>

definition in_front :: "string \<Rightarrow> bytes \<Rightarrow> HPKEKeySet \<Rightarrow> HPKEKeySet \<Rightarrow> bool" where
  "in_front kid priv ks ks' \<longleftrightarrow> ks_order ks' = kid # filter (\<lambda>k. k \<noteq> kid) (ks_order ks) \<and>
     (\<forall>k. map_of (ks_keys ks') k = (if k = kid then Some priv else map_of (ks_keys ks) k))"

lemma in_front_same:
  "in_front kid priv ks ks' \<Longrightarrow> in_front kid priv \<lparr>ks_order = ks_order ks @ [kid], ks_keys = ks_keys ks @ [(kid, p)]\<rparr> ks'"
  by (auto simp: in_front_def map_add_def split: option.split)

lemma in_front_snoc:
  "in_front kid priv ks ks' \<Longrightarrow> k \<noteq> kid \<Longrightarrow>
     in_front kid priv \<lparr>ks_order = ks_order ks @ [k], ks_keys = ks_keys ks @ [(k, p)]\<rparr>
       \<lparr>ks_order = ks_order ks' @ [k], ks_keys = ks_keys ks' @ [(k, p)]\<rparr>"
  by (auto simp: in_front_def map_add_def split: option.split)

lemma in_front_known: "in_front kid priv ks ks' \<Longrightarrow> map_of (ks_keys ks') k = None \<longleftrightarrow> k \<noteq> kid \<and> map_of (ks_keys ks) k = None"
  by (simp add: in_front_def)

lemma parse_after_key:
  assumes "parse_keys_loop sha256 x pkcs8 blocks ks = Inr r" and "in_front kid priv ks ks'"
  shows "\<exists>r'. parse_keys_loop sha256 x pkcs8 blocks ks' = Inr r' \<and> in_front kid priv r r'"
  using assms
proof (induction blocks arbitrary: ks ks')
  case (Cons b blocks)
  obtain ty der where b: "b = (ty, der)" by fastforce
  show ?case
  proof (cases "ty = ''PRIVATE KEY''")
    case True
    with Cons.prems(1) b obtain p where p: "pkcs8 der = Inr (X25519_Key (Inr p))"
      by (auto split: sum.split_asm hpke_key.split_asm)
    let ?k = "HPKEKeyID sha256 (hpke_public x p)"
    note go = Cons.prems(1) True p b in_front_known [OF Cons.prems(2), of ?k]
    consider "map_of (ks_keys ks) ?k \<noteq> None" | "map_of (ks_keys ks) ?k = None" "?k = kid"
      | "map_of (ks_keys ks) ?k = None" "?k \<noteq> kid" by blast
    then show ?thesis
    proof cases
      case 1
      then show ?thesis using go Cons.IH [OF _ Cons.prems(2)] by (simp add: Let_def del: not_None_eq)
    next
      case 2
      then show ?thesis using go Cons.IH [OF _ in_front_same [OF Cons.prems(2), of p]] by (simp add: Let_def del: not_None_eq)
    next
      case 3
      then show ?thesis using go Cons.IH [OF _ in_front_snoc [OF Cons.prems(2), of ?k p]] by (simp add: Let_def del: not_None_eq)
    qed
  next
    case False
    then show ?thesis using Cons.IH [OF _ Cons.prems(2)] Cons.prems(1) b by simp
  qed
qed simp

lemma parse_key_first:
  assumes "pkcs8 der = Inr (X25519_Key (Inr priv))" and "kid = HPKEKeyID sha256 (hpke_public x priv)"
  shows "parse_keys_loop sha256 x pkcs8 ((''PRIVATE KEY'', der) # blocks) \<lparr>ks_order = [], ks_keys = []\<rparr> =
    parse_keys_loop sha256 x pkcs8 blocks \<lparr>ks_order = [kid], ks_keys = [(kid, priv)]\<rparr>"
  using assms by (simp add: Let_def)

text \<open>The command alone makes a file the server starts from.\<close>

lemma fresh_file_loads:
  assumes "GenerateHPKEKeyPEM (Inr priv) marshal encode = Inr pem" and "marshal priv = Inr der"
    and "pem_blocks (encode ''PRIVATE KEY'' der) = [(''PRIVATE KEY'', der)]" and "pkcs8 der = Inr (X25519_Key (Inr priv))"
    and "kid = HPKEKeyID sha256 (hpke_public x priv)"
  shows "ParseHPKEKeys sha256 x pkcs8 pem_blocks pem = Inr \<lparr>ks_order = [kid], ks_keys = [(kid, priv)]\<rparr>"
  using assms by (simp add: ParseHPKEKeys_def GenerateHPKEKeyPEM_def Let_def)

text \<open>C19: Rotation cuts nobody off. When \<open>hpke-keygen\<close> prints a fresh key and the operator puts it in front of a key file
  that loads, the new file loads; the fresh key is the one advertised to the collectors (the first of the order), it opens
  what they seal for it, and a request sealed for any other key of the old file is opened exactly as before. The PEM and
  PKCS#8 codecs are assumed to invert each other on this key.\<close>

theorem key_rotation:
  assumes "hpkeKeygen (Inr priv) marshal encode (\<lambda>out w. (None, w @ out)) [] = (None, pem)" and "marshal priv = Inr der"
    and "pem_blocks (encode ''PRIVATE KEY'' der @ old) = (''PRIVATE KEY'', der) # pem_blocks old"
    and "pkcs8 der = Inr (X25519_Key (Inr priv))"
    and "ParseHPKEKeys sha256 x pkcs8 pem_blocks old = Inr ks"
    and "hpke_correct x" and "kid = HPKEKeyID sha256 (hpke_public x priv)"
  shows "\<exists>ks'. ParseHPKEKeys sha256 x pkcs8 pem_blocks (pem @ old) = Inr ks' \<and>
    ks_order ks' = kid # filter (\<lambda>k. k \<noteq> kid) (ks_order ks) \<and>
    (\<exists>ps. KeySet_Public x ks' = Some ((kid, hpke_public x priv) # ps)) \<and>
    (\<forall>rnd path ts nonce pt body ro. SealRequest x rnd (hpke_public x priv) path ts nonce pt = Inr (body, ro) \<longrightarrow>
       OpenRequest x ks' kid path ts nonce body = Inr (pt, \<lparr>sealer_key = opener_key ro\<rparr>)) \<and>
    (\<forall>k path ts nonce body. k \<noteq> kid \<longrightarrow> OpenRequest x ks' k path ts nonce body = OpenRequest x ks k path ts nonce body)"
proof -
  have pem: "pem = encode ''PRIVATE KEY'' der" using assms(1,2) by (simp add: hpkeKeygen_def GenerateHPKEKeyPEM_def)
  let ?one = "\<lparr>ks_order = [kid], ks_keys = [(kid, priv)]\<rparr>"
  have "parse_keys_loop sha256 x pkcs8 (pem_blocks old) \<lparr>ks_order = [], ks_keys = []\<rparr> = Inr ks"
    using assms(5) by (auto simp: ParseHPKEKeys_def split: sum.splits if_splits)
  moreover have "in_front kid priv \<lparr>ks_order = [], ks_keys = []\<rparr> ?one" by (simp add: in_front_def)
  ultimately obtain ks' where ks': "parse_keys_loop sha256 x pkcs8 (pem_blocks old) ?one = Inr ks'" "in_front kid priv ks ks'"
    using parse_after_key by blast
  have loads: "ParseHPKEKeys sha256 x pkcs8 pem_blocks (pem @ old) = Inr ks'"
    using ks' parse_key_first [of pkcs8 der priv kid sha256 x "pem_blocks old", OF assms(4,7)] assms(3) pem by (simp add: ParseHPKEKeys_def in_front_def)
  have new: "map_of (ks_keys ks') kid = Some priv" using ks'(2) by (simp add: in_front_def)
  have order: "ks_order ks' = kid # filter (\<lambda>k. k \<noteq> kid) (ks_order ks)" using ks'(2) by (simp add: in_front_def)
  have "\<exists>ps. KeySet_Public x ks' = Some ((kid, hpke_public x priv) # ps)"
    using KeySet_Public_total [of ks' x] ParseHPKEKeys_inv [OF loads] new order
    by (auto simp: KeySet_Public_def split: if_splits)
  moreover have "OpenRequest x ks' k path ts nonce body = OpenRequest x ks k path ts nonce body" if "k \<noteq> kid" for k path ts nonce body
    using ks'(2) that by (simp add: OpenRequest_def in_front_def)
  ultimately show ?thesis using loads order open_sealed [OF assms(6) new] by blast
qed

text \<open>A file of one-letter keys: each byte is a block of its own.\<close>

definition demo_blocks :: "bytes \<Rightarrow> (string \<times> bytes) list" where
  "demo_blocks d = map (\<lambda>c. (''PRIVATE KEY'', [c])) d"

theorem key_rotation_witness:
  "\<exists>ks'. ParseHPKEKeys (\<lambda>b. b) demo_hpke (\<lambda>der. Inr (X25519_Key (Inr der))) demo_blocks ''nab'' = Inr ks' \<and>
     ks_order ks' = [''6e'', ''61'', ''62'']"
proof -
  let ?pk = "\<lambda>der. Inr (X25519_Key (Inr der)) :: string + hpke_key"
  let ?ks = "\<lparr>ks_order = [''61'', ''62''], ks_keys = [(''61'', ''a''), (''62'', ''b'')]\<rparr>"
  have ks: "ParseHPKEKeys (\<lambda>b. b) demo_hpke ?pk demo_blocks ''ab'' = Inr ?ks" by code_simp
  have kid: "''6e'' = HPKEKeyID (\<lambda>b. b) (hpke_public demo_hpke ''n'')" by code_simp
  show ?thesis
    using key_rotation [OF _ _ _ _ ks demo_hpke_correct kid, of Inr "\<lambda>ty der. der" "''n''" "''n''"]
    by (auto simp: hpkeKeygen_def GenerateHPKEKeyPEM_def demo_blocks_def)
qed

end
