(* ===== verification/Spec2Isabelle.thy ===== *)
theory Spec2Isabelle
  imports Tenants Trust Bootstrap HttpSig EndToEnd RedisStore Replays Serving Keygen
begin

text \<open>
  muthur, the brain of a monitoring system: a verification development.

  \<^bold>\<open>The program.\<close> Collectors in Kubernetes clusters send alerts to the brain, over gRPC with client certificates or over
  plain HTTP with signed requests and sealed bodies. The brain authenticates the collector, refuses revoked tenants and
  replayed requests, and hands the alert to a goroutine. The pipeline drops duplicates, groups alerts into incidents,
  asks a language model for a verdict (behind a cache and a cost limit), may create a silence in AlertManager, records
  the incident, and notifies the receivers that the routing rules name. Operators click feedback links, which become
  examples in later prompts. Dedup markers, nonces, bootstrap tokens, verdicts, incidents and feedback live in one
  key/value store, in memory or in Redis.

  \<^bold>\<open>Method.\<close> A Go function is a HOL function of the same name on the same data: structs are records, interfaces are
  records of functions, \<open>(value, error)\<close> is a sum with the error on the left, a panic is \<open>None\<close>. Mutable state is passed
  and returned; a section under a mutex is one step. A clock reading is an argument or comes from \<open>e_tick\<close>. Strings are
  byte strings, integers are wrapped at 64 bits where the code can leave the range, \<open>float64\<close> is a rational rounded after
  every operation. Lower-casing is the one of ASCII and the Kelvin sign. SHA-256, ECDSA, X.509, HPKE, PEM, YAML, the protocol buffer codec, sockets, the file system and the
  clients of Redis, Anthropic and SMTP are parameters; what a theorem needs of them is a hypothesis, and its instance at
  the end of the section shows that the hypothesis can hold.

  \<^bold>\<open>Theories and sources\<close> (paths under \<open>src/\<close>):

  \<^item> \<open>Prelude\<close>, \<open>Encoding\<close>, \<open>Quoting\<close>, \<open>Json\<close>, \<open>UrlQuery\<close>, \<open>Durations\<close>, \<open>Float64\<close>, \<open>FloatText\<close>: the standard library as far
    as the sources use it: \<open>strings\<close>, hex, base64, UTF-8, \<open>strconv.Quote\<close>, \<open>encoding/json\<close> both ways, \<open>net/url\<close>,
    \<open>time.ParseDuration\<close>, RFC 3339, IEEE 754 rounding and printing. \<open>Prelude\<close> also has the locale \<open>step_system\<close>: a
    property that the steps of a relation keep holds after every run. The correlator, the limiter, the pipeline and the
    whole program interpret it.
  \<^item> \<open>Messages\<close>: \<open>proto/alert.proto\<close>, \<open>internal/metrics\<close>, \<open>internal/alertkey\<close>, \<open>internal/evaluator/types.go\<close>.
  \<^item> \<open>Store\<close>, \<open>RedisStore\<close>: \<open>internal/store\<close>. The locale \<open>kv_store\<close> is the contract of the interface \<open>Store\<close>: what a read
    returns after a write, expiry, set-if-absent, listing, an invariant that every operation keeps. The in-memory store
    interprets it; \<open>redis_server\<close> states what a Redis server promises and is a sublocale of it through the wrapper
    \<open>redis.go\<close>. Every client of the store proves its lemmas in the context of \<open>kv_store\<close>.
  \<^item> \<open>Dedup\<close>, \<open>Replay\<close>, \<open>Limiter\<close>, \<open>Routing\<close>, \<open>Silence\<close>, \<open>Correlator\<close>: \<open>internal/dedup\<close>, \<open>internal/auth/replay.go\<close>,
    \<open>internal/llmlimit\<close>, \<open>internal/routing\<close>, \<open>internal/silence\<close>, \<open>internal/incident\<close>.
  \<^item> \<open>Identity\<close>, \<open>Tenants\<close>, \<open>Trust\<close>, \<open>Signing\<close>, \<open>Bootstrap\<close>, \<open>HttpSig\<close>, \<open>Sealed\<close>: \<open>internal/auth\<close>, file by file.
  \<^item> \<open>Brain\<close>: \<open>internal/ingest\<close> and \<open>internal/grpcsrv\<close>. \<open>SignedSrv\<close>: \<open>internal/signedsrv\<close>. \<open>EndToEnd\<close>: both ends of the
    signed transport.
  \<^item> \<open>Verdict\<close>, \<open>Prompt\<close>, \<open>Evaluator\<close>, \<open>Providers\<close>: \<open>internal/evaluator\<close>. \<open>Embed\<close>, \<open>Cache\<close>, \<open>History\<close>, \<open>FeedbackLoop\<close>:
    \<open>internal/embed\<close>, \<open>internal/llmcache\<close>, \<open>internal/history\<close>, \<open>internal/feedback\<close>.
  \<^item> \<open>Notify\<close>, \<open>Channels\<close>, \<open>Pagers\<close>, \<open>Receivers\<close>: \<open>internal/notify\<close>.
  \<^item> \<open>Pipeline\<close>, \<open>Delivery\<close>, \<open>PipelineRuns\<close>, \<open>Deadlines\<close>: \<open>internal/pipeline\<close>; what one alert leads to, what runs keep, and
    the pipeline with the real evaluator under its deadlines.
  \<^item> \<open>Goroutines\<close>, \<open>Interleavings\<close>, \<open>ModelCalls\<close>: the same pipeline call by call. \<open>task_step\<close> makes one call to a component
    (duplicate check, correlator, limiter, cache, model, silence, history, one receiver) and says what the goroutine has
    left to do; \<open>go_move\<close> lets any goroutine move and any armed timer fire, over one shared state.
  \<^item> \<open>Settings\<close>, \<open>Startup\<close>: \<open>internal/config\<close>, \<open>internal/appconfig\<close>, \<open>run\<close> of \<open>cmd/muthur/main.go\<close> up to the listeners.
  \<^item> \<open>System\<close>, \<open>Replays\<close>: the listeners, the interleaved goroutines of accepted alerts, the timers and the shared store of
    a started server as one step relation.
  \<^item> \<open>Serving\<close>: the rest of \<open>run\<close>, the public routes and the shutdown as phases of the process; each of its steps is shown
    to be steps of \<open>System\<close>. \<open>Keygen\<close>: \<open>main\<close> and the command \<open>hpke-keygen\<close>.

  \<^bold>\<open>What is shown.\<close>

  \<^item> The whole program: a captured request works once whatever happens in between, as long as the two clocks a request reads do not drift
    further apart (\<open>request_works_once\<close>, which rests on
    the separation of the key spaces in \<open>nonceKey_foreign\<close> and \<open>task_step_keeps\<close>; it is proved in the context of
    \<open>kv_store\<close> and holds for Redis too, \<open>request_works_once_redis\<close>); every notification, silence and question
    to the model goes back to an authenticated, unrevoked collector of the alert's cluster (\<open>every_action_vouched\<close>); a
    collector that a reload of the tenants file revokes is shut out (\<open>revoked_cluster_shut_out\<close>); a server starts only
    complete, and from a well-formed configuration; a clean exit without correlation leaves nothing undelivered
    (\<open>clean_exit_delivers_all\<close>).
  \<^item> Concurrency: under every interleaving of goroutines, timers and drains the pipeline does only what received alerts
    justify (\<open>interleavings_safe\<close>), comes to rest and delivers each accepted alert exactly once unless an alert makes
    the evidence panic or its group is full (\<open>accepted_alerts_delivered_once\<close>), and keeps the bound on calls of the model (\<open>model_calls_bounded\<close>); the two
    renderings of the pipeline, sequential and call by call, are kept in step by \<open>goroutines_compute_functions\<close>.
  \<^item> Transports: exactly which calls deliver an alert (\<open>grpc_ingest_authorised\<close>, \<open>signed_ingest_authorised\<close>), that an
    honest collector is served and reads the answer, what a signature covers, and that only the caller's own identity is
    certified when its names are fit for a URI, once per bootstrap token with an expiry date.
  \<^item> Pipeline: delivery of firing, grouped and resolved alerts whatever the model, cache, store and limiter do, as long as the
    evidence does not panic; the
    accounting of the correlator; the rate and concurrency of calls to the model; critical alerts are never silenced;
    duplicates are suppressed exactly within the window.
  \<^item> Evaluator: the number of requests of an evaluation and their outcome, validity of every accepted verdict,
    air-gapped servers contact nothing but the configured endpoint; cache, history and feedback give back what was stored.
  \<^item> Channels: a strict reader of Telegram's markup gets exactly the plain text and the links of the message back.
  \<^item> Refinement and equivalence: the Redis store implements the contract of the in-memory one; the receiver map equals a
    reference definition; the process refines the
    system. A rotated key file keeps the old keys usable (\<open>key_rotation\<close>).
  \<^item> Where the code does not do what it means to, the theorem says what it does: the alerts of an overfull group are
    lost, a shutdown drains too early and does not wait for incidents that are being processed,
    a hanging model endpoint eats the time of the delivery, a NaN metric panics, a bar in a name confuses alerts, misspelled settings switch protections off, and others that are marked at their theorems.

  \<^bold>\<open>Bounds and fuel.\<close> Loops are structural recursion or recursion with a measure. Loops over text that consume at least
  one character per round get the length of the text as fuel (\<open>duration_loop\<close>; the JSON parser twice the length and one more), and the lemmas
  beside them show that this is enough. The retry loops carry the number of attempts left, as in the code. The
  timing hypotheses of the replay theorems (clock readings after the epoch and in order, window below \<open>2 ^ 62\<close>
  nanoseconds) are the ones under which the guard's arithmetic does not wrap.

  \<^bold>\<open>Not modelled.\<close> The generated protocol buffer code beyond its message types; sockets, and the framing of HTTP and
  gRPC; the construction of the logger and what is logged; the in-flight gauge and the latency histogram. Real time does
  not pass in the model: signals, the end of the 30 seconds of the shutdown and the firing of armed timers may come at any
  moment, and clock readings are arguments. One step of a goroutine is one call to a component; what happens inside a call
  is atomic where the component holds its mutex, and the calls that do not (the model, a receiver, the silence endpoint)
  work on parameters.
\<close>

end
